(* ===== verification/Prelude.thy ===== *)
theory Prelude
  imports Main "HOL-Library.Word" "HOL-Library.AList" "HOL-Library.Multiset" "HOL-Library.Sublist"
begin

unbundle bit_operations_syntax

section \<open>Shared vocabulary of the development\<close>

text \<open>
  What every component theory uses: the machine integers of the source, Rust results with
  panics made explicit, byte order conversions of the standard library, hash maps, the
  contract of an asynchronous byte source, and the codec interface that the wire formats
  implement. A \<^verbatim>\<open>B: Buf\<close> argument of the source is the list of the bytes that remain in
  it, a \<^verbatim>\<open>B: BufMut\<close> argument the list of the bytes written so far; a decoder returns the
  decoded value with the bytes that remain.

  Platform: \<^verbatim>\<open>usize\<close> has 64 bits. Arithmetic that would overflow panics, as in a build with
  overflow checks. Lengths are natural numbers, narrowed where the source narrows them.
\<close>

type_synonym u8 = "8 word"
type_synonym u16 = "16 word"
type_synonym u32 = "32 word"
type_synonym u64 = "64 word"
type_synonym bytes = "8 word list"

named_theorems wire_simps
  \<open>how each wire format is laid out and read back\<close>

named_theorems wf_intros
  \<open>well-formedness of the values the operations build\<close>

subsection \<open>Results\<close>

text \<open>
  \<open>Ok\<close> and \<open>Err\<close> are the constructors of Rust's \<^verbatim>\<open>Result\<close>; \<open>Panic\<close> is a run that panicked.
  \<open>and_then\<close> is the \<^verbatim>\<open>?\<close> operator followed by the rest of the function body.
\<close>

datatype ('a, 'e) res = Ok 'a | Err 'e | Panic

fun and_then :: "('a, 'e) res \<Rightarrow> ('a \<Rightarrow> ('b, 'e) res) \<Rightarrow> ('b, 'e) res" where
  "and_then (Ok x) f = f x"
| "and_then (Err e) f = Err e"
| "and_then Panic f = Panic"

fun map_err :: "('e \<Rightarrow> 'f) \<Rightarrow> ('a, 'e) res \<Rightarrow> ('a, 'f) res" where
  "map_err f (Ok x) = Ok x"
| "map_err f (Err e) = Err (f e)"
| "map_err f Panic = Panic"

fun map_ok :: "('a \<Rightarrow> 'b) \<Rightarrow> ('a, 'e) res \<Rightarrow> ('b, 'e) res" where
  "map_ok f (Ok x) = Ok (f x)"
| "map_ok f (Err e) = Err e"
| "map_ok f Panic = Panic"

fun ok_or :: "'e \<Rightarrow> 'a option \<Rightarrow> ('a, 'e) res" where
  "ok_or e None = Err e"
| "ok_or e (Some x) = Ok x"

text \<open>\<^verbatim>\<open>unwrap()\<close> and \<^verbatim>\<open>expect()\<close>: an error is a panic.\<close>

fun unwrap :: "('a, 'e) res \<Rightarrow> ('a, 'f) res" where
  "unwrap (Ok x) = Ok x"
| "unwrap (Err e) = Panic"
| "unwrap Panic = Panic"

lemma and_then_cong [fundef_cong]:
  "m = m' \<Longrightarrow> (\<And>x. m' = Ok x \<Longrightarrow> f x = g x) \<Longrightarrow> and_then m f = and_then m' g"
  by (cases m') auto

lemma and_then_Ok_iff [simp]: "and_then m f = Ok y \<longleftrightarrow> (\<exists>x. m = Ok x \<and> f x = Ok y)"
  by (cases m) auto

lemma and_then_Err_iff:
  "and_then m f = Err e \<longleftrightarrow> m = Err e \<or> (\<exists>x. m = Ok x \<and> f x = Err e)"
  by (cases m) auto

lemma and_then_Panic_iff:
  "and_then m f = Panic \<longleftrightarrow> m = Panic \<or> (\<exists>x. m = Ok x \<and> f x = Panic)"
  by (cases m) auto

lemma map_err_Ok_iff [simp]: "map_err f m = Ok x \<longleftrightarrow> m = Ok x"
  by (cases m) auto

lemma map_err_Err_iff [simp]: "map_err f m = Err e \<longleftrightarrow> (\<exists>d. m = Err d \<and> e = f d)"
  by (cases m) auto

lemma map_err_Panic_iff [simp]: "map_err f m = Panic \<longleftrightarrow> m = Panic"
  by (cases m) auto

lemma map_ok_Ok_iff [simp]: "map_ok f m = Ok y \<longleftrightarrow> (\<exists>x. m = Ok x \<and> y = f x)"
  by (cases m) auto

lemma map_ok_Err_iff [simp]: "map_ok f m = Err e \<longleftrightarrow> m = Err e"
  by (cases m) auto

lemma map_ok_Panic_iff [simp]: "map_ok f m = Panic \<longleftrightarrow> m = Panic"
  by (cases m) auto

lemma map_ok_and_then: "map_ok f (and_then m g) = and_then m (\<lambda>x. map_ok f (g x))"
  by (cases m) auto

lemma and_then_map_ok: "and_then (map_ok f m) g = and_then m (\<lambda>x. g (f x))"
  by (cases m) auto

lemma map_ok_eq_and_then: "map_ok f m = and_then m (\<lambda>x. Ok (f x))"
  by (cases m) auto

lemma ok_or_Ok_iff [simp]: "ok_or e opt = Ok x \<longleftrightarrow> opt = Some x"
  by (cases opt) auto

lemma ok_or_Err_iff [simp]: "ok_or e opt = Err d \<longleftrightarrow> opt = None \<and> d = e"
  by (cases opt) auto

lemma ok_or_not_Panic [simp]: "ok_or e opt \<noteq> Panic"
  by (cases opt) auto

subsection \<open>Integer conversions\<close>

text \<open>\<^verbatim>\<open>usize::try_from(x: u64)\<close>: on a 64-bit platform every \<^verbatim>\<open>u64\<close> fits.\<close>

definition usize_try_from :: "u64 \<Rightarrow> nat option" where
  "usize_try_from x = (if unat x < 2 ^ 64 then Some (unat x) else None)"

lemma usize_try_from_total [simp]: "usize_try_from x = Some (unat x)"
  using unsigned_less [of x, where 'a=nat] by (simp add: usize_try_from_def)

text \<open>
  \<^verbatim>\<open>to_be_bytes\<close> and \<^verbatim>\<open>from_be_bytes\<close>: the \<open>n\<close> low bytes of a value, most significant first,
  and the value of such a list.
\<close>

fun be_value :: "bytes \<Rightarrow> nat" where
  "be_value [] = 0"
| "be_value (b # bs) = unat b * 256 ^ length bs + be_value bs"

fun be_bytes :: "nat \<Rightarrow> nat \<Rightarrow> bytes" where
  "be_bytes 0 x = []"
| "be_bytes (Suc n) x = of_nat (x div 256 ^ n) # be_bytes n x"

definition to_be_bytes16 :: "u16 \<Rightarrow> bytes" where
  "to_be_bytes16 x = be_bytes 2 (unat x)"

definition to_be_bytes32 :: "u32 \<Rightarrow> bytes" where
  "to_be_bytes32 x = be_bytes 4 (unat x)"

definition to_be_bytes64 :: "u64 \<Rightarrow> bytes" where
  "to_be_bytes64 x = be_bytes 8 (unat x)"

definition from_be_bytes16 :: "bytes \<Rightarrow> u16" where
  "from_be_bytes16 bs = of_nat (be_value bs)"

definition from_be_bytes32 :: "bytes \<Rightarrow> u32" where
  "from_be_bytes32 bs = of_nat (be_value bs)"

definition from_be_bytes64 :: "bytes \<Rightarrow> u64" where
  "from_be_bytes64 bs = of_nat (be_value bs)"

lemma be_bytes_numeral:
  "be_bytes (numeral k) x = of_nat (x div 256 ^ pred_numeral k) # be_bytes (pred_numeral k) x"
  by (simp add: numeral_eq_Suc)

lemma length_be_bytes [simp]: "length (be_bytes n x) = n"
  by (induction n) auto

lemma unat_u8_less: "unat (b :: u8) < 256"
  using unsigned_less [of b, where 'a=nat] by simp

lemma unat_of_nat_u8: "unat (of_nat n :: u8) = n mod 256"
  by (simp add: unat_of_nat)

lemma be_value_be_bytes: "be_value (be_bytes n x) = x mod 256 ^ n"
proof (induction n)
  case 0
  show ?case by simp
next
  case (Suc n)
  have "x mod 256 ^ Suc n = x div 256 ^ n mod 256 * 256 ^ n + x mod 256 ^ n"
    using mod_mult2_eq [of x "256 ^ n" 256] by (simp add: mult.commute)
  then show ?case using Suc by (simp add: unat_of_nat_u8)
qed

lemma be_value_bound: "be_value bs < 256 ^ length bs"
proof (induction bs)
  case Nil
  show ?case by simp
next
  case (Cons b bs)
  have "unat b < 256" by (rule unat_u8_less)
  then have "unat b * 256 ^ length bs \<le> 255 * 256 ^ length bs"
    by (intro mult_le_mono1) simp
  with Cons show ?case
    unfolding be_value.simps length_Cons power_Suc by linarith
qed

lemma be_bytes_be_value: "be_bytes (length bs) (be_value bs) = bs"
proof -
  have gen: "be_bytes (length bs) (m * 256 ^ length bs + be_value bs) = bs" for m
  proof (induction bs arbitrary: m)
    case Nil
    show ?case by simp
  next
    case (Cons b bs)
    let ?p = "256 ^ length bs :: nat"
    have eq: "m * 256 ^ length (b # bs) + be_value (b # bs) = (m * 256 + unat b) * ?p + be_value bs"
      by (simp add: algebra_simps)
    have "((m * 256 + unat b) * ?p + be_value bs) div ?p = m * 256 + unat b"
      using be_value_bound [of bs] by simp
    moreover have "(of_nat (m * 256 + unat b) :: u8) = b"
      by (rule word_unat_eq_iff [THEN iffD2])
        (simp add: unat_of_nat_u8 unat_u8_less del: of_nat_add of_nat_mult)
    ultimately show ?case
      unfolding eq using Cons.IH [of "m * 256 + unat b"] by simp
  qed
  show ?thesis using gen [of 0] by simp
qed

text \<open>Conversions between the widths that keep the value.\<close>

lemma unat_ucast_small: "unat x < 2 ^ LENGTH('b) \<Longrightarrow> unat (ucast x :: 'b::len word) = unat x"
  for x :: "'a::len word"
  by (simp add: unsigned_ucast_eq take_bit_nat_eq_self)

lemma unat_or_disjoint:
  fixes a b :: "'a::len word"
  assumes "a AND b = 0"
  shows "unat (a OR b) = unat a + unat b"
proof -
  have "unat a AND unat b = 0"
    using assms by (metis unsigned_0 unsigned_and_eq)
  then show ?thesis
    by (simp add: unsigned_or_eq disjunctive_add_eq_or)
qed

subsection \<open>Hash maps\<close>

text \<open>
  A \<^verbatim>\<open>HashMap\<close> is an association list with distinct keys: \<^const>\<open>map_of\<close> is \<^verbatim>\<open>get\<close>,
  \<^const>\<open>AList.update\<close> is \<^verbatim>\<open>insert\<close> and \<^const>\<open>AList.delete\<close> is \<^verbatim>\<open>remove\<close>. The order in which
  Rust iterates over the entries is unspecified and differs between runs; an operation that
  iterates takes it as a parameter \<open>ho\<close>, which may be any permutation.
\<close>

type_synonym ('k, 'v) hash_map = "('k \<times> 'v) list"

definition hash_map_ok :: "('k, 'v) hash_map \<Rightarrow> bool" where
  "hash_map_ok m \<longleftrightarrow> distinct (map fst m)"

definition hash_order :: "('a list \<Rightarrow> 'a list) \<Rightarrow> bool" where
  "hash_order ho \<longleftrightarrow> (\<forall>xs. mset (ho xs) = mset xs)"

lemma hash_map_ok_Nil [simp, wf_intros]: "hash_map_ok []"
  by (simp add: hash_map_ok_def)

lemma hash_map_ok_update [wf_intros]: "hash_map_ok m \<Longrightarrow> hash_map_ok (AList.update k v m)"
  by (simp add: hash_map_ok_def distinct_update)

lemma hash_map_ok_delete [wf_intros]: "hash_map_ok m \<Longrightarrow> hash_map_ok (AList.delete k m)"
  by (simp add: hash_map_ok_def distinct_delete)

lemma hash_order_set: "hash_order ho \<Longrightarrow> set (ho xs) = set xs"
  by (metis hash_order_def set_mset_mset)

lemma map_of_mset_eq:
  assumes "mset xs = mset ys" and "hash_map_ok xs"
  shows "hash_map_ok ys" and "map_of ys = map_of xs"
proof -
  have "mset (map fst ys) = mset (map fst xs)"
    using assms(1) by simp
  then show ok: "hash_map_ok ys"
    using assms(2) by (metis hash_map_ok_def mset_eq_imp_distinct_iff)
  have "set ys = set xs" using assms(1) by (metis set_mset_mset)
  with ok assms(2) show "map_of ys = map_of xs"
    by (metis hash_map_ok_def map_of_inject_set)
qed

lemma hash_order_map:
  assumes "hash_order ho" and "hash_map_ok m"
  shows "hash_map_ok (ho m)" and "map_of (ho m) = map_of m"
  using map_of_mset_eq [of m "ho m"] assms by (simp_all add: hash_order_def)

lemma hash_order_id: "hash_order (\<lambda>xs. xs)"
  by (simp add: hash_order_def)

lemma hash_order_rev: "hash_order rev"
  by (simp add: hash_order_def)

subsection \<open>Asynchronous byte streams\<close>

text \<open>
  The kinds of \<^verbatim>\<open>std::io::Error\<close> that the source tells apart, and its display text.
\<close>

datatype error_kind = UnexpectedEof | BrokenPipe | ConnectionReset | ConnectionAborted
  | NotConnected | OtherKind

record io_error =
  kind :: error_kind
  message :: bytes

text \<open>
  \<^verbatim>\<open>AsyncReadExt::read_exact\<close> of the stream that is read is a parameter \<open>rd\<close> of the operations:
  \<open>rd n s\<close> waits for \<open>n\<close> bytes of the stream in state \<open>s\<close>. Its documented behaviour, for a
  stream that delivers the bytes \<open>content s\<close> before it ends: the next \<open>n\<close> bytes where there are
  that many, and an I/O error otherwise.
\<close>

type_synonym 's reader = "nat \<Rightarrow> 's \<Rightarrow> (bytes \<times> 's, io_error) res"

definition reads_exactly :: "'s reader \<Rightarrow> ('s \<Rightarrow> bytes) \<Rightarrow> bool" where
  "reads_exactly rd content \<longleftrightarrow>
     (\<forall>n s. n \<le> length (content s) \<longrightarrow>
        (\<exists>s'. rd n s = Ok (take n (content s), s') \<and> content s' = drop n (content s))) \<and>
     (\<forall>n s. length (content s) < n \<longrightarrow> (\<exists>e. rd n s = Err e))"

lemma reads_exactly_Ok:
  assumes "reads_exactly rd content" and "content s = bs @ rest"
  obtains s' where "rd (length bs) s = Ok (bs, s')" and "content s' = rest"
  using assms unfolding reads_exactly_def
  by (metis append_eq_conv_conj le_add1 length_append)

lemma reads_exactly_Err:
  assumes "reads_exactly rd content" and "length (content s) < n"
  obtains e where "rd n s = Err e"
  using assms unfolding reads_exactly_def by blast

text \<open>An in-memory slice is such a stream; its end is \<^verbatim>\<open>UnexpectedEof\<close>.\<close>

definition slice_read :: "bytes reader" where
  "slice_read n s = (if n \<le> length s then Ok (take n s, drop n s)
     else Err \<lparr>kind = UnexpectedEof, message = []\<rparr>)"

lemma slice_reads_exactly: "reads_exactly slice_read (\<lambda>s. s)"
  by (auto simp: reads_exactly_def slice_read_def)

subsection \<open>The codec interface\<close>

text \<open>
  What the rest of the protocol relies on in a wire format: \<open>wire v\<close> is the image of a
  well-formed value, the encoder appends it, the decoder reads it back from the front of any
  input and leaves the rest, and it is never empty.
\<close>

locale codec =
  fixes enc :: "'a \<Rightarrow> bytes \<Rightarrow> (bytes, 'x) res"
    and dec :: "bytes \<Rightarrow> ('a \<times> bytes, 'e) res"
    and wire :: "'a \<Rightarrow> bytes"
    and ok :: "'a \<Rightarrow> bool"
  assumes enc_wire: "ok v \<Longrightarrow> enc v w = Ok (w @ wire v)"
    and dec_wire: "ok v \<Longrightarrow> dec (wire v @ rest) = Ok (v, rest)"
    and wire_nonempty: "ok v \<Longrightarrow> wire v \<noteq> []"
begin

lemma roundtrip: "ok v \<Longrightarrow> enc v [] = Ok bs \<Longrightarrow> dec (bs @ rest) = Ok (v, rest)"
  using dec_wire [of v rest] by (simp add: enc_wire)

lemma no_panic: "ok v \<Longrightarrow> enc v w \<noteq> Panic"
  by (simp add: enc_wire)

lemma prefix_free:
  assumes "ok v" and "ok v'" and "wire v @ r = wire v' @ r'"
  shows "v = v' \<and> r = r'"
proof -
  have "Ok (v, r) = dec (wire v @ r)" using assms(1) by (rule dec_wire [symmetric])
  also have "\<dots> = dec (wire v' @ r')" using assms(3) by (rule arg_cong)
  also have "\<dots> = Ok (v', r')" using assms(2) by (rule dec_wire)
  finally show ?thesis by simp
qed

lemma unique_parse:
  assumes "\<forall>v \<in> set vs. ok v" and "\<forall>v \<in> set vs'. ok v"
    and "concat (map wire vs) = concat (map wire vs')"
  shows "vs = vs'"
  using assms
proof (induction vs arbitrary: vs')
  case Nil
  then show ?case by (cases vs') (auto dest: wire_nonempty)
next
  case (Cons v vs)
  then obtain v' us where vs': "vs' = v' # us"
    by (cases vs') (auto dest: wire_nonempty)
  have "v = v' \<and> concat (map wire vs) = concat (map wire us)"
    by (rule prefix_free) (use Cons.prems vs' in simp_all)
  moreover from this have "vs = us"
    by (intro Cons.IH) (use Cons.prems vs' in simp_all)
  ultimately show ?case using vs' by simp
qed

end

text \<open>Two codecs in sequence are a codec for pairs.\<close>

definition enc_pair :: "('a \<Rightarrow> bytes \<Rightarrow> (bytes, 'x) res) \<Rightarrow> ('b \<Rightarrow> bytes \<Rightarrow> (bytes, 'x) res) \<Rightarrow>
    'a \<times> 'b \<Rightarrow> bytes \<Rightarrow> (bytes, 'x) res" where
  "enc_pair e1 e2 p w = and_then (e1 (fst p) w) (e2 (snd p))"

definition dec_pair :: "(bytes \<Rightarrow> ('a \<times> bytes, 'e) res) \<Rightarrow> (bytes \<Rightarrow> ('b \<times> bytes, 'e) res) \<Rightarrow>
    bytes \<Rightarrow> (('a \<times> 'b) \<times> bytes, 'e) res" where
  "dec_pair d1 d2 buf =
     and_then (d1 buf) (\<lambda>(x, buf). and_then (d2 buf) (\<lambda>(y, buf). Ok ((x, y), buf)))"

locale codec_pair =
  first: codec enc1 dec1 wire1 ok1 + second: codec enc2 dec2 wire2 ok2
  for enc1 :: "'a \<Rightarrow> bytes \<Rightarrow> (bytes, 'x) res" and dec1 :: "bytes \<Rightarrow> ('a \<times> bytes, 'e) res"
    and wire1 :: "'a \<Rightarrow> bytes" and ok1 :: "'a \<Rightarrow> bool"
    and enc2 :: "'b \<Rightarrow> bytes \<Rightarrow> (bytes, 'x) res" and dec2 :: "bytes \<Rightarrow> ('b \<times> bytes, 'e) res"
    and wire2 :: "'b \<Rightarrow> bytes" and ok2 :: "'b \<Rightarrow> bool"

sublocale codec_pair \<subseteq> pair: codec "enc_pair enc1 enc2" "dec_pair dec1 dec2"
    "\<lambda>p. wire1 (fst p) @ wire2 (snd p)" "\<lambda>p. ok1 (fst p) \<and> ok2 (snd p)"
  by unfold_locales
    (auto simp: enc_pair_def dec_pair_def first.enc_wire second.enc_wire first.dec_wire
      second.dec_wire dest: first.wire_nonempty)

end
