(* ===== verification/Var_Int.thy ===== *)
theory Var_Int
  imports Prelude
begin

section \<open>QUIC variable-length integers\<close>

text \<open>
  \<^verbatim>\<open>webtrans-proto/src/varint.rs\<close>: the \<^verbatim>\<open>VarInt\<close> type with its checked and unchecked
  constructors, the in-memory decoder and encoder, and the asynchronous reader and writer.
  The lemmas describe the decoder by arithmetic on the bytes it consumes, show that the encoder
  writes the shortest form that the decoder reads back, and that the asynchronous reader
  consumes exactly the bytes the in-memory decoder consumes.
\<close>

subsection \<open>Definitions\<close>

datatype VarInt = VarInt (into_inner: u64)

datatype VarIntBoundsExceeded = VarIntBoundsExceeded

datatype VarIntUnexpectedEnd = VarIntUnexpectedEnd

definition VarInt_MAX :: VarInt where
  "VarInt_MAX = VarInt (push_bit 62 1 - 1)"

definition VarInt_MAX_SIZE :: nat where
  "VarInt_MAX_SIZE = 8"

definition VarInt_from_u8 :: "u8 \<Rightarrow> VarInt" where
  "VarInt_from_u8 x = VarInt (ucast x)"

definition VarInt_from_u16 :: "u16 \<Rightarrow> VarInt" where
  "VarInt_from_u16 x = VarInt (ucast x)"

definition VarInt_from_u32 :: "u32 \<Rightarrow> VarInt" where
  "VarInt_from_u32 x = VarInt (ucast x)"

definition VarInt_from_u64 :: "u64 \<Rightarrow> (VarInt, VarIntBoundsExceeded) res" where
  "VarInt_from_u64 x =
     (if x \<le> into_inner VarInt_MAX then Ok (VarInt x) else Err VarIntBoundsExceeded)"

definition VarInt_from_u64_unchecked :: "u64 \<Rightarrow> VarInt" where
  "VarInt_from_u64_unchecked x = VarInt x"

definition VarInt_try_from_u128 :: "128 word \<Rightarrow> (VarInt, VarIntBoundsExceeded) res" where
  "VarInt_try_from_u128 x =
     (if unat x < 2 ^ 64 then VarInt_from_u64 (ucast x) else Err VarIntBoundsExceeded)"

text \<open>A \<^verbatim>\<open>usize\<close> is a length here; \<^verbatim>\<open>as u64\<close> keeps its low 64 bits.\<close>

definition VarInt_try_from_usize :: "nat \<Rightarrow> (VarInt, VarIntBoundsExceeded) res" where
  "VarInt_try_from_usize x = VarInt_from_u64 (of_nat x)"

definition VarInt_size :: "VarInt \<Rightarrow> (nat, 'e) res" where
  "VarInt_size v =
     (let x = into_inner v in
      if x < push_bit 6 1 then Ok 1
      else if x < push_bit 14 1 then Ok 2
      else if x < push_bit 30 1 then Ok 4
      else if x \<le> into_inner VarInt_MAX then Ok 8
      else Panic)"

definition VarInt_decode :: "bytes \<Rightarrow> (VarInt \<times> bytes, VarIntUnexpectedEnd) res" where
  "VarInt_decode r = (case r of [] \<Rightarrow> Err VarIntUnexpectedEnd
    | b # r \<Rightarrow>
       (let tag = drop_bit 6 b; b0 = b AND 0x3F in
        if tag = 0 then Ok (VarInt (ucast b0), r)
        else if tag = 1 then
          (if length r < 1 then Err VarIntUnexpectedEnd
           else Ok (VarInt (ucast (from_be_bytes16 (b0 # take 1 r))), drop 1 r))
        else if tag = 2 then
          (if length r < 3 then Err VarIntUnexpectedEnd
           else Ok (VarInt (ucast (from_be_bytes32 (b0 # take 3 r))), drop 3 r))
        else if tag = 3 then
          (if length r < 7 then Err VarIntUnexpectedEnd
           else Ok (VarInt (from_be_bytes64 (b0 # take 7 r)), drop 7 r))
        else Panic))"

definition VarInt_read :: "'s reader \<Rightarrow> 's \<Rightarrow> (VarInt \<times> 's, VarIntUnexpectedEnd) res" where
  "VarInt_read rd s =
     and_then (map_err (\<lambda>_. VarIntUnexpectedEnd) (rd 1 s)) (\<lambda>(buf, s).
       case buf of [] \<Rightarrow> Panic
       | b # _ \<Rightarrow>
          (let size = push_bit (unat (drop_bit 6 b)) (1::nat) in
           and_then (map_err (\<lambda>_. VarIntUnexpectedEnd) (rd (size - 1) s)) (\<lambda>(tail, s).
             and_then (unwrap (VarInt_decode (b # tail))) (\<lambda>(v, _). Ok (v, s)))))"

definition VarInt_encode :: "VarInt \<Rightarrow> bytes \<Rightarrow> (bytes, 'e) res" where
  "VarInt_encode v w =
     (let x = into_inner v in
      if x < push_bit 6 1 then Ok (w @ [ucast x])
      else if x < push_bit 14 1 then Ok (w @ to_be_bytes16 (push_bit 14 0b01 OR ucast x))
      else if x < push_bit 30 1 then Ok (w @ to_be_bytes32 (push_bit 30 0b10 OR ucast x))
      else if x \<le> into_inner VarInt_MAX then Ok (w @ to_be_bytes64 (push_bit 62 0b11 OR x))
      else Panic)"

text \<open>\<open>wr\<close> is \<^verbatim>\<open>AsyncWriteExt::write_all_buf\<close> of the stream that is written.\<close>

definition VarInt_write ::
    "(bytes \<Rightarrow> 's \<Rightarrow> ('s, io_error) res) \<Rightarrow> VarInt \<Rightarrow> 's \<Rightarrow> ('s, VarIntUnexpectedEnd) res" where
  "VarInt_write wr v s =
     and_then (VarInt_encode v []) (\<lambda>buf. map_err (\<lambda>_. VarIntUnexpectedEnd) (wr buf s))"

subsection \<open>Well-formed values and their wire image\<close>

definition varint_ok :: "VarInt \<Rightarrow> bool" where
  "varint_ok v \<longleftrightarrow> unat (into_inner v) < 2 ^ 62"

definition varint_wire :: "VarInt \<Rightarrow> bytes" where
  "varint_wire v =
     (let n = unat (into_inner v) in
      if n < 2 ^ 6 then be_bytes 1 n
      else if n < 2 ^ 14 then be_bytes 2 (2 ^ 14 + n)
      else if n < 2 ^ 30 then be_bytes 4 (2 ^ 31 + n)
      else be_bytes 8 (3 * 2 ^ 62 + n))"

lemma VarInt_MAX_inner: "into_inner VarInt_MAX = 0x3FFFFFFFFFFFFFFF"
  by (simp add: VarInt_MAX_def push_bit_eq_mult)

lemma le_MAX_iff: "x \<le> into_inner VarInt_MAX \<longleftrightarrow> unat x < 2 ^ 62"
  by (simp add: VarInt_MAX_inner word_le_nat_alt) arith

lemmas limit_simps = word_less_nat_alt le_MAX_iff

lemma VarInt_size_ok:
  "varint_ok v \<Longrightarrow> VarInt_size v = Ok (length (varint_wire v))"
  by (simp add: VarInt_size_def varint_wire_def varint_ok_def limit_simps Let_def
      del: be_bytes.simps)

lemma tag_or:
  fixes y :: "'a::len word"
  assumes "unat y < 2 ^ k"
  shows "unat (push_bit k t OR y) = unat (push_bit k t :: 'a word) + unat y"
proof -
  have "take_bit k y = y"
    using assms by (simp add: word_unat_eq_iff unsigned_take_bit_eq take_bit_nat_eq_self)
  then have "bit y n \<Longrightarrow> n < k" for n
    by (metis bit_take_bit_iff)
  then have "push_bit k t AND y = 0"
    by (fastforce simp: bit_eq_iff bit_simps)
  then show ?thesis by (rule unat_or_disjoint)
qed

lemma VarInt_encode_wire:
  assumes "varint_ok v"
  shows "VarInt_encode v w = Ok (w @ varint_wire v)"
proof -
  let ?x = "into_inner v"
  have 16: "unat (0x4000 OR ucast ?x :: u16) = 2 ^ 14 + unat ?x" if "unat ?x < 2 ^ 14"
    using tag_or [of "ucast ?x :: u16" 14 1] that by (simp add: unat_ucast_small)
  have 32: "unat (0x80000000 OR ucast ?x :: u32) = 2 ^ 31 + unat ?x" if "unat ?x < 2 ^ 30"
    using tag_or [of "ucast ?x :: u32" 30 2] that by (simp add: unat_ucast_small)
  have 64: "unat (0xC000000000000000 OR ?x) = 3 * 2 ^ 62 + unat ?x" if "unat ?x < 2 ^ 62"
    using tag_or [of ?x 62 3] that by simp
  consider "unat ?x < 2 ^ 6" | "2 ^ 6 \<le> unat ?x" "unat ?x < 2 ^ 14"
    | "2 ^ 14 \<le> unat ?x" "unat ?x < 2 ^ 30" | "2 ^ 30 \<le> unat ?x" "unat ?x < 2 ^ 62"
    using assms unfolding varint_ok_def by linarith
  then show ?thesis
  proof cases
    case 1
    then show ?thesis
      by (simp add: VarInt_encode_def varint_wire_def limit_simps)
  next
    case 2
    with 16 show ?thesis
      by (simp add: VarInt_encode_def varint_wire_def limit_simps to_be_bytes16_def)
  next
    case 3
    with 32 show ?thesis
      by (simp add: VarInt_encode_def varint_wire_def limit_simps to_be_bytes32_def)
  next
    case 4
    with 64 show ?thesis
      by (simp add: VarInt_encode_def varint_wire_def limit_simps to_be_bytes64_def)
  qed
qed

subsection \<open>The decoder, by arithmetic on the bytes it consumes\<close>

lemma unat_low6: "unat (b AND 0x3F) = unat b mod 64" for b :: u8
proof -
  have "unat (b AND 0x3F) = unat b AND mask 6"
    by (simp add: unsigned_and_eq mask_eq_exp_minus_1)
  then show ?thesis by (simp flip: take_bit_eq_mask add: take_bit_eq_mod)
qed

lemma unat_tag: "unat (drop_bit 6 b) = unat b div 64" for b :: u8
  by (simp add: drop_bit_eq_div unat_div)

lemma tag_eq_iff: "k < 4 \<Longrightarrow> drop_bit 6 b = of_nat k \<longleftrightarrow> unat b div 64 = k" for b :: u8
  by (simp add: word_unat_eq_iff unat_tag unat_of_nat_u8)

lemma be_value_low6:
  "be_value (b # t) mod (64 * 256 ^ length t) = unat b mod 64 * 256 ^ length t + be_value t"
proof -
  let ?p = "256 ^ length t :: nat"
  have "unat b * ?p = (unat b mod 64 + 64 * (unat b div 64)) * ?p"
    by simp
  then have "be_value (b # t) = (unat b mod 64 * ?p + be_value t) + (64 * ?p) * (unat b div 64)"
    unfolding be_value.simps add_mult_distrib by simp
  moreover have "unat b mod 64 * ?p + be_value t < 64 * ?p"
  proof -
    have "unat b mod 64 * ?p \<le> 63 * ?p" by (intro mult_le_mono1) simp
    with be_value_bound [of t] show ?thesis by linarith
  qed
  ultimately show ?thesis by (simp only: mod_mult_self2 mod_less)
qed

lemma ucast_of_nat16: "n < 2 ^ 16 \<Longrightarrow> ucast (of_nat n :: u16) = (of_nat n :: u64)"
  by (simp add: word_unat_eq_iff unsigned_ucast_eq unat_of_nat take_bit_eq_mod)

lemma ucast_of_nat32: "n < 2 ^ 32 \<Longrightarrow> ucast (of_nat n :: u32) = (of_nat n :: u64)"
  by (simp add: word_unat_eq_iff unsigned_ucast_eq unat_of_nat take_bit_eq_mod)

lemma VarInt_decode_Cons:
  "VarInt_decode (b # r) =
     (let n = 2 ^ (unat b div 64) in
      if length r < n - 1 then Err VarIntUnexpectedEnd
      else Ok (VarInt (of_nat (be_value (b # take (n - 1) r) mod 2 ^ (8 * n - 2))), drop (n - 1) r))"
proof -
  have low: "be_value ((b AND 0x3F) # take k r) = be_value (b # take k r) mod (64 * 256 ^ k)"
    if "\<not> length r < k" for k
    using be_value_low6 [of b "take k r"] that
    by (simp add: unat_low6)
  have bound: "be_value ((b AND 0x3F) # take k r) < 256 ^ Suc k" if "\<not> length r < k" for k
    using be_value_bound [of "(b AND 0x3F) # take k r"] that by simp
  have "unat b div 64 < 4"
    using unat_u8_less [of b] by simp
  then consider "unat b div 64 = 0" | "unat b div 64 = 1" | "unat b div 64 = 2" | "unat b div 64 = 3"
    by linarith
  then show ?thesis
  proof cases
    case 1
    then have "drop_bit 6 b = 0" using tag_eq_iff [of 0 b] by simp
    moreover have "ucast (b AND 0x3F) = (of_nat (unat b mod 64) :: u64)"
      by (simp add: word_unat_eq_iff unsigned_ucast_eq unat_low6 unat_of_nat take_bit_eq_mod)
    ultimately show ?thesis using 1 by (simp add: VarInt_decode_def)
  next
    case 2
    then have "drop_bit 6 b = 1" using tag_eq_iff [of 1 b] by simp
    then show ?thesis using 2 low [of 1] bound [of 1]
      by (simp add: VarInt_decode_def from_be_bytes16_def ucast_of_nat16 del: be_value.simps)
  next
    case 3
    then have "drop_bit 6 b = 2" using tag_eq_iff [of 2 b] by simp
    then show ?thesis using 3 low [of 3] bound [of 3]
      by (simp add: VarInt_decode_def from_be_bytes32_def ucast_of_nat32 del: be_value.simps)
  next
    case 4
    then have "drop_bit 6 b = 3" using tag_eq_iff [of 3 b] by simp
    then show ?thesis using 4 low [of 7]
      by (simp add: VarInt_decode_def from_be_bytes64_def del: be_value.simps)
  qed
qed
lemma VarInt_decode_be_bytes:
  assumes n: "n = 2 ^ k" and k: "k < 4" and m: "m < 2 ^ (8 * n - 2)"
  shows "VarInt_decode (be_bytes n (k * 2 ^ (8 * n - 2) + m) @ rest) = Ok (VarInt (of_nat m), rest)"
proof -
  let ?p = "2 ^ (8 * n - 2) :: nat"
  let ?X = "k * ?p + m"
  obtain n' where n': "n = Suc n'" using n by (metis power_eq_0_iff old.nat.exhaust zero_neq_numeral)
  have p: "?p = 64 * 256 ^ n'"
  proof -
    have "8 * n - 2 = 6 + 8 * n'" using n' by simp
    then show ?thesis by (simp add: power_add power_mult)
  qed
  have "?X < 4 * ?p"
  proof -
    have "k * ?p \<le> 3 * ?p" using k by (intro mult_le_mono1) simp
    with m show ?thesis by linarith
  qed
  then have X: "?X < 256 ^ n" using p n' by simp
  then have hd_less: "?X div 256 ^ n' < 256"
    using n' by (simp add: less_mult_imp_div_less)
  have "?X div 256 ^ n' div 64 = ?X div (256 ^ n' * 64)"
    by (rule div_mult2_eq [symmetric])
  also have "256 ^ n' * 64 = ?p" by (subst p) (rule mult.commute)
  also have "?X div ?p = k" using m by simp
  finally have tag: "unat (of_nat (?X div 256 ^ n') :: u8) div 64 = k"
    using hd_less by (simp only: unat_of_nat_u8 mod_less)
  have "be_value (of_nat (?X div 256 ^ n') # be_bytes n' ?X) = ?X"
    using be_value_be_bytes [of n ?X] X n' by simp
  then show ?thesis
    using n' n m tag VarInt_decode_Cons [of "of_nat (?X div 256 ^ n')" "be_bytes n' ?X @ rest"]
    by (simp del: be_value.simps)
qed

lemma VarInt_decode_wire:
  assumes "varint_ok v"
  shows "VarInt_decode (varint_wire v @ rest) = Ok (v, rest)"
proof -
  let ?n = "unat (into_inner v)"
  have v: "VarInt (of_nat ?n) = v" by simp
  consider "?n < 2 ^ 6" | "2 ^ 6 \<le> ?n" "?n < 2 ^ 14"
    | "2 ^ 14 \<le> ?n" "?n < 2 ^ 30" | "2 ^ 30 \<le> ?n" "?n < 2 ^ 62"
    using assms unfolding varint_ok_def by linarith
  then show ?thesis
  proof cases
    case 1
    then show ?thesis
      using VarInt_decode_be_bytes [of 1 0 ?n rest] v by (simp add: varint_wire_def)
  next
    case 2
    then show ?thesis
      using VarInt_decode_be_bytes [of 2 1 ?n rest] v by (simp add: varint_wire_def)
  next
    case 3
    then show ?thesis
      using VarInt_decode_be_bytes [of 4 2 ?n rest] v by (simp add: varint_wire_def)
  next
    case 4
    then show ?thesis
      using VarInt_decode_be_bytes [of 8 3 ?n rest] v by (simp add: varint_wire_def)
  qed
qed

lemma VarInt_decode_no_panic [simp]: "VarInt_decode r \<noteq> Panic"
  by (cases r) (simp add: VarInt_decode_def, simp add: VarInt_decode_Cons Let_def)

lemma VarInt_decode_Ok:
  assumes "VarInt_decode r = Ok (v, r')"
  obtains b t where "r = b # t @ r'" and "length t = 2 ^ (unat b div 64) - 1"
    and "v = VarInt (of_nat (be_value (b # t) mod 2 ^ (8 * length (b # t) - 2)))"
proof (cases r)
  case Nil
  with assms show ?thesis by (simp add: VarInt_decode_def)
next
  case (Cons b s)
  let ?n = "2 ^ (unat b div 64) :: nat"
  have "0 < ?n" by simp
  then have n: "Suc (?n - 1) = ?n" by simp
  from assms Cons have "r' = drop (?n - 1) s" "?n - 1 \<le> length s"
    "v = VarInt (of_nat (be_value (b # take (?n - 1) s) mod 2 ^ (8 * ?n - 2)))"
    by (auto simp: VarInt_decode_Cons Let_def split: if_splits)
  then show ?thesis
    using that [of b "take (?n - 1) s"] Cons n by simp
qed

lemma VarInt_decode_exact:
  assumes "length t = 2 ^ (unat b div 64) - 1"
  shows "VarInt_decode (b # t @ rest) =
    Ok (VarInt (of_nat (be_value (b # t) mod 2 ^ (8 * length (b # t) - 2))), rest)"
proof -
  have "take (2 ^ (unat b div 64) - 1) (t @ rest) = t" "drop (2 ^ (unat b div 64) - 1) (t @ rest) = rest"
    "Suc (length t) = 2 ^ (unat b div 64)" "\<not> length (t @ rest) < 2 ^ (unat b div 64) - 1"
    using assms by simp_all
  then show ?thesis
    by (simp only: VarInt_decode_Cons Let_def if_False length_Cons)
qed

lemma VarInt_decode_varint_ok: "VarInt_decode r = Ok (v, r') \<Longrightarrow> varint_ok v"
proof (erule VarInt_decode_Ok)
  fix b t
  assume len: "length t = 2 ^ (unat b div 64) - 1"
    and v: "v = VarInt (of_nat (be_value (b # t) mod 2 ^ (8 * length (b # t) - 2)))"
  have "unat b div 64 \<le> 3" using unat_u8_less [of b] by simp
  then have "(2::nat) ^ (unat b div 64) \<le> 2 ^ 3" by (intro power_increasing) simp_all
  with len have "8 * length (b # t) - 2 \<le> 62" by simp
  then have "(2::nat) ^ (8 * length (b # t) - 2) \<le> 2 ^ 62" by (intro power_increasing) simp_all
  moreover have "be_value (b # t) mod 2 ^ (8 * length (b # t) - 2) < 2 ^ (8 * length (b # t) - 2)"
    by simp
  ultimately have "be_value (b # t) mod 2 ^ (8 * length (b # t) - 2) < 2 ^ 62"
    by linarith
  then show "varint_ok v"
    unfolding v varint_ok_def by (simp add: unat_of_nat del: be_value.simps)
qed

lemma VarInt_decode_shorter: "VarInt_decode r = Ok (v, r') \<Longrightarrow> length r' < length r"
  by (erule VarInt_decode_Ok) simp

lemma VarInt_decode_append:
  "VarInt_decode r = Ok (v, r') \<Longrightarrow> VarInt_decode (r @ s) = Ok (v, r' @ s)"
  by (erule VarInt_decode_Ok) (simp add: VarInt_decode_exact del: be_value.simps)

lemma length_varint_wire: 
  "length (varint_wire v) = (if unat (into_inner v) < 2 ^ 6 then 1 else if unat (into_inner v) < 2 ^ 14 then 2
     else if unat (into_inner v) < 2 ^ 30 then 4 else 8)"
  by (simp add: varint_wire_def Let_def)

lemma VarInt_decode_canonical:
  assumes "VarInt_decode r = Ok (v, r')"
  shows "length (varint_wire v) + length r' \<le> length r"
proof -
  from assms obtain b t where r: "r = b # t @ r'" and len: "length t = 2 ^ (unat b div 64) - 1"
    and v: "v = VarInt (of_nat (be_value (b # t) mod 2 ^ (8 * length (b # t) - 2)))"
    by (rule VarInt_decode_Ok)
  have n: "length (b # t) = 2 ^ (unat b div 64)" using len by simp
  have "varint_ok v" using assms by (rule VarInt_decode_varint_ok)
  then have "unat (into_inner v) < 2 ^ 62" by (simp add: varint_ok_def)
  have small: "unat (into_inner v) < 2 ^ (8 * length (b # t) - 2)"
  proof -
    have "unat (of_nat x :: u64) \<le> x" for x by (simp add: unat_of_nat)
    then have "unat (into_inner v) \<le> be_value (b # t) mod 2 ^ (8 * length (b # t) - 2)"
      unfolding v by simp
    also have "\<dots> < 2 ^ (8 * length (b # t) - 2)" by simp
    finally show ?thesis .
  qed
  have "unat b div 64 < 4" using unat_u8_less [of b] by simp
  then consider "unat b div 64 = 0" | "unat b div 64 = 1" | "unat b div 64 = 2" | "unat b div 64 = 3"
    by linarith
  then have "length (varint_wire v) \<le> length (b # t)"
    using small n by cases (auto simp: length_varint_wire)
  then show ?thesis using r by simp
qed

lemma VarInt_read_decode:
  assumes rd: "reads_exactly rd content"
  shows "VarInt_decode (content s) = Ok (v, rest) \<Longrightarrow>
      \<exists>s'. VarInt_read rd s = Ok (v, s') \<and> content s' = rest"
    and "VarInt_decode (content s) = Err e \<Longrightarrow> VarInt_read rd s = Err e"
proof -
  assume dec: "VarInt_decode (content s) = Ok (v, rest)"
  then obtain b t where c: "content s = b # t @ rest" and len: "length t = 2 ^ (unat b div 64) - 1"
    by (rule VarInt_decode_Ok)
  obtain s1 where s1: "rd 1 s = Ok ([b], s1)" "content s1 = t @ rest"
    using reads_exactly_Ok [OF rd, of s "[b]" "t @ rest"] c by auto
  obtain s2 where s2: "rd (length t) s1 = Ok (t, s2)" "content s2 = rest"
    using reads_exactly_Ok [OF rd s1(2)] by blast
  have "VarInt_decode (b # t) = Ok (v, [])"
    using dec VarInt_decode_exact [OF len, of rest] VarInt_decode_exact [OF len, of "[]"]
    by (simp add: c del: be_value.simps)
  then show "\<exists>s'. VarInt_read rd s = Ok (v, s') \<and> content s' = rest"
    using s1 s2 len by (simp add: VarInt_read_def unat_tag Let_def push_bit_eq_mult)
next
  assume dec: "VarInt_decode (content s) = Err e"
  show "VarInt_read rd s = Err e"
  proof (cases "content s")
    case Nil
    then obtain d where "rd 1 s = Err d"
      using reads_exactly_Err [OF rd, of s 1] by auto
    then show ?thesis by (cases e) (simp add: VarInt_read_def)
  next
    case (Cons b r)
    obtain s1 where s1: "rd 1 s = Ok ([b], s1)" "content s1 = r"
      using reads_exactly_Ok [OF rd, of s "[b]" r] Cons by auto
    have "length r < 2 ^ (unat b div 64) - 1"
      using dec Cons by (simp add: VarInt_decode_Cons Let_def split: if_splits)
    then obtain d where "rd (2 ^ (unat b div 64) - 1) s1 = Err d"
      using reads_exactly_Err [OF rd, of s1] s1(2) by auto
    with s1 show ?thesis
      by (cases e) (simp add: VarInt_read_def unat_tag Let_def push_bit_eq_mult)
  qed
qed

lemma varint_lengths:
  fixes t :: bytes
  assumes "length t = 2 ^ (u div 64) - 1" and "u < 256"
  shows "length (b # t) \<in> {1, 2, 4, 8}"
proof -
  have "u div 64 < 4" using assms(2) by simp
  then consider "u div 64 = 0" | "u div 64 = 1" | "u div 64 = 2" | "u div 64 = 3"
    by linarith
  then show ?thesis using assms(1) by cases simp_all
qed

lemma unat_of_varint_value:
  assumes "length bs \<in> {1, 2, 4, 8}"
  shows "unat (into_inner (VarInt (of_nat (be_value bs mod 2 ^ (8 * length bs - 2))))) =
    be_value bs mod 2 ^ (8 * length bs - 2)"
proof -
  have "8 * length bs - 2 \<le> 62" using assms by auto
  then have "(2::nat) ^ (8 * length bs - 2) \<le> 2 ^ 62" by (intro power_increasing) simp_all
  moreover have "be_value bs mod 2 ^ (8 * length bs - 2) < 2 ^ (8 * length bs - 2)" by simp
  ultimately have "be_value bs mod 2 ^ (8 * length bs - 2) < 2 ^ 62" by linarith
  then show ?thesis by (simp add: unat_of_nat)
qed

subsection \<open>The codec interface\<close>

lemma length_varint_wire_le: "length (varint_wire v) \<le> 8"
  using length_varint_wire [of v] by (auto split: if_splits)

lemma varint_wire_nonempty: "varint_wire v \<noteq> []"
  using length_varint_wire [of v] by (auto split: if_splits)

interpretation varint: codec VarInt_encode VarInt_decode varint_wire varint_ok
  by unfold_locales
    (auto simp: VarInt_encode_wire VarInt_decode_wire varint_wire_nonempty)

lemma VarInt_from_u64_ok [wf_intros]: "VarInt_from_u64 x = Ok v \<Longrightarrow> varint_ok v"
  by (auto simp: VarInt_from_u64_def le_MAX_iff varint_ok_def split: if_splits)

lemma VarInt_from_u32_ok [simp, wf_intros]: "varint_ok (VarInt_from_u32 x)"
proof -
  have "unat x < 2 ^ 32" using unsigned_less [of x, where 'a=nat] by simp
  then show ?thesis
    by (simp add: varint_ok_def VarInt_from_u32_def unsigned_ucast_eq take_bit_eq_mod)
qed

lemma VarInt_try_from_usize_ok:
  assumes "n < 2 ^ 62"
  shows "VarInt_try_from_usize n = Ok (VarInt (of_nat n))" and "varint_ok (VarInt (of_nat n))"
  using assms
  by (simp_all add: VarInt_try_from_usize_def VarInt_from_u64_def le_MAX_iff varint_ok_def unat_of_nat)

subsection \<open>Properties\<close>

text \<open>
  C29. Every value below 2^62 is encoded without panicking, in exactly the number of bytes
  \<^verbatim>\<open>size\<close> reports, and the decoder reads it back from the front of any input, leaving the bytes
  that follow.
\<close>

theorem varint_roundtrip:
  assumes "varint_ok v"
  shows "\<exists>bs. VarInt_encode v w = Ok (w @ bs) \<and> VarInt_size v = Ok (length bs) \<and>
    (\<forall>rest. VarInt_decode (bs @ rest) = Ok (v, rest))"
  using assms varint.enc_wire varint.dec_wire VarInt_size_ok by blast

theorem varint_roundtrip_witness:
  "varint_ok (VarInt 15293) \<and>
   (\<exists>bs. VarInt_encode (VarInt 15293) [] = Ok ([] @ bs) \<and> VarInt_size (VarInt 15293) = Ok (length bs) \<and>
    (\<forall>rest. VarInt_decode (bs @ rest) = Ok (VarInt 15293, rest))) \<and>
   VarInt_encode (VarInt 15293) [] = (Ok [0x7B, 0xBD] :: (bytes, unit) res)"
proof (intro conjI)
  show ok: "varint_ok (VarInt 15293)" by (simp add: varint_ok_def)
  show "\<exists>bs. VarInt_encode (VarInt 15293) [] = Ok ([] @ bs) \<and>
      VarInt_size (VarInt 15293) = Ok (length bs) \<and>
      (\<forall>rest. VarInt_decode (bs @ rest) = Ok (VarInt 15293, rest))"
    by (rule varint_roundtrip [OF ok])
  show "VarInt_encode (VarInt 15293) [] = (Ok [0x7B, 0xBD] :: (bytes, unit) res)"
    by (simp add: VarInt_encode_def to_be_bytes16_def be_bytes_numeral)
qed

text \<open>
  A successful decode consumes 1, 2, 4 or 8 bytes; the value is their big-endian number
  without the two tag bits, hence below 2^62; and no encoding of that value is longer than the
  bytes consumed (the encoder's form is the shortest the decoder accepts).
\<close>

theorem varint_decode_sound:
  assumes "VarInt_decode r = Ok (v, rest)"
  shows "\<exists>used. r = used @ rest \<and> length used \<in> {1, 2, 4, 8} \<and>
    unat (into_inner v) = be_value used mod 2 ^ (8 * length used - 2) \<and> varint_ok v \<and>
    (\<exists>n. VarInt_size v = Ok n \<and> n \<le> length used)"
proof -
  from assms obtain b t where r: "r = b # t @ rest" and len: "length t = 2 ^ (unat b div 64) - 1"
    and v: "v = VarInt (of_nat (be_value (b # t) mod 2 ^ (8 * length (b # t) - 2)))"
    by (rule VarInt_decode_Ok)
  have ok: "varint_ok v" using assms by (rule VarInt_decode_varint_ok)
  have "length (varint_wire v) \<le> length (b # t)"
    using VarInt_decode_canonical [OF assms] r by simp
  moreover have "length (b # t) \<in> {1, 2, 4, 8}"
    using len unat_u8_less [of b] by (rule varint_lengths)
  moreover from this have "unat (into_inner v) = be_value (b # t) mod 2 ^ (8 * length (b # t) - 2)"
    unfolding v by (rule unat_of_varint_value)
  ultimately show ?thesis
    using r ok by (intro exI [of _ "b # t"]) (simp add: VarInt_size_ok)
qed

theorem varint_decode_sound_witness:
  "VarInt_decode [0x40, 0x25, 0xFF] = Ok (VarInt 37, [0xFF]) \<and>
   (\<exists>used. [0x40, 0x25, 0xFF] = used @ [0xFF] \<and> length used \<in> {1, 2, 4, 8} \<and>
    unat (into_inner (VarInt 37)) = be_value used mod 2 ^ (8 * length used - 2) \<and>
    varint_ok (VarInt 37) \<and>
    (\<exists>n. VarInt_size (VarInt 37) = (Ok n :: (nat, unit) res) \<and> n \<le> length used))"
proof -
  have dec: "VarInt_decode [0x40, 0x25, 0xFF] = Ok (VarInt 37, [0xFF])" by code_simp
  show ?thesis using dec varint_decode_sound [OF dec] by (rule conjI)
qed

text \<open>
  On a stream the asynchronous reader returns what the in-memory decoder returns on the
  stream's bytes, consumes exactly as many, reports a truncated stream as the same error, and
  its internal \<^verbatim>\<open>expect\<close> never panics.
\<close>

theorem varint_read_agrees:
  assumes "reads_exactly rd content"
  shows "VarInt_read rd s \<noteq> Panic \<and>
    (\<forall>v rest. VarInt_decode (content s) = Ok (v, rest) \<longrightarrow>
      (\<exists>s'. VarInt_read rd s = Ok (v, s') \<and> content s' = rest)) \<and>
    (\<forall>e. VarInt_decode (content s) = Err e \<longrightarrow> VarInt_read rd s = Err e)"
proof (cases "VarInt_decode (content s)")
  case (Ok p)
  then show ?thesis using VarInt_read_decode(1) [OF assms] by (cases p) fastforce
next
  case (Err e)
  then show ?thesis using VarInt_read_decode(2) [OF assms Err] by simp
next
  case Panic
  then show ?thesis by simp
qed

theorem varint_read_agrees_witness:
  "reads_exactly slice_read (\<lambda>s. s) \<and>
   VarInt_read slice_read [0x7B, 0xBD, 0x01] \<noteq> Panic \<and>
   VarInt_read slice_read [0x7B, 0xBD, 0x01] = Ok (VarInt 15293, [0x01])"
proof -
  have dec: "VarInt_decode [0x7B, 0xBD, 0x01] = Ok (VarInt 15293, [0x01])" by code_simp
  show ?thesis
    using slice_reads_exactly varint_read_agrees [OF slice_reads_exactly, of "[0x7B, 0xBD, 0x01]"]
      dec by simp
qed

end
