(* ===== verification/H3_Frames.thy ===== *)
theory H3_Frames
  imports Var_Int
begin

section \<open>HTTP/3 frame and stream types\<close>

text \<open>
  \<^verbatim>\<open>webtrans-proto/src/grease.rs\<close>, \<^verbatim>\<open>frame.rs\<close> and \<^verbatim>\<open>stream.rs\<close>: the GREASE test, frame types
  with the loop that skips GREASE frames in front of a frame, and unidirectional stream types.
  \<^verbatim>\<open>Frame::read\<close> returns a view of the buffer limited to the payload; its callers drain that
  view, so the model returns the payload and the bytes behind it. The lemmas show that the loop
  ends on every input and returns the first frame that is not GREASE.
\<close>

subsection \<open>Definitions\<close>

definition GREASE_START :: u64 where "GREASE_START = 0x21"

definition GREASE_STEP :: u64 where "GREASE_STEP = 0x1F"

definition is_grease_value :: "u64 \<Rightarrow> bool" where
  "is_grease_value v \<longleftrightarrow> v \<ge> GREASE_START \<and> (v - GREASE_START) mod GREASE_STEP = 0"

datatype Frame = Frame (frame_type: VarInt)

definition Frame_decode :: "bytes \<Rightarrow> (Frame \<times> bytes, VarIntUnexpectedEnd) res" where
  "Frame_decode buf = and_then (VarInt_decode buf) (\<lambda>(typ, buf). Ok (Frame typ, buf))"

definition Frame_encode :: "Frame \<Rightarrow> bytes \<Rightarrow> (bytes, 'e) res" where
  "Frame_encode f buf = VarInt_encode (frame_type f) buf"

definition Frame_is_grease :: "Frame \<Rightarrow> bool" where
  "Frame_is_grease f = is_grease_value (into_inner (frame_type f))"

function Frame_read :: "bytes \<Rightarrow> (Frame \<times> bytes \<times> bytes, VarIntUnexpectedEnd) res" where
  "Frame_read buf =
     and_then (Frame_decode buf) (\<lambda>(typ, buf).
     and_then (VarInt_decode buf) (\<lambda>(size, buf).
     and_then (ok_or VarIntUnexpectedEnd (usize_try_from (into_inner size))) (\<lambda>size.
       if length buf < size then Err VarIntUnexpectedEnd
       else if Frame_is_grease typ then Frame_read (drop size buf)
       else Ok (typ, take size buf, drop size buf))))"
  by pat_completeness auto
termination
  by (relation "measure length") (auto simp: Frame_decode_def dest!: VarInt_decode_shorter)

declare Frame_read.simps [simp del]

definition Frame_from_u32 :: "u32 \<Rightarrow> Frame" where
  "Frame_from_u32 value = Frame (VarInt_from_u32 value)"

definition Frame_DATA :: Frame where "Frame_DATA = Frame_from_u32 0x00"

definition Frame_HEADERS :: Frame where "Frame_HEADERS = Frame_from_u32 0x01"

definition Frame_SETTINGS :: Frame where "Frame_SETTINGS = Frame_from_u32 0x04"

definition Frame_WEBTRANSPORT :: Frame where "Frame_WEBTRANSPORT = Frame_from_u32 0x41"

datatype UniStream = UniStream (stream_type: VarInt)

definition UniStream_decode :: "bytes \<Rightarrow> (UniStream \<times> bytes, VarIntUnexpectedEnd) res" where
  "UniStream_decode buf = and_then (VarInt_decode buf) (\<lambda>(typ, buf). Ok (UniStream typ, buf))"

definition UniStream_encode :: "UniStream \<Rightarrow> bytes \<Rightarrow> (bytes, 'e) res" where
  "UniStream_encode s buf = VarInt_encode (stream_type s) buf"

definition UniStream_is_grease :: "UniStream \<Rightarrow> bool" where
  "UniStream_is_grease s = is_grease_value (into_inner (stream_type s))"

definition UniStream_from_u32 :: "u32 \<Rightarrow> UniStream" where
  "UniStream_from_u32 value = UniStream (VarInt_from_u32 value)"

definition UniStream_CONTROL :: UniStream where "UniStream_CONTROL = UniStream_from_u32 0x00"

definition UniStream_PUSH :: UniStream where "UniStream_PUSH = UniStream_from_u32 0x01"

definition UniStream_QPACK_ENCODER :: UniStream where
  "UniStream_QPACK_ENCODER = UniStream_from_u32 0x02"

definition UniStream_QPACK_DECODER :: UniStream where
  "UniStream_QPACK_DECODER = UniStream_from_u32 0x03"

definition UniStream_WEBTRANSPORT :: UniStream where
  "UniStream_WEBTRANSPORT = UniStream_from_u32 0x54"

subsection \<open>Codecs\<close>

interpretation frame_type: codec Frame_encode Frame_decode "\<lambda>f. varint_wire (frame_type f)"
    "\<lambda>f. varint_ok (frame_type f)"
  by unfold_locales
    (auto simp: Frame_encode_def Frame_decode_def varint.enc_wire varint.dec_wire
      varint_wire_nonempty)

interpretation stream_type: codec UniStream_encode UniStream_decode
    "\<lambda>s. varint_wire (stream_type s)" "\<lambda>s. varint_ok (stream_type s)"
  by unfold_locales
    (auto simp: UniStream_encode_def UniStream_decode_def varint.enc_wire varint.dec_wire
      varint_wire_nonempty)

lemmas frame_type_defs = Frame_DATA_def Frame_HEADERS_def Frame_SETTINGS_def
  Frame_WEBTRANSPORT_def Frame_from_u32_def

lemmas stream_type_defs = UniStream_CONTROL_def UniStream_PUSH_def UniStream_QPACK_ENCODER_def
  UniStream_QPACK_DECODER_def UniStream_WEBTRANSPORT_def UniStream_from_u32_def

lemma frame_types_ok [simp, wf_intros]:
  "varint_ok (frame_type Frame_DATA)" "varint_ok (frame_type Frame_HEADERS)"
  "varint_ok (frame_type Frame_SETTINGS)" "varint_ok (frame_type Frame_WEBTRANSPORT)"
  by (simp_all add: frame_type_defs)

lemma frame_types_not_grease [simp]:
  "\<not> Frame_is_grease Frame_DATA" "\<not> Frame_is_grease Frame_HEADERS"
  "\<not> Frame_is_grease Frame_SETTINGS" "\<not> Frame_is_grease Frame_WEBTRANSPORT"
  by (simp_all add: frame_type_defs Frame_is_grease_def is_grease_value_def GREASE_START_def
      GREASE_STEP_def VarInt_from_u32_def)

lemma stream_types_ok [simp, wf_intros]:
  "varint_ok (stream_type UniStream_CONTROL)" "varint_ok (stream_type UniStream_WEBTRANSPORT)"
  by (simp_all add: stream_type_defs)

subsection \<open>Whole frames\<close>

text \<open>A frame on the wire: its type, the length of its payload, the payload.\<close>

definition frame_wire :: "Frame \<times> bytes \<Rightarrow> bytes" where
  "frame_wire f = varint_wire (frame_type (fst f)) @ varint_wire (VarInt (of_nat (length (snd f)))) @ snd f"

definition frame_ok :: "Frame \<times> bytes \<Rightarrow> bool" where
  "frame_ok f \<longleftrightarrow> varint_ok (frame_type (fst f)) \<and> length (snd f) < 2 ^ 62"

lemma Frame_read_wire:
  assumes "frame_ok (typ, payload)"
  shows "Frame_read (frame_wire (typ, payload) @ rest) =
    (if Frame_is_grease typ then Frame_read rest else Ok (typ, payload, rest))"
  using assms
  by (subst Frame_read.simps)
    (simp add: frame_wire_def frame_ok_def frame_type.dec_wire varint.dec_wire
      VarInt_try_from_usize_ok unat_of_nat)

lemma Frame_read_skips:
  assumes "\<forall>g \<in> set gs. frame_ok g \<and> Frame_is_grease (fst g)"
  shows "Frame_read (concat (map frame_wire gs) @ rest) = Frame_read rest"
  using assms
proof (induction gs)
  case (Cons g gs)
  then show ?case by (cases g) (simp add: Frame_read_wire)
qed simp

lemma Frame_decode_Ok_iff:
  "Frame_decode buf = Ok (f, rest) \<longleftrightarrow> VarInt_decode buf = Ok (frame_type f, rest)"
  by (cases f) (auto simp: Frame_decode_def)

lemma Frame_decode_no_panic [simp]: "Frame_decode buf \<noteq> Panic"
  by (auto simp: Frame_decode_def and_then_Panic_iff)

lemma Frame_read_no_panic [simp]: "Frame_read buf \<noteq> Panic"
proof (induction buf rule: Frame_read.induct)
  case (1 buf)
  then show ?case
    by (subst Frame_read.simps) (auto simp: and_then_Panic_iff split: prod.splits)
qed

lemma Frame_read_Ok:
  assumes "Frame_read buf = Ok (typ, payload, rest)"
  shows "\<not> Frame_is_grease typ \<and> varint_ok (frame_type typ) \<and>
    (\<exists>skipped hdr. buf = skipped @ hdr @ payload @ rest \<and> hdr \<noteq> [])"
  using assms
proof (induction buf rule: Frame_read.induct)
  case (1 buf)
  from "1.prems" obtain typ' b1 size b2
    where d: "VarInt_decode buf = Ok (frame_type typ', b1)" "VarInt_decode b1 = Ok (size, b2)"
      "unat (into_inner size) \<le> length b2"
    and r: "(if Frame_is_grease typ' then Frame_read (drop (unat (into_inner size)) b2)
       else Ok (typ', take (unat (into_inner size)) b2, drop (unat (into_inner size)) b2)) =
       Ok (typ, payload, rest)"
    by (subst (asm) Frame_read.simps) (auto simp: Frame_decode_Ok_iff split: if_splits)
  from d(1) obtain h1 where h1: "buf = h1 @ b1" "h1 \<noteq> []"
    by (auto elim: VarInt_decode_Ok)
  from d(2) obtain h2 where h2: "b1 = h2 @ b2"
    by (metis VarInt_decode_Ok append_Cons)
  show ?case
  proof (cases "Frame_is_grease typ'")
    case False
    with r have "typ = typ'" "payload @ rest = b2" by auto
    then show ?thesis
      using h1 h2 False VarInt_decode_varint_ok [OF d(1)]
      by (metis append_Nil)
  next
    case True
    have dec: "Frame_decode buf = Ok (typ', b1)" using d(1) by (simp add: Frame_decode_Ok_iff)
    from True r have "Frame_read (drop (unat (into_inner size)) b2) = Ok (typ, payload, rest)"
      by simp
    then have ih: "\<not> Frame_is_grease typ \<and> varint_ok (frame_type typ) \<and>
       (\<exists>skipped hdr. drop (unat (into_inner size)) b2 = skipped @ hdr @ payload @ rest \<and> hdr \<noteq> [])"
      using "1.IH" [OF dec _ d(2)] d(3) True by (simp add: not_less)
    then obtain sk hdr where "b2 = take (unat (into_inner size)) b2 @ sk @ hdr @ payload @ rest"
      "hdr \<noteq> []" by (metis append_take_drop_id)
    then show ?thesis using ih h1(1) h2 by (metis append.assoc)
  qed
qed

lemmas frame_read_eval = Frame_decode_def VarInt_decode_def Frame_is_grease_def
  is_grease_value_def GREASE_START_def GREASE_STEP_def frame_type_defs VarInt_from_u32_def

subsection \<open>Properties\<close>

text \<open>
  C10. \<^verbatim>\<open>Frame::read\<close> skips any number of GREASE frames, whatever their payloads, and returns the
  frame behind them with exactly its payload, leaving the bytes that follow it.
\<close>

theorem frame_read_first_non_grease:
  assumes "\<forall>g \<in> set gs. frame_ok g \<and> Frame_is_grease (fst g)"
    and "frame_ok (typ, payload)" and "\<not> Frame_is_grease typ"
  shows "Frame_read (concat (map frame_wire gs) @ frame_wire (typ, payload) @ rest) =
    Ok (typ, payload, rest)"
  using assms by (simp add: Frame_read_skips Frame_read_wire)

theorem frame_read_first_non_grease_witness:
  "frame_ok (Frame (VarInt 0x21), [1, 2]) \<and> Frame_is_grease (Frame (VarInt 0x21)) \<and>
   frame_ok (Frame_DATA, [7]) \<and> \<not> Frame_is_grease Frame_DATA \<and>
   Frame_read (concat (map frame_wire [(Frame (VarInt 0x21), [1, 2])]) @
     frame_wire (Frame_DATA, [7]) @ [9]) = Ok (Frame_DATA, [7], [9])"
proof -
  have g: "\<forall>g \<in> set [(Frame (VarInt 0x21), [1, 2])]. frame_ok g \<and> Frame_is_grease (fst g)"
    by (simp add: frame_ok_def varint_ok_def Frame_is_grease_def is_grease_value_def
        GREASE_START_def GREASE_STEP_def)
  have f: "frame_ok (Frame_DATA, [7])" by (simp add: frame_ok_def)
  show ?thesis
    using g f frame_read_first_non_grease [OF g f frame_types_not_grease(1), of "[9]"] by simp
qed

text \<open>
  \<^verbatim>\<open>Frame::read\<close> ends on every input without panicking; the frame it returns is never a GREASE
  frame, its type is a valid varint, and its payload lies inside the input, directly in front of
  the bytes that remain.
\<close>

theorem frame_read_sound:
  "Frame_read buf \<noteq> Panic \<and>
   (\<forall>typ payload rest. Frame_read buf = Ok (typ, payload, rest) \<longrightarrow>
      \<not> Frame_is_grease typ \<and> varint_ok (frame_type typ) \<and>
      (\<exists>skipped hdr. buf = skipped @ hdr @ payload @ rest \<and> hdr \<noteq> []))"
  using Frame_read_Ok by simp

theorem frame_read_sound_witness:
  "Frame_read [0x21, 0x00, 0x04, 0x01, 0x05] = Ok (Frame_SETTINGS, [0x05], []) \<and>
   \<not> Frame_is_grease Frame_SETTINGS"
proof -
  have "Frame_read [0x04, 0x01, 0x05] = Ok (Frame_SETTINGS, [0x05], [])"
    by (subst Frame_read.simps) (simp add: frame_read_eval)
  then have r: "Frame_read [0x21, 0x00, 0x04, 0x01, 0x05] = Ok (Frame_SETTINGS, [0x05], [])"
    by (subst Frame_read.simps) (simp add: frame_read_eval)
  show ?thesis using r frame_read_sound [of "[0x21, 0x00, 0x04, 0x01, 0x05]"] by blast
qed

end
