(* ===== verification/Error_Codes.thy ===== *)
theory Error_Codes
  imports H3_Frames
begin

section \<open>Application error codes in the HTTP/3 error space\<close>

text \<open>
  \<^verbatim>\<open>webtrans-proto/src/error.rs\<close>: the map from 32-bit WebTransport error codes into the range
  reserved for them in HTTP/3, its inverse, and the error categories of the public API. The
  locale states what the session and stream layers of both transports rely on.
\<close>

subsection \<open>Definitions\<close>

definition ERROR_FIRST :: u64 where "ERROR_FIRST = 0x52E4A40FA8DB"

definition ERROR_LAST :: u64 where "ERROR_LAST = 0x52E5AC983162"

definition error_from_http3 :: "u64 \<Rightarrow> u32 option" where
  "error_from_http3 code =
     (if code < ERROR_FIRST \<or> code > ERROR_LAST then None
      else let code = code - ERROR_FIRST; code = code - code div 0x1F in Some (ucast code))"

definition error_to_http3 :: "u32 \<Rightarrow> u64" where
  "error_to_http3 code = ERROR_FIRST + ucast code + ucast code div 0x1E"

text \<open>The error categories; a message is its text in bytes.\<close>

datatype Error = Error_Closed | Error_InvalidUrl bytes | Error_Protocol bytes | Error_Io bytes
  | Error_Tls bytes | Error_Unsupported bytes | Error_Session bytes | Error_Other bytes

text \<open>\<open>to_string\<close> is the display text of the wrapped error.\<close>

definition Error_other :: "('a \<Rightarrow> bytes) \<Rightarrow> 'a \<Rightarrow> Error" where
  "Error_other to_string e = Error_Other (to_string e)"

subsection \<open>What the transports rely on\<close>

locale app_error_space =
  fixes to_http3 :: "u32 \<Rightarrow> u64" and from_http3 :: "u64 \<Rightarrow> u32 option"
  assumes from_to: "from_http3 (to_http3 c) = Some c"
    and to_varint: "unat (to_http3 c) < 2 ^ 62"
begin

lemma to_inj: "to_http3 c = to_http3 d \<Longrightarrow> c = d"
  by (metis from_to option.inject)

lemma to_from_u64: "VarInt_from_u64 (to_http3 c) = Ok (VarInt (to_http3 c))"
  using to_varint by (simp add: VarInt_from_u64_def le_MAX_iff)

end

subsection \<open>Arithmetic of the map\<close>

lemma unat_u32_less: "unat (c :: u32) < 2 ^ 32"
  using unsigned_less [of c, where 'a=nat] by simp

lemma unat_to_http3: "unat (error_to_http3 c) = 0x52E4A40FA8DB + unat c + unat c div 30"
proof -
  have c: "unat (ucast c :: u64) = unat c"
    using unat_u32_less [of c] by (intro unat_ucast_small) simp
  have "0x52E4A40FA8DB + unat c + unat c div 30 < 2 ^ 64"
    using unat_u32_less [of c] by simp
  then show ?thesis
    by (simp add: error_to_http3_def ERROR_FIRST_def unat_word_ariths unat_div c)
qed

lemma unat_to_http3_range:
  "0x52E4A40FA8DB \<le> unat (error_to_http3 c)" "unat (error_to_http3 c) \<le> 0x52E5AC983162"
  using unat_u32_less [of c] by (simp_all add: unat_to_http3)

lemma error_from_http3_nat:
  assumes "0x52E4A40FA8DB \<le> unat h" and "unat h \<le> 0x52E5AC983162"
  shows "error_from_http3 h =
    Some (of_nat (unat h - 0x52E4A40FA8DB - (unat h - 0x52E4A40FA8DB) div 31))"
proof -
  let ?s = "unat h - 0x52E4A40FA8DB"
  have s: "unat (h - ERROR_FIRST) = ?s"
    using assms by (simp add: unat_sub ERROR_FIRST_def word_le_nat_alt)
  have "unat (h - ERROR_FIRST - (h - ERROR_FIRST) div 0x1F) = ?s - ?s div 31"
    by (subst unat_sub) (simp_all add: word_le_nat_alt unat_div s)
  then have "(ucast (h - ERROR_FIRST - (h - ERROR_FIRST) div 0x1F) :: u32) = of_nat (?s - ?s div 31)"
    by (metis of_nat_unat)
  moreover have "\<not> h < ERROR_FIRST" "\<not> ERROR_LAST < h"
    using assms by (simp_all add: ERROR_FIRST_def ERROR_LAST_def word_less_nat_alt)
  ultimately show ?thesis by (simp add: error_from_http3_def Let_def)
qed

lemma shift_up_down: "(n + n div 30) div 31 = n div 30" for n :: nat
proof -
  have "n + n div 30 = n mod 30 + (n div 30) * 31"
    using mod_mult_div_eq [of n 30] by simp
  also have "(n mod 30 + (n div 30) * 31) div 31 = n mod 30 div 31 + n div 30"
    by simp
  also have "n mod 30 div 31 = 0"
    by (rule div_less) (rule less_trans [OF mod_less_divisor], simp_all)
  finally show ?thesis by simp
qed

lemma shift_up_mod: "(n + n div 30) mod 31 = n mod 30" for n :: nat
proof -
  have "n + n div 30 = n mod 30 + 31 * (n div 30)"
    using mod_mult_div_eq [of n 30] by simp
  then have "(n + n div 30) mod 31 = (n mod 30 + 31 * (n div 30)) mod 31" by (rule arg_cong)
  also have "\<dots> = n mod 30 mod 31" by (rule mod_mult_self2)
  also have "\<dots> = n mod 30"
    by (rule mod_less) (rule less_trans [OF mod_less_divisor], simp_all)
  finally show ?thesis .
qed

lemma error_from_to: "error_from_http3 (error_to_http3 c) = Some c"
proof -
  have "unat c + unat c div 30 - (unat c + unat c div 30) div 31 = unat c"
    by (simp add: shift_up_down)
  then show ?thesis
    using error_from_http3_nat [OF unat_to_http3_range, of c] by (simp add: unat_to_http3)
qed

interpretation h3_errors: app_error_space error_to_http3 error_from_http3
proof unfold_locales
  fix c
  show "error_from_http3 (error_to_http3 c) = Some c" by (rule error_from_to)
  show "unat (error_to_http3 c) < 2 ^ 62"
    by (rule le_less_trans [OF unat_to_http3_range(2)]) simp
qed

lemma to_http3_grease_offset:
  assumes "0x52E4A40FA8DB \<le> unat h"
  shows "is_grease_value h \<longleftrightarrow> (unat h - 0x52E4A40FA8DB) mod 31 = 30"
proof -
  define s where "s = unat h - 0x52E4A40FA8DB"
  have h: "unat h = s + 0x52E4A40FA8DB" using assms by (simp add: s_def)
  have "unat (h - 0x21) = s + 0x52E4A40FA8BA"
    using assms by (simp add: unat_sub word_le_nat_alt h)
  moreover have "unat (0x1F :: u64) = 31" by simp
  ultimately have "unat ((h - 0x21) mod 0x1F) = (s + 0x52E4A40FA8BA) mod 31"
    by (simp only: unat_mod)
  then have "is_grease_value h \<longleftrightarrow> (s + 0x52E4A40FA8BA) mod 31 = 0"
    using assms by (simp add: is_grease_value_def GREASE_START_def GREASE_STEP_def
        word_le_nat_alt word_unat_eq_iff)
  also have "s + 0x52E4A40FA8BA = Suc s + 31 * 2940063177767" by simp
  also have "(Suc s + 31 * 2940063177767) mod 31 = Suc s mod 31" by (rule mod_mult_self2)
  also have "Suc s mod 31 = 0 \<longleftrightarrow> s mod 31 = 30" by (simp add: mod_Suc)
  finally show ?thesis by (simp add: s_def)
qed

lemma to_http3_not_grease: "\<not> is_grease_value (error_to_http3 c)"
proof -
  have "(unat c + unat c div 30) mod 31 \<noteq> 30"
    using mod_less_divisor [of 30 "unat c"] by (simp add: shift_up_mod)
  then show ?thesis
    by (simp add: to_http3_grease_offset [OF unat_to_http3_range(1)] unat_to_http3)
qed

lemma error_from_http3_None:
  "error_from_http3 h = None \<longleftrightarrow> unat h < 0x52E4A40FA8DB \<or> 0x52E5AC983162 < unat h"
  by (simp add: error_from_http3_def ERROR_FIRST_def ERROR_LAST_def word_less_nat_alt Let_def)

text \<open>The offsets of the HTTP/3 range fall into blocks of 31, the last of each being GREASE.\<close>

lemma offset_blocks:
  fixes s c :: nat
  shows "s - s div 31 = c \<longleftrightarrow> s = c + c div 30 \<or> (s mod 31 = 30 \<and> s + 1 = c + c div 30)"
proof -
  define q r a b where "q = s div 31" and "r = s mod 31" and "a = c div 30" and "b = c mod 30"
  have s: "s = 31 * q + r" and r: "r < 31" and c: "c = 30 * a + b" and b: "b < 30"
    by (simp_all add: q_def r_def a_def b_def)
  have l: "s - s div 31 = 30 * q + r" using s unfolding q_def [symmetric] by linarith
  have e: "c + c div 30 = 31 * a + b" using c unfolding a_def [symmetric] by linarith
  have "30 * q + r = 30 * a + b \<longleftrightarrow>
      31 * q + r = 31 * a + b \<or> (r = 30 \<and> 31 * q + r + 1 = 31 * a + b)"
    using r b by arith
  then show ?thesis unfolding l e r_def [symmetric] using s c by simp
qed

lemma error_from_http3_Some:
  "error_from_http3 h = Some c \<longleftrightarrow>
     ERROR_FIRST \<le> h \<and> (h = error_to_http3 c \<or> (is_grease_value h \<and> h + 1 = error_to_http3 c))"
proof (cases "0x52E4A40FA8DB \<le> unat h \<and> unat h \<le> 0x52E5AC983162")
  case True
  define s where "s = unat h - 0x52E4A40FA8DB"
  have h: "unat h = s + 0x52E4A40FA8DB" and s: "s \<le> 4438132871"
    using True unfolding s_def by linarith+
  have "s mod 31 < 31" by simp
  then have "s - s div 31 < 4294967296" using s div_mult_mod_eq [of s 31] by linarith
  then have "(of_nat (s - s div 31) :: u32) = c \<longleftrightarrow> s - s div 31 = unat c"
    by (simp add: word_unat_eq_iff unat_of_nat del: of_nat_diff)
  moreover have "error_from_http3 h = Some (of_nat (s - s div 31))"
    unfolding s_def using True by (intro error_from_http3_nat) simp_all
  ultimately have "error_from_http3 h = Some c \<longleftrightarrow> s - s div 31 = unat c"
    by (simp only: option.inject)
  also have "\<dots> \<longleftrightarrow> s = unat c + unat c div 30 \<or>
      (s mod 31 = 30 \<and> s + 1 = unat c + unat c div 30)"
    by (rule offset_blocks)
  also have "\<dots> \<longleftrightarrow> h = error_to_http3 c \<or> (is_grease_value h \<and> h + 1 = error_to_http3 c)"
  proof -
    have "unat (h + 1) = unat h + 1"
      using True by (simp add: unat_word_ariths)
    then have "h + 1 = error_to_http3 c \<longleftrightarrow> s + 1 = unat c + unat c div 30"
      unfolding word_unat_eq_iff unat_to_http3 h by linarith
    moreover have "h = error_to_http3 c \<longleftrightarrow> s = unat c + unat c div 30"
      unfolding word_unat_eq_iff unat_to_http3 h by linarith
    ultimately show ?thesis
      using to_http3_grease_offset [of h] True by (simp add: s_def)
  qed
  finally show ?thesis using True by (simp add: ERROR_FIRST_def word_le_nat_alt)
next
  case False
  have "h \<noteq> error_to_http3 c \<and> h + 1 \<noteq> error_to_http3 c" if "0x52E5AC983162 < unat h"
  proof -
    have "unat (error_to_http3 c - 1) \<le> unat (error_to_http3 c)"
      using unat_to_http3_range(1) [of c] by (subst unat_sub) (simp_all add: word_le_nat_alt)
    moreover have "h = error_to_http3 c - 1" if "h + 1 = error_to_http3 c"
      using that by (simp add: eq_diff_eq)
    ultimately show ?thesis
      using that unat_to_http3_range(2) [of c] by fastforce
  qed
  moreover have "error_from_http3 h = None" using False error_from_http3_None [of h] by linarith
  moreover have "ERROR_FIRST \<le> h \<Longrightarrow> 0x52E5AC983162 < unat h"
    using False by (simp add: ERROR_FIRST_def word_le_nat_alt)
  ultimately show ?thesis by auto
qed

subsection \<open>Properties\<close>

text \<open>
  C11. Every 32-bit application error code survives the trip through the HTTP/3 error space; its
  image lies in the range reserved for WebTransport, fits a varint and is never a GREASE
  codepoint, and two codes never share an image.
\<close>

theorem error_code_roundtrip:
  "error_from_http3 (error_to_http3 c) = Some c \<and>
   ERROR_FIRST \<le> error_to_http3 c \<and> error_to_http3 c \<le> ERROR_LAST \<and>
   VarInt_from_u64 (error_to_http3 c) = Ok (VarInt (error_to_http3 c)) \<and>
   \<not> is_grease_value (error_to_http3 c) \<and> inj error_to_http3"
proof (intro conjI)
  show "inj error_to_http3" by (rule injI) (rule h3_errors.to_inj)
qed (use unat_to_http3_range [of c] in \<open>simp_all add: h3_errors.from_to h3_errors.to_from_u64
  to_http3_not_grease word_le_nat_alt ERROR_FIRST_def ERROR_LAST_def\<close>)

text \<open>
  C30. Exactly which HTTP/3 codes \<^verbatim>\<open>error_from_http3\<close> accepts, inside the reserved range: the image
  of the code it returns, and also the GREASE codepoint directly below that image, which is the
  image of no code. Outside the range it returns nothing.
\<close>

theorem error_from_http3_exact:
  "(error_from_http3 h = Some c \<longleftrightarrow> ERROR_FIRST \<le> h \<and>
      (h = error_to_http3 c \<or> (is_grease_value h \<and> h + 1 = error_to_http3 c))) \<and>
   (error_from_http3 h = None \<longleftrightarrow> h < ERROR_FIRST \<or> h > ERROR_LAST)"
  by (simp add: error_from_http3_Some error_from_http3_None ERROR_FIRST_def ERROR_LAST_def
      word_less_nat_alt)

end
