(* ===== verification/Frame_Reader.thy ===== *)
theory Frame_Reader
  imports H3_Frames
begin

section \<open>Reading frames from an asynchronous stream\<close>

text \<open>
  \<^verbatim>\<open>Settings::read\<close>, \<^verbatim>\<open>connect::read_frame\<close> and \<^verbatim>\<open>Capsule::read\<close> share one way of reading: a type, a
  length checked against a limit before any allocation, then exactly that many payload bytes.
  The first two repeat it until the frame is not GREASE. Both pieces are here, with the limit and
  the error values of the caller as arguments. The stream may never end, so the loop takes fuel;
  \<^const>\<open>None\<close> says that it did not return within it. The lemmas relate both to the
  in-memory \<^verbatim>\<open>Frame::read\<close> on the bytes of the stream and show how much fuel is enough.
\<close>

subsection \<open>Definitions\<close>

definition read_tlv :: "'e \<Rightarrow> 'e \<Rightarrow> (io_error \<Rightarrow> 'e) \<Rightarrow> nat \<Rightarrow> 's reader \<Rightarrow> 's \<Rightarrow>
    ((VarInt \<times> bytes) \<times> 's, 'e) res" where
  "read_tlv unexpected_end too_long io limit rd s =
     and_then (map_err (\<lambda>_. unexpected_end) (VarInt_read rd s)) (\<lambda>(typ, s).
     and_then (map_err (\<lambda>_. unexpected_end) (VarInt_read rd s)) (\<lambda>(len, s).
     and_then (ok_or too_long (usize_try_from (into_inner len))) (\<lambda>len.
       if len > limit then Err too_long
       else and_then (map_err io (rd len s)) (\<lambda>(payload, s). Ok ((typ, payload), s)))))"

fun read_frame_loop :: "nat \<Rightarrow> ('s \<Rightarrow> ((VarInt \<times> bytes) \<times> 's, 'e) res) \<Rightarrow> 's \<Rightarrow>
    ((Frame \<times> bytes) \<times> 's, 'e) res option" where
  "read_frame_loop 0 next s = None"
| "read_frame_loop (Suc fuel) next s =
     (case next s of
        Ok ((typ, payload), s) \<Rightarrow>
          (if Frame_is_grease (Frame typ) then read_frame_loop fuel next s
           else Some (Ok ((Frame typ, payload), s)))
      | Err e \<Rightarrow> Some (Err e)
      | Panic \<Rightarrow> Some Panic)"

subsection \<open>One type-length-value record\<close>

lemma VarInt_read_Ok:
  assumes "reads_exactly rd content" and "VarInt_read rd s = Ok (v, s')"
  shows "VarInt_decode (content s) = Ok (v, content s')"
proof (cases "VarInt_decode (content s)")
  case (Ok p)
  then show ?thesis
    using VarInt_read_decode(1) [OF assms(1), of s "fst p" "snd p"] assms(2) by auto
next
  case (Err e)
  then show ?thesis using VarInt_read_decode(2) [OF assms(1), of s e] assms(2) by simp
qed simp

lemma VarInt_read_no_panic:
  assumes "reads_exactly rd content"
  shows "VarInt_read rd s \<noteq> Panic"
proof (cases "VarInt_decode (content s)")
  case (Ok p)
  then show ?thesis using VarInt_read_decode(1) [OF assms, of s "fst p" "snd p"] by auto
next
  case (Err e)
  then show ?thesis using VarInt_read_decode(2) [OF assms, of s e] by simp
qed simp

lemma read_exact_Ok:
  assumes "reads_exactly rd content" and "rd n s = Ok (bs, s')"
  shows "content s = bs @ content s'" and "length bs = n"
proof -
  have le: "n \<le> length (content s)"
    using reads_exactly_Err [OF assms(1), of s n] assms(2) by (metis not_less res.distinct(1))
  then have "rd n s = Ok (take n (content s), s') \<and> content s' = drop n (content s)"
    using assms unfolding reads_exactly_def by (metis prod.inject res.inject(1))
  then show "content s = bs @ content s'" "length bs = n" using assms(2) le by simp_all
qed

lemma read_exact_no_panic:
  assumes "reads_exactly rd content"
  shows "rd n s \<noteq> Panic"
  using assms unfolding reads_exactly_def
  by (metis not_less res.distinct(3) res.distinct(5))

lemma read_tlv_Ok:
  assumes rd: "reads_exactly rd content"
    and r: "read_tlv ue tlo io limit rd s = Ok ((typ, payload), s')"
  obtains len rest where "VarInt_decode (content s) = Ok (typ, rest)"
    and "VarInt_decode rest = Ok (len, payload @ content s')"
    and "unat (into_inner len) = length payload" and "length payload \<le> limit"
    and "varint_ok typ"
proof -
  from r obtain s1 len s2 where v: "VarInt_read rd s = Ok (typ, s1)" "VarInt_read rd s1 = Ok (len, s2)"
    and p: "rd (unat (into_inner len)) s2 = Ok (payload, s')" "unat (into_inner len) \<le> limit"
    by (auto simp: read_tlv_def split: if_splits)
  note d = VarInt_read_Ok [OF rd v(1)] VarInt_read_Ok [OF rd v(2)]
  show thesis
    using that [OF d(1), of len] d(2) read_exact_Ok [OF rd p(1)] p(2) VarInt_decode_varint_ok [OF d(1)]
    by simp
qed

lemma read_tlv_shorter:
  assumes "reads_exactly rd content" and "read_tlv ue tlo io limit rd s = Ok (f, s')"
  shows "length (content s') < length (content s)"
proof -
  obtain ty payload where f: "f = (ty, payload)" by (cases f)
  show ?thesis
    using assms unfolding f
    by (elim read_tlv_Ok) (fastforce dest!: VarInt_decode_shorter)+
qed

lemma read_tlv_no_panic:
  assumes "reads_exactly rd content"
  shows "read_tlv ue tlo io limit rd s \<noteq> Panic"
  using VarInt_read_no_panic [OF assms] read_exact_no_panic [OF assms]
  by (auto simp: read_tlv_def and_then_Panic_iff split: if_splits)

lemma VarInt_read_wire:
  assumes "reads_exactly rd content" and "content s = varint_wire v @ rest" and "varint_ok v"
  obtains s' where "VarInt_read rd s = Ok (v, s')" and "content s' = rest"
  using VarInt_read_decode(1) [OF assms(1), of s v rest] assms(2,3) by (auto simp: varint.dec_wire)

lemma read_tlv_wire:
  assumes rd: "reads_exactly rd content" and c: "content s = frame_wire (Frame typ, payload) @ rest"
    and ok: "varint_ok typ" "length payload < 2 ^ 62"
  shows "length payload \<le> limit \<Longrightarrow>
      \<exists>s'. read_tlv ue tlo io limit rd s = Ok ((typ, payload), s') \<and> content s' = rest"
    and "limit < length payload \<Longrightarrow> read_tlv ue tlo io limit rd s = Err tlo"
proof -
  obtain s1 where s1: "VarInt_read rd s = Ok (typ, s1)"
      "content s1 = varint_wire (VarInt (of_nat (length payload))) @ payload @ rest"
    using c ok(1) by (auto simp: frame_wire_def intro: VarInt_read_wire [OF rd])
  obtain s2 where s2: "VarInt_read rd s1 = Ok (VarInt (of_nat (length payload)), s2)"
      "content s2 = payload @ rest"
    using VarInt_read_wire [OF rd s1(2) VarInt_try_from_usize_ok(2) [OF ok(2)]] by blast
  obtain s3 where s3: "rd (length payload) s2 = Ok (payload, s3)" "content s3 = rest"
    using reads_exactly_Ok [OF rd s2(2)] by blast
  have n: "unat (of_nat (length payload) :: u64) = length payload"
    using ok(2) by (simp add: unat_of_nat)
  show "\<exists>s'. read_tlv ue tlo io limit rd s = Ok ((typ, payload), s') \<and> content s' = rest"
    if "length payload \<le> limit"
    using s1 s2 s3 n that by (simp add: read_tlv_def)
  show "read_tlv ue tlo io limit rd s = Err tlo" if "limit < length payload"
    using s1 s2 n that by (simp add: read_tlv_def)
qed

subsection \<open>The loop\<close>

lemma Frame_read_step:
  assumes "VarInt_decode b = Ok (typ, b1)" and "VarInt_decode b1 = Ok (len, payload @ rest)"
    and "unat (into_inner len) = length payload"
  shows "Frame_read b =
    (if Frame_is_grease (Frame typ) then Frame_read rest else Ok (Frame typ, payload, rest))"
  using assms by (subst Frame_read.simps) (simp add: Frame_decode_def)

lemma frames_fuel: "length gs \<le> length (concat (map frame_wire gs))"
proof (induction gs)
  case (Cons g gs)
  then show ?case using varint_wire_nonempty [of "frame_type (fst g)"]
    by (cases "varint_wire (frame_type (fst g))") (simp_all add: frame_wire_def)
qed simp

text \<open>A locale for the step of the loop: it consumes input and is a step of \<open>Frame_read\<close>.\<close>

locale frame_source =
  fixes "next" :: "'s \<Rightarrow> ((VarInt \<times> bytes) \<times> 's, 'e) res" and content :: "'s \<Rightarrow> bytes"
    and limit :: nat and too_long :: 'e
  assumes next_shorter: "next s = Ok (f, s') \<Longrightarrow> length (content s') < length (content s)"
    and next_frame: "next s = Ok ((typ, payload), s') \<Longrightarrow> Frame_read (content s) =
      (if Frame_is_grease (Frame typ) then Frame_read (content s')
       else Ok (Frame typ, payload, content s'))"
    and next_limit: "next s = Ok ((typ, payload), s') \<Longrightarrow> length payload \<le> limit \<and> varint_ok typ"
    and next_no_panic: "next s \<noteq> Panic"
    and next_wire: "content s = frame_wire (Frame typ, payload) @ rest \<Longrightarrow> varint_ok typ \<Longrightarrow>
      length payload < 2 ^ 62 \<Longrightarrow> length payload \<le> limit \<Longrightarrow>
      \<exists>s'. next s = Ok ((typ, payload), s') \<and> content s' = rest"
    and next_too_long: "content s = frame_wire (Frame typ, payload) @ rest \<Longrightarrow> varint_ok typ \<Longrightarrow>
      length payload < 2 ^ 62 \<Longrightarrow> limit < length payload \<Longrightarrow> next s = Err too_long"
begin

lemma loop_returns: "length (content s) < fuel \<Longrightarrow> read_frame_loop fuel next s \<noteq> None"
proof (induction fuel arbitrary: s)
  case (Suc fuel)
  then show ?case
    using next_shorter [of s] by (fastforce split: res.split)
qed simp

lemma loop_no_panic: "read_frame_loop fuel next s \<noteq> Some Panic"
  by (induction fuel arbitrary: s) (auto simp: next_no_panic split: res.split)

lemma loop_sound:
  "read_frame_loop fuel next s = Some (Ok ((typ, payload), s')) \<Longrightarrow>
   Frame_read (content s) = Ok (typ, payload, content s') \<and> length payload \<le> limit \<and>
   varint_ok (frame_type typ)"
proof (induction fuel arbitrary: s)
  case (Suc fuel)
  then show ?case
    by (auto simp: next_frame next_limit split: res.splits if_splits)
qed simp

text \<open>The frames in front are skipped, and the outcome is that of the frame behind them.\<close>

lemma loop_skips:
  assumes "\<forall>g \<in> set gs. frame_ok g \<and> Frame_is_grease (fst g) \<and> length (snd g) \<le> limit"
    and "content s = concat (map frame_wire gs) @ rest" and "length gs < fuel"
  shows "\<exists>n s'. read_frame_loop fuel next s = read_frame_loop (Suc n) next s' \<and> content s' = rest"
  using assms
proof (induction gs arbitrary: s fuel)
  case Nil
  then show ?case by (cases fuel) auto
next
  case (Cons g gs)
  obtain t p where g: "g = (Frame t, p)" by (metis Frame.exhaust prod.exhaust)
  from Cons.prems obtain n where n: "fuel = Suc n" "length gs < n" by (cases fuel) auto
  have "content s = frame_wire (Frame t, p) @ concat (map frame_wire gs) @ rest"
    using Cons.prems g by simp
  then obtain s1 where s1: "next s = Ok ((t, p), s1)" "content s1 = concat (map frame_wire gs) @ rest"
    using next_wire [of s t p] Cons.prems g by (auto simp: frame_ok_def)
  have "\<exists>k s'. read_frame_loop n next s1 = read_frame_loop (Suc k) next s' \<and> content s' = rest"
    using Cons.prems s1(2) n(2) by (intro Cons.IH) simp_all
  then show ?case using s1(1) n(1) Cons.prems(1) g by (simp del: read_frame_loop.simps(2) add: read_frame_loop.simps(2) [of n _ s])
qed

lemma loop_complete:
  assumes "\<forall>g \<in> set gs. frame_ok g \<and> Frame_is_grease (fst g) \<and> length (snd g) \<le> limit"
    and "content s = concat (map frame_wire gs) @ frame_wire (typ, payload) @ rest"
    and "length gs < fuel" and "frame_ok (typ, payload)" and "\<not> Frame_is_grease typ"
    and "length payload \<le> limit"
  shows "\<exists>s'. read_frame_loop fuel next s = Some (Ok ((typ, payload), s')) \<and> content s' = rest"
proof -
  obtain n s1 where r: "read_frame_loop fuel next s = read_frame_loop (Suc n) next s1"
      "content s1 = frame_wire (typ, payload) @ rest"
    using loop_skips [OF assms(1-3)] by blast
  from r(2) obtain s' where "next s1 = Ok ((frame_type typ, payload), s')" "content s' = rest"
    using next_wire [of s1 "frame_type typ" payload rest] assms by (auto simp: frame_ok_def)
  then show ?thesis using r(1) assms(5) by simp
qed

lemma loop_too_long:
  assumes "\<forall>g \<in> set gs. frame_ok g \<and> Frame_is_grease (fst g) \<and> length (snd g) \<le> limit"
    and "content s = concat (map frame_wire gs) @ frame_wire (typ, payload) @ rest"
    and "length gs < fuel" and "frame_ok (typ, payload)" and "limit < length payload"
  shows "read_frame_loop fuel next s = Some (Err too_long)"
proof -
  obtain n s1 where r: "read_frame_loop fuel next s = read_frame_loop (Suc n) next s1"
      "content s1 = frame_wire (typ, payload) @ rest"
    using loop_skips [OF assms(1-3)] by blast
  then show ?thesis
    using next_too_long [of s1 "frame_type typ" payload rest] assms(4,5) by (simp add: frame_ok_def)
qed

end

lemma frame_source_read_tlv:
  assumes "reads_exactly rd content"
  shows "frame_source (read_tlv ue tlo io limit rd) content limit tlo"
proof
  show "length (content s') < length (content s)" if "read_tlv ue tlo io limit rd s = Ok (f, s')"
    for s f s'
    using assms that by (rule read_tlv_shorter)
  show "Frame_read (content s) = (if Frame_is_grease (Frame ty) then Frame_read (content s')
      else Ok (Frame ty, payload, content s'))"
    if "read_tlv ue tlo io limit rd s = Ok ((ty, payload), s')" for s ty payload s'
    using assms that by (rule read_tlv_Ok) (rule Frame_read_step)
  show "length payload \<le> limit \<and> varint_ok ty"
    if "read_tlv ue tlo io limit rd s = Ok ((ty, payload), s')" for s ty payload s'
    using assms that by (rule read_tlv_Ok) simp
qed (simp_all add: read_tlv_no_panic [OF assms] read_tlv_wire [OF assms])

text \<open>The reader of an in-memory slice gives such a source.\<close>

interpretation slice_frames: frame_source "read_tlv ue tlo io limit slice_read" "\<lambda>s. s" limit tlo
  for ue tlo io limit
  by (rule frame_source_read_tlv) (rule slice_reads_exactly)

end
