(* ===== verification/Settings.thy ===== *)
theory Settings
  imports Frame_Reader
begin

section \<open>The HTTP/3 SETTINGS exchange\<close>

text \<open>
  \<^verbatim>\<open>webtrans-proto/src/settings.rs\<close>: setting identifiers, the settings map with its decoder,
  asynchronous reader, encoder and writer, the parameters an endpoint advertises, and the tests
  that decide whether a peer's settings allow WebTransport. The map dereferences to its
  \<^verbatim>\<open>HashMap\<close>, so it is one here. The lemmas describe the decoder by the list of entries in the
  payload, show that it accepts exactly the maps the encoder can write, that the reader agrees
  with the decoder on the bytes of the stream, and that an endpoint accepts the settings the
  other side of this library advertises.
\<close>

subsection \<open>Definitions\<close>

definition MAX_SETTINGS_FRAME_SIZE :: nat where "MAX_SETTINGS_FRAME_SIZE = 16 * 1024"

datatype Setting = Setting (setting_id: VarInt)

definition Setting_decode :: "bytes \<Rightarrow> (Setting \<times> bytes, VarIntUnexpectedEnd) res" where
  "Setting_decode buf = and_then (VarInt_decode buf) (\<lambda>(v, buf). Ok (Setting v, buf))"

definition Setting_encode :: "Setting \<Rightarrow> bytes \<Rightarrow> (bytes, 'e) res" where
  "Setting_encode s buf = VarInt_encode (setting_id s) buf"

definition Setting_size :: "Setting \<Rightarrow> (nat, 'e) res" where
  "Setting_size s = VarInt_size (setting_id s)"

definition Setting_is_grease :: "Setting \<Rightarrow> bool" where
  "Setting_is_grease s = is_grease_value (into_inner (setting_id s))"

definition Setting_from_u32 :: "u32 \<Rightarrow> Setting" where
  "Setting_from_u32 value = Setting (VarInt_from_u32 value)"

definition QPACK_MAX_TABLE_CAPACITY :: Setting where
  "QPACK_MAX_TABLE_CAPACITY = Setting_from_u32 0x1"

definition MAX_FIELD_SECTION_SIZE :: Setting where
  "MAX_FIELD_SECTION_SIZE = Setting_from_u32 0x6"

definition QPACK_BLOCKED_STREAMS :: Setting where
  "QPACK_BLOCKED_STREAMS = Setting_from_u32 0x7"

definition ENABLE_CONNECT_PROTOCOL :: Setting where
  "ENABLE_CONNECT_PROTOCOL = Setting_from_u32 0x8"

definition ENABLE_DATAGRAM :: Setting where
  "ENABLE_DATAGRAM = Setting_from_u32 0x33"

definition ENABLE_DATAGRAM_DEPRECATED :: Setting where
  "ENABLE_DATAGRAM_DEPRECATED = Setting_from_u32 0xFFD277"

definition WEBTRANSPORT_ENABLE_DEPRECATED :: Setting where
  "WEBTRANSPORT_ENABLE_DEPRECATED = Setting_from_u32 0x2B603742"

definition WEBTRANSPORT_MAX_SESSIONS_DEPRECATED :: Setting where
  "WEBTRANSPORT_MAX_SESSIONS_DEPRECATED = Setting_from_u32 0x2B603743"

definition WEBTRANSPORT_MAX_SESSIONS :: Setting where
  "WEBTRANSPORT_MAX_SESSIONS = Setting_from_u32 0xC671706A"

definition WT_ENABLED :: Setting where
  "WT_ENABLED = Setting_from_u32 0x2C7CF000"

datatype SettingsError = SettingsError_UnexpectedEnd
  | SettingsError_UnexpectedStreamType UniStream
  | SettingsError_UnexpectedFrame Frame
  | SettingsError_InvalidSize
  | SettingsError_DuplicateSetting Setting
  | SettingsError_InvalidValue Setting VarInt
  | SettingsError_MessageTooLong
  | SettingsError_Io io_error

type_synonym Settings = "(Setting, VarInt) hash_map"

text \<open>The identifiers of the \<^verbatim>\<open>matches!\<close> in \<^verbatim>\<open>decode\<close>: their value must be zero or one.\<close>

definition boolean_setting :: "Setting \<Rightarrow> bool" where
  "boolean_setting ident \<longleftrightarrow> ident \<in> {ENABLE_CONNECT_PROTOCOL, ENABLE_DATAGRAM, ENABLE_DATAGRAM_DEPRECATED,
     WEBTRANSPORT_ENABLE_DEPRECATED, WT_ENABLED}"

text \<open>The \<^verbatim>\<open>while data.has_remaining()\<close> loop of \<^verbatim>\<open>decode\<close>.\<close>

function Settings_decode_loop :: "bytes \<Rightarrow> Settings \<Rightarrow> (Settings, SettingsError) res" where
  "Settings_decode_loop data settings =
     (if data = [] then Ok settings
      else and_then (map_err (\<lambda>_. SettingsError_InvalidSize) (Setting_decode data)) (\<lambda>(ident, data).
           and_then (map_err (\<lambda>_. SettingsError_InvalidSize) (VarInt_decode data)) (\<lambda>(value, data).
             if \<not> Setting_is_grease ident then
               if map_of settings ident \<noteq> None then Err (SettingsError_DuplicateSetting ident)
               else if boolean_setting ident \<and> into_inner value > 1
                 then Err (SettingsError_InvalidValue ident value)
               else Settings_decode_loop data (AList.update ident value settings)
             else Settings_decode_loop data settings)))"
  by pat_completeness auto
termination
  by (relation "measure (length \<circ> fst)") (auto simp: Setting_decode_def dest!: VarInt_decode_shorter)

declare Settings_decode_loop.simps [simp del]

definition Settings_decode :: "bytes \<Rightarrow> (Settings \<times> bytes, SettingsError) res" where
  "Settings_decode buf =
     and_then (map_err (\<lambda>_. SettingsError_UnexpectedEnd) (UniStream_decode buf)) (\<lambda>(typ, buf).
       if typ \<noteq> UniStream_CONTROL then Err (SettingsError_UnexpectedStreamType typ)
       else
         and_then (map_err (\<lambda>_. SettingsError_UnexpectedEnd) (Frame_read buf)) (\<lambda>(typ, data, buf).
           if typ \<noteq> Frame_SETTINGS then Err (SettingsError_UnexpectedFrame typ)
           else map_ok (\<lambda>settings. (settings, buf)) (Settings_decode_loop data [])))"

text \<open>
  \<^verbatim>\<open>read\<close>: the stream type, then the loop up to a frame that is not GREASE, then that frame is
  encoded again behind the stream type and decoded from memory.
\<close>

definition Settings_read :: "nat \<Rightarrow> 's reader \<Rightarrow> 's \<Rightarrow> (Settings \<times> 's, SettingsError) res option" where
  "Settings_read fuel rd s =
     (case and_then (map_err (\<lambda>_. SettingsError_UnexpectedEnd) (VarInt_read rd s)) (\<lambda>(v, s).
             if UniStream v \<noteq> UniStream_CONTROL then Err (SettingsError_UnexpectedStreamType (UniStream v))
             else Ok (UniStream v, s)) of
        Ok (stream_typ, s) \<Rightarrow>
          map_option (\<lambda>r. and_then r (\<lambda>((typ, payload), s).
            and_then (VarInt_size (stream_type stream_typ)) (\<lambda>_.
            and_then (VarInt_size (frame_type typ)) (\<lambda>_.
            and_then (UniStream_encode stream_typ []) (\<lambda>frame.
            and_then (Frame_encode typ frame) (\<lambda>frame.
            and_then (map_err (\<lambda>_. SettingsError_MessageTooLong)
              (VarInt_try_from_usize (length payload))) (\<lambda>len.
            and_then (VarInt_encode len frame) (\<lambda>frame.
            and_then (Settings_decode (frame @ payload)) (\<lambda>(settings, _).
              Ok (settings, s))))))))))
          (read_frame_loop fuel (read_tlv SettingsError_UnexpectedEnd SettingsError_MessageTooLong
             SettingsError_Io MAX_SETTINGS_FRAME_SIZE rd) s)
      | Err e \<Rightarrow> Some (Err e)
      | Panic \<Rightarrow> Some Panic)"

fun Settings_payload_len :: "Settings \<Rightarrow> (nat, 'e) res" where
  "Settings_payload_len [] = Ok 0"
| "Settings_payload_len ((ident, value) # m) =
     and_then (Setting_size ident) (\<lambda>a. and_then (VarInt_size value) (\<lambda>b.
     and_then (Settings_payload_len m) (\<lambda>n. Ok (a + b + n))))"

fun Settings_encode_entries :: "Settings \<Rightarrow> bytes \<Rightarrow> (bytes, 'e) res" where
  "Settings_encode_entries [] buf = Ok buf"
| "Settings_encode_entries ((ident, value) # m) buf =
     and_then (Setting_encode ident buf) (\<lambda>buf. and_then (VarInt_encode value buf) (\<lambda>buf.
       Settings_encode_entries m buf))"

definition Settings_encode :: "(Settings \<Rightarrow> Settings) \<Rightarrow> Settings \<Rightarrow> bytes \<Rightarrow> (bytes, 'e) res" where
  "Settings_encode ho settings buf =
     and_then (UniStream_encode UniStream_CONTROL buf) (\<lambda>buf.
     and_then (Frame_encode Frame_SETTINGS buf) (\<lambda>buf.
     and_then (Settings_payload_len (ho settings)) (\<lambda>payload_len.
     and_then (unwrap (VarInt_from_u64 (of_nat payload_len))) (\<lambda>len.
     and_then (VarInt_encode len buf) (\<lambda>buf.
       Settings_encode_entries (ho settings) buf)))))"

definition Settings_encoded_len :: "(Settings \<Rightarrow> Settings) \<Rightarrow> Settings \<Rightarrow> (nat, 'e) res" where
  "Settings_encoded_len ho settings =
     and_then (Settings_payload_len (ho settings)) (\<lambda>payload_len.
     and_then (VarInt_size (stream_type UniStream_CONTROL)) (\<lambda>a.
     and_then (VarInt_size (frame_type Frame_SETTINGS)) (\<lambda>b.
     and_then (unwrap (VarInt_from_u64 (of_nat payload_len))) (\<lambda>len.
     and_then (VarInt_size len) (\<lambda>c. Ok (a + b + c + payload_len))))))"

definition Settings_write :: "(Settings \<Rightarrow> Settings) \<Rightarrow> (bytes \<Rightarrow> 's \<Rightarrow> ('s, io_error) res) \<Rightarrow>
    Settings \<Rightarrow> 's \<Rightarrow> ('s, SettingsError) res" where
  "Settings_write ho wr settings s =
     and_then (Settings_encoded_len ho settings) (\<lambda>_.
     and_then (Settings_encode ho settings []) (\<lambda>buf. map_err SettingsError_Io (wr buf s)))"

definition enable_webtransport_internal :: "u32 \<Rightarrow> bool \<Rightarrow> Settings \<Rightarrow> Settings" where
  "enable_webtransport_internal max_sessions include_deprecated m =
     (let mx = VarInt_from_u32 max_sessions;
          m = AList.update ENABLE_CONNECT_PROTOCOL (VarInt_from_u32 1) m;
          m = AList.update ENABLE_DATAGRAM (VarInt_from_u32 1) m;
          m = AList.update ENABLE_DATAGRAM_DEPRECATED (VarInt_from_u32 1) m;
          m = AList.update WT_ENABLED (VarInt_from_u32 1) m;
          m = AList.update WEBTRANSPORT_MAX_SESSIONS mx m
      in if include_deprecated then
           AList.update WEBTRANSPORT_ENABLE_DEPRECATED (VarInt_from_u32 1)
             (AList.update WEBTRANSPORT_MAX_SESSIONS_DEPRECATED mx m)
         else AList.delete WEBTRANSPORT_ENABLE_DEPRECATED
             (AList.delete WEBTRANSPORT_MAX_SESSIONS_DEPRECATED m))"

definition enable_webtransport :: "u32 \<Rightarrow> Settings \<Rightarrow> Settings" where
  "enable_webtransport max_sessions m = enable_webtransport_internal max_sessions True m"

definition enable_webtransport_latest :: "u32 \<Rightarrow> Settings \<Rightarrow> Settings" where
  "enable_webtransport_latest max_sessions m = enable_webtransport_internal max_sessions False m"

text \<open>\<^verbatim>\<open>self.get(id).map(|v| v.into_inner())\<close>.\<close>

definition setting_value :: "Settings \<Rightarrow> Setting \<Rightarrow> u64 option" where
  "setting_value m ident = map_option into_inner (map_of m ident)"

definition supports_webtransport :: "Settings \<Rightarrow> u64" where
  "supports_webtransport m =
     (if setting_value m WT_ENABLED = Some 1 \<and> setting_value m ENABLE_DATAGRAM = Some 1 then 1
      else
        let datagram = (case map_of m ENABLE_DATAGRAM of Some v \<Rightarrow> Some (into_inner v)
              | None \<Rightarrow> setting_value m ENABLE_DATAGRAM_DEPRECATED)
        in if datagram \<noteq> Some 1 then 0
           else (case map_of m WEBTRANSPORT_MAX_SESSIONS of Some v \<Rightarrow> into_inner v
             | None \<Rightarrow>
                if setting_value m WEBTRANSPORT_ENABLE_DEPRECATED \<noteq> Some 1 then 0
                else (case setting_value m WEBTRANSPORT_MAX_SESSIONS_DEPRECATED of
                    Some v \<Rightarrow> v | None \<Rightarrow> 1)))"

definition supports_webtransport_server :: "Settings \<Rightarrow> bool" where
  "supports_webtransport_server m \<longleftrightarrow>
     (setting_value m WT_ENABLED = Some 1 \<and> setting_value m ENABLE_CONNECT_PROTOCOL = Some 1 \<and>
      setting_value m ENABLE_DATAGRAM = Some 1) \<or>
     (supports_webtransport m > 0 \<and> map_of m WT_ENABLED = None)"

definition supports_webtransport_client :: "Settings \<Rightarrow> bool" where
  "supports_webtransport_client m \<longleftrightarrow>
     (setting_value m WT_ENABLED = Some 1 \<and> setting_value m ENABLE_DATAGRAM = Some 1) \<or>
     (supports_webtransport m > 0 \<and> map_of m WT_ENABLED = None)"

subsection \<open>Entries on the wire\<close>

interpretation setting: codec Setting_encode Setting_decode "\<lambda>i. varint_wire (setting_id i)"
    "\<lambda>i. varint_ok (setting_id i)"
  by unfold_locales
    (auto simp: Setting_encode_def Setting_decode_def varint.enc_wire varint.dec_wire
      varint_wire_nonempty)

interpretation setting_entry: codec_pair Setting_encode Setting_decode
    "\<lambda>i. varint_wire (setting_id i)" "\<lambda>i. varint_ok (setting_id i)"
    VarInt_encode VarInt_decode varint_wire varint_ok ..

definition entry_wire :: "Setting \<times> VarInt \<Rightarrow> bytes" where
  "entry_wire p = varint_wire (setting_id (fst p)) @ varint_wire (snd p)"

definition entry_ok :: "Setting \<times> VarInt \<Rightarrow> bool" where
  "entry_ok p \<longleftrightarrow> varint_ok (setting_id (fst p)) \<and> varint_ok (snd p)"

definition settings_payload :: "Settings \<Rightarrow> bytes" where
  "settings_payload m = concat (map entry_wire m)"

definition settings_wire :: "Settings \<Rightarrow> bytes" where
  "settings_wire m =
     varint_wire (stream_type UniStream_CONTROL) @ frame_wire (Frame_SETTINGS, settings_payload m)"

text \<open>
  What the decoder accepts: distinct identifiers, no GREASE identifier, and zero or one for the
  boolean settings.
\<close>

definition setting_allowed :: "Setting \<times> VarInt \<Rightarrow> bool" where
  "setting_allowed p \<longleftrightarrow> \<not> Setting_is_grease (fst p) \<and>
     (boolean_setting (fst p) \<longrightarrow> into_inner (snd p) \<le> 1)"

definition settings_valid :: "Settings \<Rightarrow> bool" where
  "settings_valid m \<longleftrightarrow> hash_map_ok m \<and> (\<forall>p \<in> set m. entry_ok p \<and> setting_allowed p)"

definition non_grease :: "Settings \<Rightarrow> Settings" where
  "non_grease xs = filter (\<lambda>p. \<not> Setting_is_grease (fst p)) xs"

lemma entry_wire_nonempty [simp]: "entry_wire p \<noteq> []"
  by (simp add: entry_wire_def varint_wire_nonempty)

lemma length_settings_payload: "length (settings_payload m) \<le> 16 * length m"
proof (induction m)
  case (Cons p m)
  have "length (entry_wire p) \<le> 16"
    using length_varint_wire_le [of "setting_id (fst p)"] length_varint_wire_le [of "snd p"]
    by (simp add: entry_wire_def)
  then show ?case using Cons by (simp add: settings_payload_def)
qed (simp add: settings_payload_def)

lemma Settings_payload_len_ok:
  "\<forall>p \<in> set m. entry_ok p \<Longrightarrow> Settings_payload_len m = Ok (length (settings_payload m))"
  by (induction m)
    (auto simp: settings_payload_def entry_wire_def entry_ok_def Setting_size_def VarInt_size_ok)

lemma Settings_encode_entries_ok:
  "\<forall>p \<in> set m. entry_ok p \<Longrightarrow> Settings_encode_entries m buf = Ok (buf @ settings_payload m)"
  by (induction m arbitrary: buf)
    (auto simp: settings_payload_def entry_wire_def entry_ok_def setting.enc_wire varint.enc_wire)

lemma settings_payload_bound: "length m < 2 ^ 58 \<Longrightarrow> length (settings_payload m) < 2 ^ 62"
  using length_settings_payload [of m] by simp

lemma Settings_encode_ok:
  assumes "\<forall>p \<in> set (ho m). entry_ok p" and "length (ho m) < 2 ^ 58"
  shows "Settings_encode ho m buf = Ok (buf @ settings_wire (ho m))"
    and "Settings_encoded_len ho m = Ok (length (settings_wire (ho m)))"
  using assms VarInt_try_from_usize_ok [OF settings_payload_bound, OF assms(2)]
  by (simp_all add: Settings_encode_def Settings_encoded_len_def settings_wire_def frame_wire_def
      stream_type.enc_wire frame_type.enc_wire Settings_payload_len_ok Settings_encode_entries_ok
      varint.enc_wire VarInt_size_ok flip: VarInt_try_from_usize_def)

subsection \<open>The decoding loop\<close>

text \<open>What the loop does with the entries of a payload, whichever way they are encoded.\<close>

fun settings_collect :: "Settings \<Rightarrow> Settings \<Rightarrow> (Settings, SettingsError) res" where
  "settings_collect [] acc = Ok acc"
| "settings_collect ((i, v) # xs) acc =
     (if Setting_is_grease i then settings_collect xs acc
      else if map_of acc i \<noteq> None then Err (SettingsError_DuplicateSetting i)
      else if boolean_setting i \<and> into_inner v > 1 then Err (SettingsError_InvalidValue i v)
      else settings_collect xs (acc @ [(i, v)]))"

lemma update_new: "map_of m i = None \<Longrightarrow> AList.update i v m = m @ [(i, v)]"
  by (induction m) (auto split: if_splits)

lemma Settings_decode_loop_entries:
  "\<forall>p \<in> set xs. entry_ok p \<Longrightarrow> Settings_decode_loop (settings_payload xs) acc = settings_collect xs acc"
proof (induction xs arbitrary: acc)
  case Nil
  show ?case by (subst Settings_decode_loop.simps) (simp add: settings_payload_def)
next
  case (Cons p xs)
  obtain i v where p: "p = (i, v)" by (cases p)
  have "settings_payload (p # xs) = varint_wire (setting_id i) @ varint_wire v @ settings_payload xs"
    by (simp add: settings_payload_def entry_wire_def p)
  then show ?case
    using Cons by (subst Settings_decode_loop.simps)
      (simp add: p entry_ok_def setting.dec_wire varint.dec_wire varint_wire_nonempty update_new)
qed

lemma settings_collect_Ok_iff:
  "settings_collect xs acc = Ok m \<longleftrightarrow>
     m = acc @ non_grease xs \<and> distinct (map fst (non_grease xs)) \<and>
     fst ` set (non_grease xs) \<inter> fst ` set acc = {} \<and> (\<forall>p \<in> set (non_grease xs). setting_allowed p)"
proof (induction xs arbitrary: acc)
  case (Cons p xs)
  then show ?case
    by (cases p) (auto simp: non_grease_def setting_allowed_def not_less map_of_eq_None_iff image_iff)
qed (auto simp: non_grease_def)

lemma settings_collect_append:
  "settings_collect (xs @ ys) acc = and_then (settings_collect xs acc) (settings_collect ys)"
  by (induction xs acc rule: settings_collect.induct) auto

lemma settings_collect_no_panic: "settings_collect xs acc \<noteq> Panic"
  by (induction xs acc rule: settings_collect.induct) auto

lemma Settings_decode_wire:
  assumes "\<forall>p \<in> set xs. entry_ok p" and "length xs < 2 ^ 58"
  shows "Settings_decode (settings_wire xs @ rest) = map_ok (\<lambda>m. (m, rest)) (settings_collect xs [])"
  using assms settings_payload_bound [OF assms(2)]
  by (simp add: Settings_decode_def settings_wire_def stream_type.dec_wire Frame_read_wire frame_ok_def
      Settings_decode_loop_entries)

text \<open>Whatever a payload decodes to, its entries do; an entry may be encoded in a longer form.\<close>

lemma Settings_decode_loop_collect:
  "Settings_decode_loop data acc = Ok m \<Longrightarrow>
   \<exists>xs. (\<forall>p \<in> set xs. entry_ok p) \<and> settings_collect xs acc = Ok m"
proof (induction data acc rule: Settings_decode_loop.induct)
  case (1 data acc)
  show ?case
  proof (cases "data = []")
    case True
    then show ?thesis using "1.prems" by (auto simp: Settings_decode_loop.simps intro: exI [of _ "[]"])
  next
    case False
    let ?bad = "\<lambda>_ :: VarIntUnexpectedEnd. SettingsError_InvalidSize"
    from False "1.prems" obtain i d1 v d2 where d: "map_err ?bad (Setting_decode data) = Ok (i, d1)"
        "map_err ?bad (VarInt_decode d1) = Ok (v, d2)"
      by (subst (asm) Settings_decode_loop.simps) auto
    have ok: "entry_ok (i, v)"
      using d by (auto simp: Setting_decode_def entry_ok_def dest!: VarInt_decode_varint_ok)
    have step: "Ok m = (if \<not> Setting_is_grease i then
        if map_of acc i \<noteq> None then Err (SettingsError_DuplicateSetting i)
        else if boolean_setting i \<and> into_inner v > 1 then Err (SettingsError_InvalidValue i v)
        else Settings_decode_loop d2 (AList.update i v acc) else Settings_decode_loop d2 acc)"
      using "1.prems" False d by (subst (asm) Settings_decode_loop.simps) simp
    note ih = "1.IH" [OF False d(1) refl d(2) refl]
    have "\<exists>xs. (\<forall>p \<in> set xs. entry_ok p) \<and> settings_collect ((i, v) # xs) acc = Ok m"
      using step ih by (auto simp: update_new split: if_splits)
    then show ?thesis using ok by (metis set_ConsD)
  qed
qed

lemma Settings_decode_loop_no_panic: "Settings_decode_loop data acc \<noteq> Panic"
proof (induction data acc rule: Settings_decode_loop.induct)
  case (1 data acc)
  have "Setting_decode data \<noteq> Panic" by (auto simp: Setting_decode_def and_then_Panic_iff)
  with 1 show ?case
    by (subst Settings_decode_loop.simps) (auto simp: and_then_Panic_iff)
qed

lemma settings_collect_valid:
  assumes "settings_collect xs [] = Ok m" and "\<forall>p \<in> set xs. entry_ok p"
  shows "settings_valid m"
  using assms
  by (auto simp: settings_collect_Ok_iff settings_valid_def hash_map_ok_def non_grease_def)

lemma Settings_decode_Ok:
  assumes "Settings_decode buf = Ok (m, rest)"
  obtains b1 data where "UniStream_decode buf = Ok (UniStream_CONTROL, b1)"
    and "Frame_read b1 = Ok (Frame_SETTINGS, data, rest)" and "Settings_decode_loop data [] = Ok m"
  using assms by (auto simp: Settings_decode_def split: if_splits)

lemma Settings_decode_valid: "Settings_decode buf = Ok (m, rest) \<Longrightarrow> settings_valid m"
  by (auto elim!: Settings_decode_Ok dest!: Settings_decode_loop_collect intro: settings_collect_valid)

lemma Settings_decode_no_panic [simp]: "Settings_decode buf \<noteq> Panic"
proof -
  have "UniStream_decode buf \<noteq> Panic" by (auto simp: UniStream_decode_def and_then_Panic_iff)
  then show ?thesis
    by (auto simp: Settings_decode_def and_then_Panic_iff Settings_decode_loop_no_panic)
qed

subsection \<open>The asynchronous reader\<close>

lemma settings_limit: "n \<le> MAX_SETTINGS_FRAME_SIZE \<Longrightarrow> n < 2 ^ 62"
  by (simp add: MAX_SETTINGS_FRAME_SIZE_def)

lemma settings_source: "reads_exactly rd content \<Longrightarrow>
    frame_source (read_tlv ue tlo io MAX_SETTINGS_FRAME_SIZE rd) content MAX_SETTINGS_FRAME_SIZE tlo"
  by (rule frame_source_read_tlv)

lemma UniStream_eq_iff: "UniStream v = st \<longleftrightarrow> v = stream_type st"
  by (cases st) auto

text \<open>The frame that \<^verbatim>\<open>read\<close> rebuilds decodes like the frame that was received.\<close>

lemma Settings_decode_rebuilt:
  assumes "UniStream_decode buf = Ok (UniStream_CONTROL, b1)" and "Frame_read b1 = Ok (ty, payload, rest)"
    and "frame_ok (ty, payload)"
  shows "Settings_decode (varint_wire (stream_type UniStream_CONTROL) @ frame_wire (ty, payload)) =
    map_ok (\<lambda>(m, _). (m, [])) (Settings_decode buf)"
proof -
  have "\<not> Frame_is_grease ty" using Frame_read_Ok [OF assms(2)] by simp
  then have "Frame_read (frame_wire (ty, payload)) = Ok (ty, payload, [])"
    using Frame_read_wire [OF assms(3), of "[]"] by simp
  then show ?thesis
    using assms(1,2) stream_type.dec_wire [of UniStream_CONTROL "frame_wire (ty, payload)"]
    by (cases "Settings_decode_loop payload []") (simp_all add: Settings_decode_def)
qed

text \<open>One unfolding of \<^verbatim>\<open>read\<close> over the outcome of its loop.\<close>

lemma Settings_read_control:
  assumes rd: "reads_exactly rd content"
    and st: "VarInt_read rd s = Ok (stream_type UniStream_CONTROL, s1)"
    and lp: "read_frame_loop fuel (read_tlv SettingsError_UnexpectedEnd SettingsError_MessageTooLong
       SettingsError_Io MAX_SETTINGS_FRAME_SIZE rd) s1 = Some (Ok ((ty, payload), s2))"
  shows "Settings_read fuel rd s = Some (map_ok (\<lambda>(m, _). (m, s2)) (Settings_decode (content s)))"
    and "Frame_read (content s1) = Ok (ty, payload, content s2)"
proof -
  note sound = frame_source.loop_sound [OF settings_source [OF rd] lp]
  then show fr: "Frame_read (content s1) = Ok (ty, payload, content s2)" by simp
  have ok: "frame_ok (ty, payload)" using sound settings_limit by (simp add: frame_ok_def)
  have dec: "UniStream_decode (content s) = Ok (UniStream_CONTROL, content s1)"
    using VarInt_read_Ok [OF rd st] by (simp add: UniStream_decode_def)
  show "Settings_read fuel rd s = Some (map_ok (\<lambda>(m, _). (m, s2)) (Settings_decode (content s)))"
    using st lp ok Settings_decode_rebuilt [OF dec fr ok]
    by (cases "Settings_decode (content s)")
      (auto simp: Settings_read_def frame_ok_def VarInt_size_ok stream_type.enc_wire frame_type.enc_wire
        varint.enc_wire VarInt_try_from_usize_ok frame_wire_def)
qed

lemma Settings_read_Ok:
  assumes rd: "reads_exactly rd content" and r: "Settings_read fuel rd s = Some (Ok (m, s'))"
  shows "Settings_decode (content s) = Ok (m, content s')"
proof -
  from r obtain s1 ty payload s2 where
      st: "VarInt_read rd s = Ok (stream_type UniStream_CONTROL, s1)" and
      lp: "read_frame_loop fuel (read_tlv SettingsError_UnexpectedEnd SettingsError_MessageTooLong
       SettingsError_Io MAX_SETTINGS_FRAME_SIZE rd) s1 = Some (Ok ((ty, payload), s2))"
    by (auto simp: Settings_read_def UniStream_eq_iff split: res.splits if_splits)
  note c = Settings_read_control [OF rd st lp]
  have "UniStream_decode (content s) = Ok (UniStream_CONTROL, content s1)"
    using VarInt_read_Ok [OF rd st] by (simp add: UniStream_decode_def)
  then show ?thesis using c r
    by (cases "Settings_decode_loop payload []") (auto simp: Settings_decode_def split: if_splits)
qed

lemma Settings_read_returns:
  assumes rd: "reads_exactly rd content" and f: "length (content s) < fuel"
  shows "Settings_read fuel rd s \<noteq> None" and "Settings_read fuel rd s \<noteq> Some Panic"
proof -
  let ?next = "read_tlv SettingsError_UnexpectedEnd SettingsError_MessageTooLong
       SettingsError_Io MAX_SETTINGS_FRAME_SIZE rd"
  show "Settings_read fuel rd s \<noteq> Some Panic"
  proof
    assume p: "Settings_read fuel rd s = Some Panic"
    have np: "read_frame_loop fuel ?next s1 \<noteq> Some Panic" for s1
      by (rule frame_source.loop_no_panic [OF settings_source [OF rd]])
    from p obtain s1 r where st: "VarInt_read rd s = Ok (stream_type UniStream_CONTROL, s1)"
        and lp: "read_frame_loop fuel ?next s1 = Some r"
      using VarInt_read_no_panic [OF rd, of s]
      by (auto simp: Settings_read_def UniStream_eq_iff and_then_Panic_iff
          split: res.splits if_splits)
    show False
    proof (cases r)
      case (Ok x)
      then obtain ty payload s2 where "r = Ok ((ty, payload), s2)" by (metis prod.exhaust)
      then show ?thesis using p Settings_read_control(1) [OF rd st] lp by auto
    next
      case (Err e)
      then show ?thesis using p st lp by (simp add: Settings_read_def)
    next
      case Panic
      then show ?thesis using np lp by simp
    qed
  qed
  have "read_frame_loop fuel ?next s1 \<noteq> None" if "VarInt_read rd s = Ok (v, s1)" for v s1
    using frame_source.loop_returns [OF settings_source [OF rd], of s1 fuel] f
      VarInt_decode_shorter [OF VarInt_read_Ok [OF rd that]] by simp
  then show "Settings_read fuel rd s \<noteq> None"
    by (auto simp: Settings_read_def split: res.splits if_splits)
qed

lemma Settings_read_wire:
  assumes rd: "reads_exactly rd content" and f: "length (content s) < fuel"
    and c: "content s = varint_wire (stream_type UniStream_CONTROL) @ concat (map frame_wire gs) @
      frame_wire (ty, payload) @ rest"
    and gs: "\<forall>g \<in> set gs. frame_ok g \<and> Frame_is_grease (fst g) \<and> length (snd g) \<le> MAX_SETTINGS_FRAME_SIZE"
    and ok: "frame_ok (ty, payload)"
  shows "length payload \<le> MAX_SETTINGS_FRAME_SIZE \<Longrightarrow> \<not> Frame_is_grease ty \<Longrightarrow>
      \<exists>s'. Settings_read fuel rd s = Some (map_ok (\<lambda>(m, _). (m, s')) (Settings_decode (content s))) \<and>
        content s' = rest"
    and "MAX_SETTINGS_FRAME_SIZE < length payload \<Longrightarrow>
      Settings_read fuel rd s = Some (Err SettingsError_MessageTooLong)"
proof -
  obtain s1 where s1: "VarInt_read rd s = Ok (stream_type UniStream_CONTROL, s1)"
      "content s1 = concat (map frame_wire gs) @ frame_wire (ty, payload) @ rest"
    using VarInt_read_wire [OF rd c] by auto
  have fuel: "length gs < fuel" using frames_fuel [of gs] f c by simp
  note src = settings_source [OF rd, of SettingsError_UnexpectedEnd SettingsError_MessageTooLong SettingsError_Io]
  show "\<exists>s'. Settings_read fuel rd s = Some (map_ok (\<lambda>(m, _). (m, s')) (Settings_decode (content s))) \<and>
        content s' = rest" if "length payload \<le> MAX_SETTINGS_FRAME_SIZE" "\<not> Frame_is_grease ty"
    using frame_source.loop_complete [OF src gs s1(2) fuel ok that(2,1)]
      Settings_read_control(1) [OF rd s1(1)] by blast
  show "Settings_read fuel rd s = Some (Err SettingsError_MessageTooLong)"
    if "MAX_SETTINGS_FRAME_SIZE < length payload"
    using frame_source.loop_too_long [OF src gs s1(2) fuel ok that] s1(1)
    by (simp add: Settings_read_def)
qed

subsection \<open>Negotiation\<close>

lemmas setting_id_defs = QPACK_MAX_TABLE_CAPACITY_def MAX_FIELD_SECTION_SIZE_def
  QPACK_BLOCKED_STREAMS_def ENABLE_CONNECT_PROTOCOL_def ENABLE_DATAGRAM_def
  ENABLE_DATAGRAM_DEPRECATED_def WEBTRANSPORT_ENABLE_DEPRECATED_def
  WEBTRANSPORT_MAX_SESSIONS_DEPRECATED_def WEBTRANSPORT_MAX_SESSIONS_def WT_ENABLED_def
  Setting_from_u32_def VarInt_from_u32_def

lemma setting_ids_distinct:
  "distinct [ENABLE_CONNECT_PROTOCOL, ENABLE_DATAGRAM, ENABLE_DATAGRAM_DEPRECATED,
    WEBTRANSPORT_ENABLE_DEPRECATED, WEBTRANSPORT_MAX_SESSIONS_DEPRECATED, WEBTRANSPORT_MAX_SESSIONS,
    WT_ENABLED]"
  by (simp add: setting_id_defs)

lemma setting_ids_not_grease:
  "\<forall>i \<in> {ENABLE_CONNECT_PROTOCOL, ENABLE_DATAGRAM, ENABLE_DATAGRAM_DEPRECATED,
    WEBTRANSPORT_ENABLE_DEPRECATED, WEBTRANSPORT_MAX_SESSIONS_DEPRECATED, WEBTRANSPORT_MAX_SESSIONS,
    WT_ENABLED}. \<not> Setting_is_grease i \<and> varint_ok (setting_id i)"
  by (simp add: setting_id_defs Setting_is_grease_def is_grease_value_def GREASE_START_def
      GREASE_STEP_def varint_ok_def)

lemma max_sessions_not_boolean:
  "\<not> boolean_setting WEBTRANSPORT_MAX_SESSIONS" "\<not> boolean_setting WEBTRANSPORT_MAX_SESSIONS_DEPRECATED"
  using setting_ids_distinct by (simp_all add: boolean_setting_def) auto

lemma set_update_subset: "set (AList.update i v m) \<subseteq> insert (i, v) (set m)"
  by (induction m) auto

lemma settings_valid_update [wf_intros]:
  "settings_valid m \<Longrightarrow> entry_ok (i, v) \<Longrightarrow> setting_allowed (i, v) \<Longrightarrow> settings_valid (AList.update i v m)"
  using set_update_subset [of i v m] by (auto simp: settings_valid_def hash_map_ok_update)

lemma settings_valid_delete [wf_intros]: "settings_valid m \<Longrightarrow> settings_valid (AList.delete i m)"
  using hash_map_ok_delete [of m i] by (auto simp: settings_valid_def AList.delete_eq)

lemma settings_valid_Nil [simp, wf_intros]: "settings_valid []"
  by (simp add: settings_valid_def)

lemma into_inner_one [simp]: "into_inner (VarInt_from_u32 1) = 1"
  by (simp add: VarInt_from_u32_def)

lemma enable_valid:
  assumes "settings_valid m"
  shows "settings_valid (enable_webtransport_internal n b m)"
proof -
  have "entry_ok (i, v) \<and> setting_allowed (i, v)"
    if "i \<in> {ENABLE_CONNECT_PROTOCOL, ENABLE_DATAGRAM, ENABLE_DATAGRAM_DEPRECATED,
        WEBTRANSPORT_ENABLE_DEPRECATED, WT_ENABLED} \<and> v = VarInt_from_u32 1 \<or>
      i \<in> {WEBTRANSPORT_MAX_SESSIONS_DEPRECATED, WEBTRANSPORT_MAX_SESSIONS} \<and> v = VarInt_from_u32 n"
    for i v
    using that setting_ids_not_grease max_sessions_not_boolean
    by (auto simp: entry_ok_def setting_allowed_def)
  then show ?thesis
    using assms by (simp add: enable_webtransport_internal_def Let_def settings_valid_update
        settings_valid_delete)
qed

lemma enable_lookup:
  "map_of (enable_webtransport_internal n b m) WT_ENABLED = Some (VarInt_from_u32 1)"
  "map_of (enable_webtransport_internal n b m) ENABLE_CONNECT_PROTOCOL = Some (VarInt_from_u32 1)"
  "map_of (enable_webtransport_internal n b m) ENABLE_DATAGRAM = Some (VarInt_from_u32 1)"
  "map_of (enable_webtransport_internal n b m) WEBTRANSPORT_MAX_SESSIONS = Some (VarInt_from_u32 n)"
  "map_of (enable_webtransport_internal n b m) WEBTRANSPORT_ENABLE_DEPRECATED =
     (if b then Some (VarInt_from_u32 1) else None)"
  using setting_ids_distinct setting_ids_distinct [THEN distinct_rev [THEN iffD2]]
  by (simp_all add: enable_webtransport_internal_def Let_def update_conv' delete_conv')

lemma supports_map_of:
  assumes "map_of m = map_of m'"
  shows "supports_webtransport_server m = supports_webtransport_server m'"
    and "supports_webtransport_client m = supports_webtransport_client m'"
    and "supports_webtransport m = supports_webtransport m'"
proof -
  have "setting_value m = setting_value m'" by (rule ext) (simp add: setting_value_def assms)
  then show "supports_webtransport_server m = supports_webtransport_server m'"
    "supports_webtransport_client m = supports_webtransport_client m'"
    "supports_webtransport m = supports_webtransport m'"
    unfolding supports_webtransport_server_def supports_webtransport_client_def
      supports_webtransport_def assms by (rule arg_cong)+
qed

lemma enable_supported:
  "supports_webtransport_server (enable_webtransport_internal n b m)"
  "supports_webtransport_client (enable_webtransport_internal n b m)"
  "supports_webtransport (enable_webtransport_internal n b m) = 1"
  by (simp_all add: supports_webtransport_server_def supports_webtransport_client_def
      supports_webtransport_def setting_value_def enable_lookup)

lemma Settings_roundtrip:
  assumes "hash_order ho" and "settings_valid m" and "length m < 2 ^ 58"
  shows "Settings_encode ho m buf = Ok (buf @ settings_wire (ho m))"
    and "Settings_encoded_len ho m = Ok (length (settings_wire (ho m)))"
    and "Settings_decode (settings_wire (ho m) @ rest) = Ok (ho m, rest)"
    and "map_of (ho m) = map_of m" and "settings_valid (ho m)"
proof -
  have set: "set (ho m) = set m" and len: "length (ho m) = length m"
    using assms(1) hash_order_set [of ho m] by (simp_all add: hash_order_def size_mset [symmetric] del: size_mset)
  have ok: "\<forall>p \<in> set (ho m). entry_ok p" using assms(2) set by (simp add: settings_valid_def)
  show "map_of (ho m) = map_of m"
    using assms by (simp add: hash_order_map settings_valid_def)
  show v: "settings_valid (ho m)"
    using assms set hash_order_map(1) by (auto simp: settings_valid_def)
  show "Settings_encode ho m buf = Ok (buf @ settings_wire (ho m))"
    "Settings_encoded_len ho m = Ok (length (settings_wire (ho m)))"
    using Settings_encode_ok [of ho m] ok len assms(3) by simp_all
  have "non_grease (ho m) = ho m"
    using v by (auto simp: non_grease_def settings_valid_def setting_allowed_def filter_id_conv)
  then have "settings_collect (ho m) [] = Ok (ho m)"
    using v by (simp add: settings_collect_Ok_iff settings_valid_def hash_map_ok_def)
  then show "Settings_decode (settings_wire (ho m) @ rest) = Ok (ho m, rest)"
    using Settings_decode_wire [OF ok] len assms(3) by simp
qed

subsection \<open>Properties\<close>

text \<open>
  C31. A well-formed settings map, written in whatever order the hash map yields, takes the number
  of bytes \<^verbatim>\<open>encoded_len\<close> reports, is written without panicking, and is decoded back to a map with
  the same entries, leaving the bytes behind it.
\<close>

theorem settings_roundtrip:
  assumes "hash_order ho" and "settings_valid m" and "length m < 2 ^ 58"
  shows "\<exists>bs m'. Settings_encode ho m buf = Ok (buf @ bs) \<and> Settings_encoded_len ho m = Ok (length bs) \<and>
    Settings_decode (bs @ rest) = Ok (m', rest) \<and> map_of m' = map_of m \<and> settings_valid m'"
  using Settings_roundtrip [OF assms] by blast

theorem settings_roundtrip_witness:
  "hash_order rev \<and> settings_valid (enable_webtransport 1 []) \<and>
   length (enable_webtransport 1 []) < 2 ^ 58 \<and>
   (\<exists>bs m'. Settings_encode rev (enable_webtransport 1 []) [] = (Ok ([] @ bs) :: (bytes, unit) res) \<and>
     Settings_encoded_len rev (enable_webtransport 1 []) = (Ok (length bs) :: (nat, unit) res) \<and>
     Settings_decode (bs @ []) = Ok (m', []) \<and> map_of m' = map_of (enable_webtransport 1 []) \<and>
     settings_valid m')"
proof -
  have v: "settings_valid (enable_webtransport 1 [])"
    by (simp add: enable_webtransport_def enable_valid)
  have l: "length (enable_webtransport 1 []) < 2 ^ 58"
    using setting_ids_distinct
    by (simp add: enable_webtransport_def enable_webtransport_internal_def Let_def)
  show ?thesis using hash_order_rev v l settings_roundtrip [OF hash_order_rev v l] by blast
qed

text \<open>
  C4. Over every list of entries in a SETTINGS frame, the decoder accepts exactly those whose
  entries other than GREASE have distinct identifiers and zero or one for the boolean settings;
  it returns these entries, dropping the GREASE ones. The first entry that violates this is
  reported with its own error.
\<close>

theorem settings_decode_exact:
  assumes "\<forall>p \<in> set xs. entry_ok p" and "length xs < 2 ^ 58"
  shows "(Settings_decode (settings_wire xs @ rest) = Ok (m, rest') \<longleftrightarrow>
      m = non_grease xs \<and> rest' = rest \<and> settings_valid (non_grease xs)) \<and>
    (\<forall>pre i v post. xs = pre @ (i, v) # post \<and> settings_valid (non_grease pre) \<and> \<not> Setting_is_grease i \<longrightarrow>
      (i \<in> fst ` set (non_grease pre) \<longrightarrow>
        Settings_decode (settings_wire xs @ rest) = Err (SettingsError_DuplicateSetting i)) \<and>
      (i \<notin> fst ` set (non_grease pre) \<and> boolean_setting i \<and> into_inner v > 1 \<longrightarrow>
        Settings_decode (settings_wire xs @ rest) = Err (SettingsError_InvalidValue i v)))"
proof (intro conjI allI impI)
  note dec = Settings_decode_wire [OF assms, of rest]
  show "Settings_decode (settings_wire xs @ rest) = Ok (m, rest') \<longleftrightarrow>
      m = non_grease xs \<and> rest' = rest \<and> settings_valid (non_grease xs)"
    using assms(1) unfolding dec
    by (auto simp: settings_collect_Ok_iff settings_valid_def hash_map_ok_def non_grease_def)
  fix pre i v post
  assume pre: "xs = pre @ (i, v) # post \<and> settings_valid (non_grease pre) \<and> \<not> Setting_is_grease i"
  then have c: "settings_collect xs [] = settings_collect ((i, v) # post) (non_grease pre)"
    using settings_collect_Ok_iff [of pre "[]" "non_grease pre"]
    by (simp add: settings_collect_append settings_valid_def hash_map_ok_def)
  show "Settings_decode (settings_wire xs @ rest) = Err (SettingsError_DuplicateSetting i)"
    if "i \<in> fst ` set (non_grease pre)"
    using that pre unfolding dec c by (auto simp: map_of_eq_None_iff)
  show "Settings_decode (settings_wire xs @ rest) = Err (SettingsError_InvalidValue i v)"
    if "i \<notin> fst ` set (non_grease pre) \<and> boolean_setting i \<and> into_inner v > 1"
    using that pre unfolding dec c by (auto simp: map_of_eq_None_iff)
qed

theorem settings_decode_exact_witness:
  "entry_ok (WT_ENABLED, VarInt 1) \<and> entry_ok (Setting (VarInt 0x21), VarInt 9) \<and>
   Settings_decode (settings_wire [(WT_ENABLED, VarInt 1), (Setting (VarInt 0x21), VarInt 9),
     (WT_ENABLED, VarInt 1)] @ []) = Err (SettingsError_DuplicateSetting WT_ENABLED) \<and>
   Settings_decode (settings_wire [(WT_ENABLED, VarInt 1), (Setting (VarInt 0x21), VarInt 9)] @ [7]) =
     Ok ([(WT_ENABLED, VarInt 1)], [7])"
proof -
  let ?pre = "[(WT_ENABLED, VarInt 1), (Setting (VarInt 0x21), VarInt 9)]"
  let ?xs = "?pre @ [(WT_ENABLED, VarInt 1)]"
  have ng: "\<not> Setting_is_grease WT_ENABLED" "Setting_is_grease (Setting (VarInt 0x21))"
    by (simp_all add: Setting_is_grease_def is_grease_value_def setting_id_defs GREASE_START_def
        GREASE_STEP_def)
  then have n: "non_grease ?pre = [(WT_ENABLED, VarInt 1)]" by (simp add: non_grease_def)
  have ok: "\<forall>p \<in> set ?xs. entry_ok p"
    by (simp add: entry_ok_def varint_ok_def setting_id_defs)
  then have v: "settings_valid (non_grease ?pre)"
    unfolding n using ng by (simp add: settings_valid_def hash_map_ok_def setting_allowed_def)
  have "Settings_decode (settings_wire ?xs @ []) = Err (SettingsError_DuplicateSetting WT_ENABLED)"
    using settings_decode_exact [OF ok, of "[]", THEN conjunct2, THEN spec, of ?pre, THEN spec,
        of WT_ENABLED, THEN spec, of "VarInt 1", THEN spec, of "[]"] v ng n by simp
  moreover have "Settings_decode (settings_wire ?pre @ [7]) = Ok ([(WT_ENABLED, VarInt 1)], [7])"
    using settings_decode_exact [of ?pre "[7]" "[(WT_ENABLED, VarInt 1)]" "[7]"] ok v n by simp
  ultimately show ?thesis using ok by simp
qed

text \<open>
  Reading settings from a stream: with more fuel than the stream has bytes the reader returns
  and does not panic; a map it returns is the one the in-memory decoder finds in the stream's
  bytes, leaves the same bytes unread and is valid; GREASE frames in front are skipped; and a
  frame above the 16 KiB limit is refused, whatever follows its header.
\<close>

theorem settings_read_agrees:
  assumes "reads_exactly rd content" and "length (content s) < fuel"
  shows "Settings_read fuel rd s \<noteq> None \<and> Settings_read fuel rd s \<noteq> Some Panic \<and>
    (\<forall>m s'. Settings_read fuel rd s = Some (Ok (m, s')) \<longrightarrow>
       Settings_decode (content s) = Ok (m, content s') \<and> settings_valid m) \<and>
    (\<forall>gs typ payload rest.
       content s = varint_wire (stream_type UniStream_CONTROL) @ concat (map frame_wire gs) @
         frame_wire (typ, payload) @ rest \<and>
       (\<forall>g \<in> set gs. frame_ok g \<and> Frame_is_grease (fst g) \<and> length (snd g) \<le> MAX_SETTINGS_FRAME_SIZE) \<and>
       frame_ok (typ, payload) \<and> \<not> Frame_is_grease typ \<longrightarrow>
       (if length payload \<le> MAX_SETTINGS_FRAME_SIZE
        then \<exists>s'. Settings_read fuel rd s = Some (map_ok (\<lambda>(m, _). (m, s')) (Settings_decode (content s))) \<and>
          content s' = rest
        else Settings_read fuel rd s = Some (Err SettingsError_MessageTooLong)))"
proof (intro conjI allI impI)
  show "Settings_read fuel rd s \<noteq> None" "Settings_read fuel rd s \<noteq> Some Panic"
    using Settings_read_returns [OF assms] by simp_all
next
  fix m s' assume "Settings_read fuel rd s = Some (Ok (m, s'))"
  then show "Settings_decode (content s) = Ok (m, content s')" "settings_valid m"
    using Settings_read_Ok [OF assms(1)] Settings_decode_valid by blast+
next
  fix gs ty payload rest
  assume "content s = varint_wire (stream_type UniStream_CONTROL) @ concat (map frame_wire gs) @
         frame_wire (ty, payload) @ rest \<and>
       (\<forall>g \<in> set gs. frame_ok g \<and> Frame_is_grease (fst g) \<and> length (snd g) \<le> MAX_SETTINGS_FRAME_SIZE) \<and>
       frame_ok (ty, payload) \<and> \<not> Frame_is_grease ty"
  then show "if length payload \<le> MAX_SETTINGS_FRAME_SIZE
        then \<exists>s'. Settings_read fuel rd s = Some (map_ok (\<lambda>(m, _). (m, s')) (Settings_decode (content s))) \<and>
          content s' = rest
        else Settings_read fuel rd s = Some (Err SettingsError_MessageTooLong)"
    using Settings_read_wire [OF assms] by auto
qed

theorem settings_read_agrees_witness:
  "reads_exactly slice_read (\<lambda>s. s) \<and>
   Settings_read 100 slice_read (settings_wire [(WT_ENABLED, VarInt 1)] @ [5]) =
     Some (Ok ([(WT_ENABLED, VarInt 1)], [5]))"
proof -
  let ?m = "[(WT_ENABLED, VarInt 1)]"
  have v: "settings_valid ?m"
    by (simp add: settings_valid_def hash_map_ok_def entry_ok_def varint_ok_def setting_allowed_def
        Setting_is_grease_def is_grease_value_def setting_id_defs GREASE_START_def GREASE_STEP_def)
  have d: "Settings_decode (settings_wire ?m @ [5]) = Ok (?m, [5])"
    using Settings_roundtrip(3) [OF hash_order_id v] by simp
  have p: "length (settings_payload ?m) \<le> 16" using length_settings_payload [of ?m] by simp
  have "length (settings_wire ?m @ [5]) < 100"
    using p length_varint_wire_le [of "stream_type UniStream_CONTROL"]
      length_varint_wire_le [of "frame_type Frame_SETTINGS"]
      length_varint_wire_le [of "VarInt (of_nat (length (settings_payload ?m)))"]
    by (simp add: settings_wire_def frame_wire_def)
  note t = settings_read_agrees [OF slice_reads_exactly this, THEN conjunct2, THEN conjunct2,
      THEN conjunct2, THEN spec, of "[]", THEN spec, of Frame_SETTINGS, THEN spec,
      of "settings_payload ?m", THEN spec, of "[5]"]
  then have "Settings_read 100 slice_read (settings_wire ?m @ [5]) = Some (Ok (?m, [5]))"
    using d p by (simp add: frame_ok_def MAX_SETTINGS_FRAME_SIZE_def settings_wire_def)
  then show ?thesis using slice_reads_exactly by (rule conjI [rotated])
qed

text \<open>
  The two ends of this library agree: the settings an endpoint advertises, in either form and
  with any session limit, reach the peer unchanged, and both the test a client applies to a
  server's settings and the one a server applies to a client's accept them.
\<close>

theorem settings_negotiation:
  assumes "hash_order ho" and "local \<in> {enable_webtransport n [], enable_webtransport_latest n []}"
  shows "\<exists>bs remote. Settings_encode ho local [] = Ok bs \<and> Settings_decode bs = Ok (remote, []) \<and>
    map_of remote = map_of local \<and> supports_webtransport_server remote \<and>
    supports_webtransport_client remote \<and> supports_webtransport remote = 1"
proof -
  obtain b where b: "local = enable_webtransport_internal n b []"
    using assms(2) by (auto simp: enable_webtransport_def enable_webtransport_latest_def)
  have v: "settings_valid local" unfolding b by (simp add: enable_valid)
  have l: "length local < 2 ^ 58"
    using setting_ids_distinct unfolding b
    by (simp add: enable_webtransport_internal_def Let_def AList.delete_eq)
  note r = Settings_roundtrip [OF assms(1) v l]
  show ?thesis
    using r(1) [of "[]"] r(3) [of "[]"] r(4) supports_map_of [OF r(4)] enable_supported [of n b "[]"]
    by (intro exI [of _ "settings_wire (ho local)"] exI [of _ "ho local"]) (simp add: b)
qed

theorem settings_negotiation_witness:
  "hash_order (\<lambda>xs :: Settings. xs) \<and>
   enable_webtransport_latest 1 [] \<in> {enable_webtransport 1 [], enable_webtransport_latest 1 []} \<and>
   (\<exists>bs remote. Settings_encode (\<lambda>xs. xs) (enable_webtransport_latest 1 []) [] = (Ok bs :: (bytes, unit) res) \<and>
    Settings_decode bs = Ok (remote, []) \<and> map_of remote = map_of (enable_webtransport_latest 1 []) \<and>
    supports_webtransport_server remote \<and> supports_webtransport_client remote \<and>
    supports_webtransport remote = 1)"
proof -
  have i: "enable_webtransport_latest 1 [] \<in> {enable_webtransport 1 [], enable_webtransport_latest 1 []}"
    by simp
  show ?thesis using hash_order_id i settings_negotiation [OF hash_order_id i] by blast
qed

text \<open>
  What acceptance guarantees: settings that pass the client's test of a server also pass the
  server's test; accepted settings announce datagrams, in the current or the deprecated form;
  a peer that advertises \<^verbatim>\<open>WT_ENABLED\<close> with another value than one is refused; and one that does
  not advertise it is accepted only with a non-zero session limit or the deprecated flag.
\<close>

lemma settings_acceptance:
  "(supports_webtransport_server m \<longrightarrow> supports_webtransport_client m) \<and>
   (supports_webtransport_client m \<longrightarrow>
      setting_value m ENABLE_DATAGRAM = Some 1 \<or>
      map_of m ENABLE_DATAGRAM = None \<and> setting_value m ENABLE_DATAGRAM_DEPRECATED = Some 1) \<and>
   (supports_webtransport_client m \<and> map_of m WT_ENABLED \<noteq> None \<longrightarrow> setting_value m WT_ENABLED = Some 1) \<and>
   (supports_webtransport_client m \<and> map_of m WT_ENABLED = None \<longrightarrow>
      (\<exists>v. setting_value m WEBTRANSPORT_MAX_SESSIONS = Some v \<and> v > 0) \<or>
      setting_value m WEBTRANSPORT_ENABLE_DEPRECATED = Some 1)"
  by (auto simp: supports_webtransport_server_def supports_webtransport_client_def
      supports_webtransport_def setting_value_def Let_def split: if_splits option.splits)

lemma settings_acceptance_witness:
  "let m = [(WT_ENABLED, VarInt 1), (ENABLE_DATAGRAM, VarInt 1), (ENABLE_CONNECT_PROTOCOL, VarInt 1)] in
   supports_webtransport_server m \<and> supports_webtransport_client m \<and> setting_value m WT_ENABLED = Some 1"
proof -
  let ?m = "[(WT_ENABLED, VarInt 1), (ENABLE_DATAGRAM, VarInt 1), (ENABLE_CONNECT_PROTOCOL, VarInt 1)]"
  have "supports_webtransport_server ?m"
    using setting_ids_distinct setting_ids_distinct [THEN distinct_rev [THEN iffD2]]
    by (simp add: supports_webtransport_server_def setting_value_def)
  then show ?thesis using settings_acceptance [of ?m] by (simp add: Let_def setting_value_def)
qed

end
