(* ===== verification/Utf8.thy ===== *)
theory Utf8
  imports Prelude
begin

section \<open>UTF-8 text\<close>

text \<open>
  The operations of Rust's \<^verbatim>\<open>str\<close> and \<^verbatim>\<open>String\<close> that the source uses: \<^verbatim>\<open>from_utf8\<close>, \<^verbatim>\<open>from_utf8_lossy\<close>,
  \<^verbatim>\<open>pop\<close>, \<^verbatim>\<open>trim\<close> and \<^verbatim>\<open>eq_ignore_ascii_case\<close>. A string is the list of its bytes. \<open>utf8_first\<close> looks at
  the front of the input the way the standard library does: it yields the length of the
  first character, or of the longest invalid part in its place. The lemmas show that
  validation, lossy conversion and removal of the last character fit together.
\<close>

subsection \<open>Definitions\<close>

definition utf8_width :: "u8 \<Rightarrow> nat" where
  "utf8_width b =
     (if b < 0x80 then 1
      else if 0xC2 \<le> b \<and> b \<le> 0xDF then 2
      else if 0xE0 \<le> b \<and> b \<le> 0xEF then 3
      else if 0xF0 \<le> b \<and> b \<le> 0xF4 then 4
      else 0)"

definition is_cont :: "u8 \<Rightarrow> bool" where
  "is_cont b \<longleftrightarrow> 0x80 \<le> b \<and> b \<le> 0xBF"

definition second3_ok :: "u8 \<Rightarrow> u8 \<Rightarrow> bool" where
  "second3_ok b c \<longleftrightarrow>
     (b = 0xE0 \<and> 0xA0 \<le> c \<and> c \<le> 0xBF) \<or> (0xE1 \<le> b \<and> b \<le> 0xEC \<and> is_cont c) \<or>
     (b = 0xED \<and> 0x80 \<le> c \<and> c \<le> 0x9F) \<or> (0xEE \<le> b \<and> b \<le> 0xEF \<and> is_cont c)"

definition second4_ok :: "u8 \<Rightarrow> u8 \<Rightarrow> bool" where
  "second4_ok b c \<longleftrightarrow>
     (b = 0xF0 \<and> 0x90 \<le> c \<and> c \<le> 0xBF) \<or> (0xF1 \<le> b \<and> b \<le> 0xF3 \<and> is_cont c) \<or>
     (b = 0xF4 \<and> 0x80 \<le> c \<and> c \<le> 0x8F)"

text \<open>Continuation bytes behind the second one: how many of the \<open>n\<close> wanted are there.\<close>

fun conts :: "nat \<Rightarrow> bytes \<Rightarrow> nat" where
  "conts 0 bs = 0"
| "conts (Suc n) [] = 0"
| "conts (Suc n) (b # bs) = (if is_cont b then Suc (conts n bs) else 0)"

text \<open>The length of the first chunk of a nonempty input, and whether it is a character.\<close>

fun utf8_first :: "bytes \<Rightarrow> nat \<times> bool" where
  "utf8_first [] = (0, True)"
| "utf8_first (b # bs) =
     (let w = utf8_width b in
      if w = 0 then (1, False)
      else if w = 1 then (1, True)
      else (case bs of [] \<Rightarrow> (1, False)
        | c # cs \<Rightarrow>
            if (w = 2 \<and> is_cont c) \<or> (w = 3 \<and> second3_ok b c) \<or> (w = 4 \<and> second4_ok b c)
            then (2 + conts (w - 2) cs, conts (w - 2) cs = w - 2)
            else (1, False)))"

lemma conts_le: "conts n bs \<le> length bs" "conts n bs \<le> n"
  by (induction n bs rule: conts.induct) auto

lemma utf8_first_bounds:
  assumes "bs \<noteq> []"
  shows "0 < fst (utf8_first bs)" and "fst (utf8_first bs) \<le> length bs"
    and "fst (utf8_first bs) \<le> 4"
proof -
  obtain b t where bs: "bs = b # t" using assms by (cases bs) auto
  have "utf8_width b \<le> 4" by (simp add: utf8_width_def)
  then have "2 + conts (utf8_width b - 2) (tl t) \<le> 4"
    using conts_le(2) [of "utf8_width b - 2" "tl t"] by linarith
  then show "0 < fst (utf8_first bs)" "fst (utf8_first bs) \<le> length bs" "fst (utf8_first bs) \<le> 4"
    unfolding bs using conts_le(1) [of "utf8_width b - 2" "tl t"]
    by (simp_all add: Let_def split: list.split) force+
qed

function utf8_chunks :: "bytes \<Rightarrow> (bytes \<times> bool) list" where
  "utf8_chunks bs =
     (if bs = [] then []
      else let (n, ok) = utf8_first bs in (take n bs, ok) # utf8_chunks (drop n bs))"
  by pat_completeness auto
termination
proof (relation "measure length")
  fix bs p n ok
  assume "bs \<noteq> []" and "p = utf8_first bs" and "(n, ok) = p"
  then have "0 < n" using utf8_first_bounds(1) [of bs] by (metis fst_conv)
  then show "(drop n bs, bs) \<in> measure length" using \<open>bs \<noteq> []\<close> by simp
qed simp

declare utf8_chunks.simps [simp del] utf8_first.simps(2) [simp del]

definition utf8_valid :: "bytes \<Rightarrow> bool" where
  "utf8_valid bs = list_all snd (utf8_chunks bs)"

datatype Utf8Error = Utf8Error

definition from_utf8 :: "bytes \<Rightarrow> (bytes, Utf8Error) res" where
  "from_utf8 bs = (if utf8_valid bs then Ok bs else Err Utf8Error)"

definition REPLACEMENT_CHARACTER :: bytes where
  "REPLACEMENT_CHARACTER = [0xEF, 0xBF, 0xBD]"

definition from_utf8_lossy :: "bytes \<Rightarrow> bytes" where
  "from_utf8_lossy bs =
     concat (map (\<lambda>(c, ok). if ok then c else REPLACEMENT_CHARACTER) (utf8_chunks bs))"

text \<open>The characters of a string, each as its bytes; \<^verbatim>\<open>pop\<close> drops the last.\<close>

definition chars :: "bytes \<Rightarrow> bytes list" where
  "chars s = map fst (utf8_chunks s)"

definition String_pop :: "bytes \<Rightarrow> bytes" where
  "String_pop s = concat (butlast (chars s))"

text \<open>\<^verbatim>\<open>char::is_whitespace\<close>, the Unicode White_Space property, on the bytes of a character.\<close>

definition is_whitespace :: "bytes \<Rightarrow> bool" where
  "is_whitespace c \<longleftrightarrow>
     (\<exists>b \<in> set c. c = [b] \<and> ((0x09 \<le> b \<and> b \<le> 0x0D) \<or> b = 0x20)) \<or>
     c \<in> set [[0xC2, 0x85], [0xC2, 0xA0], [0xE1, 0x9A, 0x80], [0xE2, 0x80, 0x80], [0xE2, 0x80, 0x81],
       [0xE2, 0x80, 0x82], [0xE2, 0x80, 0x83], [0xE2, 0x80, 0x84], [0xE2, 0x80, 0x85],
       [0xE2, 0x80, 0x86], [0xE2, 0x80, 0x87], [0xE2, 0x80, 0x88], [0xE2, 0x80, 0x89],
       [0xE2, 0x80, 0x8A], [0xE2, 0x80, 0xA8], [0xE2, 0x80, 0xA9], [0xE2, 0x80, 0xAF],
       [0xE2, 0x81, 0x9F], [0xE3, 0x80, 0x80]]"

definition str_trim :: "bytes \<Rightarrow> bytes" where
  "str_trim s = concat (rev (dropWhile is_whitespace (rev (dropWhile is_whitespace (chars s)))))"

definition to_ascii_lowercase :: "u8 \<Rightarrow> u8" where
  "to_ascii_lowercase b = (if 0x41 \<le> b \<and> b \<le> 0x5A then b + 32 else b)"

definition eq_ignore_ascii_case :: "bytes \<Rightarrow> bytes \<Rightarrow> bool" where
  "eq_ignore_ascii_case a b \<longleftrightarrow> map to_ascii_lowercase a = map to_ascii_lowercase b"

text \<open>An ASCII literal of the source as bytes.\<close>

definition str :: "string \<Rightarrow> bytes" where
  "str s = map of_char s"

subsection \<open>Chunks\<close>

lemma utf8_chunks_Nil [simp]: "utf8_chunks [] = []"
  by (simp add: utf8_chunks.simps)

lemma utf8_chunks_step:
  "bs \<noteq> [] \<Longrightarrow> utf8_chunks bs =
     (take (fst (utf8_first bs)) bs, snd (utf8_first bs)) # utf8_chunks (drop (fst (utf8_first bs)) bs)"
  by (subst utf8_chunks.simps) (simp add: Let_def split: prod.split)

lemma concat_chunks: "concat (map fst (utf8_chunks bs)) = bs"
proof (induction bs rule: utf8_chunks.induct)
  case (1 bs)
  then show ?case
    by (cases "bs = []") (simp_all add: utf8_chunks_step prod_eq_iff)
qed

lemma concat_chars [simp]: "concat (chars s) = s"
  by (simp add: chars_def concat_chunks)

text \<open>A character in front of other bytes is still the first chunk.\<close>

definition utf8_char :: "bytes \<Rightarrow> bool" where
  "utf8_char c \<longleftrightarrow> c \<noteq> [] \<and> utf8_first c = (length c, True)"

lemma conts_append: "conts n bs = n \<Longrightarrow> conts n (bs @ t) = n"
  by (induction n bs rule: conts.induct) (auto split: if_splits)

lemma conts_min: "conts n bs = n \<Longrightarrow> min (length bs) n = n"
  using conts_le(1) [of n bs] by simp

lemma conts_take: "conts n bs = n \<Longrightarrow> conts n (take n bs) = n"
  by (induction n bs rule: conts.induct) (auto split: if_splits)

lemma utf8_first_append:
  assumes "utf8_char c"
  shows "utf8_first (c @ t) = (length c, True)"
proof -
  obtain b bs where c: "c = b # bs" using assms by (cases c) (auto simp: utf8_char_def)
  show ?thesis
    using assms unfolding c
    by (auto simp: utf8_char_def utf8_first.simps Let_def conts_append split: list.splits if_splits)
qed

lemma utf8_first_char:
  assumes "bs \<noteq> []" and "snd (utf8_first bs)"
  shows "utf8_char (take (fst (utf8_first bs)) bs)"
proof -
  obtain b t where bs: "bs = b # t" using assms by (cases bs) auto
  show ?thesis
    using assms(2) unfolding bs
    by (auto simp: utf8_char_def utf8_first.simps Let_def conts_take conts_min split: list.splits if_splits)
qed

lemma chunks_chars:
  "\<forall>c \<in> set cs. utf8_char c \<Longrightarrow> utf8_chunks (concat cs) = map (\<lambda>c. (c, True)) cs"
proof (induction cs)
  case (Cons c cs)
  then have "utf8_first (c @ concat cs) = (length c, True)" by (simp add: utf8_first_append)
  then show ?case using Cons by (simp add: utf8_chunks_step utf8_char_def)
qed simp

lemma chunks_utf8_char: "(c, True) \<in> set (utf8_chunks bs) \<Longrightarrow> utf8_char c"
proof (induction bs rule: utf8_chunks.induct)
  case (1 bs)
  then show ?case
    by (cases "bs = []") (auto simp: utf8_chunks_step prod_eq_iff intro: utf8_first_char)
qed

lemma chunks_length: "(c, ok) \<in> set (utf8_chunks bs) \<Longrightarrow> 0 < length c \<and> length c \<le> 4"
proof (induction bs rule: utf8_chunks.induct)
  case (1 bs)
  then show ?case
  proof (cases "bs = []")
    case False
    then consider "c = take (fst (utf8_first bs)) bs"
      | "(c, ok) \<in> set (utf8_chunks (drop (fst (utf8_first bs)) bs))"
      using "1.prems" by (auto simp: utf8_chunks_step)
    then show ?thesis
      using "1.IH" [OF False refl] utf8_first_bounds [OF False] by cases (simp_all add: prod_eq_iff)
  qed simp
qed

lemma utf8_valid_chars: "utf8_valid s \<Longrightarrow> c \<in> set (chars s) \<Longrightarrow> utf8_char c"
  by (fastforce simp: utf8_valid_def chars_def list_all_iff intro: chunks_utf8_char)

lemma utf8_valid_concat: "\<forall>c \<in> set cs. utf8_char c \<Longrightarrow> utf8_valid (concat cs) \<and> chars (concat cs) = cs"
  by (simp add: utf8_valid_def chars_def chunks_chars list_all_iff comp_def)

lemma utf8_valid_iff: "utf8_valid s \<longleftrightarrow> (\<exists>cs. s = concat cs \<and> (\<forall>c \<in> set cs. utf8_char c))"
  using utf8_valid_chars utf8_valid_concat concat_chars by metis

lemma utf8_valid_append: "utf8_valid s \<Longrightarrow> utf8_valid t \<Longrightarrow> utf8_valid (s @ t)"
  unfolding utf8_valid_iff by (metis (no_types, lifting) Un_iff concat_append set_append)

lemma utf8_char_ascii: "b < 0x80 \<Longrightarrow> utf8_char [b]"
  by (simp add: utf8_char_def utf8_first.simps utf8_width_def)

lemma utf8_valid_ascii: "\<forall>b \<in> set s. b < 0x80 \<Longrightarrow> utf8_valid s"
  unfolding utf8_valid_iff by (intro exI [of _ "map (\<lambda>b. [b]) s"]) (auto simp: utf8_char_ascii)

lemma utf8_valid_Nil [simp]: "utf8_valid []"
  by (simp add: utf8_valid_def)

lemma from_utf8_Ok_iff [simp]: "from_utf8 bs = Ok s \<longleftrightarrow> s = bs \<and> utf8_valid bs"
  by (auto simp: from_utf8_def)

lemma from_utf8_no_panic [simp]: "from_utf8 bs \<noteq> Panic"
  by (simp add: from_utf8_def)

subsection \<open>Lossy conversion and truncation\<close>

lemma replacement_char: "utf8_char REPLACEMENT_CHARACTER"
  by code_simp

lemma from_utf8_lossy_valid: "utf8_valid (from_utf8_lossy bs)"
  unfolding from_utf8_lossy_def
  by (rule utf8_valid_concat [THEN conjunct1])
    (use replacement_char chunks_utf8_char in \<open>fastforce split: if_splits\<close>)

lemma from_utf8_lossy_id: "utf8_valid bs \<Longrightarrow> from_utf8_lossy bs = bs"
proof -
  assume "utf8_valid bs"
  then have "from_utf8_lossy bs = concat (map fst (utf8_chunks bs))"
    unfolding from_utf8_lossy_def utf8_valid_def list_all_iff
    by (intro arg_cong [of _ _ concat] map_cong) auto
  then show ?thesis by (simp add: concat_chunks)
qed

lemma String_pop_valid: "utf8_valid s \<Longrightarrow> utf8_valid (String_pop s)"
  unfolding String_pop_def
  by (rule utf8_valid_concat [THEN conjunct1]) (auto dest: in_set_butlastD utf8_valid_chars)

lemma String_pop_split:
  assumes "s \<noteq> []"
  obtains c where "s = String_pop s @ c" and "0 < length c" and "length c \<le> 4"
proof -
  have ne: "chars s \<noteq> []" using assms concat_chars [of s] by fastforce
  then have "s = String_pop s @ last (chars s)"
    using concat_chars [of s] unfolding String_pop_def
    by (metis append_butlast_last_id concat.simps(1,2) concat_append append_Nil2)
  moreover have "0 < length (last (chars s)) \<and> length (last (chars s)) \<le> 4"
    using last_in_set [OF ne] by (auto simp: chars_def dest: chunks_length)
  ultimately show thesis using that by blast
qed

lemma String_pop_shorter: "s \<noteq> [] \<Longrightarrow> length (String_pop s) < length s"
  by (metis String_pop_split length_append less_add_same_cancel1)

end
