(* ===== verification/Capsules.thy ===== *)
theory Capsules
  imports Frame_Reader Utf8
begin

section \<open>Capsules\<close>

text \<open>
  \<^verbatim>\<open>webtrans-proto/src/capsule.rs\<close>: the capsule that closes a session, unknown capsules kept as raw
  bytes, and their decoder, asynchronous reader, encoder and writer with the size limits. The
  lemmas show that the codec accepts exactly the capsules it can write, that whatever it accepts
  is within the limits and holds valid UTF-8, and that the reader agrees with the decoder.
\<close>

subsection \<open>Definitions\<close>

definition CLOSE_WEBTRANSPORT_SESSION_TYPE :: u64 where
  "CLOSE_WEBTRANSPORT_SESSION_TYPE = 0x2843"

definition MAX_MESSAGE_SIZE :: nat where "MAX_MESSAGE_SIZE = 1024"

definition MAX_CLOSE_PAYLOAD_SIZE :: nat where "MAX_CLOSE_PAYLOAD_SIZE = 4 + MAX_MESSAGE_SIZE"

datatype Capsule = CloseWebTransportSession u32 bytes | Unknown VarInt bytes

datatype CapsuleError = CapsuleError_UnexpectedEnd | CapsuleError_InvalidUtf8
  | CapsuleError_MessageTooLong | CapsuleError_UnknownType VarInt
  | CapsuleError_VarInt VarIntUnexpectedEnd | CapsuleError_Io io_error

text \<open>The \<^verbatim>\<open>match\<close> on the type at the end of \<^verbatim>\<open>decode\<close>; \<open>payload\<close> is the limited view of the buffer.\<close>

definition Capsule_decode_payload :: "VarInt \<Rightarrow> bytes \<Rightarrow> (Capsule, CapsuleError) res" where
  "Capsule_decode_payload typ payload =
     (if into_inner typ = CLOSE_WEBTRANSPORT_SESSION_TYPE then
        if length payload < 4 then Err CapsuleError_UnexpectedEnd
        else
          let error_code = from_be_bytes32 (take 4 payload);
              message_bytes = drop 4 payload
          in if length message_bytes > MAX_MESSAGE_SIZE then Err CapsuleError_MessageTooLong
             else and_then (map_err (\<lambda>_. CapsuleError_InvalidUtf8) (from_utf8 message_bytes)) (\<lambda>error_message.
               Ok (CloseWebTransportSession error_code error_message))
      else Ok (Unknown typ payload))"

definition Capsule_decode :: "bytes \<Rightarrow> (Capsule \<times> bytes, CapsuleError) res" where
  "Capsule_decode buf =
     and_then (map_err CapsuleError_VarInt (VarInt_decode buf)) (\<lambda>(typ, buf).
     and_then (map_err CapsuleError_VarInt (VarInt_decode buf)) (\<lambda>(len, buf).
     and_then (ok_or CapsuleError_MessageTooLong (usize_try_from (into_inner len))) (\<lambda>len.
       if len > MAX_CLOSE_PAYLOAD_SIZE then Err CapsuleError_MessageTooLong
       else if length (take len buf) < len then Err CapsuleError_UnexpectedEnd
       else map_ok (\<lambda>c. (c, drop len buf)) (Capsule_decode_payload typ (take len buf)))))"

definition Capsule_read :: "'s reader \<Rightarrow> 's \<Rightarrow> (Capsule \<times> 's, CapsuleError) res" where
  "Capsule_read rd s =
     and_then (read_tlv CapsuleError_UnexpectedEnd CapsuleError_MessageTooLong CapsuleError_Io
       MAX_CLOSE_PAYLOAD_SIZE rd s) (\<lambda>((typ, payload), s).
     and_then (VarInt_encode typ []) (\<lambda>capsule.
     and_then (map_err (\<lambda>_. CapsuleError_MessageTooLong) (VarInt_try_from_usize (length payload))) (\<lambda>len.
     and_then (VarInt_encode len capsule) (\<lambda>capsule.
     and_then (Capsule_decode (capsule @ payload)) (\<lambda>(c, _). Ok (c, s))))))"

fun Capsule_encode :: "Capsule \<Rightarrow> bytes \<Rightarrow> (bytes, CapsuleError) res" where
  "Capsule_encode (CloseWebTransportSession error_code error_message) buf =
     (if length error_message > MAX_MESSAGE_SIZE then Err CapsuleError_MessageTooLong
      else and_then (unwrap (VarInt_from_u64 CLOSE_WEBTRANSPORT_SESSION_TYPE)) (\<lambda>typ.
           and_then (VarInt_encode typ buf) (\<lambda>buf.
           and_then (VarInt_encode (VarInt_from_u32 (of_nat (4 + length error_message))) buf) (\<lambda>buf.
             Ok (buf @ to_be_bytes32 error_code @ error_message)))))"
| "Capsule_encode (Unknown typ payload) buf =
     (if length payload > MAX_CLOSE_PAYLOAD_SIZE then Err CapsuleError_MessageTooLong
      else and_then (VarInt_encode typ buf) (\<lambda>buf.
           and_then (map_err (\<lambda>_. CapsuleError_MessageTooLong) (VarInt_try_from_usize (length payload))) (\<lambda>len.
           and_then (VarInt_encode len buf) (\<lambda>buf. Ok (buf @ payload)))))"

definition Capsule_write ::
    "(bytes \<Rightarrow> 's \<Rightarrow> ('s, io_error) res) \<Rightarrow> Capsule \<Rightarrow> 's \<Rightarrow> ('s, CapsuleError) res" where
  "Capsule_write wr c s =
     and_then (Capsule_encode c []) (\<lambda>buf. map_err CapsuleError_Io (wr buf s))"

subsection \<open>The codec\<close>

fun capsule_ok :: "Capsule \<Rightarrow> bool" where
  "capsule_ok (CloseWebTransportSession code reason) \<longleftrightarrow> length reason \<le> MAX_MESSAGE_SIZE \<and> utf8_valid reason"
| "capsule_ok (Unknown typ payload) \<longleftrightarrow> length payload \<le> MAX_CLOSE_PAYLOAD_SIZE \<and> varint_ok typ \<and>
     into_inner typ \<noteq> CLOSE_WEBTRANSPORT_SESSION_TYPE"

fun capsule_parts :: "Capsule \<Rightarrow> VarInt \<times> bytes" where
  "capsule_parts (CloseWebTransportSession code reason) =
     (VarInt CLOSE_WEBTRANSPORT_SESSION_TYPE, to_be_bytes32 code @ reason)"
| "capsule_parts (Unknown typ payload) = (typ, payload)"

definition capsule_wire :: "Capsule \<Rightarrow> bytes" where
  "capsule_wire c = frame_wire (Frame (fst (capsule_parts c)), snd (capsule_parts c))"

lemmas capsule_limits = MAX_CLOSE_PAYLOAD_SIZE_def MAX_MESSAGE_SIZE_def

lemma length_to_be_bytes32 [simp]: "length (to_be_bytes32 x) = 4"
  by (simp add: to_be_bytes32_def)

lemma from_to_be_bytes32 [simp]: "from_be_bytes32 (to_be_bytes32 x) = x"
  using unsigned_less [of x, where 'a=nat]
  by (simp add: from_be_bytes32_def to_be_bytes32_def be_value_be_bytes)

lemma close_type: "VarInt_from_u64 CLOSE_WEBTRANSPORT_SESSION_TYPE = Ok (VarInt CLOSE_WEBTRANSPORT_SESSION_TYPE)"
  "varint_ok (VarInt CLOSE_WEBTRANSPORT_SESSION_TYPE)"
  by (simp_all add: VarInt_from_u64_def le_MAX_iff CLOSE_WEBTRANSPORT_SESSION_TYPE_def varint_ok_def)

lemma capsule_parts_ok:
  assumes "capsule_ok c" and "capsule_parts c = (typ, payload)"
  shows "varint_ok typ" and "length payload \<le> MAX_CLOSE_PAYLOAD_SIZE"
    and "length payload < 2 ^ 62" and "Capsule_decode_payload typ payload = Ok c"
  using assms
  by (cases c; auto simp: capsule_limits close_type Capsule_decode_payload_def Let_def)+

lemma Capsule_encode_wire: "capsule_ok c \<Longrightarrow> Capsule_encode c buf = Ok (buf @ capsule_wire c)"
proof (cases c)
  case (CloseWebTransportSession code reason)
  assume "capsule_ok c"
  then have "length reason \<le> 1024" using CloseWebTransportSession by (simp add: capsule_limits)
  then have "VarInt_from_u32 (of_nat (4 + length reason)) = VarInt (of_nat (4 + length reason))"
    unfolding VarInt_from_u32_def by (subst ucast_of_nat32) simp_all
  moreover have "varint_ok (VarInt (of_nat (4 + length reason)))"
    using \<open>length reason \<le> 1024\<close> by (intro VarInt_try_from_usize_ok(2)) simp
  ultimately show ?thesis
    using CloseWebTransportSession \<open>length reason \<le> 1024\<close>
    by (simp add: close_type varint.enc_wire capsule_wire_def frame_wire_def MAX_MESSAGE_SIZE_def)
next
  case (Unknown ty payload)
  assume "capsule_ok c"
  then have "length payload < 2 ^ 62" "varint_ok ty" "length payload \<le> MAX_CLOSE_PAYLOAD_SIZE"
    using Unknown by (auto simp: capsule_limits)
  then show ?thesis
    using Unknown VarInt_try_from_usize_ok
    by (simp add: varint.enc_wire capsule_wire_def frame_wire_def)
qed

text \<open>A header in any of its encodings, followed by the payload.\<close>

lemma Capsule_decode_header:
  assumes "VarInt_decode buf = Ok (typ, b1)" and "VarInt_decode b1 = Ok (len, payload @ rest)"
    and "unat (into_inner len) = length payload"
  shows "Capsule_decode buf =
    (if length payload > MAX_CLOSE_PAYLOAD_SIZE then Err CapsuleError_MessageTooLong
     else map_ok (\<lambda>c. (c, rest)) (Capsule_decode_payload typ payload))"
  using assms by (simp add: Capsule_decode_def)

lemma Capsule_decode_frame:
  assumes "varint_ok typ" and "length payload \<le> MAX_CLOSE_PAYLOAD_SIZE"
  shows "Capsule_decode (frame_wire (Frame typ, payload) @ rest) =
    map_ok (\<lambda>c. (c, rest)) (Capsule_decode_payload typ payload)"
proof -
  have n: "length payload < 2 ^ 62" using assms(2) by (simp add: capsule_limits)
  have "VarInt_decode (frame_wire (Frame typ, payload) @ rest) =
      Ok (typ, varint_wire (VarInt (of_nat (length payload))) @ payload @ rest)"
    using assms(1) by (simp add: frame_wire_def varint.dec_wire)
  moreover have "VarInt_decode (varint_wire (VarInt (of_nat (length payload))) @ payload @ rest) =
      Ok (VarInt (of_nat (length payload)), payload @ rest)"
    using VarInt_try_from_usize_ok(2) [OF n] by (rule varint.dec_wire)
  ultimately show ?thesis
    using assms(2) n by (simp add: Capsule_decode_header unat_of_nat)
qed

lemma Capsule_decode_wire: "capsule_ok c \<Longrightarrow> Capsule_decode (capsule_wire c @ rest) = Ok (c, rest)"
  by (cases "capsule_parts c")
    (simp add: capsule_wire_def Capsule_decode_frame capsule_parts_ok)

interpretation capsule: codec Capsule_encode Capsule_decode capsule_wire capsule_ok
proof unfold_locales
  show "capsule_wire c \<noteq> []" for c
    by (simp add: capsule_wire_def frame_wire_def varint_wire_nonempty)
qed (simp_all add: Capsule_encode_wire Capsule_decode_wire)

lemma Capsule_decode_payload_ok:
  assumes "Capsule_decode_payload typ payload = Ok c" and "varint_ok typ"
    and "length payload \<le> MAX_CLOSE_PAYLOAD_SIZE"
  shows "capsule_ok c \<and> capsule_parts c = (typ, payload)"
proof (cases "into_inner typ = CLOSE_WEBTRANSPORT_SESSION_TYPE")
  case True
  then have len: "4 \<le> length payload"
    and c: "c = CloseWebTransportSession (from_be_bytes32 (take 4 payload)) (drop 4 payload)"
    and v: "utf8_valid (drop 4 payload)" "length (drop 4 payload) \<le> MAX_MESSAGE_SIZE"
    using assms(1) by (auto simp: Capsule_decode_payload_def Let_def split: if_splits)
  have "be_value (take 4 payload) < 256 ^ 4"
    using be_value_bound [of "take 4 payload"] len by simp
  then have "to_be_bytes32 (from_be_bytes32 (take 4 payload)) = take 4 payload"
    using be_bytes_be_value [of "take 4 payload"] len
    by (simp add: to_be_bytes32_def from_be_bytes32_def unat_of_nat)
  then show ?thesis using True c v by (cases "typ") simp
next
  case False
  then show ?thesis using assms by (auto simp: Capsule_decode_payload_def)
qed

lemma Capsule_decode_payload_no_panic [simp]: "Capsule_decode_payload typ payload \<noteq> Panic"
  by (simp add: Capsule_decode_payload_def Let_def and_then_Panic_iff)

lemma Capsule_decode_Ok:
  assumes "Capsule_decode buf = Ok (c, rest)"
  obtains b1 len where "VarInt_decode buf = Ok (fst (capsule_parts c), b1)"
    and "VarInt_decode b1 = Ok (len, snd (capsule_parts c) @ rest)"
    and "unat (into_inner len) = length (snd (capsule_parts c))" and "capsule_ok c"
proof -
  from assms obtain ty b1 len b2 where d: "VarInt_decode buf = Ok (ty, b1)" "VarInt_decode b1 = Ok (len, b2)"
    and n: "unat (into_inner len) \<le> MAX_CLOSE_PAYLOAD_SIZE" "unat (into_inner len) \<le> length b2"
    and p: "Capsule_decode_payload ty (take (unat (into_inner len)) b2) = Ok c"
      "rest = drop (unat (into_inner len)) b2"
    by (auto simp: Capsule_decode_def split: if_splits)
  have "capsule_ok c \<and> capsule_parts c = (ty, take (unat (into_inner len)) b2)"
    using p(1) VarInt_decode_varint_ok [OF d(1)] n by (intro Capsule_decode_payload_ok) simp_all
  then show thesis by (intro that [of b1 len]) (use d n p(2) in simp_all)
qed

lemma Capsule_decode_no_panic [simp]: "Capsule_decode buf \<noteq> Panic"
  by (auto simp: Capsule_decode_def and_then_Panic_iff)

subsection \<open>The reader\<close>

lemma Capsule_read_tlv:
  assumes "read_tlv CapsuleError_UnexpectedEnd CapsuleError_MessageTooLong CapsuleError_Io
      MAX_CLOSE_PAYLOAD_SIZE rd s = Ok ((typ, payload), s')"
    and "varint_ok typ" and "length payload \<le> MAX_CLOSE_PAYLOAD_SIZE"
  shows "Capsule_read rd s = map_ok (\<lambda>c. (c, s')) (Capsule_decode_payload typ payload)"
proof -
  have n: "length payload < 2 ^ 62" using assms(3) by (simp add: capsule_limits)
  have "Capsule_decode (frame_wire (Frame typ, payload)) = map_ok (\<lambda>c. (c, [])) (Capsule_decode_payload typ payload)"
    using Capsule_decode_frame [OF assms(2,3), of "[]"] by simp
  then show ?thesis
    using assms(1,2) VarInt_try_from_usize_ok [OF n]
    by (cases "Capsule_decode_payload typ payload")
      (simp_all add: Capsule_read_def varint.enc_wire frame_wire_def)
qed

lemma read_tlv_complete:
  assumes rd: "reads_exactly rd content" and d: "VarInt_decode (content s) = Ok (typ, b1)"
    "VarInt_decode b1 = Ok (len, payload @ rest)" "unat (into_inner len) = length payload"
  shows "if length payload \<le> limit
    then \<exists>s'. read_tlv ue tlo io limit rd s = Ok ((typ, payload), s') \<and> content s' = rest
    else read_tlv ue tlo io limit rd s = Err tlo"
proof -
  obtain s1 where s1: "VarInt_read rd s = Ok (typ, s1)" "content s1 = b1"
    using VarInt_read_decode(1) [OF rd d(1)] by blast
  obtain s2 where s2: "VarInt_read rd s1 = Ok (len, s2)" "content s2 = payload @ rest"
    using VarInt_read_decode(1) [OF rd, of s1] s1(2) d(2) by blast
  obtain s3 where "rd (length payload) s2 = Ok (payload, s3)" "content s3 = rest"
    using reads_exactly_Ok [OF rd s2(2)] by blast
  then show ?thesis using s1 s2 d(3) by (simp add: read_tlv_def)
qed

lemma Capsule_read_decode:
  assumes rd: "reads_exactly rd content"
  shows "Capsule_decode (content s) = Ok (c, rest) \<Longrightarrow> \<exists>s'. Capsule_read rd s = Ok (c, s') \<and> content s' = rest"
    and "Capsule_read rd s = Ok (c, s') \<Longrightarrow> Capsule_decode (content s) = Ok (c, content s')"
    and "Capsule_read rd s \<noteq> Panic"
proof -
  let ?tlv = "read_tlv CapsuleError_UnexpectedEnd CapsuleError_MessageTooLong CapsuleError_Io
      MAX_CLOSE_PAYLOAD_SIZE rd s"
  show "\<exists>s'. Capsule_read rd s = Ok (c, s') \<and> content s' = rest"
    if dec: "Capsule_decode (content s) = Ok (c, rest)"
  proof -
    from dec obtain b1 len where d: "VarInt_decode (content s) = Ok (fst (capsule_parts c), b1)"
      "VarInt_decode b1 = Ok (len, snd (capsule_parts c) @ rest)"
      "unat (into_inner len) = length (snd (capsule_parts c))" and ok: "capsule_ok c"
      by (rule Capsule_decode_Ok)
    note parts = capsule_parts_ok [OF ok, of "fst (capsule_parts c)" "snd (capsule_parts c)", simplified]
    obtain s' where "?tlv = Ok (capsule_parts c, s')" "content s' = rest"
      using read_tlv_complete [OF rd d, of MAX_CLOSE_PAYLOAD_SIZE CapsuleError_UnexpectedEnd
          CapsuleError_MessageTooLong CapsuleError_Io] parts(2) by auto
    then show ?thesis
      using Capsule_read_tlv [of rd s "fst (capsule_parts c)" "snd (capsule_parts c)" s'] parts by simp
  qed
  show "Capsule_decode (content s) = Ok (c, content s')" if r: "Capsule_read rd s = Ok (c, s')"
  proof -
    from r obtain ty payload where t: "?tlv = Ok ((ty, payload), s')"
      by (auto simp: Capsule_read_def)
    show ?thesis
      using rd t
      by (rule read_tlv_Ok) (use r Capsule_read_tlv [OF t] in \<open>auto simp: Capsule_decode_header\<close>)
  qed
  show "Capsule_read rd s \<noteq> Panic"
  proof (cases ?tlv)
    case (Ok f)
    then obtain ty payload s' where t: "?tlv = Ok ((ty, payload), s')" by (cases f) auto
    show ?thesis
      using rd t by (rule read_tlv_Ok) (simp add: Capsule_read_tlv [OF t])
  next
    case (Err e)
    then show ?thesis by (simp add: Capsule_read_def)
  qed (simp add: read_tlv_no_panic [OF rd])
qed

lemma capsule_wire_shortest:
  assumes "Capsule_decode buf = Ok (c, rest)"
  shows "length (capsule_wire c) + length rest \<le> length buf"
proof -
  from assms obtain b1 len where d: "VarInt_decode buf = Ok (fst (capsule_parts c), b1)"
      "VarInt_decode b1 = Ok (len, snd (capsule_parts c) @ rest)"
      "unat (into_inner len) = length (snd (capsule_parts c))"
    by (rule Capsule_decode_Ok)
  then have "VarInt (of_nat (length (snd (capsule_parts c)))) = len"
    by (cases len) (simp flip: d(3))
  then show ?thesis
    using VarInt_decode_canonical [OF d(1)] VarInt_decode_canonical [OF d(2)]
    by (simp add: capsule_wire_def frame_wire_def)
qed

subsection \<open>Properties\<close>

text \<open>
  Every capsule within the limits is encoded, and decoded back from the front of any input,
  leaving what follows; a stream of such capsules has only one reading. A message or payload above
  its limit is refused by the encoder before anything is written.
\<close>

theorem capsule_roundtrip:
  assumes "\<forall>c \<in> set cs. capsule_ok c"
  shows "(\<forall>c \<in> set cs. \<exists>bs. Capsule_encode c buf = Ok (buf @ bs) \<and> Capsule_decode (bs @ rest) = Ok (c, rest)) \<and>
    (\<forall>ds. (\<forall>d \<in> set ds. capsule_ok d) \<and> concat (map capsule_wire ds) = concat (map capsule_wire cs) \<longrightarrow> ds = cs) \<and>
    (\<forall>code reason. length reason > MAX_MESSAGE_SIZE \<longrightarrow>
       Capsule_encode (CloseWebTransportSession code reason) buf = Err CapsuleError_MessageTooLong) \<and>
    (\<forall>typ payload. length payload > MAX_CLOSE_PAYLOAD_SIZE \<longrightarrow>
       Capsule_encode (Unknown typ payload) buf = Err CapsuleError_MessageTooLong)"
  using assms capsule.enc_wire capsule.dec_wire capsule.unique_parse [of _ cs] by auto

theorem capsule_roundtrip_witness:
  "capsule_ok (Unknown (VarInt 0x21) [0xFF]) \<and> capsule_ok (CloseWebTransportSession 42 (str ''done'')) \<and>
   Capsule_decode (capsule_wire (CloseWebTransportSession 42 (str ''done'')) @ [1]) =
     Ok (CloseWebTransportSession 42 (str ''done''), [1])"
proof -
  have v: "utf8_valid (str ''done'')" by (rule utf8_valid_ascii) (simp add: str_def)
  have ok: "\<forall>c \<in> set [Unknown (VarInt 0x21) [0xFF], CloseWebTransportSession 42 (str ''done'')]. capsule_ok c"
    using v by (simp add: capsule_limits varint_ok_def CLOSE_WEBTRANSPORT_SESSION_TYPE_def str_def)
  let ?c = "CloseWebTransportSession 42 (str ''done'')"
  obtain bs where bs: "Capsule_encode ?c [] = Ok ([] @ bs)" "Capsule_decode (bs @ [1]) = Ok (?c, [1])"
    using capsule_roundtrip [OF ok, of "[]" "[1]", THEN conjunct1, THEN bspec, of ?c] by auto
  have "Capsule_encode ?c [] = Ok ([] @ capsule_wire ?c)"
    using ok by (intro Capsule_encode_wire) (simp only: list.set ball_simps)
  then have "bs = capsule_wire ?c" using bs(1) by (simp only: res.inject append_Nil)
  then show ?thesis using ok bs(2) by (simp only: list.set ball_simps simp_thms)
qed

text \<open>
  Decoding arbitrary bytes never panics. A capsule it returns is within the limits, its close
  reason is valid UTF-8, and it can be written again: the encoder's form is no longer than the
  bytes that were consumed and decodes to the same capsule.
\<close>

theorem capsule_decode_sound:
  "Capsule_decode buf \<noteq> Panic \<and>
   (\<forall>c rest. Capsule_decode buf = Ok (c, rest) \<longrightarrow>
      capsule_ok c \<and> (\<exists>used. buf = used @ rest \<and>
        (\<exists>bs. Capsule_encode c [] = Ok bs \<and> length bs \<le> length used \<and> Capsule_decode bs = Ok (c, []))))"
proof (intro conjI allI impI)
  fix c rest assume dec: "Capsule_decode buf = Ok (c, rest)"
  then show ok: "capsule_ok c" by (rule Capsule_decode_Ok)
  from dec obtain b1 len h1 h2 where "buf = h1 @ b1" "b1 = h2 @ snd (capsule_parts c) @ rest"
    by (elim Capsule_decode_Ok VarInt_decode_Ok) (metis append_Cons)
  then have "\<exists>used. buf = used @ rest" by (metis append.assoc)
  then obtain used where "buf = used @ rest" ..
  then show "\<exists>used. buf = used @ rest \<and>
      (\<exists>bs. Capsule_encode c [] = Ok bs \<and> length bs \<le> length used \<and> Capsule_decode bs = Ok (c, []))"
    using capsule_wire_shortest [OF dec] capsule.enc_wire [OF ok, of "[]"] capsule.dec_wire [OF ok, of "[]"]
    by auto
qed simp

theorem capsule_decode_sound_witness:
  "Capsule_decode [0x40, 0x21, 0x02, 0x07, 0x08, 0x09] = Ok (Unknown (VarInt 0x21) [0x07, 0x08], [0x09]) \<and>
   capsule_ok (Unknown (VarInt 0x21) [0x07, 0x08])"
proof -
  have "VarInt_decode [0x40, 0x21, 0x02, 0x07, 0x08, 0x09] = Ok (VarInt 0x21, [0x02, 0x07, 0x08, 0x09])"
    and "VarInt_decode [0x02, 0x07, 0x08, 0x09] = Ok (VarInt 2, [0x07, 0x08, 0x09])"
    by code_simp+
  then have "Capsule_decode [0x40, 0x21, 0x02, 0x07, 0x08, 0x09] = Ok (Unknown (VarInt 0x21) [0x07, 0x08], [0x09])"
    by (simp add: Capsule_decode_def Capsule_decode_payload_def CLOSE_WEBTRANSPORT_SESSION_TYPE_def capsule_limits)
  then show ?thesis using capsule_decode_sound [of "[0x40, 0x21, 0x02, 0x07, 0x08, 0x09]"] by blast
qed

text \<open>
  The asynchronous reader never panics and accepts exactly what the in-memory decoder accepts
  in the stream's bytes, returning the same capsule and leaving the same bytes unread; a header
  that announces more than the limit is refused without waiting for the payload.
\<close>

theorem capsule_read_agrees:
  assumes "reads_exactly rd content"
  shows "Capsule_read rd s \<noteq> Panic \<and>
    (\<forall>c rest. Capsule_decode (content s) = Ok (c, rest) \<longleftrightarrow>
       (\<exists>s'. Capsule_read rd s = Ok (c, s') \<and> content s' = rest)) \<and>
    (\<forall>typ b1 len b2. VarInt_decode (content s) = Ok (typ, b1) \<and> VarInt_decode b1 = Ok (len, b2) \<and>
       unat (into_inner len) > MAX_CLOSE_PAYLOAD_SIZE \<longrightarrow>
       Capsule_read rd s = Err CapsuleError_MessageTooLong)"
proof (intro conjI allI impI)
  fix ty b1 len b2
  assume a: "VarInt_decode (content s) = Ok (ty, b1) \<and> VarInt_decode b1 = Ok (len, b2) \<and>
       unat (into_inner len) > MAX_CLOSE_PAYLOAD_SIZE"
  then obtain s1 where s1: "VarInt_read rd s = Ok (ty, s1)" "content s1 = b1"
    using VarInt_read_decode(1) [OF assms] by blast
  then obtain s2 where "VarInt_read rd s1 = Ok (len, s2)"
    using a VarInt_read_decode(1) [OF assms, of s1] by blast
  then show "Capsule_read rd s = Err CapsuleError_MessageTooLong"
    using a s1 by (simp add: Capsule_read_def read_tlv_def)
qed (use Capsule_read_decode [OF assms] in blast)+

theorem capsule_read_agrees_witness:
  "reads_exactly slice_read (\<lambda>s. s) \<and>
   Capsule_read slice_read (capsule_wire (Unknown (VarInt 0x21) [7]) @ [9]) = Ok (Unknown (VarInt 0x21) [7], [9])"
proof -
  have "capsule_ok (Unknown (VarInt 0x21) [7])"
    by (simp add: capsule_limits varint_ok_def CLOSE_WEBTRANSPORT_SESSION_TYPE_def)
  then have "Capsule_decode (capsule_wire (Unknown (VarInt 0x21) [7]) @ [9]) = Ok (Unknown (VarInt 0x21) [7], [9])"
    by (rule capsule.dec_wire)
  then show ?thesis
    using slice_reads_exactly
      capsule_read_agrees [OF slice_reads_exactly, of "capsule_wire (Unknown (VarInt 0x21) [7]) @ [9]"]
    by blast
qed

end
