(* ===== verification/Huffman.thy ===== *)
theory Huffman
  imports Huffman_Table
begin

section \<open>Huffman decoding of header strings\<close>

text \<open>
  \<^verbatim>\<open>webtrans-proto/src/huffman.rs\<close>: the bit window, the bit reader, the table walk with its test for
  the end of the input, and the iterator that decodes a whole string. The fields of the window are
  32-bit in the source; they are naturals here, and every addition and product that could leave
  32 bits is checked and panics. The lemmas read the input as a list of bits, give every symbol
  its code word, and show that decoding inverts encoding, that decoding always ends, and
  exactly which leftover bits are accepted behind the last symbol.
\<close>

subsection \<open>Definitions\<close>

record BitWindow =
  byte :: nat
  bit_offset :: nat
  count :: nat

definition BitWindow_new :: BitWindow where
  "BitWindow_new = \<lparr>byte = 0, bit_offset = 0, count = 0\<rparr>"

text \<open>A 32-bit operation that panics when its result does not fit.\<close>

definition u32_checked :: "nat \<Rightarrow> (nat, 'e) res" where
  "u32_checked n = (if n < 2 ^ 32 then Ok n else Panic)"

definition BitWindow_forwards :: "BitWindow \<Rightarrow> nat \<Rightarrow> (BitWindow, 'e) res" where
  "BitWindow_forwards w step =
     and_then (u32_checked (bit_offset w + count w)) (\<lambda>b.
     and_then (u32_checked (byte w + b div 8)) (\<lambda>y.
       Ok \<lparr>byte = y, bit_offset = b mod 8, count = step\<rparr>))"

definition opposite_bit_window :: "BitWindow \<Rightarrow> BitWindow" where
  "opposite_bit_window w =
     \<lparr>byte = byte w, bit_offset = bit_offset w, count = 8 - bit_offset w mod 8\<rparr>"

datatype HuffmanError = MissingBits BitWindow | Unhandled BitWindow nat

text \<open>Indexing a slice; out of range it panics.\<close>

definition slice_index :: "bytes \<Rightarrow> nat \<Rightarrow> (u8, 'e) res" where
  "slice_index src i = (if i < length src then Ok (src ! i) else Panic)"

definition read_bits :: "bytes \<Rightarrow> nat \<Rightarrow> nat \<Rightarrow> nat \<Rightarrow> (u8, unit) res" where
  "read_bits src byte_off bit_off len =
     (if len = 0 \<or> len > 8 then Err ()
      else
        and_then (u32_checked (length src mod 2 ^ 32 * 8)) (\<lambda>avail.
        and_then (u32_checked (byte_off * 8)) (\<lambda>pos.
        and_then (u32_checked (pos + bit_off)) (\<lambda>pos.
        and_then (u32_checked (pos + len)) (\<lambda>pos.
          if avail < pos then Err ()
          else
            let byte_off = byte_off + bit_off div 8;
                bit_off = bit_off - (bit_off div 8) * 8
            in if bit_off + len \<le> 8 then
                 and_then (slice_index src byte_off) (\<lambda>b.
                   Ok (drop_bit (8 - len) (push_bit bit_off b)))
               else
                 and_then (slice_index src byte_off) (\<lambda>b.
                 and_then (slice_index src (byte_off + 1)) (\<lambda>c.
                   Ok (ucast (drop_bit (16 - len) (push_bit bit_off
                     (push_bit 8 (ucast b) OR ucast c :: u16)))))))))))"

definition check_eof :: "BitWindow \<Rightarrow> bytes \<Rightarrow> (nat option, HuffmanError) res" where
  "check_eof bit_pos input =
     and_then (u32_checked (byte bit_pos + 1)) (\<lambda>n.
       if n > length input then Ok None
       else if n = length input then
         let side = opposite_bit_window bit_pos
         in and_then (map_err (\<lambda>_. MissingBits side)
              (read_bits input (byte side) (bit_offset side) (count side))) (\<lambda>rest.
              let eof_filler = ucast (push_bit (count side - 1) (2 :: u16) - 1) :: u8
              in if rest AND eof_filler = eof_filler then Ok None else Err (MissingBits bit_pos))
       else Err (MissingBits bit_pos))"

definition fetch_value :: "BitWindow \<Rightarrow> bytes \<Rightarrow> (nat option, HuffmanError) res" where
  "fetch_value bit_pos input =
     (case read_bits input (byte bit_pos) (bit_offset bit_pos) (count bit_pos) of
        Ok v \<Rightarrow> Ok (Some (unat v))
      | Err _ \<Rightarrow> check_eof bit_pos input
      | Panic \<Rightarrow> Panic)"

text \<open>
  The result carries the window after the call, which the iterator keeps: \<^verbatim>\<open>decode_next\<close> updates
  it through a mutable reference.
\<close>

lemma size_table: "i < length (table d) \<Longrightarrow> table d ! i = Partial d' \<Longrightarrow> size d' < size d"
proof -
  assume i: "i < length (table d)" and e: "table d ! i = Partial d'"
  then have "size (Partial d') \<le> size_list size (table d)"
    using nth_mem [OF i] by (intro size_list_estimation') auto
  then show ?thesis by (cases d) simp
qed

function decode_next :: "HuffmanDecoder \<Rightarrow> BitWindow \<Rightarrow> bytes \<Rightarrow>
    (u8 option \<times> BitWindow, HuffmanError) res" where
  "decode_next d bit_pos input =
     and_then (BitWindow_forwards bit_pos (lookup d)) (\<lambda>bit_pos.
     and_then (fetch_value bit_pos input) (\<lambda>v. case v of
        None \<Rightarrow> Ok (None, bit_pos)
      | Some v \<Rightarrow>
          if v < length (table d) then
            (case table d ! v of
               Sym x \<Rightarrow> Ok (Some x, bit_pos)
             | Partial d' \<Rightarrow> decode_next d' bit_pos input)
          else Err (Unhandled bit_pos v)))"
  by pat_completeness auto
termination
  by (relation "measure (size \<circ> fst)") (auto intro: size_table)

declare decode_next.simps [simp del]

text \<open>Where the window ends, in bits from the start of the input.\<close>

definition window_end :: "BitWindow \<Rightarrow> nat" where
  "window_end w = byte w * 8 + bit_offset w + count w"

lemma forwards_end:
  "BitWindow_forwards w n = Ok w' \<Longrightarrow> window_end w' = window_end w + n \<and> bit_offset w' < 8 \<and> count w' = n"
  by (auto simp: BitWindow_forwards_def window_end_def u32_checked_def split: if_splits)

lemma read_bits_Ok_end:
  "read_bits src y b n = Ok v \<Longrightarrow> y * 8 + b + n \<le> 8 * length src"
  by (auto simp: read_bits_def u32_checked_def Let_def split: if_splits)

lemma check_eof_None: "check_eof w input = Ok v \<Longrightarrow> v = None"
  by (auto simp: check_eof_def Let_def split: if_splits)

lemma fetch_value_end:
  "fetch_value w input = Ok (Some v) \<Longrightarrow> window_end w \<le> 8 * length input"
  by (auto simp: fetch_value_def window_end_def split: res.splits
      dest: read_bits_Ok_end check_eof_None)

lemma decode_next_end:
  "decode_next d w input = Ok (Some x, w') \<Longrightarrow>
   window_end w + lookup d \<le> window_end w' \<and> window_end w' \<le> 8 * length input"
proof (induction d w input rule: decode_next.induct)
  case (1 d w input)
  from "1.prems" obtain w1 v where f: "BitWindow_forwards w (lookup d) = (Ok w1 :: (_, HuffmanError) res)"
      "fetch_value w1 input = Ok (Some v)" "v < length (table d)"
    and t: "(case table d ! v of Sym x \<Rightarrow> Ok (Some x, w1)
       | Partial d' \<Rightarrow> decode_next d' w1 input) = Ok (Some x, w')"
    by (subst (asm) decode_next.simps) (auto split: option.splits if_splits)
  have e: "window_end w1 = window_end w + lookup d" "window_end w1 \<le> 8 * length input"
    using forwards_end [OF f(1)] fetch_value_end [OF f(2)] by simp_all
  show ?case
  proof (cases "table d ! v")
    case (Partial d')
    then show ?thesis using "1.IH" [OF f(1) f(2) refl f(3)] t e by fastforce
  qed (use t e in simp)
qed

text \<open>
  \<^verbatim>\<open>for byte in payload.hpack_decode()\<close>: the iterator is driven until it yields nothing or an error.
\<close>

lemma HPACK_STRING_lookup [simp]: "lookup HPACK_STRING = 5"
  by (simp add: HPACK_STRING_def)

function hpack_decode_loop :: "BitWindow \<Rightarrow> bytes \<Rightarrow> bytes \<Rightarrow> (bytes, HuffmanError) res" where
  "hpack_decode_loop bit_pos content decoded =
     and_then (decode_next HPACK_STRING bit_pos content) (\<lambda>(x, bit_pos). case x of
        None \<Rightarrow> Ok decoded
      | Some x \<Rightarrow> hpack_decode_loop bit_pos content (decoded @ [x]))"
  by pat_completeness auto
termination
proof (relation "measure (\<lambda>(w, content, _). 8 * length content + 1 - window_end w)")
  fix w content decoded p x w' x'
  assume "decode_next HPACK_STRING w content = Ok p" and "(x, w') = p" and "x = Some x'"
  then have "window_end w + 5 \<le> window_end w'" "window_end w' \<le> 8 * length content"
    using decode_next_end [of HPACK_STRING w content x' w'] by auto
  then show "((w', content, decoded @ [x']), (w, content, decoded)) \<in>
      measure (\<lambda>(w, content, _). 8 * length content + 1 - window_end w)"
    by simp
qed simp

declare hpack_decode_loop.simps [simp del]

definition hpack_decode :: "bytes \<Rightarrow> (bytes, HuffmanError) res" where
  "hpack_decode content = hpack_decode_loop BitWindow_new content []"

subsection \<open>The input as bits\<close>

definition byte_bits :: "u8 \<Rightarrow> bool list" where
  "byte_bits b = map (\<lambda>i. bit b (7 - i)) [0..<8]"

definition bits_of :: "bytes \<Rightarrow> bool list" where
  "bits_of bs = concat (map byte_bits bs)"

text \<open>The number a list of bits denotes, most significant bit first.\<close>

definition bits_value :: "bool list \<Rightarrow> nat" where
  "bits_value bs = horner_sum of_bool 2 (rev bs)"

lemma length_byte_bits [simp]: "length (byte_bits b) = 8"
  by (simp add: byte_bits_def)

lemma length_bits_of [simp]: "length (bits_of bs) = 8 * length bs"
  by (induction bs) (simp_all add: bits_of_def)

lemma bits_of_nth:
  "i < 8 * length bs \<Longrightarrow> bits_of bs ! i = bit (bs ! (i div 8)) (7 - i mod 8)"
proof (induction bs arbitrary: i)
  case (Cons b bs)
  show ?case
  proof (cases "i < 8")
    case True
    then have "byte_bits b ! i = bit b (7 - i)" by (simp add: byte_bits_def)
    then show ?thesis using True by (simp add: bits_of_def nth_append)
  next
    case False
    then have "i div 8 = Suc ((i - 8) div 8)" "i mod 8 = (i - 8) mod 8"
      by (simp_all add: le_div_geq le_mod_geq)
    moreover have "bits_of (b # bs) ! i = bits_of bs ! (i - 8)"
      using False by (simp add: bits_of_def nth_append)
    ultimately show ?thesis using Cons False by simp
  qed
qed simp

lemma bit_bits_value:
  "bit (bits_value bs) i \<longleftrightarrow> i < length bs \<and> bs ! (length bs - 1 - i)"
  by (auto simp: bits_value_def bit_horner_sum_bit_iff rev_nth)

lemma bits_value_bound: "bits_value bs < 2 ^ length bs"
  using horner_sum_bound [of "rev bs"] by (simp add: bits_value_def)

text \<open>The \<open>n\<close> bits at bit position \<open>p\<close>.\<close>

definition bits_at :: "bytes \<Rightarrow> nat \<Rightarrow> nat \<Rightarrow> bool list" where
  "bits_at src p n = take n (drop p (bits_of src))"

lemma bit_bits_at:
  assumes "y * 8 + b + n \<le> 8 * length src" and "b < 8" and "i < n"
  shows "bit (bits_value (bits_at src (y * 8 + b) n)) i \<longleftrightarrow>
    bit (src ! ((y * 8 + (b + n - 1 - i)) div 8)) (7 - (y * 8 + (b + n - 1 - i)) mod 8)"
proof -
  have "length (bits_at src (y * 8 + b) n) = n" using assms(1) by (simp add: bits_at_def)
  moreover have "bits_at src (y * 8 + b) n ! (n - 1 - i) = bits_of src ! (y * 8 + (b + n - 1 - i))"
    using assms by (simp add: bits_at_def add.assoc)
  moreover have "bits_of src ! (y * 8 + (b + n - 1 - i)) =
      bit (src ! ((y * 8 + (b + n - 1 - i)) div 8)) (7 - (y * 8 + (b + n - 1 - i)) mod 8)"
    using assms by (intro bits_of_nth) simp
  ultimately show ?thesis using assms(3) by (simp add: bit_bits_value)
qed

lemma one_byte:
  fixes w :: u8
  assumes "b + n \<le> 8" and "0 < n"
  shows "bit (drop_bit (8 - n) (push_bit b w)) i \<longleftrightarrow> i < n \<and> bit w (7 - (b + n - 1 - i))"
  using assms by (auto simp: bit_drop_bit_eq bit_push_bit_iff add.commute)

lemma two_bytes:
  fixes w v :: u8
  assumes "8 < b + n" and "b < 8" and "n \<le> 8"
  shows "bit (ucast (drop_bit (16 - n) (push_bit b (push_bit 8 (ucast w) OR ucast v :: u16))) :: u8) i \<longleftrightarrow>
    i < n \<and> (if b + n - 1 - i < 8 then bit w (7 - (b + n - 1 - i)) else bit v (7 - (b + n - 9 - i)))"
  using assms by (auto simp: bit_simps add.commute dest: bit_imp_le_length)

text \<open>The inputs on which no 32-bit computation can leave its range.\<close>

definition huffman_input_ok :: "bytes \<Rightarrow> bool" where
  "huffman_input_ok input \<longleftrightarrow> 8 * length input + 64 < 2 ^ 32"

lemma byte_pos: "q < 8 \<Longrightarrow> (y * 8 + q) div 8 = y" "q < 8 \<Longrightarrow> (y * 8 + q) mod 8 = q" for q y :: nat
  by simp_all

lemma byte_pos_16:
  "q < 16 \<Longrightarrow> (y * 8 + q) div 8 = (if q < 8 then y else y + 1)"
  "q < 16 \<Longrightarrow> (y * 8 + q) mod 8 = (if q < 8 then q else q - 8)"
  for q y :: nat
  by presburger+

lemma read_bits_Ok:
  assumes ok: "huffman_input_ok src" and n: "0 < n" "n \<le> 8" and b: "b < 8"
    and fits: "y * 8 + b + n \<le> 8 * length src"
  obtains v where "read_bits src y b n = Ok v"
    and "unat v = bits_value (bits_at src (y * 8 + b) n)"
proof (cases "b + n \<le> 8")
  case True
  let ?v = "drop_bit (8 - n) (push_bit b (src ! y))"
  have "y < length src" using fits n by linarith
  then have r: "read_bits src y b n = Ok ?v"
    using assms True by (simp add: read_bits_def u32_checked_def slice_index_def huffman_input_ok_def)
  have "bit (unat ?v) i \<longleftrightarrow> bit (bits_value (bits_at src (y * 8 + b) n)) i" for i
  proof (cases "i < n")
    case i: True
    have q: "(y * 8 + (b + n - 1 - i)) div 8 = y" "(y * 8 + (b + n - 1 - i)) mod 8 = b + n - 1 - i"
      by (rule byte_pos; use i True in linarith)+
    show ?thesis
      using one_byte [OF True n(1), of "src ! y" i] bit_bits_at [OF fits b i] i
      unfolding q by (simp add: bit_unsigned_iff)
  next
    case False
    then show ?thesis
      using one_byte [OF True n(1), of "src ! y" i] fits
      by (simp add: bit_unsigned_iff bit_bits_value bits_at_def)
  qed
  then show thesis using that [OF r] by (simp add: bit_eq_iff)
next
  case False
  let ?v = "ucast (drop_bit (16 - n) (push_bit b (push_bit 8 (ucast (src ! y)) OR ucast (src ! (y + 1)) :: u16))) :: u8"
  have "y + 1 < length src" using fits False by linarith
  then have r: "read_bits src y b n = Ok ?v"
    using assms False by (simp add: read_bits_def u32_checked_def slice_index_def huffman_input_ok_def)
  have big: "8 < b + n" using False by simp
  have "bit (unat ?v) i \<longleftrightarrow> bit (bits_value (bits_at src (y * 8 + b) n)) i" for i
  proof (cases "i < n")
    case i: True
    let ?q = "b + n - 1 - i"
    have "?q < 16" using b n by simp
    then have q: "(y * 8 + ?q) div 8 = (if ?q < 8 then y else y + 1)"
        "(y * 8 + ?q) mod 8 = (if ?q < 8 then ?q else ?q - 8)"
      by (rule byte_pos_16; assumption)+
    show ?thesis
      using two_bytes [OF big b n(2), of "src ! y" "src ! (y + 1)" i] bit_bits_at [OF fits b i] i
      unfolding q by (simp add: bit_unsigned_iff)
  next
    case False
    then show ?thesis
      using two_bytes [OF big b n(2), of "src ! y" "src ! (y + 1)" i] fits
      by (simp add: bit_unsigned_iff bit_bits_value bits_at_def)
  qed
  then show thesis using that [OF r] by (simp add: bit_eq_iff)
qed

lemma read_bits_Err:
  assumes "huffman_input_ok src" and "8 * length src < y * 8 + b + n" and "y * 8 + b + n < 2 ^ 32"
  shows "read_bits src y b n = Err ()"
  using assms by (simp add: read_bits_def u32_checked_def huffman_input_ok_def)

subsection \<open>One step of the table walk\<close>

lemma eof_filler:
  assumes "0 < k" and "k \<le> 8"
  shows "(ucast (push_bit (k - 1) (2 :: u16) - 1) :: u8) = mask k"
proof -
  have "k \<in> {1, 2, 3, 4, 5, 6, 7, 8}" using assms by auto
  then show ?thesis by (auto simp: mask_eq_exp_minus_1)
qed

lemma and_mask_eq_iff: "v AND mask k = mask k \<longleftrightarrow> (\<forall>i < k. bit v i)" if "k \<le> 8" for v :: u8
  using that by (auto simp: bit_eq_iff bit_simps) (metis order_less_le_trans)

lemma all_bits_iff:
  "length bs = k \<Longrightarrow> (\<forall>i < k. bit (bits_value bs) i) \<longleftrightarrow> bs = replicate k True"
proof -
  assume k: "length bs = k"
  have "(\<forall>i < k. bit (bits_value bs) i) \<longleftrightarrow> (\<forall>j < k. bs ! j)"
  proof
    assume a: "\<forall>i < k. bit (bits_value bs) i"
    show "\<forall>j < k. bs ! j"
    proof (intro allI impI)
      fix j assume "j < k"
      then show "bs ! j" using a [rule_format, of "k - 1 - j"] k by (simp add: bit_bits_value)
    qed
  qed (simp add: bit_bits_value k)
  also have "\<dots> \<longleftrightarrow> bs = replicate k True"
    using k by (auto simp: list_eq_iff_nth_eq)
  finally show ?thesis .
qed

text \<open>The bits from position \<open>p\<close> to the end.\<close>

definition bits_from :: "bytes \<Rightarrow> nat \<Rightarrow> bool list" where
  "bits_from src p = drop p (bits_of src)"

lemma length_bits_from [simp]: "length (bits_from src p) = 8 * length src - p"
  by (simp add: bits_from_def)

lemma bits_at_from: "bits_at src p n = take n (bits_from src p)"
  by (simp add: bits_at_def bits_from_def)

lemma fetch_value_Ok:
  assumes "huffman_input_ok input" and "bit_offset w < 8" and "0 < count w" and "count w \<le> 8"
    and "window_end w \<le> 8 * length input"
  shows "fetch_value w input = Ok (Some (bits_value (bits_at input (byte w * 8 + bit_offset w) (count w))))"
proof -
  obtain v where "read_bits input (byte w) (bit_offset w) (count w) = Ok v"
      "unat v = bits_value (bits_at input (byte w * 8 + bit_offset w) (count w))"
    using read_bits_Ok [OF assms(1,3,4,2), of "byte w"] assms(5) by (auto simp: window_end_def)
  then show ?thesis by (simp add: fetch_value_def)
qed

lemma check_eof_rest:
  assumes ok: "huffman_input_ok input" and b: "bit_offset w < 8"
    and p: "byte w * 8 + bit_offset w \<le> 8 * length input"
    and near: "8 * length input < byte w * 8 + bit_offset w + 8"
  shows "check_eof w input =
    (if bits_from input (byte w * 8 + bit_offset w) =
        replicate (8 * length input - (byte w * 8 + bit_offset w)) True
     then Ok None else Err (MissingBits w))"
proof (cases "byte w * 8 + bit_offset w = 8 * length input")
  case True
  then have "bit_offset w = 0" "byte w = length input" using b by presburger+
  then show ?thesis
    using ok by (simp add: check_eof_def u32_checked_def huffman_input_ok_def bits_from_def)
next
  case False
  let ?p = "byte w * 8 + bit_offset w"
  let ?k = "8 - bit_offset w"
  have n: "byte w + 1 = length input" using False p near b by presburger
  then have k: "8 * length input - ?p = ?k" "0 < ?k" "?k \<le> 8" using b by simp_all
  obtain v where v: "read_bits input (byte w) (bit_offset w) ?k = Ok v"
      "unat v = bits_value (bits_at input ?p ?k)"
    using read_bits_Ok [OF ok k(2,3) b, of "byte w"] n b by auto
  have rest: "bits_at input ?p ?k = bits_from input ?p"
    using k by (simp add: bits_at_from)
  have "v AND mask ?k = mask ?k \<longleftrightarrow> bits_from input ?p = replicate ?k True"
  proof -
    have "(\<forall>i < ?k. bit v i) \<longleftrightarrow> (\<forall>i < ?k. bit (bits_value (bits_from input ?p)) i)"
      using k(3) by (simp flip: v(2) rest add: bit_unsigned_iff)
    moreover have "length (bits_from input ?p) = ?k" using k(1) by simp
    ultimately show ?thesis using all_bits_iff and_mask_eq_iff [OF k(3)] by metis
  qed
  moreover have "u32_checked (byte w + 1) = (Ok (length input) :: (nat, HuffmanError) res)"
    using ok unfolding n by (simp add: u32_checked_def huffman_input_ok_def)
  ultimately show ?thesis
    using v(1) b k(1) eof_filler [OF k(2,3)]
    by (simp add: check_eof_def opposite_bit_window_def Let_def)
qed

text \<open>The outcome of one step at bit position \<open>p\<close>, with \<open>w\<close> the window after it.\<close>

definition walk_step :: "HuffmanDecoder \<Rightarrow> nat \<Rightarrow> bytes \<Rightarrow> BitWindow \<Rightarrow>
    (u8 option \<times> BitWindow, HuffmanError) res" where
  "walk_step d p input w =
     (if p + lookup d \<le> 8 * length input then
        let v = bits_value (bits_at input p (lookup d)) in
        if v < length (table d) then
          (case table d ! v of Sym x \<Rightarrow> Ok (Some x, w) | Partial d' \<Rightarrow> decode_next d' w input)
        else Err (Unhandled w v)
      else if bits_from input p = replicate (8 * length input - p) True
        then Ok (None, w) else Err (MissingBits w))"

lemma decode_next_step:
  assumes ok: "huffman_input_ok input" and lk: "0 < lookup d" "lookup d \<le> 8"
    and p: "window_end w \<le> 8 * length input"
  obtains w' where "window_end w' = window_end w + lookup d"
    and "decode_next d w input = walk_step d (window_end w) input w'"
proof -
  let ?b = "bit_offset w + count w"
  define w' where "w' = \<lparr>byte = byte w + ?b div 8, bit_offset = ?b mod 8, count = lookup d\<rparr>"
  have start: "byte w' * 8 + bit_offset w' = window_end w"
    by (simp add: w'_def window_end_def)
  have bo: "bit_offset w' < 8" and cnt: "count w' = lookup d" by (simp_all add: w'_def)
  have e: "window_end w' = window_end w + lookup d" using start cnt by (simp add: window_end_def)
  have "?b < 2 ^ 32" "byte w + ?b div 8 < 2 ^ 32"
    using ok p unfolding huffman_input_ok_def window_end_def by linarith+
  then have fwd: "BitWindow_forwards w (lookup d) = (Ok w' :: (_, HuffmanError) res)"
    by (simp add: BitWindow_forwards_def u32_checked_def w'_def)
  have "decode_next d w input = walk_step d (window_end w) input w'"
  proof (cases "window_end w + lookup d \<le> 8 * length input")
    case True
    then have "fetch_value w' input = Ok (Some (bits_value (bits_at input (window_end w) (lookup d))))"
      using fetch_value_Ok [OF ok bo] lk e by (simp add: cnt start)
    then show ?thesis
      using True fwd by (subst decode_next.simps) (simp add: walk_step_def Let_def)
  next
    case False
    have "read_bits input (byte w') (bit_offset w') (count w') = Err ()"
    proof (rule read_bits_Err [OF ok])
      show "8 * length input < byte w' * 8 + bit_offset w' + count w'"
        using False start cnt by simp
      show "byte w' * 8 + bit_offset w' + count w' < 2 ^ 32"
        using ok p lk start cnt by (simp add: huffman_input_ok_def)
    qed
    then have f: "fetch_value w' input = check_eof w' input" by (simp add: fetch_value_def)
    have "check_eof w' input = (if bits_from input (window_end w) =
        replicate (8 * length input - window_end w) True then Ok None else Err (MissingBits w'))"
      using check_eof_rest [OF ok bo] p False lk unfolding start by simp
    then show ?thesis
      using False fwd f by (subst decode_next.simps) (simp add: walk_step_def)
  qed
  with e show thesis by (rule that)
qed

subsection \<open>Code words\<close>

text \<open>The bits that lead from a node to a symbol, and from a node to a node below it.\<close>

inductive code_word :: "HuffmanDecoder \<Rightarrow> bool list \<Rightarrow> u8 \<Rightarrow> bool" where
  leaf: "length bs = lookup d \<Longrightarrow> bits_value bs < length (table d) \<Longrightarrow>
    table d ! bits_value bs = Sym x \<Longrightarrow> code_word d bs x"
| branch: "length bs = lookup d \<Longrightarrow> bits_value bs < length (table d) \<Longrightarrow>
    table d ! bits_value bs = Partial d' \<Longrightarrow> code_word d' cs x \<Longrightarrow> code_word d (bs @ cs) x"

inductive inner_node :: "HuffmanDecoder \<Rightarrow> bool list \<Rightarrow> HuffmanDecoder \<Rightarrow> bool" where
  here: "inner_node d [] d"
| below: "length bs = lookup d \<Longrightarrow> bits_value bs < length (table d) \<Longrightarrow>
    table d ! bits_value bs = Partial d' \<Longrightarrow> inner_node d' q e \<Longrightarrow> inner_node d (bs @ q) e"

fun lookups_ok :: "HuffmanDecoder \<Rightarrow> bool" and lookups_ok_value :: "DecodeValue \<Rightarrow> bool" where
  "lookups_ok (HuffmanDecoder n t) \<longleftrightarrow> 0 < n \<and> n \<le> 8 \<and> list_all lookups_ok_value t"
| "lookups_ok_value (Partial d) \<longleftrightarrow> lookups_ok d"
| "lookups_ok_value (Sym x) \<longleftrightarrow> True"

lemma HPACK_STRING_ok: "lookups_ok HPACK_STRING"
  by (simp add: huffman_table_defs)

lemma lookups_ok_lookup: "lookups_ok d \<Longrightarrow> 0 < lookup d \<and> lookup d \<le> 8"
  by (cases d) simp

lemma lookups_ok_table:
  "lookups_ok d \<Longrightarrow> i < length (table d) \<Longrightarrow> table d ! i = Partial d' \<Longrightarrow> lookups_ok d'"
  by (cases d) (auto simp: list_all_length)

lemma bits_from_split:
  "p + n \<le> 8 * length src \<Longrightarrow> bits_from src p = bits_at src p n @ bits_from src (p + n)"
  unfolding bits_at_from by (simp add: bits_from_def add.commute flip: drop_drop)

lemma length_bits_at: "p + n \<le> 8 * length src \<Longrightarrow> length (bits_at src p n) = n"
  by (simp add: bits_at_def)

lemma decode_next_sound:
  assumes ok: "huffman_input_ok input" and "lookups_ok d" and "window_end w \<le> 8 * length input"
  shows "decode_next d w input \<noteq> Panic \<and>
    (\<forall>x w'. decode_next d w input = Ok (Some x, w') \<longrightarrow> window_end w' \<le> 8 * length input \<and>
       (\<exists>cs. code_word d cs x \<and> bits_from input (window_end w) = cs @ bits_from input (window_end w'))) \<and>
    (\<forall>w'. decode_next d w input = Ok (None, w') \<longrightarrow>
       (\<exists>q d' k. inner_node d q d' \<and> bits_from input (window_end w) = q @ replicate k True \<and> k < lookup d'))"
  using assms(2,3)
proof (induction d arbitrary: w rule: measure_induct_rule [of size])
  case (less d)
  note lk = lookups_ok_lookup [OF less.prems(1)]
  let ?p = "window_end w" and ?n = "lookup d"
  let ?v = "bits_value (bits_at input ?p ?n)"
  obtain w1 where e: "window_end w1 = ?p + ?n"
    and st: "decode_next d w input = walk_step d ?p input w1"
    using decode_next_step [OF ok, of d w] lk less.prems(2) by blast
  note step = st [unfolded walk_step_def]
  show ?case
  proof (cases "?p + ?n \<le> 8 * length input")
    case False
    then show ?thesis
      unfolding step using less.prems(2) by (auto intro!: exI [of _ "[]"] exI [of _ d] inner_node.here)
  next
    case fits: True
    note split = bits_from_split [OF fits] and len = length_bits_at [OF fits]
    show ?thesis
    proof (cases "?v < length (table d)")
      case False
      then show ?thesis unfolding step using fits by simp
    next
      case v: True
      show ?thesis
      proof (cases "table d ! ?v")
        case (Sym x)
        then show ?thesis
          unfolding step using fits v e split code_word.leaf [OF len v Sym] by (auto simp: Let_def)
      next
        case (Partial d')
        have s: "decode_next d w input = decode_next d' w1 input"
          unfolding step using fits v Partial by (simp add: Let_def)
        have "window_end w1 \<le> 8 * length input" using fits e by simp
        note ih = less.IH [OF size_table [OF v Partial] lookups_ok_table [OF less.prems(1) v Partial] this]
        show ?thesis
          unfolding s using ih split e code_word.branch [OF len v Partial] inner_node.below [OF len v Partial]
          by (metis append.assoc)
      qed
    qed
  qed
qed

lemma decode_next_code:
  assumes ok: "huffman_input_ok input" and "code_word d cs x" and "lookups_ok d"
    and "window_end w \<le> 8 * length input" and "bits_from input (window_end w) = cs @ rest"
  shows "\<exists>w'. decode_next d w input = Ok (Some x, w') \<and> window_end w' = window_end w + length cs"
  using assms(2-5)
proof (induction arbitrary: w rest)
  case (leaf bs d x)
  obtain w1 where w1: "window_end w1 = window_end w + lookup d"
      "decode_next d w input = walk_step d (window_end w) input w1"
    using decode_next_step [OF ok, of d w] lookups_ok_lookup [OF leaf.prems(1)] leaf.prems(2) by blast
  have "8 * length input - window_end w = length bs + length rest"
    using arg_cong [OF leaf.prems(3), of length] by simp
  then have "window_end w + lookup d \<le> 8 * length input"
    using leaf.hyps(1) leaf.prems(2) by linarith
  moreover have "bits_at input (window_end w) (lookup d) = bs"
    using leaf by (simp add: bits_at_from)
  ultimately show ?case using w1 leaf by (simp add: walk_step_def Let_def)
next
  case (branch bs d d' cs x)
  obtain w1 where w1: "window_end w1 = window_end w + lookup d"
      "decode_next d w input = walk_step d (window_end w) input w1"
    using decode_next_step [OF ok, of d w] lookups_ok_lookup [OF branch.prems(1)] branch.prems(2) by blast
  have "8 * length input - window_end w = length bs + length cs + length rest"
    using arg_cong [OF branch.prems(3), of length] by simp
  then have fits: "window_end w + lookup d \<le> 8 * length input"
    using branch.hyps(1) branch.prems(2) by linarith
  have at_pos: "bits_at input (window_end w) (lookup d) = bs"
    using branch by (simp add: bits_at_from)
  have s: "decode_next d w input = decode_next d' w1 input"
    using w1 fits at_pos branch by (simp add: walk_step_def Let_def)
  have "\<exists>w'. decode_next d' w1 input = Ok (Some x, w') \<and> window_end w' = window_end w1 + length cs"
  proof (rule branch.IH)
    show "lookups_ok d'" using lookups_ok_table branch by blast
    show "window_end w1 \<le> 8 * length input" using fits w1 by simp
    show "bits_from input (window_end w1) = cs @ rest"
      using bits_from_split [OF fits] at_pos branch.prems(3) w1(1) by simp
  qed
  then show ?case unfolding s using w1(1) branch by auto
qed

subsection \<open>Whole strings\<close>

lemma bits_value_ones: "bits_value (replicate 5 True) = 31" "bits_value (replicate 2 True) = 3"
  "bits_value (replicate 1 True) = 1"
  by (simp_all add: bits_value_def numeral_eq_Suc)

lemma decode_next_stops:
  assumes ok: "huffman_input_ok input" and "inner_node d q e" and "lookups_ok d"
    and "window_end w \<le> 8 * length input" and "bits_from input (window_end w) = q @ replicate k True"
    and "k < lookup e"
  shows "\<exists>w'. decode_next d w input = Ok (None, w')"
  using assms(2-6)
proof (induction arbitrary: w)
  case (here d)
  obtain w1 where w1: "decode_next d w input = walk_step d (window_end w) input w1"
    using decode_next_step [OF ok, of d w] lookups_ok_lookup [OF here.prems(1)] here.prems(2) by blast
  have k: "8 * length input - window_end w = k"
    using arg_cong [OF here.prems(3), of length] by simp
  then have "\<not> window_end w + lookup d \<le> 8 * length input" using here.prems(4) by linarith
  then show ?case using w1 k here.prems(3) by (simp add: walk_step_def)
next
  case (below bs d d' q e)
  obtain w1 where w1: "window_end w1 = window_end w + lookup d"
      "decode_next d w input = walk_step d (window_end w) input w1"
    using decode_next_step [OF ok, of d w] lookups_ok_lookup [OF below.prems(1)] below.prems(2) by blast
  have "8 * length input - window_end w = length bs + length q + k"
    using arg_cong [OF below.prems(3), of length] by simp
  then have fits: "window_end w + lookup d \<le> 8 * length input"
    using below.hyps(1) below.prems(2) by linarith
  have at_pos: "bits_at input (window_end w) (lookup d) = bs"
    using below by (simp add: bits_at_from)
  have s: "decode_next d w input = decode_next d' w1 input"
    using w1 fits at_pos below by (simp add: walk_step_def Let_def)
  have "\<exists>w'. decode_next d' w1 input = Ok (None, w')"
  proof (rule below.IH)
    show "lookups_ok d'" using lookups_ok_table below by blast
    show "window_end w1 \<le> 8 * length input" using fits w1 by simp
    show "bits_from input (window_end w1) = q @ replicate k True"
      using bits_from_split [OF fits] at_pos below.prems(3) w1(1) by simp
  qed (rule below.prems(4))
  then show ?case unfolding s .
qed

text \<open>Less than a byte of one bits leads to an inner node that wants more bits than are left.\<close>

lemma padding_inner_node:
  assumes "k < 8"
  obtains q d j where "inner_node HPACK_STRING q d" and "j < lookup d"
    and "replicate k True = q @ replicate j True"
proof -
  have five: "inner_node HPACK_STRING (replicate 5 True @ q) d" if "inner_node END0_11111 q d" for q d
    by (rule inner_node.below [OF _ _ _ that])
      (simp_all add: bits_value_ones HPACK_STRING_def)
  have seven: "inner_node END0_11111 (replicate 2 True @ q) d" if "inner_node END5_11 q d" for q d
    by (rule inner_node.below [OF _ _ _ that])
      (simp_all add: bits_value_ones END0_11111_def)
  consider "k < 5" | "5 \<le> k" "k < 7" | "k = 7" using assms by linarith
  then show thesis
  proof cases
    case 1
    then show ?thesis by (intro that [OF inner_node.here, of k]) simp_all
  next
    case 2
    have "replicate k True = (replicate 5 True @ []) @ replicate (k - 5) True"
      using 2 by (simp flip: replicate_add)
    then show ?thesis using 2
      by (intro that [OF five [OF inner_node.here], of "k - 5"]) (simp_all add: END0_11111_def)
  next
    case 3
    have "replicate k True = (replicate 5 True @ replicate 2 True @ []) @ replicate 0 True"
      using 3 by (simp flip: replicate_add)
    then show ?thesis
      by (intro that [OF five [OF seven [OF inner_node.here]], of 0]) (simp_all add: END5_11_def)
  qed
qed

abbreviation huffman_code :: "bool list \<Rightarrow> u8 \<Rightarrow> bool" where
  "huffman_code \<equiv> code_word HPACK_STRING"

lemma hpack_decode_loop_complete:
  assumes ok: "huffman_input_ok input" and "list_all2 huffman_code cws out"
    and "window_end w \<le> 8 * length input"
    and "bits_from input (window_end w) = concat cws @ q @ replicate k True"
    and stop: "inner_node HPACK_STRING q d" "k < lookup d"
  shows "hpack_decode_loop w input acc = Ok (acc @ out)"
  using assms(2-4)
proof (induction cws out arbitrary: w acc)
  case Nil
  then obtain w' where "decode_next HPACK_STRING w input = Ok (None, w')"
    using decode_next_stops [OF ok stop(1) HPACK_STRING_ok _ _ stop(2)] by auto
  then show ?case by (subst hpack_decode_loop.simps) simp
next
  case (Cons cw cws x out)
  have bits: "bits_from input (window_end w) = cw @ (concat cws @ q @ replicate k True)"
    using Cons.prems by simp
  obtain w' where w': "decode_next HPACK_STRING w input = Ok (Some x, w')"
      "window_end w' = window_end w + length cw"
    using decode_next_code [OF ok Cons.hyps(1) HPACK_STRING_ok Cons.prems(1) bits] by blast
  have "window_end w' \<le> 8 * length input" using decode_next_end [OF w'(1)] by simp
  moreover have "bits_from input (window_end w') = concat cws @ q @ replicate k True"
  proof -
    have "bits_from input (window_end w') = drop (length cw) (bits_from input (window_end w))"
      by (simp add: bits_from_def w'(2) add.commute)
    then show ?thesis using bits by simp
  qed
  ultimately have "hpack_decode_loop w' input (acc @ [x]) = Ok ((acc @ [x]) @ out)"
    by (rule Cons.IH)
  then show ?case using w'(1) by (subst hpack_decode_loop.simps) simp
qed

lemma hpack_decode_loop_sound:
  "huffman_input_ok input \<Longrightarrow> window_end w \<le> 8 * length input \<Longrightarrow>
   hpack_decode_loop w input acc \<noteq> Panic \<and>
   (\<forall>s. hpack_decode_loop w input acc = Ok s \<longrightarrow> (\<exists>cws out q d k. s = acc @ out \<and>
      list_all2 huffman_code cws out \<and> inner_node HPACK_STRING q d \<and> k < lookup d \<and>
      bits_from input (window_end w) = concat cws @ q @ replicate k True))"
proof (induction w input acc rule: hpack_decode_loop.induct)
  case (1 w input acc)
  note nxt = decode_next_sound [OF "1.prems"(1) HPACK_STRING_ok "1.prems"(2)]
  show ?case
  proof (cases "decode_next HPACK_STRING w input")
    case (Ok r)
    obtain o' w' where r: "r = (o', w')" by (cases r)
    show ?thesis
    proof (cases o')
      case None
      then obtain q d k where "inner_node HPACK_STRING q d" "k < lookup d"
          "bits_from input (window_end w) = q @ replicate k True"
        using nxt Ok r by blast
      then show ?thesis using Ok r None
        by (subst (1 2) hpack_decode_loop.simps)
          (auto intro!: exI [of _ "[]"] exI [of _ q] exI [of _ d] exI [of _ k])
    next
      case (Some x)
      then obtain cs where cs: "huffman_code cs x" "window_end w' \<le> 8 * length input"
          "bits_from input (window_end w) = cs @ bits_from input (window_end w')"
        using nxt Ok r by blast
      have l: "hpack_decode_loop w input acc = hpack_decode_loop w' input (acc @ [x])"
        using Ok r Some by (subst hpack_decode_loop.simps) simp
      note ih = "1.IH" [OF Ok r [symmetric] Some "1.prems"(1) cs(2)]
      show ?thesis unfolding l
      proof (intro conjI allI impI)
        fix s assume "hpack_decode_loop w' input (acc @ [x]) = Ok s"
        then obtain cws out q d k where "s = (acc @ [x]) @ out" "list_all2 huffman_code cws out"
            "inner_node HPACK_STRING q d" "k < lookup d"
            "bits_from input (window_end w') = concat cws @ q @ replicate k True"
          using ih by blast
        then show "\<exists>cws out q d k. s = acc @ out \<and> list_all2 huffman_code cws out \<and>
            inner_node HPACK_STRING q d \<and> k < lookup d \<and>
            bits_from input (window_end w) = concat cws @ q @ replicate k True"
          using cs by (intro exI [of _ "cs # cws"] exI [of _ "x # out"] exI [of _ q] exI [of _ d]
              exI [of _ k]) simp
      qed (use ih in blast)
    qed
  next
    case (Err e)
    then show ?thesis by (subst (1 2) hpack_decode_loop.simps) simp
  next
    case Panic
    then show ?thesis using nxt by blast
  qed
qed

subsection \<open>Every symbol has a code word\<close>

fun symbols :: "HuffmanDecoder \<Rightarrow> u8 list" and symbols_value :: "DecodeValue \<Rightarrow> u8 list" where
  "symbols (HuffmanDecoder n t) = concat (map symbols_value t)"
| "symbols_value (Partial d) = symbols d"
| "symbols_value (Sym x) = [x]"

text \<open>A bound on the length of the code words below a node whose tables fit their lookups.\<close>

fun depth_le :: "nat \<Rightarrow> HuffmanDecoder \<Rightarrow> bool" and depth_le_value :: "nat \<Rightarrow> DecodeValue \<Rightarrow> bool" where
  "depth_le m (HuffmanDecoder n t) \<longleftrightarrow> n \<le> m \<and> length t \<le> 2 ^ n \<and> list_all (depth_le_value (m - n)) t"
| "depth_le_value m (Partial d) \<longleftrightarrow> depth_le m d"
| "depth_le_value m (Sym x) \<longleftrightarrow> True"

lemma exists_bits: "i < 2 ^ n \<Longrightarrow> \<exists>bs. length bs = n \<and> bits_value bs = i"
  by (rule exI [of _ "rev (map (bit i) [0..<n])"])
    (simp add: bits_value_def horner_sum_bit_eq_take_bit take_bit_nat_eq_self)

lemma symbol_code_word:
  "x \<in> set (symbols d) \<Longrightarrow> depth_le m d \<Longrightarrow> \<exists>cs. code_word d cs x \<and> length cs \<le> m"
proof (induction d arbitrary: m rule: measure_induct_rule [of size])
  case (less d)
  obtain n t where d: "d = HuffmanDecoder n t" by (cases d)
  from less.prems(1) obtain v where "v \<in> set t" "x \<in> set (symbols_value v)" by (auto simp: d)
  then obtain i where i: "i < length t" "x \<in> set (symbols_value (t ! i))"
    by (metis in_set_conv_nth)
  have m: "n \<le> m" "length t \<le> 2 ^ n" "depth_le_value (m - n) (t ! i)"
    using less.prems(2) i(1) by (simp_all add: d list_all_length)
  obtain bs where bs: "length bs = n" "bits_value bs = i"
    using exists_bits [of i n] i(1) m(2) by auto
  show ?case
  proof (cases "t ! i")
    case (Sym y)
    then have "code_word d bs x" using bs i by (intro code_word.leaf) (simp_all add: d)
    then show ?thesis using bs(1) m(1) by auto
  next
    case (Partial d')
    then have "size d' < size d" using size_table [of i d d'] i(1) by (simp add: d)
    moreover have "x \<in> set (symbols d')" "depth_le (m - n) d'" using i(2) m(3) Partial by simp_all
    ultimately obtain cs where cs: "code_word d' cs x" "length cs \<le> m - n"
      using less.IH by blast
    have "code_word d (bs @ cs) x"
      using bs i Partial cs(1) by (intro code_word.branch) (simp_all add: d)
    then show ?thesis using bs(1) cs(2) m(1) by (intro exI [of _ "bs @ cs"]) simp
  qed
qed

lemma HPACK_STRING_depth: "depth_le 38 HPACK_STRING"
  by (simp add: huffman_table_defs)

lemma HPACK_STRING_symbols: "symbols HPACK_STRING =
    [48, 49, 50, 97, 99, 101, 105, 111, 115, 116, 32, 37, 45, 46, 47, 51, 52, 53, 54, 55,
     56, 57, 61, 65, 95, 98, 100, 102, 103, 104, 108, 109, 110, 112, 114, 117, 58, 66, 67,
     68, 69, 70, 71, 72, 73, 74, 75, 76, 77, 78, 79, 80, 81, 82, 83, 84, 85, 86, 87, 89,
     106, 107, 113, 118, 119, 120, 121, 122, 38, 42, 44, 59, 88, 90, 33, 34, 40, 41, 63,
     39, 43, 124, 35, 62, 0, 36, 64, 91, 93, 126, 94, 125, 60, 96, 123, 92, 195, 208, 128,
     130, 131, 162, 184, 194, 224, 226, 153, 161, 167, 172, 176, 177, 179, 209, 216, 217,
     227, 229, 230, 129, 132, 133, 134, 136, 146, 154, 156, 160, 163, 164, 169, 170, 173,
     178, 181, 185, 186, 187, 189, 190, 196, 198, 228, 232, 233, 1, 135, 137, 138, 139,
     140, 141, 143, 147, 149, 150, 151, 152, 155, 157, 158, 165, 166, 168, 174, 175, 180,
     182, 183, 188, 191, 197, 231, 239, 9, 142, 144, 145, 148, 159, 171, 206, 215, 225,
     236, 237, 199, 207, 234, 235, 192, 193, 200, 201, 202, 205, 210, 213, 218, 219, 238,
     240, 242, 243, 255, 203, 204, 211, 212, 214, 221, 222, 223, 241, 244, 245, 246, 247,
     248, 250, 251, 252, 253, 254, 2, 3, 4, 5, 6, 7, 8, 11, 12, 14, 15, 16, 17, 18, 19, 20,
     21, 23, 24, 25, 26, 27, 28, 29, 30, 31, 127, 220, 249, 10, 13, 22]"
  by (simp add: huffman_table_defs)

lemma all_symbols: "sort (map uint (symbols HPACK_STRING)) = [0..255]"
  unfolding HPACK_STRING_symbols by code_simp

lemma huffman_code_total: "\<exists>cs. huffman_code cs x \<and> length cs \<le> 38"
proof (rule symbol_code_word [OF _ HPACK_STRING_depth])
  have "uint x < 256" using unsigned_less [of x, where 'a=int] by simp
  then have "uint x \<in> set (sort (map uint (symbols HPACK_STRING)))"
    unfolding all_symbols by simp
  then show "x \<in> set (symbols HPACK_STRING)" by (auto simp: word_uint_eq_iff [symmetric])
qed

lemma bits_of_surj: "length bs = 8 * n \<Longrightarrow> \<exists>input. length input = n \<and> bits_of input = bs"
proof (induction n arbitrary: bs)
  case (Suc n)
  let ?b = "horner_sum of_bool 2 (rev (take 8 bs)) :: u8"
  have len: "length (take 8 bs) = 8" using Suc.prems by simp
  obtain input where input: "length input = n" "bits_of input = drop 8 bs"
    using Suc.IH [of "drop 8 bs"] Suc.prems by auto
  have "byte_bits ?b = take 8 bs"
  proof (rule nth_equalityI)
    fix i assume "i < length (byte_bits ?b)"
    then have i: "i < 8" by simp
    have "bit ?b (7 - i) \<longleftrightarrow> rev (take 8 bs) ! (7 - i)"
      using len by (simp add: bit_horner_sum_bit_word_iff le_less_trans [of "7 - i" 7])
    also have "rev (take 8 bs) ! (7 - i) = take 8 bs ! i"
      using i len by (simp add: rev_nth)
    finally show "byte_bits ?b ! i = take 8 bs ! i" using i by (simp add: byte_bits_def)
  qed (use len in simp)
  then have "bits_of (?b # input) = bs" using input by (simp add: bits_of_def)
  then show ?case using input by (intro exI [of _ "?b # input"]) simp
qed (simp add: bits_of_def)

lemma hpack_decode_Ok_iff:
  assumes "huffman_input_ok input"
  shows "hpack_decode input = Ok s \<longleftrightarrow> (\<exists>cws q d k. list_all2 huffman_code cws s \<and>
      inner_node HPACK_STRING q d \<and> k < lookup d \<and> bits_of input = concat cws @ q @ replicate k True)"
proof -
  have start: "window_end BitWindow_new = 0" "bits_from input 0 = bits_of input"
    by (simp_all add: bits_from_def window_end_def BitWindow_new_def)
  show ?thesis
  proof
    assume "hpack_decode input = Ok s"
    then show "\<exists>cws q d k. list_all2 huffman_code cws s \<and> inner_node HPACK_STRING q d \<and> k < lookup d \<and>
        bits_of input = concat cws @ q @ replicate k True"
      using hpack_decode_loop_sound [OF assms, of BitWindow_new "[]", THEN conjunct2, THEN spec, of s]
      by (simp add: hpack_decode_def start)
  next
    assume "\<exists>cws q d k. list_all2 huffman_code cws s \<and> inner_node HPACK_STRING q d \<and> k < lookup d \<and>
        bits_of input = concat cws @ q @ replicate k True"
    then obtain cws q d k where c: "list_all2 huffman_code cws s" "inner_node HPACK_STRING q d"
        "k < lookup d" "bits_of input = concat cws @ q @ replicate k True" by blast
    show "hpack_decode input = Ok s"
      using hpack_decode_loop_complete [OF assms c(1) _ _ c(2,3), of BitWindow_new "[]"] c(4)
      by (simp add: hpack_decode_def start)
  qed
qed

lemma hpack_decode_code:
  assumes "huffman_input_ok input" and "list_all2 huffman_code cws s"
    and "bits_of input = concat cws @ replicate k True" and "k < 8"
  shows "hpack_decode input = Ok s"
  using padding_inner_node [OF assms(4)] assms(2,3) unfolding hpack_decode_Ok_iff [OF assms(1)]
  by metis

lemma hpack_decode_no_panic: "huffman_input_ok input \<Longrightarrow> hpack_decode input \<noteq> Panic"
  using hpack_decode_loop_sound [of input BitWindow_new "[]"]
  by (simp add: hpack_decode_def window_end_def BitWindow_new_def)

lemma padded_input:
  obtains input k where "bits_of input = bs @ replicate k True" and "k < 8"
    and "8 * length input < length bs + 8"
proof -
  let ?k = "7 - (length bs + 7) mod 8"
  have "(length bs + ?k) mod 8 = 0" by presburger
  then obtain n where n: "length bs + ?k = 8 * n" by (metis mod_0_imp_dvd dvdE)
  then obtain input where "length input = n" "bits_of input = bs @ replicate ?k True"
    using bits_of_surj [of "bs @ replicate ?k True" n] by auto
  then show thesis using n by (intro that [of input ?k]) simp_all
qed

lemma concat_code_words:
  "\<exists>cws. list_all2 huffman_code cws s \<and> length (concat cws) \<le> 38 * length s"
proof (induction s)
  case (Cons x s)
  then obtain cws where "list_all2 huffman_code cws s" "length (concat cws) \<le> 38 * length s" by blast
  moreover obtain cw where "huffman_code cw x" "length cw \<le> 38" using huffman_code_total by blast
  ultimately show ?case by (intro exI [of _ "cw # cws"]) simp
qed simp

subsection \<open>Properties\<close>

text \<open>
  C26. Exactly which inputs below 512 MB decode, and to what: the input's bits are the code words of the result
  followed by a path to an inner node of the tables and then fewer one bits than that node reads.
  Decoding ends on every such input and does not panic.
\<close>

theorem hpack_decode_exact:
  assumes "huffman_input_ok input"
  shows "hpack_decode input \<noteq> Panic \<and>
    (hpack_decode input = Ok s \<longleftrightarrow> (\<exists>cws q d k. list_all2 huffman_code cws s \<and>
      inner_node HPACK_STRING q d \<and> k < lookup d \<and> bits_of input = concat cws @ q @ replicate k True))"
  using hpack_decode_no_panic [OF assms] hpack_decode_Ok_iff [OF assms] by blast

lemma code_words_0_space: "huffman_code (replicate 5 False) 48" "huffman_code [False, True, False, True, False, False] 32"
proof -
  show "huffman_code (replicate 5 False) 48"
    by (rule code_word.leaf) (simp_all add: bits_value_def numeral_eq_Suc HPACK_STRING_def)
  have "code_word END0_01010 [False] 32"
    by (rule code_word.leaf) (simp_all add: bits_value_def END0_01010_def)
  then have "huffman_code ([False, True, False, True, False] @ [False]) 32"
    by (rule code_word.branch [rotated -1]) (simp_all add: bits_value_def HPACK_STRING_def)
  then show "huffman_code [False, True, False, True, False, False] 32" by simp
qed

text \<open>The input that ends within a code word: five bits of another symbol follow the text.\<close>

theorem hpack_decode_exact_witness:
  "huffman_input_ok [0x02, 0x8A] \<and> hpack_decode [0x02, 0x8A] = Ok [48, 32]"
proof -
  have ok: "huffman_input_ok [0x02, 0x8A]" by (simp add: huffman_input_ok_def)
  have node: "inner_node HPACK_STRING ([False, True, False, True, False] @ []) END0_01010"
    by (rule inner_node.below [OF _ _ _ inner_node.here]) (simp_all add: bits_value_def HPACK_STRING_def)
  have "bits_of [0x02, 0x8A] = concat [replicate 5 False, [False, True, False, True, False, False]] @
      ([False, True, False, True, False] @ []) @ replicate 0 True"
    by code_simp
  moreover have "0 < lookup END0_01010" by (simp add: END0_01010_def)
  moreover have "list_all2 huffman_code [replicate 5 False, [False, True, False, True, False, False]] [48, 32]"
    using code_words_0_space by simp
  ultimately show ?thesis using ok node hpack_decode_exact [OF ok, of "[48, 32]"] by blast
qed

text \<open>
  Huffman decoding inverts Huffman encoding: the concatenated code words of a string, padded
  with fewer than eight one bits to a byte boundary, decode to that string. Every string has such
  an encoding, since the tables hold a code word for each of the 256 byte values.
\<close>

theorem hpack_decode_inverts:
  "(\<forall>input cws s k. huffman_input_ok input \<and> list_all2 huffman_code cws s \<and>
      bits_of input = concat cws @ replicate k True \<and> k < 8 \<longrightarrow> hpack_decode input = Ok s) \<and>
   (\<forall>s. 38 * length s + 72 < 2 ^ 32 \<longrightarrow> (\<exists>input cws k. hpack_decode input = Ok s \<and>
      list_all2 huffman_code cws s \<and> bits_of input = concat cws @ replicate k True \<and> k < 8))"
proof (intro conjI allI impI)
  fix input cws s k
  assume "huffman_input_ok input \<and> list_all2 huffman_code cws s \<and>
      bits_of input = concat cws @ replicate k True \<and> k < 8"
  then show "hpack_decode input = Ok s" using hpack_decode_code by blast
next
  fix s :: bytes
  assume n: "38 * length s + 72 < 2 ^ 32"
  obtain cws where cws: "list_all2 huffman_code cws s" "length (concat cws) \<le> 38 * length s"
    using concat_code_words by blast
  obtain enc k where enc: "bits_of enc = concat cws @ replicate k True" "k < 8"
      "8 * length enc < length (concat cws) + 8"
    by (rule padded_input)
  have "huffman_input_ok enc" using enc(3) cws(2) n by (simp add: huffman_input_ok_def)
  then show "\<exists>enc cws k. hpack_decode enc = Ok s \<and>
      list_all2 huffman_code cws s \<and> bits_of enc = concat cws @ replicate k True \<and> k < 8"
    using hpack_decode_code cws(1) enc(1,2) by blast
qed

theorem hpack_decode_inverts_witness:
  "huffman_input_ok [0x02, 0x9F] \<and> hpack_decode [0x02, 0x9F] = Ok [48, 32]"
proof -
  have ok: "huffman_input_ok [0x02, 0x9F]" by (simp add: huffman_input_ok_def)
  have "bits_of [0x02, 0x9F] = concat [replicate 5 False, [False, True, False, True, False, False]] @
      replicate 5 True"
    by code_simp
  moreover have "list_all2 huffman_code [replicate 5 False, [False, True, False, True, False, False]] [48, 32]"
    using code_words_0_space by simp
  ultimately have "hpack_decode [0x02, 0x9F] = Ok [48, 32]"
    using ok hpack_decode_inverts [THEN conjunct1, rule_format, of "[0x02, 0x9F]"
        "[replicate 5 False, [False, True, False, True, False, False]]" "[48, 32]" 5] by simp
  then show ?thesis using ok by (rule conjI [rotated])
qed

end
