(* ===== verification/Static_Table.thy ===== *)
theory Static_Table
  imports Utf8
begin

section \<open>The QPACK static table\<close>

text \<open>
  \<^verbatim>\<open>PREDEFINED_HEADERS\<close> of \<^verbatim>\<open>webtrans-proto/src/qpack.rs\<close>, with lookup by index and by field. The lemmas
  show that an index found for a field names that field again.
\<close>

subsection \<open>Definitions\<close>

definition PREDEFINED_HEADERS :: "(bytes \<times> bytes) list" where
  "PREDEFINED_HEADERS =
    [(str '':authority'', []),
     (str '':path'', str ''/''),
     (str ''age'', str ''0''),
     (str ''content-disposition'', []),
     (str ''content-length'', str ''0''),
     (str ''cookie'', []),
     (str ''date'', []),
     (str ''etag'', []),
     (str ''if-modified-since'', []),
     (str ''if-none-match'', []),
     (str ''last-modified'', []),
     (str ''link'', []),
     (str ''location'', []),
     (str ''referer'', []),
     (str ''set-cookie'', []),
     (str '':method'', str ''CONNECT''),
     (str '':method'', str ''DELETE''),
     (str '':method'', str ''GET''),
     (str '':method'', str ''HEAD''),
     (str '':method'', str ''OPTIONS''),
     (str '':method'', str ''POST''),
     (str '':method'', str ''PUT''),
     (str '':scheme'', str ''http''),
     (str '':scheme'', str ''https''),
     (str '':status'', str ''103''),
     (str '':status'', str ''200''),
     (str '':status'', str ''304''),
     (str '':status'', str ''404''),
     (str '':status'', str ''503''),
     (str ''accept'', str ''*/*''),
     (str ''accept'', str ''application/dns-message''),
     (str ''accept-encoding'', str ''gzip, deflate, br''),
     (str ''accept-ranges'', str ''bytes''),
     (str ''access-control-allow-headers'', str ''cache-control''),
     (str ''access-control-allow-headers'', str ''content-type''),
     (str ''access-control-allow-origin'', str ''*''),
     (str ''cache-control'', str ''max-age=0''),
     (str ''cache-control'', str ''max-age=2592000''),
     (str ''cache-control'', str ''max-age=604800''),
     (str ''cache-control'', str ''no-cache''),
     (str ''cache-control'', str ''no-store''),
     (str ''cache-control'', str ''public, max-age=31536000''),
     (str ''content-encoding'', str ''br''),
     (str ''content-encoding'', str ''gzip''),
     (str ''content-type'', str ''application/dns-message''),
     (str ''content-type'', str ''application/javascript''),
     (str ''content-type'', str ''application/json''),
     (str ''content-type'', str ''application/x-www-form-urlencoded''),
     (str ''content-type'', str ''image/gif''),
     (str ''content-type'', str ''image/jpeg''),
     (str ''content-type'', str ''image/png''),
     (str ''content-type'', str ''text/css''),
     (str ''content-type'', str ''text/html; charset=utf-8''),
     (str ''content-type'', str ''text/plain''),
     (str ''content-type'', str ''text/plain;charset=utf-8''),
     (str ''range'', str ''bytes=0-''),
     (str ''strict-transport-security'', str ''max-age=31536000''),
     (str ''strict-transport-security'', str ''max-age=31536000; includesubdomains''),
     (str ''strict-transport-security'', str ''max-age=31536000; includesubdomains; preload''),
     (str ''vary'', str ''accept-encoding''),
     (str ''vary'', str ''origin''),
     (str ''x-content-type-options'', str ''nosniff''),
     (str ''x-xss-protection'', str ''1; mode=block''),
     (str '':status'', str ''100''),
     (str '':status'', str ''204''),
     (str '':status'', str ''206''),
     (str '':status'', str ''302''),
     (str '':status'', str ''400''),
     (str '':status'', str ''403''),
     (str '':status'', str ''421''),
     (str '':status'', str ''425''),
     (str '':status'', str ''500''),
     (str ''accept-language'', []),
     (str ''access-control-allow-credentials'', str ''FALSE''),
     (str ''access-control-allow-credentials'', str ''TRUE''),
     (str ''access-control-allow-headers'', str ''*''),
     (str ''access-control-allow-methods'', str ''get''),
     (str ''access-control-allow-methods'', str ''get, post, options''),
     (str ''access-control-allow-methods'', str ''options''),
     (str ''access-control-expose-headers'', str ''content-length''),
     (str ''access-control-request-headers'', str ''content-type''),
     (str ''access-control-request-method'', str ''get''),
     (str ''access-control-request-method'', str ''post''),
     (str ''alt-svc'', str ''clear''),
     (str ''authorization'', []),
     (str ''content-security-policy'', str (''script-src 'none'; object-src 'none'; base-uri 'none'' @ [CHR 0x27])),
     (str ''early-data'', str ''1''),
     (str ''expect-ct'', []),
     (str ''forwarded'', []),
     (str ''if-range'', []),
     (str ''origin'', []),
     (str ''purpose'', str ''prefetch''),
     (str ''server'', []),
     (str ''timing-allow-origin'', str ''*''),
     (str ''upgrade-insecure-requests'', str ''1''),
     (str ''user-agent'', []),
     (str ''x-forwarded-for'', []),
     (str ''x-frame-options'', str ''deny''),
     (str ''x-frame-options'', str ''sameorigin'')]"

record StaticMatch =
  exact :: "nat option"
  name_index :: "nat option"

definition StaticTable_get :: "nat \<Rightarrow> (bytes \<times> bytes) option" where
  "StaticTable_get index =
     (if index < length PREDEFINED_HEADERS then Some (PREDEFINED_HEADERS ! index) else None)"

text \<open>The loop of \<^verbatim>\<open>lookup\<close> over the entries from \<open>index\<close> on.\<close>

fun StaticTable_lookup_loop ::
    "nat \<Rightarrow> (bytes \<times> bytes) list \<Rightarrow> bytes \<Rightarrow> bytes \<Rightarrow> nat option \<Rightarrow> StaticMatch" where
  "StaticTable_lookup_loop index [] name value found = \<lparr>exact = None, name_index = found\<rparr>"
| "StaticTable_lookup_loop index ((entry_name, entry_value) # es) name value found =
     (if entry_name \<noteq> name then StaticTable_lookup_loop (Suc index) es name value found
      else
        let found = (case found of None \<Rightarrow> Some index | Some i \<Rightarrow> Some i)
        in if entry_value = value then \<lparr>exact = Some index, name_index = found\<rparr>
           else StaticTable_lookup_loop (Suc index) es name value found)"

definition StaticTable_lookup :: "bytes \<Rightarrow> bytes \<Rightarrow> StaticMatch" where
  "StaticTable_lookup name value = StaticTable_lookup_loop 0 PREDEFINED_HEADERS name value None"

subsection \<open>Lookup and indexing\<close>

lemma length_PREDEFINED_HEADERS: "length PREDEFINED_HEADERS = 99"
  by (simp add: PREDEFINED_HEADERS_def)

lemma StaticTable_lookup_loop_found:
  assumes "t = pre @ es" and "\<And>i. found = Some i \<Longrightarrow> i < length t \<and> fst (t ! i) = name"
  shows "(\<forall>i. exact (StaticTable_lookup_loop (length pre) es name val found) = Some i \<longrightarrow>
      i < length t \<and> t ! i = (name, val)) \<and>
    (\<forall>i. name_index (StaticTable_lookup_loop (length pre) es name val found) = Some i \<longrightarrow>
      i < length t \<and> fst (t ! i) = name)"
  using assms
proof (induction es arbitrary: pre found)
  case (Cons e es)
  obtain n v where e: "e = (n, v)" by (cases e)
  have t: "t = (pre @ [e]) @ es" "t ! length pre = e" "length pre < length t"
    using Cons.prems(1) by simp_all
  show ?case
  proof (cases "n = name")
    case False
    then show ?thesis using Cons.IH [OF t(1), of found] Cons.prems(2) by (simp add: e)
  next
    case True
    define f where "f = (case found of None \<Rightarrow> Some (length pre) | Some i \<Rightarrow> Some i)"
    have f: "i < length t \<and> fst (t ! i) = name" if "f = Some i" for i
      using that Cons.prems(2) t(2,3) True by (auto simp: f_def e split: option.splits)
    show ?thesis
    proof (cases "v = val")
      case True
      then show ?thesis using \<open>n = name\<close> f t(2,3) by (simp add: e f_def [symmetric] Let_def)
    next
      case False
      then show ?thesis
        using \<open>n = name\<close> Cons.IH [OF t(1), of f] f by (simp add: e f_def [symmetric] Let_def)
    qed
  qed
qed auto

lemma StaticTable_lookup_found:
  "exact (StaticTable_lookup name val) = Some i \<Longrightarrow> StaticTable_get i = Some (name, val) \<and> i < 99"
  "name_index (StaticTable_lookup name val) = Some i \<Longrightarrow>
     \<exists>v. StaticTable_get i = Some (name, v) \<and> i < 99"
  using StaticTable_lookup_loop_found [of PREDEFINED_HEADERS "[]" PREDEFINED_HEADERS None name val]
  by (auto simp: StaticTable_lookup_def StaticTable_get_def length_PREDEFINED_HEADERS prod_eq_iff)

lemma name_index_kept [simp]: "name_index (StaticTable_lookup_loop k es name val (Some i)) = Some i"
  by (induction es arbitrary: k) (auto simp: Let_def)

lemma StaticTable_lookup_loop_none:
  "name_index (StaticTable_lookup_loop k es name val None) = None \<Longrightarrow> map_of es name = None"
  by (induction es arbitrary: k) (auto simp: Let_def split: if_splits)

end
