(* ===== verification/Prefix_Int.thy ===== *)
theory Prefix_Int
  imports Prelude Huffman Utf8
begin

section \<open>Prefix integers and string literals of QPACK\<close>

text \<open>
  \<^verbatim>\<open>decode_prefix\<close>, \<^verbatim>\<open>encode_prefix\<close> and \<^verbatim>\<open>decode_string\<close> of \<^verbatim>\<open>webtrans-proto/src/qpack.rs\<close>, and the
  errors of header decoding. The decoder accumulates in a 64-bit \<^verbatim>\<open>usize\<close>, whose shift keeps its
  width, so the word arithmetic is kept. The lemmas give the round trip for every \<^verbatim>\<open>usize\<close> and
  every prefix, and say which encodings are read with their arithmetic value.
\<close>

subsection \<open>Definitions\<close>

datatype DecodeError = DecodeError_UnexpectedEnd | DecodeError_BoundsExceeded
  | DecodeError_DynamicEntry | DecodeError_UnknownEntry
  | DecodeError_InvalidFieldName | DecodeError_InvalidFieldValue
  | DecodeError_PseudoHeaderAfterRegularField
  | DecodeError_DuplicatePseudoHeader bytes
  | DecodeError_InvalidPseudoHeader bytes
  | DecodeError_ConnectionSpecificField bytes
  | DecodeError_HuffmanError HuffmanError
  | DecodeError_Utf8Error Utf8Error

text \<open>\<^verbatim>\<open>checked_shl\<close> rejects only a shift by the width or more; \<^verbatim>\<open>checked_add\<close> rejects a carry.\<close>

definition checked_shl :: "u64 \<Rightarrow> nat \<Rightarrow> u64 option" where
  "checked_shl x n = (if n < 64 then Some (push_bit n x) else None)"

definition checked_add :: "u64 \<Rightarrow> u64 \<Rightarrow> u64 option" where
  "checked_add x y = (if unat x + unat y < 2 ^ 64 then Some (x + y) else None)"

fun decode_prefix_loop :: "bytes \<Rightarrow> u64 \<Rightarrow> nat \<Rightarrow> (u64 \<times> bytes, DecodeError) res" where
  "decode_prefix_loop [] acc shift = Err DecodeError_UnexpectedEnd"
| "decode_prefix_loop (b # buf) acc shift =
     (if shift \<ge> 64 then Err DecodeError_BoundsExceeded
      else and_then (ok_or DecodeError_BoundsExceeded (checked_shl (ucast b AND 127) shift)) (\<lambda>increment.
           and_then (ok_or DecodeError_BoundsExceeded (checked_add acc increment)) (\<lambda>acc.
             if b AND 128 = 0 then Ok (acc, buf)
             else decode_prefix_loop buf acc (shift + 7))))"

definition decode_prefix :: "bytes \<Rightarrow> nat \<Rightarrow> ((u8 \<times> nat) \<times> bytes, DecodeError) res" where
  "decode_prefix buf sz =
     (if \<not> sz \<le> 8 then Panic
      else case buf of [] \<Rightarrow> Err DecodeError_UnexpectedEnd
        | first # buf \<Rightarrow>
            let flags = ucast (drop_bit sz (ucast first :: u64)) :: u8 in
            if 8 - sz \<ge> 8 then Panic
            else
              let mask = drop_bit (8 - sz) 0xFF :: u8;
                  first = first AND mask
              in if first < mask then Ok ((flags, unat first), buf)
                 else and_then (decode_prefix_loop buf (ucast mask) 0) (\<lambda>(v, buf).
                   Ok ((flags, unat v), buf)))"

fun encode_prefix_loop :: "nat \<Rightarrow> bytes \<Rightarrow> bytes" where
  "encode_prefix_loop remaining buf =
     (if remaining \<ge> 128 then
        encode_prefix_loop (remaining div 128) (buf @ [of_nat (remaining mod 128) + 128])
      else buf @ [of_nat remaining])"

declare encode_prefix_loop.simps [simp del]

text \<open>The casts keep the low eight bits; \<^verbatim>\<open>0xFF << size\<close> is computed in \<^verbatim>\<open>i32\<close>.\<close>

definition encode_prefix :: "bytes \<Rightarrow> nat \<Rightarrow> u8 \<Rightarrow> nat \<Rightarrow> (bytes, 'e) res" where
  "encode_prefix buf sz flags val =
     (if \<not> (sz > 0 \<and> sz \<le> 8) then Panic
      else
        let mask = ucast (NOT (push_bit sz (0xFF :: 32 word))) :: u8;
            flags = ucast (push_bit sz (ucast flags :: u64)) :: u8
        in if val < unat mask then Ok (buf @ [flags OR of_nat val])
           else Ok (encode_prefix_loop (val - unat mask) (buf @ [mask OR flags])))"

definition decode_string :: "bytes \<Rightarrow> nat \<Rightarrow> (bytes \<times> bytes, DecodeError) res" where
  "decode_string buf sz =
     (if buf = [] then Err DecodeError_UnexpectedEnd
      else if sz = 0 then Panic
      else and_then (decode_prefix buf (sz - 1)) (\<lambda>((flags, len), buf).
        if length buf < len then Err DecodeError_UnexpectedEnd
        else
          let payload = take len buf; buf = drop len buf
          in if flags AND 1 = 0 then Ok (payload, buf)
             else and_then (map_err DecodeError_HuffmanError (hpack_decode payload)) (\<lambda>decoded.
               Ok (decoded, buf))))"

subsection \<open>The loops\<close>

text \<open>The continuation bytes of \<open>n\<close>: seven bits each, least significant first.\<close>

fun continuation :: "nat \<Rightarrow> bytes" where
  "continuation n = (if n \<ge> 128 then (of_nat (n mod 128) + 128) # continuation (n div 128) else [of_nat n])"

declare continuation.simps [simp del]

lemma encode_prefix_loop_continuation: "encode_prefix_loop n buf = buf @ continuation n"
proof (induction n buf rule: encode_prefix_loop.induct)
  case (1 n buf)
  then show ?case
    by (subst encode_prefix_loop.simps, subst continuation.simps) simp
qed

lemma unat_and_127: "unat (ucast b AND 127 :: u64) = unat b mod 128" for b :: u8
proof -
  have "(127 :: u64) = mask 7" by (simp add: mask_eq_exp_minus_1)
  then have "(ucast b AND 127 :: u64) = take_bit 7 (ucast b)" by (simp add: take_bit_eq_mask)
  then show ?thesis
    using unat_ucast_small [of b, where 'b=64] unat_u8_less [of b]
    by (simp add: unsigned_take_bit_eq take_bit_eq_mod unat_mod)
qed

lemma and_128_iff: "b AND 128 = 0 \<longleftrightarrow> unat b < 128" for b :: u8
proof -
  have "b AND 128 = 0 \<longleftrightarrow> \<not> bit b 7"
    using and_exp_eq_0_iff_not_bit [of b 7] by simp
  also have "bit b 7 \<longleftrightarrow> bit (unat b) 7" by (simp add: bit_unsigned_iff)
  also have "\<dots> \<longleftrightarrow> 128 \<le> unat b"
  proof -
    have "unat b div 128 = 0 \<or> unat b div 128 = 1" using unat_u8_less [of b] by linarith
    then show ?thesis by (auto simp: bit_iff_odd)
  qed
  finally show ?thesis by (simp add: not_le)
qed

text \<open>Seven bits per byte, least significant first; only the last byte has its top bit clear.\<close>

fun le128 :: "bytes \<Rightarrow> nat" where
  "le128 [] = 0"
| "le128 (b # bs) = unat b mod 128 + 128 * le128 bs"

fun continued :: "bytes \<Rightarrow> bool" where
  "continued [] \<longleftrightarrow> False"
| "continued (b # bs) \<longleftrightarrow> (if bs = [] then unat b < 128 else 128 \<le> unat b \<and> continued bs)"

lemma le128_continuation: "le128 (continuation n) = n" and continued_continuation: "continued (continuation n)"
proof -
  have "le128 (continuation n) = n \<and> continued (continuation n) \<and> continuation n \<noteq> []"
  proof (induction n rule: continuation.induct)
    case (1 n)
    show ?case
    proof (cases "128 \<le> n")
      case True
      have m: "n mod 128 < 128" by simp
      then have "unat (of_nat (n mod 128) + 128 :: u8) = n mod 128 + 128"
        using unat_of_nat_u8 [of "n mod 128 + 128"] by simp
      then show ?thesis using True 1 by (subst (1 2 3) continuation.simps) simp
    next
      case False
      then have "unat (of_nat n :: u8) = n" by (simp add: unat_of_nat_u8)
      then show ?thesis using False by (subst (1 2 3) continuation.simps) simp
    qed
  qed
  then show "le128 (continuation n) = n" "continued (continuation n)" by simp_all
qed

lemma length_continuation: "128 ^ (length (continuation n) - 1) \<le> n \<or> length (continuation n) = 1"
proof (induction n rule: continuation.induct)
  case (1 n)
  have ne: "continuation m \<noteq> []" for m using continued_continuation [of m] by auto
  show ?case
  proof (cases "128 \<le> n")
    case True
    then have l: "length (continuation n) = Suc (length (continuation (n div 128)))"
      by (subst continuation.simps) simp
    obtain k where k: "length (continuation (n div 128)) = Suc k"
      using ne [of "n div 128"] by (cases "continuation (n div 128)") auto
    have "128 ^ k \<le> n div 128" using 1 [OF True] k True by auto
    then have "128 ^ Suc k \<le> n" by (simp add: less_eq_div_iff_mult_less_eq mult.commute)
    then show ?thesis by (simp add: l k)
  next
    case False
    then show ?thesis by (subst (2) continuation.simps) simp
  qed
qed

lemma continuation_shift:
  assumes "n < 2 ^ 64"
  shows "7 * (length (continuation n) - 1) < 64"
proof (cases "length (continuation n) = 1")
  case False
  have "(2 :: nat) ^ (7 * (length (continuation n) - 1)) = 128 ^ (length (continuation n) - 1)"
    by (simp add: power_mult)
  also have "\<dots> < 2 ^ 64" using length_continuation [of n] False assms by linarith
  finally show ?thesis by (rule power_less_imp_less_exp [rotated]) simp
qed simp

text \<open>One step of the decoding loop, in natural numbers.\<close>

lemma unat_push: "n * 2 ^ k < 2 ^ 64 \<Longrightarrow> unat x = n \<Longrightarrow> unat (push_bit k x) = n * 2 ^ k" for x :: u64
  unfolding unsigned_push_bit_eq by (simp add: push_bit_eq_mult take_bit_nat_eq_self)

lemma decode_prefix_loop_value:
  "continued cs \<Longrightarrow> k + 7 * (length cs - 1) < 64 \<Longrightarrow> unat acc + 2 ^ k * le128 cs < 2 ^ 64 \<Longrightarrow>
   \<exists>v. decode_prefix_loop (cs @ rest) acc k = Ok (v, rest) \<and> unat v = unat acc + 2 ^ k * le128 cs"
proof (induction cs arbitrary: acc k)
  case (Cons b cs)
  let ?x = "push_bit k (ucast b AND 127) :: u64"
  have sum: "unat acc + unat b mod 128 * 2 ^ k + 2 ^ (k + 7) * le128 cs < 2 ^ 64"
    using Cons.prems(3) by (simp add: algebra_simps power_add)
  have x: "unat ?x = unat b mod 128 * 2 ^ k"
    by (rule unat_push) (use sum unat_and_127 in simp_all)
  have k: "k < 64" using Cons.prems(2) by simp
  have add: "checked_add acc ?x = Some (acc + ?x)"
    using sum x by (simp add: checked_add_def)
  have u: "unat (acc + ?x) = unat acc + unat b mod 128 * 2 ^ k"
    using sum x by (simp add: unat_word_ariths)
  show ?case
  proof (cases "cs = []")
    case True
    then show ?thesis
      using Cons.prems(1) k add u by (simp add: checked_shl_def and_128_iff mult.commute)
  next
    case False
    then have c: "continued cs" "\<not> unat b < 128" using Cons.prems(1) by auto
    have "k + 7 + 7 * (length cs - 1) < 64" using Cons.prems(2) False by (cases cs) auto
    then obtain v where v: "decode_prefix_loop (cs @ rest) (acc + ?x) (k + 7) = Ok (v, rest)"
        "unat v = unat (acc + ?x) + 2 ^ (k + 7) * le128 cs"
      using Cons.IH [OF c(1), of "k + 7" "acc + ?x"] sum u by auto
    have "unat v = unat acc + 2 ^ k * le128 (b # cs)"
      using v(2) u by (simp add: algebra_simps power_add)
    then show ?thesis using v(1) c(2) k add by (simp add: checked_shl_def and_128_iff)
  qed
qed simp

lemma decode_prefix_loop_sound:
  "decode_prefix_loop buf acc k = Ok (v, rest) \<Longrightarrow>
   \<exists>cs. buf = cs @ rest \<and> continued cs \<and> k + 7 * (length cs - 1) < 64 \<and>
     (k + 7 * length cs \<le> 64 \<longrightarrow> unat v = unat acc + 2 ^ k * le128 cs)"
proof (induction buf acc k rule: decode_prefix_loop.induct)
  case (2 b buf acc k)
  let ?x = "push_bit k (ucast b AND 127) :: u64"
  from "2.prems" have k: "k < 64" and add: "unat acc + unat ?x < 2 ^ 64"
    and step: "(if b AND 128 = 0 then Ok (acc + ?x, buf) else decode_prefix_loop buf (acc + ?x) (k + 7)) = Ok (v, rest)"
    by (auto simp: checked_shl_def checked_add_def split: if_splits)
  have u: "unat (acc + ?x) = unat acc + unat ?x" using add by (simp add: unat_word_ariths)
  have x: "unat ?x = unat b mod 128 * 2 ^ k" if "k + 7 \<le> 64"
  proof (rule unat_push)
    have "(2 :: nat) ^ 7 * 2 ^ k \<le> 2 ^ 64"
      unfolding power_add [symmetric] using that by (intro power_increasing) simp_all
    moreover have "unat b mod 128 * 2 ^ k < 2 ^ 7 * (2 :: nat) ^ k" by (intro mult_strict_right_mono) simp_all
    ultimately show "unat b mod 128 * 2 ^ k < 2 ^ 64" by linarith
  qed (rule unat_and_127)
  show ?case
  proof (cases "b AND 128 = 0")
    case True
    then show ?thesis
      using step k u x by (intro exI [of _ "[b]"]) (auto simp: and_128_iff mult.commute)
  next
    case False
    then obtain cs where cs: "buf = cs @ rest" "continued cs" "k + 7 + 7 * (length cs - 1) < 64"
        "k + 7 + 7 * length cs \<le> 64 \<longrightarrow> unat v = unat (acc + ?x) + 2 ^ (k + 7) * le128 cs"
      using "2.IH" [of ?x "acc + ?x"] step k add by (auto simp: checked_shl_def checked_add_def)
    have "cs \<noteq> []" using cs(2) by auto
    then have "k + 7 * (length (b # cs) - 1) < 64" using cs(3) by (cases cs) auto
    moreover have "unat v = unat acc + 2 ^ k * le128 (b # cs)" if "k + 7 * length (b # cs) \<le> 64"
      using that cs(4) u x by (simp add: algebra_simps power_add)
    ultimately show ?thesis
      using cs False \<open>cs \<noteq> []\<close> by (intro exI [of _ "b # cs"]) (auto simp: and_128_iff not_less)
  qed
qed simp

subsection \<open>Prefix integers\<close>

lemma size_cases: "0 < sz \<Longrightarrow> sz \<le> 8 \<Longrightarrow> sz \<in> {1, 2, 3, 4, 5, 6, 7, 8 :: nat}"
  by auto

lemma encode_mask:
  "0 < sz \<Longrightarrow> sz \<le> 8 \<Longrightarrow> (ucast (NOT (push_bit sz (0xFF :: 32 word))) :: u8) = mask sz"
  by (drule (1) size_cases) (auto simp: mask_eq_exp_minus_1)

lemma decode_mask: "0 < sz \<Longrightarrow> sz \<le> 8 \<Longrightarrow> (drop_bit (8 - sz) 0xFF :: u8) = mask sz"
  by (drule (1) size_cases) (auto simp: mask_eq_exp_minus_1)

lemma unat_mask_u8: "sz \<le> 8 \<Longrightarrow> unat (mask sz :: u8) = 2 ^ sz - 1"
proof -
  assume "sz \<le> 8"
  then have "sz \<in> {0, 1, 2, 3, 4, 5, 6, 7, 8}" by auto
  then show ?thesis by (auto simp: mask_eq_exp_minus_1)
qed

lemma unat_and_mask: "sz \<le> 8 \<Longrightarrow> unat (b AND mask sz) = unat b mod 2 ^ sz" for b :: u8
  unfolding take_bit_eq_mask [symmetric] unsigned_take_bit_eq by (rule take_bit_eq_mod)

lemma flags_of: "(ucast (drop_bit sz (ucast b :: u64)) :: u8) = of_nat (unat b div 2 ^ sz)" for b :: u8
proof -
  have "unat (drop_bit sz (ucast b :: u64)) = unat b div 2 ^ sz"
    using unat_ucast_small [of b, where 'b=64] unat_u8_less [of b]
    unfolding unsigned_drop_bit_eq by (simp add: drop_bit_eq_div take_bit_nat_eq_self)
  then show ?thesis by (metis of_nat_unat)
qed

text \<open>How a value is laid out behind the flags of its first byte.\<close>

definition prefix_wire :: "nat \<Rightarrow> u8 \<Rightarrow> nat \<Rightarrow> bytes" where
  "prefix_wire sz flags n =
     (if n < 2 ^ sz - 1 then [of_nat (unat flags * 2 ^ sz + n)]
      else of_nat (unat flags * 2 ^ sz + (2 ^ sz - 1)) # continuation (n - (2 ^ sz - 1)))"

definition prefix_ok :: "nat \<Rightarrow> u8 \<Rightarrow> bool" where
  "prefix_ok sz flags \<longleftrightarrow> 0 < sz \<and> sz \<le> 8 \<and> unat flags < 2 ^ (8 - sz)"

lemma prefix_first:
  assumes "prefix_ok sz flags" and "n < 2 ^ sz"
  shows "unat (of_nat (unat flags * 2 ^ sz + n) :: u8) = unat flags * 2 ^ sz + n"
    and "(ucast (push_bit sz (ucast flags :: u64)) :: u8) OR of_nat n = of_nat (unat flags * 2 ^ sz + n)"
proof -
  have sz: "0 < sz" "sz \<le> 8" and f: "unat flags < 2 ^ (8 - sz)"
    using assms(1) by (simp_all add: prefix_ok_def)
  have "(unat flags + 1) * 2 ^ sz \<le> 2 ^ (8 - sz) * (2 :: nat) ^ sz"
    using f by (intro mult_le_mono1) simp
  also have "\<dots> = 256" using sz by (simp flip: power_add)
  finally have lt: "unat flags * 2 ^ sz + n < 256" using assms(2) by simp
  then show u: "unat (of_nat (unat flags * 2 ^ sz + n) :: u8) = unat flags * 2 ^ sz + n"
    by (simp add: unat_of_nat_u8 del: of_nat_add of_nat_mult)
  have hi: "(ucast (push_bit sz (ucast flags :: u64)) :: u8) = push_bit sz flags"
    by (rule bit_word_eqI) (use sz in \<open>auto simp: bit_simps\<close>)
  have hn: "unat (push_bit sz flags) = unat flags * 2 ^ sz"
    unfolding unsigned_push_bit_eq using lt by (simp add: push_bit_eq_mult take_bit_nat_eq_self)
  have n: "unat (of_nat n :: u8) = n" using lt by (simp add: unat_of_nat_u8)
  have disj: "push_bit sz flags AND of_nat n = 0"
  proof (rule bit_word_eqI)
    fix i
    have "\<not> bit n i" if "sz \<le> i"
      using that assms(2) by (metis bit_take_bit_iff not_le take_bit_nat_eq_self)
    then show "bit (push_bit sz flags AND of_nat n) i \<longleftrightarrow> bit (0 :: u8) i"
      by (auto simp: bit_simps)
  qed
  have "unat (push_bit sz flags OR of_nat n) = unat flags * 2 ^ sz + n"
    unfolding unat_or_disjoint [OF disj] hn n ..
  then show "(ucast (push_bit sz (ucast flags :: u64)) :: u8) OR of_nat n = of_nat (unat flags * 2 ^ sz + n)"
    unfolding hi using u by (simp add: word_unat_eq_iff del: of_nat_add of_nat_mult)
qed

lemma encode_prefix_wire:
  assumes "prefix_ok sz flags"
  shows "encode_prefix buf sz flags n = Ok (buf @ prefix_wire sz flags n)"
proof -
  have sz: "0 < sz" "sz \<le> 8" using assms by (simp_all add: prefix_ok_def)
  have m: "(mask sz :: u8) = of_nat (2 ^ sz - 1)"
    using unat_mask_u8 [OF sz(2)] by (metis of_nat_unat ucast_id)
  have "n < 2 ^ sz" if "n < 2 ^ sz - 1" using that by simp
  then show ?thesis
    using sz prefix_first(2) [OF assms, of n] prefix_first(2) [OF assms, of "2 ^ sz - 1"]
    by (simp add: encode_prefix_def encode_mask unat_mask_u8 Let_def prefix_wire_def
        encode_prefix_loop_continuation or.commute [of "mask sz"] m [symmetric] del: of_nat_add of_nat_mult)
      (simp add: m or.commute del: of_nat_add of_nat_mult)
qed

lemma decode_prefix_Cons:
  assumes "0 < sz" and "sz \<le> 8"
  shows "decode_prefix (b # buf) sz =
    (if unat b mod 2 ^ sz < 2 ^ sz - 1 then Ok ((of_nat (unat b div 2 ^ sz), unat b mod 2 ^ sz), buf)
     else and_then (decode_prefix_loop buf (of_nat (2 ^ sz - 1)) 0) (\<lambda>(v, buf).
       Ok ((of_nat (unat b div 2 ^ sz), unat v), buf)))"
proof -
  have "unat (mask sz :: u8) = 2 ^ sz - 1" using assms by (simp add: unat_mask_u8)
  then have "(ucast (mask sz :: u8) :: u64) = of_nat (2 ^ sz - 1)"
    by (metis of_nat_unat)
  moreover have shift: "\<not> 8 \<le> 8 - sz" using assms by linarith
  ultimately show ?thesis
    using assms by (simp add: decode_prefix_def decode_mask flags_of Let_def word_less_nat_alt
        unat_and_mask unat_mask_u8 shift)
qed

lemma decode_prefix_wire:
  assumes "prefix_ok sz flags" and "n < 2 ^ 64"
  shows "decode_prefix (prefix_wire sz flags n @ rest) sz = Ok ((flags, n), rest)"
proof -
  have sz: "0 < sz" "sz \<le> 8" using assms(1) by (simp_all add: prefix_ok_def)
  let ?m = "2 ^ sz - 1 :: nat"
  have pos: "(0 :: nat) < 2 ^ sz" by simp
  have fl: "(of_nat ((unat flags * 2 ^ sz + k) div 2 ^ sz) :: u8) = flags"
    "(unat flags * 2 ^ sz + k) mod 2 ^ sz = k" if "k < 2 ^ sz" for k
    using that by simp_all
  show ?thesis
  proof (cases "n < ?m")
    case True
    then have "n < 2 ^ sz" by simp
    then show ?thesis
      using True prefix_first(1) [OF assms(1)] fl
      by (simp add: prefix_wire_def decode_prefix_Cons [OF sz] del: of_nat_add of_nat_mult)
  next
    case False
    have lt: "?m < 2 ^ sz" using pos by simp
    have "(2 :: nat) ^ sz \<le> 2 ^ 8" using sz by (intro power_increasing) simp_all
    then have m64: "unat (of_nat ?m :: u64) = ?m" by (simp add: unat_of_nat del: of_nat_diff)
    have "unat (of_nat ?m :: u64) + 2 ^ 0 * le128 (continuation (n - ?m)) < 2 ^ 64"
      unfolding m64 le128_continuation using False assms(2) by simp
    moreover have "0 + 7 * (length (continuation (n - ?m)) - 1) < 64"
      using continuation_shift [OF le_less_trans [OF diff_le_self assms(2)], of ?m] by simp
    ultimately obtain v where v: "decode_prefix_loop (continuation (n - ?m) @ rest) (of_nat ?m) 0 = Ok (v, rest)"
        "unat v = unat (of_nat ?m :: u64) + 2 ^ 0 * le128 (continuation (n - ?m))"
      using decode_prefix_loop_value [OF continued_continuation] by blast
    have "unat v = n" using v(2) False unfolding m64 le128_continuation by simp
    then show ?thesis
      using False v(1) prefix_first(1) [OF assms(1) lt] fl [OF lt]
      by (simp add: prefix_wire_def decode_prefix_Cons [OF sz] del: of_nat_add of_nat_mult of_nat_diff)
  qed
qed

lemma decode_prefix_loop_no_panic: "decode_prefix_loop buf acc k \<noteq> Panic"
  by (induction buf acc k rule: decode_prefix_loop.induct) (auto simp: and_then_Panic_iff)

lemma decode_prefix_no_panic: "0 < sz \<Longrightarrow> sz \<le> 8 \<Longrightarrow> decode_prefix buf sz \<noteq> Panic"
  by (cases buf)
    (auto simp: decode_prefix_Cons and_then_Panic_iff decode_prefix_loop_no_panic, simp add: decode_prefix_def)

text \<open>What a successful decode consumed and returned.\<close>

lemma decode_prefix_Ok:
  assumes "decode_prefix buf sz = Ok ((flags, n), rest)" and "0 < sz" and "sz \<le> 8"
  obtains b cs where "buf = b # cs @ rest" and "flags = of_nat (unat b div 2 ^ sz)" and "n < 2 ^ 64"
    and "cs = [] \<Longrightarrow> n = unat b mod 2 ^ sz \<and> n < 2 ^ sz - 1"
    and "cs \<noteq> [] \<Longrightarrow> unat b mod 2 ^ sz = 2 ^ sz - 1 \<and> continued cs \<and> length cs \<le> 10 \<and>
      (length cs \<le> 9 \<longrightarrow> n = 2 ^ sz - 1 + le128 cs)"
proof -
  obtain b buf' where buf: "buf = b # buf'" using assms by (cases buf) (auto simp: decode_prefix_def)
  have lt: "unat b mod 2 ^ sz < 2 ^ sz" by simp
  show thesis
  proof (cases "unat b mod 2 ^ sz < 2 ^ sz - 1")
    case True
    then have r: "flags = of_nat (unat b div 2 ^ sz)" "n = unat b mod 2 ^ sz" "rest = buf'"
      using assms(1) unfolding buf decode_prefix_Cons [OF assms(2,3)] by simp_all
    have "n < 2 ^ 64"
      unfolding r by (rule le_less_trans [OF mod_less_eq_dividend less_trans [OF unat_u8_less]]) simp
    then show ?thesis using True r by (intro that [of b "[]"]) (simp_all add: buf)
  next
    case False
    then obtain v where v: "decode_prefix_loop buf' (of_nat (2 ^ sz - 1)) 0 = Ok (v, rest)"
        "flags = of_nat (unat b div 2 ^ sz)" "n = unat v"
      using assms(1) unfolding buf decode_prefix_Cons [OF assms(2,3)] by auto
    from decode_prefix_loop_sound [OF v(1)] obtain cs where cs: "buf' = cs @ rest" "continued cs"
        "7 * (length cs - 1) < 64"
        "7 * length cs \<le> 64 \<longrightarrow> unat v = unat (of_nat (2 ^ sz - 1) :: u64) + le128 cs"
      by (auto simp del: of_nat_diff)
    have "(2 :: nat) ^ sz \<le> 2 ^ 8" using assms by (intro power_increasing) simp_all
    then have m: "unat (of_nat (2 ^ sz - 1) :: u64) = 2 ^ sz - 1"
      by (simp add: unat_of_nat del: of_nat_diff)
    have "cs \<noteq> []" using cs(2) by auto
    moreover have "length cs \<le> 10" using cs(3) by linarith
    moreover have "n = 2 ^ sz - 1 + le128 cs" if "length cs \<le> 9"
      using cs(4) that v(3) m by simp
    moreover have "n < 2 ^ 64" using v(3) unsigned_less [of v, where 'a=nat] by simp
    moreover have "unat b mod 2 ^ sz = 2 ^ sz - 1" using False lt by linarith
    ultimately show ?thesis using cs(1,2) v(2) by (intro that [of b cs]) (simp_all add: buf)
  qed
qed

lemma decode_prefix_shorter:
  "decode_prefix buf sz = Ok (p, rest) \<Longrightarrow> 0 < sz \<Longrightarrow> sz \<le> 8 \<Longrightarrow> length rest < length buf"
  by (cases p) (auto elim: decode_prefix_Ok)

text \<open>Ten continuation bytes carry 70 bits; the shift of the tenth drops all but its lowest.\<close>

lemma decode_prefix_drops_bits:
  "decode_prefix [0x7F, 0x80, 0x80, 0x80, 0x80, 0x80, 0x80, 0x80, 0x80, 0x80, 0x02] 7 = Ok ((0, 127), [])"
  by (simp add: decode_prefix_Cons and_128_iff checked_shl_def checked_add_def)

subsection \<open>String literals\<close>

lemma decode_string_literal:
  assumes "prefix_ok sz flags" and "flags AND 1 = 0" and "length s < 2 ^ 64"
  shows "decode_string (prefix_wire sz flags (length s) @ s @ rest) (Suc sz) = Ok (s, rest)"
proof -
  have "prefix_wire sz flags (length s) \<noteq> []" by (simp add: prefix_wire_def)
  then show ?thesis
    using assms by (simp add: decode_string_def decode_prefix_wire)
qed

lemma decode_string_Ok:
  assumes "decode_string buf (Suc sz) = Ok (s, rest)" and "0 < sz" and "sz \<le> 8"
  shows "length rest < length buf"
proof -
  from assms obtain flags len b1 where "decode_prefix buf sz = Ok ((flags, len), b1)" "rest = drop len b1"
    by (auto simp: decode_string_def Let_def split: if_splits)
  then show ?thesis using decode_prefix_shorter [of buf sz] assms by fastforce
qed

lemma huffman_input_ok_mono: "huffman_input_ok buf \<Longrightarrow> length s \<le> length buf \<Longrightarrow> huffman_input_ok s"
  by (simp add: huffman_input_ok_def)

lemma decode_string_no_panic:
  assumes "huffman_input_ok buf" and "0 < sz" and "sz \<le> 8"
  shows "decode_string buf (Suc sz) \<noteq> Panic"
proof
  assume p: "decode_string buf (Suc sz) = Panic"
  then obtain flags len b1 where d: "decode_prefix buf sz = Ok ((flags, len), b1)"
      and h: "hpack_decode (take len b1) = Panic"
    using decode_prefix_no_panic [OF assms(2,3)]
    by (auto simp: decode_string_def and_then_Panic_iff Let_def split: if_splits)
  have "length (take len b1) \<le> length buf" using decode_prefix_shorter [OF d assms(2,3)] by simp
  then show False using h hpack_decode_no_panic huffman_input_ok_mono [OF assms(1)] by blast
qed

subsection \<open>Properties\<close>

text \<open>
  Prefix integers: for every prefix length from 1 to 8, flags that fit in front of it and
  value of a \<^verbatim>\<open>usize\<close>, the encoder does not panic and the decoder reads the flags and the value
  back from the front of any input.
\<close>

theorem prefix_roundtrip:
  assumes "prefix_ok sz flags" and "n < 2 ^ 64"
  shows "\<exists>bs. encode_prefix buf sz flags n = Ok (buf @ bs) \<and> decode_prefix (bs @ rest) sz = Ok ((flags, n), rest)"
  using encode_prefix_wire [OF assms(1)] decode_prefix_wire [OF assms] by blast

theorem prefix_roundtrip_witness:
  "prefix_ok 5 0 \<and> (\<exists>bs. encode_prefix [] 5 0 1337 = (Ok ([] @ bs) :: (bytes, unit) res) \<and>
     decode_prefix (bs @ [9]) 5 = Ok ((0, 1337), [9])) \<and>
   encode_prefix [] 5 0 1337 = (Ok [31, 154, 10] :: (bytes, unit) res)"
proof -
  have ok: "prefix_ok 5 0" by (simp add: prefix_ok_def)
  have n: "1337 < (2 :: nat) ^ 64" by simp
  have "encode_prefix [] 5 0 1337 = (Ok [31, 154, 10] :: (bytes, unit) res)"
    by (simp add: encode_prefix_wire [OF ok] prefix_wire_def continuation.simps)
  then show ?thesis using ok prefix_roundtrip [OF ok n, of "[]" "[9]"] by blast
qed

text \<open>
  A successful decode of a prefix integer consumed one byte, or one byte with a full prefix
  and at most ten continuation bytes; up to nine of these the value is the arithmetic one. The
  decoder never panics for a prefix of 1 to 8 bits.
\<close>

theorem prefix_decode_sound:
  assumes "0 < sz" and "sz \<le> 8"
  shows "decode_prefix buf sz \<noteq> Panic \<and>
    (\<forall>flags n rest. decode_prefix buf sz = Ok ((flags, n), rest) \<longrightarrow>
      (\<exists>b cs. buf = b # cs @ rest \<and> flags = of_nat (unat b div 2 ^ sz) \<and> length cs \<le> 10 \<and>
        (cs = [] \<longrightarrow> n = unat b mod 2 ^ sz \<and> n < 2 ^ sz - 1) \<and>
        (cs \<noteq> [] \<and> length cs \<le> 9 \<longrightarrow> n = 2 ^ sz - 1 + le128 cs)))"
proof (intro conjI allI impI)
  show "decode_prefix buf sz \<noteq> Panic" using assms by (rule decode_prefix_no_panic)
next
  fix flags n rest assume "decode_prefix buf sz = Ok ((flags, n), rest)"
  then obtain b cs where "buf = b # cs @ rest" "flags = of_nat (unat b div 2 ^ sz)"
      "cs = [] \<Longrightarrow> n = unat b mod 2 ^ sz \<and> n < 2 ^ sz - 1"
      "cs \<noteq> [] \<Longrightarrow> unat b mod 2 ^ sz = 2 ^ sz - 1 \<and> continued cs \<and> length cs \<le> 10 \<and>
        (length cs \<le> 9 \<longrightarrow> n = 2 ^ sz - 1 + le128 cs)"
    by (rule decode_prefix_Ok [OF _ assms]) blast
  then show "\<exists>b cs. buf = b # cs @ rest \<and> flags = of_nat (unat b div 2 ^ sz) \<and> length cs \<le> 10 \<and>
        (cs = [] \<longrightarrow> n = unat b mod 2 ^ sz \<and> n < 2 ^ sz - 1) \<and>
        (cs \<noteq> [] \<and> length cs \<le> 9 \<longrightarrow> n = 2 ^ sz - 1 + le128 cs)"
    by (intro exI [of _ b] exI [of _ cs]) (cases "cs = []", simp_all)
qed

theorem prefix_decode_sound_witness:
  "decode_prefix [31, 154, 10, 7] 5 = Ok ((0, 1337), [7]) \<and> decode_prefix [31, 154, 10, 7] 5 \<noteq> Panic"
proof -
  have "decode_prefix [31, 154, 10, 7] 5 = Ok ((0, 1337), [7])"
    by (simp add: decode_prefix_Cons and_128_iff checked_shl_def checked_add_def)
  then show ?thesis using prefix_decode_sound [of 5 "[31, 154, 10, 7]"] by simp
qed

end
