(* ===== verification/Qpack.thy ===== *)
theory Qpack
  imports Prefix_Int Static_Table
begin

section \<open>QPACK header blocks\<close>

text \<open>
  \<^verbatim>\<open>Headers\<close> of \<^verbatim>\<open>webtrans-proto/src/qpack.rs\<close>: decoding and encoding of a header block against the
  static table, the validation of each field, and the check of the pseudo-headers. The source
  re-reads the first byte of a field through a chained buffer; here the field decoders simply
  start at it. The lemmas describe the decoder by the list of fields in the block and show that
  it inverts the encoder for every iteration order of the map.
\<close>

subsection \<open>Definitions\<close>

type_synonym Headers = "(bytes, bytes) hash_map"

definition Headers_get :: "Headers \<Rightarrow> bytes \<Rightarrow> bytes option" where
  "Headers_get h name = map_of h name"

definition Headers_set :: "bytes \<Rightarrow> bytes \<Rightarrow> Headers \<Rightarrow> Headers" where
  "Headers_set name val h = AList.update name val h"

definition starts_with_colon :: "bytes \<Rightarrow> bool" where
  "starts_with_colon name = (case name of [] \<Rightarrow> False | c # _ \<Rightarrow> c = 0x3A)"

definition is_lowercase_field_name_byte :: "u8 \<Rightarrow> bool" where
  "is_lowercase_field_name_byte b \<longleftrightarrow>
     (0x61 \<le> b \<and> b \<le> 0x7A) \<or> (0x30 \<le> b \<and> b \<le> 0x39) \<or>
     b \<in> {0x21, 0x23, 0x24, 0x25, 0x26, 0x27, 0x2A, 0x2B, 0x2D, 0x2E, 0x5E, 0x5F, 0x60, 0x7C, 0x7E}"

definition forbidden_value_byte :: "u8 \<Rightarrow> bool" where
  "forbidden_value_byte b \<longleftrightarrow> b = 0x7F \<or> b = 0x0D \<or> b = 0x0A \<or> (b < 0x20 \<and> b \<noteq> 0x09)"

definition validate_field :: "bytes \<Rightarrow> bytes \<Rightarrow> (unit, DecodeError) res" where
  "validate_field name val =
     (let regular_name = (if starts_with_colon name then tl name else name) in
      if regular_name = [] \<or> \<not> list_all is_lowercase_field_name_byte regular_name
        then Err DecodeError_InvalidFieldName
      else if list_ex forbidden_value_byte val then Err DecodeError_InvalidFieldValue
      else if name \<in> {str ''connection'', str ''proxy-connection'', str ''keep-alive'',
           str ''transfer-encoding'', str ''upgrade''}
        then Err (DecodeError_ConnectionSpecificField name)
      else if name = str ''te'' \<and> \<not> eq_ignore_ascii_case (str_trim val) (str ''trailers'')
        then Err (DecodeError_ConnectionSpecificField name)
      else Ok ())"

definition static_entry :: "nat \<Rightarrow> (bytes \<times> bytes, DecodeError) res" where
  "static_entry index = ok_or DecodeError_UnknownEntry (StaticTable_get index)"

definition decode_index :: "bytes \<Rightarrow> ((bytes \<times> bytes) \<times> bytes, DecodeError) res" where
  "decode_index buf =
     and_then (decode_prefix buf 6) (\<lambda>((_, index), buf).
     and_then (static_entry index) (\<lambda>(name, val). Ok ((name, val), buf)))"

definition decode_literal_value :: "bytes \<Rightarrow> ((bytes \<times> bytes) \<times> bytes, DecodeError) res" where
  "decode_literal_value buf =
     and_then (decode_prefix buf 4) (\<lambda>((_, name), buf).
     and_then (static_entry name) (\<lambda>(name, _).
     and_then (decode_string buf 8) (\<lambda>(val, buf).
     and_then (map_err DecodeError_Utf8Error (from_utf8 val)) (\<lambda>val. Ok ((name, val), buf)))))"

definition decode_literal :: "bytes \<Rightarrow> ((bytes \<times> bytes) \<times> bytes, DecodeError) res" where
  "decode_literal buf =
     and_then (decode_string buf 4) (\<lambda>(name, buf).
     and_then (map_err DecodeError_Utf8Error (from_utf8 name)) (\<lambda>name.
     and_then (decode_string buf 8) (\<lambda>(val, buf).
     and_then (map_err DecodeError_Utf8Error (from_utf8 val)) (\<lambda>val. Ok ((name, val), buf)))))"

text \<open>The \<^verbatim>\<open>match\<close> on the first byte of a field, which is at the front of \<open>buf\<close>.\<close>

definition decode_field :: "u8 \<Rightarrow> bytes \<Rightarrow> ((bytes \<times> bytes) \<times> bytes, DecodeError) res" where
  "decode_field peek buf =
     (if peek AND 0b11000000 = 0b11000000 then decode_index buf
      else if peek AND 0b11000000 = 0b10000000 then Err DecodeError_DynamicEntry
      else if peek AND 0b11010000 = 0b01010000 then decode_literal_value buf
      else if peek AND 0b11010000 = 0b01000000 then Err DecodeError_DynamicEntry
      else if peek AND 0b11100000 = 0b00100000 then decode_literal buf
      else if peek AND 0b11110000 = 0b00010000 then Err DecodeError_DynamicEntry
      else if peek AND 0b11110000 = 0b00000000 then Err DecodeError_DynamicEntry
      else Err DecodeError_UnknownEntry)"

lemma static_entry_no_panic [simp]: "static_entry i \<noteq> Panic"
  by (simp add: static_entry_def)

lemma decode_string_shorter: "decode_string buf 8 = Ok (s, rest) \<Longrightarrow> length rest < length buf"
  "decode_string buf 4 = Ok (s, rest) \<Longrightarrow> length rest < length buf"
  using decode_string_Ok [of buf 7 s rest] decode_string_Ok [of buf 3 s rest] by simp_all

lemma decode_field_shorter: "decode_field b buf = Ok (f, rest) \<Longrightarrow> length rest < length buf"
  by (auto simp: decode_field_def decode_index_def decode_literal_value_def decode_literal_def
      split: if_splits dest!: decode_string_shorter decode_prefix_shorter)

text \<open>The \<^verbatim>\<open>while buf.has_remaining()\<close> loop of \<^verbatim>\<open>decode\<close>.\<close>

function Headers_decode_loop ::
    "bytes \<Rightarrow> Headers \<Rightarrow> bytes list \<Rightarrow> bool \<Rightarrow> (Headers, DecodeError) res" where
  "Headers_decode_loop buf fs pseudo_headers saw_regular_field =
     (case buf of [] \<Rightarrow> Ok fs
      | peek # _ \<Rightarrow>
          and_then (decode_field peek buf) (\<lambda>(field, buf).
          let name = fst field; val = snd field in
          and_then (validate_field name val) (\<lambda>_.
            if starts_with_colon name then
              if saw_regular_field then Err DecodeError_PseudoHeaderAfterRegularField
              else if name \<in> set pseudo_headers then Err (DecodeError_DuplicatePseudoHeader name)
              else Headers_decode_loop buf (AList.update name val fs) (name # pseudo_headers)
                saw_regular_field
            else Headers_decode_loop buf (AList.update name val fs) pseudo_headers True)))"
  by pat_completeness auto
termination
  by (relation "measure (\<lambda>(buf, _, _, _). length buf)")
    (auto dest: decode_field_shorter)

declare Headers_decode_loop.simps [simp del]

definition Headers_decode :: "bytes \<Rightarrow> (Headers, DecodeError) res" where
  "Headers_decode buf =
     and_then (decode_prefix buf 8) (\<lambda>((_, insert_count), buf).
     and_then (decode_prefix buf 7) (\<lambda>((sign, delta_base), buf).
       if insert_count \<noteq> 0 \<or> sign \<noteq> 0 \<or> delta_base \<noteq> 0 then Err DecodeError_DynamicEntry
       else Headers_decode_loop buf [] [] False))"

text \<open>\<^verbatim>\<open>find\<close> reports the first offending key in the iteration order \<open>ho\<close>.\<close>

definition validate_pseudo_headers ::
    "(Headers \<Rightarrow> Headers) \<Rightarrow> Headers \<Rightarrow> bytes list \<Rightarrow> (unit, DecodeError) res" where
  "validate_pseudo_headers ho h allowed =
     (case find (\<lambda>name. starts_with_colon name \<and> name \<notin> set allowed) (map fst (ho h)) of
        Some name \<Rightarrow> Err (DecodeError_InvalidPseudoHeader name)
      | None \<Rightarrow> Ok ())"

definition encode_index :: "bytes \<Rightarrow> nat \<Rightarrow> (bytes, 'e) res" where
  "encode_index buf index = encode_prefix buf 6 0b11 index"

definition encode_literal_value :: "bytes \<Rightarrow> nat \<Rightarrow> bytes \<Rightarrow> (bytes, 'e) res" where
  "encode_literal_value buf name val =
     and_then (encode_prefix buf 4 0b0101 name) (\<lambda>buf.
     and_then (encode_prefix buf 7 0b0 (length val)) (\<lambda>buf. Ok (buf @ val)))"

definition encode_literal :: "bytes \<Rightarrow> bytes \<Rightarrow> bytes \<Rightarrow> (bytes, 'e) res" where
  "encode_literal buf name val =
     and_then (encode_prefix buf 3 0b00100 (length name)) (\<lambda>buf.
     and_then (encode_prefix (buf @ name) 7 0b0 (length val)) (\<lambda>buf. Ok (buf @ val)))"

fun encode_fields :: "Headers \<Rightarrow> bytes \<Rightarrow> (bytes, 'e) res" where
  "encode_fields [] buf = Ok buf"
| "encode_fields ((name, val) # fs) buf =
     (let entry = StaticTable_lookup name val in
      and_then
        (case exact entry of
           Some index \<Rightarrow> encode_index buf index
         | None \<Rightarrow> (case name_index entry of
             Some index \<Rightarrow> encode_literal_value buf index val
           | None \<Rightarrow> encode_literal buf name val))
        (encode_fields fs))"

definition Headers_encode :: "(Headers \<Rightarrow> Headers) \<Rightarrow> Headers \<Rightarrow> bytes \<Rightarrow> (bytes, 'e) res" where
  "Headers_encode ho h buf =
     and_then (encode_prefix buf 8 0 0) (\<lambda>buf.
     and_then (encode_prefix buf 7 0 0) (\<lambda>buf.
       encode_fields (sort_key (\<lambda>(key, _). \<not> starts_with_colon key) (ho h)) buf))"

subsection \<open>One field on the wire\<close>

definition field_ok :: "bytes \<times> bytes \<Rightarrow> bool" where
  "field_ok f \<longleftrightarrow> utf8_valid (fst f) \<and> utf8_valid (snd f) \<and> length (fst f) < 2 ^ 62 \<and> length (snd f) < 2 ^ 62"

definition literal_wire :: "bytes \<Rightarrow> bytes" where
  "literal_wire val = prefix_wire 7 0 (length val) @ val"

definition field_wire :: "bytes \<times> bytes \<Rightarrow> bytes" where
  "field_wire f =
     (let entry = StaticTable_lookup (fst f) (snd f) in
      case exact entry of
        Some index \<Rightarrow> prefix_wire 6 3 index
      | None \<Rightarrow> (case name_index entry of
          Some index \<Rightarrow> prefix_wire 4 5 index @ literal_wire (snd f)
        | None \<Rightarrow> prefix_wire 3 4 (length (fst f)) @ fst f @ literal_wire (snd f)))"

definition block_wire :: "Headers \<Rightarrow> bytes" where
  "block_wire h = prefix_wire 8 0 0 @ prefix_wire 7 0 0 @ concat (map field_wire h)"

lemma prefixes_ok [simp]: "prefix_ok 8 0" "prefix_ok 7 0" "prefix_ok 6 3" "prefix_ok 4 5" "prefix_ok 3 4"
  by (simp_all add: prefix_ok_def)

lemma encode_fields_wire: "encode_fields h buf = Ok (buf @ concat (map field_wire h))"
proof (induction h arbitrary: buf)
  case (Cons f h)
  show ?case
    by (cases f) (simp add: Cons field_wire_def literal_wire_def encode_index_def encode_literal_value_def
        encode_literal_def encode_prefix_wire Let_def split: option.split)
qed simp

lemma Headers_encode_wire:
  "Headers_encode ho h buf = Ok (buf @ block_wire (sort_key (\<lambda>(key, _). \<not> starts_with_colon key) (ho h)))"
  by (simp add: Headers_encode_def encode_prefix_wire encode_fields_wire block_wire_def)

text \<open>The first byte of a field tells how it is represented.\<close>

lemma prefix_wire_first:
  assumes "prefix_ok sz flags"
  obtains b bs where "prefix_wire sz flags n = b # bs" and "unat b div 2 ^ sz = unat flags"
proof -
  let ?k = "if n < 2 ^ sz - 1 then n else 2 ^ sz - 1"
  have k: "?k < 2 ^ sz" by auto
  have "hd (prefix_wire sz flags n) = of_nat (unat flags * 2 ^ sz + ?k)" "prefix_wire sz flags n \<noteq> []"
    by (simp_all add: prefix_wire_def del: of_nat_add of_nat_mult of_nat_diff)
  moreover have "unat (of_nat (unat flags * 2 ^ sz + ?k) :: u8) div 2 ^ sz = unat flags"
    unfolding prefix_first(1) [OF assms k] using k by simp
  ultimately show thesis using that by (cases "prefix_wire sz flags n") auto
qed

lemma byte_cases: "lo \<le> unat b \<Longrightarrow> unat b < hi \<Longrightarrow> b \<in> set (map of_nat [lo..<hi])" for b :: u8
  by (auto simp: image_iff intro!: bexI [of _ "unat b"])

lemma list_all_byte: "list_all P (map of_nat [lo..<hi]) \<Longrightarrow> lo \<le> unat b \<Longrightarrow> unat b < hi \<Longrightarrow> P b" for b :: u8
  by (metis byte_cases list_all_iff)

lemma peek_index: "unat b div 2 ^ 6 = 3 \<Longrightarrow> b AND 0b11000000 = 0b11000000" for b :: u8
proof (rule list_all_byte [of "\<lambda>b. b AND 0b11000000 = 0b11000000" 192 256])
  show "list_all (\<lambda>b :: u8. b AND 0b11000000 = 0b11000000) (map of_nat [192..<256])"
    by (simp add: upt_rec)
qed (use unat_u8_less [of b] in auto)

lemma peek_literal_value: "unat b div 2 ^ 4 = 5 \<Longrightarrow> b AND 0b11000000 = 0b01000000 \<and> b AND 0b11010000 = 0b01010000"
  for b :: u8
proof (rule list_all_byte [of "\<lambda>b. b AND 0b11000000 = 0b01000000 \<and> b AND 0b11010000 = 0b01010000" 80 96])
  show "list_all (\<lambda>b :: u8. b AND 0b11000000 = 0b01000000 \<and> b AND 0b11010000 = 0b01010000) (map of_nat [80..<96])"
    by (simp add: upt_rec)
qed auto

lemma peek_literal:
  "unat b div 2 ^ 3 = 4 \<Longrightarrow> b AND 0b11000000 = 0 \<and> b AND 0b11010000 = 0 \<and> b AND 0b11100000 = 0b00100000"
  for b :: u8
proof (rule list_all_byte [of "\<lambda>b. b AND 0b11000000 = 0 \<and> b AND 0b11010000 = 0 \<and> b AND 0b11100000 = 0b00100000" 32 40])
  show "list_all (\<lambda>b :: u8. b AND 0b11000000 = 0 \<and> b AND 0b11010000 = 0 \<and> b AND 0b11100000 = 0b00100000)
      (map of_nat [32..<40])"
    by (simp add: upt_rec)
qed auto

lemma decode_literal_wire:
  "length val < 2 ^ 62 \<Longrightarrow> decode_string (literal_wire val @ rest) 8 = Ok (val, rest)"
  using decode_string_literal [of 7 0 val rest] by (simp add: literal_wire_def)

lemma decode_field_wire:
  assumes "field_ok f"
  obtains b bs where "field_wire f @ rest = b # bs" and "decode_field b (b # bs) = Ok (f, rest)"
proof -
  obtain name val where f: "f = (name, val)" by (cases f)
  have u: "utf8_valid name" "utf8_valid val" and len: "length name < 2 ^ 62" "length val < 2 ^ 62"
    using assms by (simp_all add: field_ok_def f)
  let ?entry = "StaticTable_lookup name val"
  consider (exact) i where "exact ?entry = Some i"
    | (name) i where "exact ?entry = None" "name_index ?entry = Some i"
    | (none) "exact ?entry = None" "name_index ?entry = None"
    by (cases "exact ?entry"; cases "name_index ?entry") auto
  then show thesis
  proof cases
    case exact
    obtain b bs where b: "prefix_wire 6 3 i = b # bs" "unat b div 2 ^ 6 = unat (3 :: u8)"
      by (rule prefix_wire_first [of 6 3 i]) simp_all
    have i: "StaticTable_get i = Some (name, val)" "i < 99" using StaticTable_lookup_found(1) [OF exact] by auto
    have "decode_prefix ((b # bs) @ rest) 6 = Ok ((3, i), rest)"
      using decode_prefix_wire [of 6 3 i rest] i(2) unfolding b(1) by simp
    then have "decode_field b ((b # bs) @ rest) = Ok (f, rest)"
      using peek_index [of b] b(2) i(1) by (simp add: decode_field_def decode_index_def static_entry_def f)
    moreover have "field_wire f @ rest = (b # bs) @ rest" using exact b(1) by (simp add: field_wire_def f)
    ultimately show ?thesis using that by simp
  next
    case name
    obtain b bs where b: "prefix_wire 4 5 i = b # bs" "unat b div 2 ^ 4 = unat (5 :: u8)"
      by (rule prefix_wire_first [of 4 5 i]) simp_all
    obtain v where i: "StaticTable_get i = Some (name, v)" "i < 99"
      using StaticTable_lookup_found(2) [OF name(2)] by auto
    have "decode_prefix ((b # bs) @ literal_wire val @ rest) 4 = Ok ((5, i), literal_wire val @ rest)"
      using decode_prefix_wire [of 4 5 i] i(2) unfolding b(1) [symmetric] by simp
    then have "decode_field b ((b # bs) @ literal_wire val @ rest) = Ok (f, rest)"
      using peek_literal_value [of b] b(2) i(1) u decode_literal_wire [OF len(2)]
      by (simp add: decode_field_def decode_literal_value_def static_entry_def f)
    moreover have "field_wire f @ rest = (b # bs) @ literal_wire val @ rest"
      using name b(1) by (simp add: field_wire_def f)
    ultimately show ?thesis using that by simp
  next
    case none
    obtain b bs where b: "prefix_wire 3 4 (length name) = b # bs" "unat b div 2 ^ 3 = unat (4 :: u8)"
      by (rule prefix_wire_first [of 3 4 "length name"]) simp_all
    have "decode_string ((b # bs) @ name @ literal_wire val @ rest) 4 = Ok (name, literal_wire val @ rest)"
      using decode_string_literal [of 3 4 name "literal_wire val @ rest"] len(1)
      unfolding b(1) [symmetric] by simp
    then have "decode_field b ((b # bs) @ name @ literal_wire val @ rest) = Ok (f, rest)"
      using peek_literal [of b] b(2) u decode_literal_wire [OF len(2)]
      by (simp add: decode_field_def decode_literal_def f)
    moreover have "field_wire f @ rest = (b # bs) @ name @ literal_wire val @ rest"
      using none b(1) by (simp add: field_wire_def f)
    ultimately show ?thesis using that by simp
  qed
qed

subsection \<open>The decoding loop over a list of fields\<close>

fun headers_collect :: "Headers \<Rightarrow> Headers \<Rightarrow> bytes list \<Rightarrow> bool \<Rightarrow> (Headers, DecodeError) res" where
  "headers_collect [] fs ps saw = Ok fs"
| "headers_collect ((name, val) # xs) fs ps saw =
     and_then (validate_field name val) (\<lambda>_.
       if starts_with_colon name then
         if saw then Err DecodeError_PseudoHeaderAfterRegularField
         else if name \<in> set ps then Err (DecodeError_DuplicatePseudoHeader name)
         else headers_collect xs (AList.update name val fs) (name # ps) saw
       else headers_collect xs (AList.update name val fs) ps True)"

definition pseudo :: "bytes \<times> bytes \<Rightarrow> bool" where
  "pseudo f \<longleftrightarrow> starts_with_colon (fst f)"

text \<open>The field sequences that RFC 9114 section 4.3 allows.\<close>

definition well_formed_sequence :: "Headers \<Rightarrow> bool" where
  "well_formed_sequence xs \<longleftrightarrow> (\<forall>f \<in> set xs. validate_field (fst f) (snd f) = Ok ()) \<and>
     distinct (map fst (filter pseudo xs)) \<and> xs = filter pseudo xs @ filter (\<lambda>f. \<not> pseudo f) xs"

definition last_values :: "Headers \<Rightarrow> Headers" where
  "last_values xs = fold (\<lambda>f. AList.update (fst f) (snd f)) xs []"

lemma Headers_decode_loop_fields:
  "\<forall>f \<in> set xs. field_ok f \<Longrightarrow>
   Headers_decode_loop (concat (map field_wire xs)) fs ps saw = headers_collect xs fs ps saw"
proof (induction xs fs ps saw rule: headers_collect.induct)
  case (1 fs ps saw)
  show ?case by (simp add: Headers_decode_loop.simps)
next
  case (2 name val xs fs ps saw)
  obtain b bs where b: "field_wire (name, val) @ concat (map field_wire xs) = b # bs"
      "decode_field b (b # bs) = Ok ((name, val), concat (map field_wire xs))"
    by (rule decode_field_wire [of "(name, val)" "concat (map field_wire xs)"]) (use "2.prems" in simp_all)
  have "Headers_decode_loop (concat (map field_wire ((name, val) # xs))) fs ps saw =
      Headers_decode_loop (b # bs) fs ps saw" using b(1) by simp
  also have "\<dots> = headers_collect ((name, val) # xs) fs ps saw"
    using b(2) 2 by (subst Headers_decode_loop.simps) (cases "validate_field name val"; simp)
  finally show ?case .
qed

lemma Headers_decode_wire:
  "\<forall>f \<in> set xs. field_ok f \<Longrightarrow> Headers_decode (block_wire xs) = headers_collect xs [] [] False"
  by (simp add: Headers_decode_def block_wire_def decode_prefix_wire Headers_decode_loop_fields)

lemma collect_regular:
  "headers_collect xs fs ps True = Ok m \<longleftrightarrow>
     (\<forall>f \<in> set xs. validate_field (fst f) (snd f) = Ok () \<and> \<not> pseudo f) \<and>
     m = fold (\<lambda>f. AList.update (fst f) (snd f)) xs fs"
  by (induction xs fs ps "True" rule: headers_collect.induct) (auto simp: pseudo_def)

lemma filter_none: "(xs = filter P xs @ filter (\<lambda>x. \<not> P x) xs \<and> filter P xs = []) \<longleftrightarrow> (\<forall>x \<in> set xs. \<not> P x)"
  by (metis (mono_tags, lifting) append_Nil filter_False filter_empty_conv filter_id_conv)

lemma headers_collect_Ok_iff:
  "headers_collect xs fs ps False = Ok m \<longleftrightarrow>
     (\<forall>f \<in> set xs. validate_field (fst f) (snd f) = Ok ()) \<and>
     distinct (map fst (filter pseudo xs)) \<and> fst ` set (filter pseudo xs) \<inter> set ps = {} \<and>
     xs = filter pseudo xs @ filter (\<lambda>f. \<not> pseudo f) xs \<and>
     m = fold (\<lambda>f. AList.update (fst f) (snd f)) xs fs"
proof (induction xs fs ps "False" rule: headers_collect.induct)
  case (2 name val xs fs ps)
  show ?case
  proof (cases "starts_with_colon name")
    case True
    then show ?thesis using 2 by (auto simp: pseudo_def image_iff)
  next
    case False
    have "((name, val) # xs = filter pseudo ((name, val) # xs) @ filter (\<lambda>f. \<not> pseudo f) ((name, val) # xs)) \<longleftrightarrow>
        (\<forall>x \<in> set xs. \<not> pseudo x)"
      using False by (cases "filter pseudo xs")
        (auto simp: pseudo_def Cons_eq_append_conv filter_empty_conv filter_id_conv dest: filter_eq_ConsD)
    moreover have "filter pseudo ((name, val) # xs) = []" if "\<forall>x \<in> set xs. \<not> pseudo x"
      using that False by (simp add: pseudo_def filter_empty_conv)
    ultimately show ?thesis
      using False by (auto simp: collect_regular)
  qed
qed auto

lemma headers_collect_exact:
  "headers_collect xs [] [] False = Ok m \<longleftrightarrow> well_formed_sequence xs \<and> m = last_values xs"
  by (auto simp: headers_collect_Ok_iff well_formed_sequence_def last_values_def)

lemma last_values_distinct:
  "distinct (map fst xs) \<Longrightarrow> last_values xs = xs"
proof -
  have "distinct (map fst (fs @ xs)) \<Longrightarrow> fold (\<lambda>f. AList.update (fst f) (snd f)) xs fs = fs @ xs" for fs
  proof (induction xs arbitrary: fs)
    case (Cons f xs)
    then have "map_of fs (fst f) = None" by (auto simp: map_of_eq_None_iff)
    then have "AList.update (fst f) (snd f) fs = fs @ [f]"
      by (induction fs) (auto split: if_splits)
    then show ?case using Cons by simp
  qed simp
  from this [of "[]"] show "distinct (map fst xs) \<Longrightarrow> last_values xs = xs" by (simp add: last_values_def)
qed

lemma sort_pseudo_first:
  "sort_key (\<lambda>(key, _). \<not> starts_with_colon key) xs = filter pseudo xs @ filter (\<lambda>f. \<not> pseudo f) xs"
proof (rule properties_for_sort_key)
  have const: "\<forall>x \<in> set ys. f x = c \<Longrightarrow> sorted (map f ys)" for ys and f :: "bytes \<times> bytes \<Rightarrow> bool" and c
    by (induction ys) auto
  show "mset (filter pseudo xs @ filter (\<lambda>f. \<not> pseudo f) xs) = mset xs"
    by (simp add: mset_filter multiset_partition [symmetric])
  show "sorted (map (\<lambda>(key, _). \<not> starts_with_colon key) (filter pseudo xs @ filter (\<lambda>f. \<not> pseudo f) xs))"
    using const [of "filter pseudo xs" _ False] const [of "filter (\<lambda>f. \<not> pseudo f) xs" _ True]
    by (auto simp: sorted_append pseudo_def case_prod_beta)
  fix k
  show "filter (\<lambda>x. (case k of (key, _) \<Rightarrow> \<not> starts_with_colon key) = (case x of (key, _) \<Rightarrow> \<not> starts_with_colon key))
      (filter pseudo xs @ filter (\<lambda>f. \<not> pseudo f) xs) =
    filter (\<lambda>x. (case k of (key, _) \<Rightarrow> \<not> starts_with_colon key) = (case x of (key, _) \<Rightarrow> \<not> starts_with_colon key)) xs"
    by (cases k; cases "starts_with_colon (fst k)")
      (auto simp: pseudo_def case_prod_beta intro: filter_cong)
qed

subsection \<open>Whole header maps\<close>

definition headers_valid :: "Headers \<Rightarrow> bool" where
  "headers_valid h \<longleftrightarrow> hash_map_ok h \<and> (\<forall>f \<in> set h. field_ok f \<and> validate_field (fst f) (snd f) = Ok ())"

lemma Headers_roundtrip:
  assumes ho: "hash_order ho" and h: "headers_valid h"
  obtains xs where "\<And>buf. Headers_encode ho h buf = Ok (buf @ block_wire xs)"
    and "Headers_decode (block_wire xs) = Ok xs" and "map_of xs = map_of h" and "mset xs = mset h"
proof -
  define xs where "xs = filter pseudo (ho h) @ filter (\<lambda>f. \<not> pseudo f) (ho h)"
  have m: "mset xs = mset (ho h)"
    by (simp add: xs_def mset_filter multiset_partition [symmetric])
  have mh: "mset xs = mset h" using m ho by (simp add: hash_order_def)
  have ok: "hash_map_ok h" using h by (simp add: headers_valid_def)
  note same = map_of_mset_eq [OF mh [symmetric] ok]
  have set: "set xs = set h" using mh by (metis set_mset_mset)
  have dist: "distinct (map fst xs)" using same(1) by (simp add: hash_map_ok_def)
  have "filter pseudo xs = filter pseudo (ho h)"
    "filter (\<lambda>f. \<not> pseudo f) xs = filter (\<lambda>f. \<not> pseudo f) (ho h)"
    by (simp_all add: xs_def filter_empty_conv)
  then have seq: "xs = filter pseudo xs @ filter (\<lambda>f. \<not> pseudo f) xs" by (simp add: xs_def)
  have "distinct (map fst (filter pseudo xs))" using dist by (rule distinct_map_filter)
  then have "well_formed_sequence xs"
    using h seq set by (simp add: well_formed_sequence_def headers_valid_def)
  moreover have "\<forall>f \<in> set xs. field_ok f" using h set by (simp add: headers_valid_def)
  ultimately have "Headers_decode (block_wire xs) = Ok xs"
    using Headers_decode_wire headers_collect_exact last_values_distinct [OF dist] by metis
  then show thesis
    using that same(2) mh by (simp add: Headers_encode_wire sort_pseudo_first xs_def)
qed

text \<open>What holds of every field the decoder lets through.\<close>

definition field_safe :: "bytes \<times> bytes \<Rightarrow> bool" where
  "field_safe f \<longleftrightarrow> utf8_valid (fst f) \<and> utf8_valid (snd f) \<and> validate_field (fst f) (snd f) = Ok ()"

lemma static_table_ascii:
  "list_all (\<lambda>(n, v). list_all (\<lambda>b. b < 0x80) n \<and> list_all (\<lambda>b. b < 0x80) v) PREDEFINED_HEADERS"
  by (simp add: PREDEFINED_HEADERS_def str_def)

lemma static_entry_utf8:
  assumes "static_entry i = Ok (n, v)"
  shows "utf8_valid n \<and> utf8_valid v"
proof -
  have "(n, v) \<in> set PREDEFINED_HEADERS"
    using assms by (auto simp: static_entry_def StaticTable_get_def split: if_splits) (metis nth_mem)
  then show ?thesis using static_table_ascii by (auto simp: list_all_iff intro!: utf8_valid_ascii)
qed

lemma decode_field_utf8: "decode_field b buf = Ok ((n, v), rest) \<Longrightarrow> utf8_valid n \<and> utf8_valid v"
  by (auto simp: decode_field_def decode_index_def decode_literal_value_def decode_literal_def
      split: if_splits dest: static_entry_utf8)

lemma headers_safe_update:
  "hash_map_ok fs \<and> (\<forall>f \<in> set fs. field_safe f) \<Longrightarrow> field_safe (n, v) \<Longrightarrow>
   hash_map_ok (AList.update n v fs) \<and> (\<forall>f \<in> set (AList.update n v fs). field_safe f)"
proof -
  have "set (AList.update n v fs) \<subseteq> insert (n, v) (set fs)" by (induction fs) auto
  then show "hash_map_ok fs \<and> (\<forall>f \<in> set fs. field_safe f) \<Longrightarrow> field_safe (n, v) \<Longrightarrow> ?thesis"
    by (auto simp: hash_map_ok_update)
qed

lemma Headers_decode_loop_safe:
  "Headers_decode_loop buf fs ps saw = Ok m \<Longrightarrow> hash_map_ok fs \<and> (\<forall>f \<in> set fs. field_safe f) \<Longrightarrow>
   hash_map_ok m \<and> (\<forall>f \<in> set m. field_safe f)"
proof (induction buf fs ps saw rule: Headers_decode_loop.induct)
  case (1 buf fs ps saw)
  show ?case
  proof (cases buf)
    case Nil
    then show ?thesis using "1.prems" by (simp add: Headers_decode_loop.simps)
  next
    case (Cons b bs)
    from "1.prems"(1) obtain n v rest where d: "decode_field b buf = Ok ((n, v), rest)"
        "validate_field n v = Ok ()"
      by (subst (asm) Headers_decode_loop.simps) (auto simp: Cons Let_def)
    have "field_safe (n, v)" using decode_field_utf8 [OF d(1)] d(2) by (simp add: field_safe_def)
    note safe = headers_safe_update [OF "1.prems"(2) this]
    have step: "Headers_decode_loop buf fs ps saw =
        (if starts_with_colon n then
           if saw then Err DecodeError_PseudoHeaderAfterRegularField
           else if n \<in> set ps then Err (DecodeError_DuplicatePseudoHeader n)
           else Headers_decode_loop rest (AList.update n v fs) (n # ps) saw
         else Headers_decode_loop rest (AList.update n v fs) ps True)"
      using d by (subst Headers_decode_loop.simps) (simp add: Cons Let_def)
    note ih = "1.IH" [OF Cons d(1) refl, unfolded fst_conv snd_conv, OF refl refl d(2)]
    show ?thesis using "1.prems"(1) ih safe unfolding step by (auto split: if_splits)
  qed
qed

lemma decode_field_no_panic: "huffman_input_ok buf \<Longrightarrow> decode_field b buf \<noteq> Panic"
proof -
  assume ok: "huffman_input_ok buf"
  have s: "decode_string b1 8 \<noteq> Panic" "decode_string b1 4 \<noteq> Panic" if "length b1 \<le> length buf" for b1
    using decode_string_no_panic [of b1 7] decode_string_no_panic [of b1 3] huffman_input_ok_mono [OF ok that]
    by simp_all
  have p: "decode_prefix b1 4 \<noteq> Panic" "decode_prefix b1 6 \<noteq> Panic" for b1
    by (simp_all add: decode_prefix_no_panic)
  have "decode_literal buf \<noteq> Panic" "decode_literal_value buf \<noteq> Panic" "decode_index buf \<noteq> Panic"
    using s p by (auto simp: decode_literal_def decode_literal_value_def decode_index_def and_then_Panic_iff
        dest!: decode_string_shorter decode_prefix_shorter)
  then show ?thesis by (simp add: decode_field_def)
qed

lemma validate_field_no_panic [simp]: "validate_field n v \<noteq> Panic"
  by (simp add: validate_field_def Let_def)

lemma Headers_decode_loop_no_panic:
  "huffman_input_ok buf \<Longrightarrow> Headers_decode_loop buf fs ps saw \<noteq> Panic"
proof (induction buf fs ps saw rule: Headers_decode_loop.induct)
  case (1 buf fs ps saw)
  show ?case
  proof (cases buf)
    case (Cons b bs)
    have ok: "huffman_input_ok rest" if "decode_field b buf = Ok (f, rest)" for f rest
      using decode_field_shorter [OF that] huffman_input_ok_mono [OF "1.prems"] by simp
    show ?thesis
      using "1.IH" [OF Cons] decode_field_no_panic [OF "1.prems"] ok Cons
      by (subst Headers_decode_loop.simps) (auto simp: and_then_Panic_iff Let_def)
  qed (simp add: Headers_decode_loop.simps)
qed

lemma Headers_decode_no_panic: "huffman_input_ok buf \<Longrightarrow> Headers_decode buf \<noteq> Panic"
proof -
  assume ok: "huffman_input_ok buf"
  have "huffman_input_ok rest" if "decode_prefix buf 8 = Ok (p, b1)" "decode_prefix b1 7 = Ok (q, rest)"
    for p q b1 rest
    using decode_prefix_shorter [OF that(1)] decode_prefix_shorter [OF that(2)]
    by (intro huffman_input_ok_mono [OF ok]) simp
  then show ?thesis
    by (auto simp: Headers_decode_def and_then_Panic_iff decode_prefix_no_panic Headers_decode_loop_no_panic)
qed

lemma Headers_decode_safe:
  "Headers_decode buf = Ok m \<Longrightarrow> hash_map_ok m \<and> (\<forall>f \<in> set m. field_safe f)"
  by (auto simp: Headers_decode_def split: if_splits dest!: Headers_decode_loop_safe)

lemma field_safe_bytes:
  assumes "field_safe (n, v)"
  shows "n \<noteq> [] \<and> (\<forall>b \<in> set n. \<not> (0x41 \<le> b \<and> b \<le> 0x5A) \<and> b > 0x20) \<and> (\<forall>b \<in> set v. 0x20 \<le> b \<or> b = 0x09) \<and>
    0x7F \<notin> set v \<and> n \<notin> {str ''connection'', str ''keep-alive'', str ''transfer-encoding'', str ''upgrade''}"
proof -
  have ok: "validate_field n v = Ok ()" using assms by (simp add: field_safe_def)
  then have v: "\<not> list_ex forbidden_value_byte v"
    and n: "list_all is_lowercase_field_name_byte (if starts_with_colon n then tl n else n)" "n \<noteq> []"
    and c: "n \<notin> {str ''connection'', str ''proxy-connection'', str ''keep-alive'', str ''transfer-encoding'', str ''upgrade''}"
    by (auto simp: validate_field_def Let_def starts_with_colon_def split: if_splits)
  have low: "\<not> (0x41 \<le> b \<and> b \<le> 0x5A) \<and> b > 0x20" if "is_lowercase_field_name_byte b" for b
    using that unfolding is_lowercase_field_name_byte_def word_le_nat_alt word_less_nat_alt by fastforce
  have "\<not> (0x41 \<le> b \<and> b \<le> 0x5A) \<and> b > 0x20" if "b \<in> set n" for b
  proof (cases "starts_with_colon n \<and> b \<notin> set (tl n)")
    case True
    then have "b = 0x3A" using that by (cases n) (auto simp: starts_with_colon_def)
    then show ?thesis by simp
  next
    case False
    then have "is_lowercase_field_name_byte b" using n(1) that by (auto simp: list_all_iff split: if_splits)
    then show ?thesis by (rule low)
  qed
  moreover have "(\<forall>b \<in> set v. 0x20 \<le> b \<or> b = 0x09) \<and> 0x7F \<notin> set v"
    using v by (auto simp: list_ex_iff forbidden_value_byte_def not_less)
  ultimately show ?thesis using n(2) c by blast
qed

subsection \<open>Properties\<close>

text \<open>
  C32. A valid header map, written in whatever order the hash map yields, is encoded without
  panicking, pseudo-headers first, and decoded back to a map with the same fields.
\<close>

theorem headers_roundtrip:
  assumes "hash_order ho" and "headers_valid h"
  shows "\<exists>bs m. Headers_encode ho h buf = Ok (buf @ bs) \<and> Headers_decode bs = Ok m \<and> map_of m = map_of h"
  by (rule Headers_roundtrip [OF assms]) blast

lemma str_ascii: "list_all (\<lambda>b. b < 0x80) s \<Longrightarrow> utf8_valid s"
  by (simp add: utf8_valid_ascii list_all_iff)

lemma example_headers_valid:
  "headers_valid [(str ''x-a'', str ''1''), (str '':status'', str ''200'')]"
  by (simp add: headers_valid_def hash_map_ok_def field_ok_def str_ascii str_def validate_field_def
      starts_with_colon_def is_lowercase_field_name_byte_def forbidden_value_byte_def)

theorem headers_roundtrip_witness:
  "hash_order (rev :: Headers \<Rightarrow> Headers) \<and>
   headers_valid [(str ''x-a'', str ''1''), (str '':status'', str ''200'')] \<and>
   (\<exists>bs m. Headers_encode rev [(str ''x-a'', str ''1''), (str '':status'', str ''200'')] [] =
        (Ok ([] @ bs) :: (bytes, unit) res) \<and> Headers_decode bs = Ok m \<and>
      map_of m = map_of [(str ''x-a'', str ''1''), (str '':status'', str ''200'')])"
  using hash_order_rev example_headers_valid headers_roundtrip [OF hash_order_rev example_headers_valid]
  by blast

text \<open>
  C25. Over every list of fields in a header block, the decoder accepts exactly the sequences in
  which each field is valid, no pseudo-header repeats and none follows a regular field; it then
  returns the last value of each field.
\<close>

theorem headers_decode_exact:
  assumes "\<forall>f \<in> set xs. field_ok f"
  shows "Headers_decode (block_wire xs) = Ok m \<longleftrightarrow> well_formed_sequence xs \<and> m = last_values xs"
  using Headers_decode_wire [OF assms] headers_collect_exact by simp

theorem headers_decode_exact_witness:
  "field_ok (str ''x-a'', str ''1'') \<and>
   Headers_decode (block_wire [(str ''x-a'', str ''1''), (str '':path'', str ''/'')]) \<noteq> Ok [(str ''x-a'', str ''1'')]"
proof -
  have ok: "\<forall>f \<in> set [(str ''x-a'', str ''1''), (str '':path'', str ''/'')]. field_ok f"
    by (simp add: field_ok_def str_ascii str_def)
  have "\<not> well_formed_sequence [(str ''x-a'', str ''1''), (str '':path'', str ''/'')]"
    by (simp add: well_formed_sequence_def pseudo_def starts_with_colon_def str_def)
  then show ?thesis
    using ok headers_decode_exact [OF ok, of "[(str ''x-a'', str ''1'')]"] by simp
qed

text \<open>
  Header decoding is safe on arbitrary bytes: it does not panic, and a decoded map has
  distinct, valid UTF-8 fields without uppercase letters, spaces or control characters in names,
  without line breaks or other control characters in values, and without connection-specific
  fields.
\<close>

theorem headers_decode_safe:
  assumes "huffman_input_ok buf"
  shows "Headers_decode buf \<noteq> Panic \<and>
    (\<forall>m. Headers_decode buf = Ok m \<longrightarrow> hash_map_ok m \<and> (\<forall>(n, v) \<in> set m. utf8_valid n \<and> utf8_valid v \<and>
       n \<noteq> [] \<and> (\<forall>b \<in> set n. \<not> (0x41 \<le> b \<and> b \<le> 0x5A) \<and> b > 0x20) \<and> (\<forall>b \<in> set v. 0x20 \<le> b \<or> b = 0x09) \<and>
       0x7F \<notin> set v \<and> n \<notin> {str ''connection'', str ''keep-alive'', str ''transfer-encoding'', str ''upgrade''}))"
proof (intro conjI allI impI)
  show "Headers_decode buf \<noteq> Panic" using assms by (rule Headers_decode_no_panic)
next
  fix m assume m: "Headers_decode buf = Ok m"
  then show "hash_map_ok m" using Headers_decode_safe by blast
  have "field_safe (n, v)" if "(n, v) \<in> set m" for n v
    using Headers_decode_safe [OF m] that by blast
  then show "\<forall>(n, v) \<in> set m. utf8_valid n \<and> utf8_valid v \<and>
       n \<noteq> [] \<and> (\<forall>b \<in> set n. \<not> (0x41 \<le> b \<and> b \<le> 0x5A) \<and> b > 0x20) \<and> (\<forall>b \<in> set v. 0x20 \<le> b \<or> b = 0x09) \<and>
       0x7F \<notin> set v \<and> n \<notin> {str ''connection'', str ''keep-alive'', str ''transfer-encoding'', str ''upgrade''}"
    using field_safe_bytes by (fastforce simp: field_safe_def)
qed

theorem headers_decode_safe_witness:
  "huffman_input_ok [0, 0, 0xD9] \<and> Headers_decode [0, 0, 0xD9] = Ok [(str '':status'', str ''200'')] \<and>
   Headers_decode [0, 0, 0xD9] \<noteq> Panic"
proof -
  have ok: "huffman_input_ok [0, 0, 0xD9]" by (simp add: huffman_input_ok_def)
  have "Headers_decode [0, 0, 0xD9] = Ok [(str '':status'', str ''200'')]"
    by (simp add: Headers_decode_def decode_prefix_Cons Headers_decode_loop.simps decode_field_def
        decode_index_def static_entry_def StaticTable_get_def PREDEFINED_HEADERS_def validate_field_def
        starts_with_colon_def str_def is_lowercase_field_name_byte_def forbidden_value_byte_def)
  then show ?thesis using ok headers_decode_safe [OF ok] by simp
qed

end
