(* ===== verification/Connect.thy ===== *)
theory Connect
  imports Frame_Reader Qpack
begin

section \<open>The CONNECT exchange\<close>

text \<open>
  \<^verbatim>\<open>webtrans-proto/src/connect.rs\<close>: the extended CONNECT request and its response as HEADERS frames,
  with decoders, asynchronous readers, encoders and writers. The crates \<^verbatim>\<open>url\<close> and \<^verbatim>\<open>http\<close> are not
  part of the repository: their functions are the fields of \<open>url_api\<close> and \<open>http_api\<close>, and what
  the code relies on in them is stated by \<open>url_laws\<close> and \<open>http_laws\<close>. The lemmas give the round
  trips, what an accepted request guarantees, and the agreement of readers and decoders.
\<close>

subsection \<open>The libraries\<close>

record ('url, 'perr) url_api =
  Url_parse :: "bytes \<Rightarrow> ('url, 'perr) res"
  Url_scheme :: "'url \<Rightarrow> bytes"
  Url_authority :: "'url \<Rightarrow> bytes"
  Url_username :: "'url \<Rightarrow> bytes"
  Url_password :: "'url \<Rightarrow> bytes option"
  Url_path :: "'url \<Rightarrow> bytes"
  Url_query :: "'url \<Rightarrow> bytes option"
  Url_fragment :: "'url \<Rightarrow> bytes option"

record ('method, 'status) http_api =
  Method_try_from :: "bytes \<Rightarrow> 'method option"
  Method_CONNECT :: 'method
  StatusCode_from_str :: "bytes \<Rightarrow> 'status option"
  StatusCode_as_str :: "'status \<Rightarrow> bytes"

subsection \<open>Definitions\<close>

definition MAX_CONNECT_FRAME_SIZE :: nat where "MAX_CONNECT_FRAME_SIZE = 64 * 1024"

definition WEBTRANSPORT_PROTOCOL :: bytes where "WEBTRANSPORT_PROTOCOL = str ''webtransport-h3''"

definition LEGACY_WEBTRANSPORT_PROTOCOL :: bytes where
  "LEGACY_WEBTRANSPORT_PROTOCOL = str ''webtransport''"

datatype ('perr, 'method, 'status) ConnectError = ConnectError_UnexpectedEnd
  | ConnectError_QpackError DecodeError
  | ConnectError_UnexpectedFrame Frame
  | ConnectError_InvalidMethod
  | ConnectError_InvalidUrl 'perr
  | ConnectError_InvalidAuthority
  | ConnectError_InvalidFragment
  | ConnectError_InvalidStatus
  | ConnectError_MessageTooLong
  | ConnectError_WrongStatus "'status option"
  | ConnectError_WrongMethod "'method option"
  | ConnectError_WrongScheme "bytes option"
  | ConnectError_WrongAuthority
  | ConnectError_WrongProtocol "bytes option"
  | ConnectError_WrongPath
  | ConnectError_ErrorStatus 'status
  | ConnectError_Io io_error

record 'url ConnectRequest =
  request_url :: 'url

record 'status ConnectResponse =
  response_status :: 'status

text \<open>The part of \<^verbatim>\<open>decode\<close> behind the header block: the checks on the headers and on the URL.\<close>

definition ConnectRequest_from_headers ::
    "('url, 'p) url_api \<Rightarrow> ('m, 's) http_api \<Rightarrow> (Headers \<Rightarrow> Headers) \<Rightarrow> Headers \<Rightarrow>
     ('url ConnectRequest, ('p, 'm, 's) ConnectError) res" where
  "ConnectRequest_from_headers U H ho headers =
     and_then (map_err ConnectError_QpackError (validate_pseudo_headers ho headers
       [str '':method'', str '':scheme'', str '':authority'', str '':path'', str '':protocol''])) (\<lambda>_.
     and_then (case Headers_get headers (str '':scheme'') of
         Some scheme \<Rightarrow> if scheme = str ''https'' then Ok scheme
           else Err (ConnectError_WrongScheme (Some scheme))
       | None \<Rightarrow> Err (ConnectError_WrongScheme None)) (\<lambda>scheme.
     and_then (ok_or ConnectError_WrongAuthority (Headers_get headers (str '':authority''))) (\<lambda>authority.
     and_then (ok_or ConnectError_WrongPath (Headers_get headers (str '':path''))) (\<lambda>path_and_query.
     and_then (case Headers_get headers (str '':method'') of
         None \<Rightarrow> Ok None
       | Some m \<Rightarrow> map_ok Some (ok_or ConnectError_InvalidMethod (Method_try_from H m))) (\<lambda>m.
       if m \<noteq> Some (Method_CONNECT H) then Err (ConnectError_WrongMethod m)
       else
         let protocol = Headers_get headers (str '':protocol'') in
         if protocol \<notin> {Some WEBTRANSPORT_PROTOCOL, Some LEGACY_WEBTRANSPORT_PROTOCOL}
           then Err (ConnectError_WrongProtocol protocol)
         else
           and_then (map_err ConnectError_InvalidUrl
             (Url_parse U (scheme @ str ''://'' @ authority @ path_and_query))) (\<lambda>url.
             if Url_username U url \<noteq> [] \<or> Url_password U url \<noteq> None
               then Err ConnectError_InvalidAuthority
             else if Url_fragment U url \<noteq> None then Err ConnectError_InvalidFragment
             else Ok \<lparr>request_url = url\<rparr>))))))"

definition ConnectRequest_decode ::
    "('url, 'p) url_api \<Rightarrow> ('m, 's) http_api \<Rightarrow> (Headers \<Rightarrow> Headers) \<Rightarrow> bytes \<Rightarrow>
     ('url ConnectRequest \<times> bytes, ('p, 'm, 's) ConnectError) res" where
  "ConnectRequest_decode U H ho buf =
     and_then (map_err (\<lambda>_. ConnectError_UnexpectedEnd) (Frame_read buf)) (\<lambda>(typ, data, buf).
     if typ \<noteq> Frame_HEADERS then Err (ConnectError_UnexpectedFrame typ)
     else and_then (map_err ConnectError_QpackError (Headers_decode data)) (\<lambda>headers.
          and_then (ConnectRequest_from_headers U H ho headers) (\<lambda>req. Ok (req, buf))))"

definition Connect_read_frame :: "nat \<Rightarrow> 'st reader \<Rightarrow> 'st \<Rightarrow>
    (bytes \<times> 'st, ('p, 'm, 's) ConnectError) res option" where
  "Connect_read_frame fuel rd s =
     map_option (\<lambda>r. and_then r (\<lambda>((typ, payload), s).
       and_then (VarInt_size (frame_type typ)) (\<lambda>_.
       and_then (Frame_encode typ []) (\<lambda>frame.
       and_then (map_err (\<lambda>_. ConnectError_MessageTooLong) (VarInt_try_from_usize (length payload))) (\<lambda>len.
       and_then (VarInt_encode len frame) (\<lambda>frame. Ok (frame @ payload, s)))))))
       (read_frame_loop fuel (read_tlv ConnectError_UnexpectedEnd ConnectError_MessageTooLong
          ConnectError_Io MAX_CONNECT_FRAME_SIZE rd) s)"

definition ConnectRequest_read ::
    "('url, 'p) url_api \<Rightarrow> ('m, 's) http_api \<Rightarrow> (Headers \<Rightarrow> Headers) \<Rightarrow> nat \<Rightarrow> 'st reader \<Rightarrow> 'st \<Rightarrow>
     ('url ConnectRequest \<times> 'st, ('p, 'm, 's) ConnectError) res option" where
  "ConnectRequest_read U H ho fuel rd s =
     map_option (\<lambda>r. and_then r (\<lambda>(frame, s).
       and_then (ConnectRequest_decode U H ho frame) (\<lambda>(req, _). Ok (req, s))))
       (Connect_read_frame fuel rd s)"

text \<open>\<open>ho\<close> is the iteration order of the header map, \<^verbatim>\<open>as u32\<close> keeps the low 32 bits.\<close>

definition encode_headers_frame :: "(Headers \<Rightarrow> Headers) \<Rightarrow> bytes \<Rightarrow> Headers \<Rightarrow> (bytes, 'e) res" where
  "encode_headers_frame ho buf headers =
     and_then (Headers_encode ho headers []) (\<lambda>payload.
     and_then (Frame_encode Frame_HEADERS buf) (\<lambda>buf.
     and_then (VarInt_encode (VarInt_from_u32 (of_nat (length payload))) buf) (\<lambda>buf.
       Ok (buf @ payload))))"

definition request_headers :: "('url, 'p) url_api \<Rightarrow> 'url ConnectRequest \<Rightarrow> Headers" where
  "request_headers U req =
     (let url = request_url req;
          headers = Headers_set (str '':method'') (str ''CONNECT'') [];
          headers = Headers_set (str '':scheme'') (Url_scheme U url) headers;
          headers = Headers_set (str '':authority'') (Url_authority U url) headers;
          path_and_query = (case Url_query U url of
              Some query \<Rightarrow> Url_path U url @ str ''?'' @ query
            | None \<Rightarrow> Url_path U url);
          headers = Headers_set (str '':path'') path_and_query headers
      in Headers_set (str '':protocol'') WEBTRANSPORT_PROTOCOL headers)"

definition ConnectRequest_encode ::
    "('url, 'p) url_api \<Rightarrow> (Headers \<Rightarrow> Headers) \<Rightarrow> 'url ConnectRequest \<Rightarrow> bytes \<Rightarrow> (bytes, 'e) res" where
  "ConnectRequest_encode U ho req buf = encode_headers_frame ho buf (request_headers U req)"

definition ConnectRequest_write :: "('url, 'p) url_api \<Rightarrow> (Headers \<Rightarrow> Headers) \<Rightarrow>
    (bytes \<Rightarrow> 'st \<Rightarrow> ('st, io_error) res) \<Rightarrow> 'url ConnectRequest \<Rightarrow> 'st \<Rightarrow> ('st, ('p, 'm, 's) ConnectError) res" where
  "ConnectRequest_write U ho wr req s =
     and_then (ConnectRequest_encode U ho req []) (\<lambda>buf. map_err ConnectError_Io (wr buf s))"

definition ConnectResponse_from_headers ::
    "('m, 's) http_api \<Rightarrow> (Headers \<Rightarrow> Headers) \<Rightarrow> Headers \<Rightarrow>
     ('s ConnectResponse, ('p, 'm, 's) ConnectError) res" where
  "ConnectResponse_from_headers H ho headers =
     and_then (map_err ConnectError_QpackError (validate_pseudo_headers ho headers [str '':status''])) (\<lambda>_.
     and_then (ok_or (ConnectError_WrongStatus None) (Headers_get headers (str '':status''))) (\<lambda>status.
     and_then (ok_or ConnectError_InvalidStatus (StatusCode_from_str H status)) (\<lambda>status.
       Ok \<lparr>response_status = status\<rparr>)))"

definition ConnectResponse_decode ::
    "('m, 's) http_api \<Rightarrow> (Headers \<Rightarrow> Headers) \<Rightarrow> bytes \<Rightarrow>
     ('s ConnectResponse \<times> bytes, ('p, 'm, 's) ConnectError) res" where
  "ConnectResponse_decode H ho buf =
     and_then (map_err (\<lambda>_. ConnectError_UnexpectedEnd) (Frame_read buf)) (\<lambda>(typ, data, buf).
     if typ \<noteq> Frame_HEADERS then Err (ConnectError_UnexpectedFrame typ)
     else and_then (map_err ConnectError_QpackError (Headers_decode data)) (\<lambda>headers.
          and_then (ConnectResponse_from_headers H ho headers) (\<lambda>resp. Ok (resp, buf))))"

definition ConnectResponse_read ::
    "('m, 's) http_api \<Rightarrow> (Headers \<Rightarrow> Headers) \<Rightarrow> nat \<Rightarrow> 'st reader \<Rightarrow> 'st \<Rightarrow>
     ('s ConnectResponse \<times> 'st, ('p, 'm, 's) ConnectError) res option" where
  "ConnectResponse_read H ho fuel rd s =
     map_option (\<lambda>r. and_then r (\<lambda>(frame, s).
       and_then (ConnectResponse_decode H ho frame) (\<lambda>(resp, _). Ok (resp, s))))
       (Connect_read_frame fuel rd s)"

definition response_headers :: "('m, 's) http_api \<Rightarrow> 's ConnectResponse \<Rightarrow> Headers" where
  "response_headers H resp =
     Headers_set (str ''sec-webtransport-http3-draft'') (str ''draft02'')
       (Headers_set (str '':status'') (StatusCode_as_str H (response_status resp)) [])"

definition ConnectResponse_encode ::
    "('m, 's) http_api \<Rightarrow> (Headers \<Rightarrow> Headers) \<Rightarrow> 's ConnectResponse \<Rightarrow> bytes \<Rightarrow> (bytes, 'e) res" where
  "ConnectResponse_encode H ho resp buf = encode_headers_frame ho buf (response_headers H resp)"

definition ConnectResponse_write :: "('m, 's) http_api \<Rightarrow> (Headers \<Rightarrow> Headers) \<Rightarrow>
    (bytes \<Rightarrow> 'st \<Rightarrow> ('st, io_error) res) \<Rightarrow> 's ConnectResponse \<Rightarrow> 'st \<Rightarrow> ('st, ('p, 'm, 's) ConnectError) res" where
  "ConnectResponse_write H ho wr resp s =
     and_then (ConnectResponse_encode H ho resp []) (\<lambda>buf. map_err ConnectError_Io (wr buf s))"

subsection \<open>What the code relies on in the libraries\<close>

text \<open>
  A URL's parts are printable ASCII, and an \<^verbatim>\<open>https\<close> URL without user information and fragment is
  the result of parsing its own serialization.
\<close>

definition path_and_query :: "('url, 'p) url_api \<Rightarrow> 'url \<Rightarrow> bytes" where
  "path_and_query U url = (case Url_query U url of
      Some query \<Rightarrow> Url_path U url @ str ''?'' @ query | None \<Rightarrow> Url_path U url)"

definition printable :: "bytes \<Rightarrow> bool" where
  "printable s \<longleftrightarrow> list_all (\<lambda>b. 0x20 \<le> b \<and> b < 0x7F) s"

definition webtransport_url :: "('url, 'p) url_api \<Rightarrow> 'url \<Rightarrow> bool" where
  "webtransport_url U url \<longleftrightarrow> Url_scheme U url = str ''https'' \<and> Url_username U url = [] \<and>
     Url_password U url = None \<and> Url_fragment U url = None"

definition url_laws :: "('url, 'p) url_api \<Rightarrow> bool" where
  "url_laws U \<longleftrightarrow> (\<forall>s. Url_parse U s \<noteq> Panic) \<and> (\<forall>url. printable (Url_scheme U url) \<and> printable (Url_authority U url) \<and>
     printable (path_and_query U url) \<and>
     (webtransport_url U url \<longrightarrow>
        Url_parse U (Url_scheme U url @ str ''://'' @ Url_authority U url @ path_and_query U url) = Ok url))"

text \<open>A status code is written as three digits, which parse back; \<^verbatim>\<open>CONNECT\<close> is a method name.\<close>

definition http_laws :: "('m, 's) http_api \<Rightarrow> bool" where
  "http_laws H \<longleftrightarrow> Method_try_from H (str ''CONNECT'') = Some (Method_CONNECT H) \<and>
     (\<forall>s. StatusCode_from_str H (StatusCode_as_str H s) = Some s \<and> length (StatusCode_as_str H s) = 3 \<and>
        list_all (\<lambda>b. 0x30 \<le> b \<and> b \<le> 0x39) (StatusCode_as_str H s))"

lemma printable_value:
  assumes "printable s"
  shows "utf8_valid s" and "\<not> list_ex forbidden_value_byte s"
proof -
  show "utf8_valid s"
    using assms by (intro str_ascii) (auto simp: printable_def list_all_iff word_less_nat_alt)
  show "\<not> list_ex forbidden_value_byte s"
    using assms by (fastforce simp: printable_def list_all_iff list_ex_iff forbidden_value_byte_def
        word_less_nat_alt word_le_nat_alt)
qed

lemma printable_digits: "list_all (\<lambda>b. 0x30 \<le> b \<and> b \<le> 0x39) s \<Longrightarrow> printable s"
  by (auto simp: printable_def list_all_iff word_less_nat_alt word_le_nat_alt)

subsection \<open>Sizes of header blocks\<close>

lemma length_prefix_wire: "n < 2 ^ 64 \<Longrightarrow> length (prefix_wire sz flags n) \<le> 11"
proof -
  assume "n < 2 ^ 64"
  then have "n - (2 ^ sz - 1) < 2 ^ 64" by (rule le_less_trans [OF diff_le_self])
  then have "length (continuation (n - (2 ^ sz - 1))) \<le> 10"
    using continuation_shift [of "n - (2 ^ sz - 1)"] by linarith
  then show ?thesis by (simp add: prefix_wire_def)
qed

lemma length_field_wire:
  assumes "field_ok f"
  shows "length (field_wire f) \<le> length (fst f) + length (snd f) + 22"
proof -
  have v: "length (prefix_wire 7 0 (length (snd f))) \<le> 11" and n: "length (prefix_wire 3 4 (length (fst f))) \<le> 11"
    using assms by (intro length_prefix_wire; simp add: field_ok_def)+
  have i: "length (prefix_wire 4 5 i) \<le> 11" "length (prefix_wire 6 3 i) \<le> 11" if "i < 99" for i
    using that by (intro length_prefix_wire; simp)+
  show ?thesis
    using v n i StaticTable_lookup_found [of "fst f" "snd f"]
    by (fastforce simp: field_wire_def literal_wire_def Let_def split: option.split)
qed

definition headers_size :: "Headers \<Rightarrow> nat" where
  "headers_size h = sum_list (map (\<lambda>f. length (fst f) + length (snd f) + 22) h)"

lemma length_block_wire:
  "\<forall>f \<in> set h. field_ok f \<Longrightarrow> length (block_wire h) \<le> headers_size h + 22"
proof -
  assume "\<forall>f \<in> set h. field_ok f"
  then have "length (concat (map field_wire h)) \<le> headers_size h"
    by (induction h) (auto simp: headers_size_def dest!: length_field_wire)
  moreover have "length (prefix_wire 8 0 0) \<le> 11" "length (prefix_wire 7 0 0) \<le> 11"
    by (simp_all add: length_prefix_wire)
  ultimately show ?thesis by (simp add: block_wire_def)
qed

lemma headers_size_mset: "mset xs = mset h \<Longrightarrow> headers_size xs = headers_size h"
  by (simp only: headers_size_def sum_mset_sum_list [symmetric] mset_map)

subsection \<open>HEADERS frames\<close>

lemma encode_headers_frame_wire:
  assumes "hash_order ho" and "headers_valid h" and "headers_size h + 22 < 2 ^ 32"
  obtains xs where "\<And>buf. encode_headers_frame ho buf h = Ok (buf @ frame_wire (Frame_HEADERS, block_wire xs))"
    and "Headers_decode (block_wire xs) = Ok xs" and "map_of xs = map_of h" and "mset xs = mset h"
    and "frame_ok (Frame_HEADERS, block_wire xs)" and "length (block_wire xs) \<le> headers_size h + 22"
proof -
  obtain xs where xs: "\<And>buf. Headers_encode ho h buf = (Ok (buf @ block_wire xs) :: (bytes, 'e) res)"
      "Headers_decode (block_wire xs) = Ok xs" "map_of xs = map_of h" "mset xs = mset h"
    using Headers_roundtrip [OF assms(1,2)] by blast
  have "\<forall>f \<in> set xs. field_ok f"
    using assms(2) xs(4) by (metis headers_valid_def set_mset_mset)
  then have size: "length (block_wire xs) \<le> headers_size h + 22"
    using length_block_wire [of xs] headers_size_mset [OF xs(4)] by simp
  then have len: "length (block_wire xs) < 2 ^ 32" using assms(3) by simp
  then have l: "VarInt_from_u32 (of_nat (length (block_wire xs))) = VarInt (of_nat (length (block_wire xs)))"
    by (simp add: VarInt_from_u32_def ucast_of_nat32)
  have "length (block_wire xs) < 2 ^ 62" using len by simp
  then have ok: "frame_ok (Frame_HEADERS, block_wire xs)" "varint_ok (VarInt (of_nat (length (block_wire xs))))"
    by (simp_all add: frame_ok_def VarInt_try_from_usize_ok)
  have "encode_headers_frame ho buf h = Ok (buf @ frame_wire (Frame_HEADERS, block_wire xs))" for buf
    using xs(1) [of "[]"] ok(2)
    by (simp add: encode_headers_frame_def Headers_encode_wire frame_type.enc_wire varint.enc_wire l frame_wire_def)
  then show thesis using that xs(2-4) ok(1) size by blast
qed

lemma validate_pseudo_headers_Ok_iff:
  assumes "hash_order ho"
  shows "validate_pseudo_headers ho h allowed = Ok () \<longleftrightarrow>
    (\<forall>name \<in> fst ` set h. starts_with_colon name \<longrightarrow> name \<in> set allowed)"
proof -
  let ?P = "\<lambda>name. starts_with_colon name \<and> name \<notin> set allowed"
  have "validate_pseudo_headers ho h allowed = Ok () \<longleftrightarrow> find ?P (map fst (ho h)) = None"
    by (simp add: validate_pseudo_headers_def split: option.split)
  also have "\<dots> \<longleftrightarrow> (\<forall>name \<in> fst ` set (ho h). \<not> ?P name)"
    by (auto simp: find_None_iff)
  finally show ?thesis unfolding hash_order_set [OF assms] by blast
qed

lemma map_of_same_keys: "map_of xs = map_of h \<Longrightarrow> fst ` set xs = fst ` set h"
  by (metis dom_map_of_conv_image_fst)

subsection \<open>Requests\<close>

lemmas request_names = str_def starts_with_colon_def is_lowercase_field_name_byte_def

lemma request_headers_eq:
  "request_headers U req =
    [(str '':method'', str ''CONNECT''), (str '':scheme'', Url_scheme U (request_url req)),
     (str '':authority'', Url_authority U (request_url req)),
     (str '':path'', path_and_query U (request_url req)), (str '':protocol'', WEBTRANSPORT_PROTOCOL)]"
  by (simp add: request_headers_def path_and_query_def Headers_set_def str_def Let_def)

lemma pseudo_field_valid:
  assumes "n \<in> {str '':method'', str '':scheme'', str '':authority'', str '':path'', str '':protocol'', str '':status'',
      str ''sec-webtransport-http3-draft''}" and "printable v"
  shows "validate_field n v = Ok ()" and "utf8_valid n" and "length n < 30"
proof -
  show "validate_field n v = Ok ()"
    using assms(1) printable_value(2) [OF assms(2)]
    by (elim insertE emptyE) (simp_all add: validate_field_def request_names)
  show "utf8_valid n"
    by (rule str_ascii) (use assms(1) in \<open>elim insertE emptyE; simp add: str_def\<close>)
  show "length n < 30" using assms(1) by (elim insertE emptyE) (simp_all add: str_def)
qed

text \<open>The sizes for which the length of the header block fits the 32 bits it is cast to.\<close>

definition url_length :: "('url, 'p) url_api \<Rightarrow> 'url \<Rightarrow> nat" where
  "url_length U url =
     length (Url_scheme U url) + length (Url_authority U url) + length (path_and_query U url)"

definition url_fits :: "('url, 'p) url_api \<Rightarrow> 'url \<Rightarrow> bool" where
  "url_fits U url \<longleftrightarrow> url_length U url < 2 ^ 31"

lemma request_headers_valid:
  assumes "url_laws U" and "url_fits U (request_url req)"
  shows "headers_valid (request_headers U req)" and "headers_size (request_headers U req) + 22 < 2 ^ 32"
    and "headers_size (request_headers U req) + 22 \<le> url_length U (request_url req) + 192"
proof -
  let ?url = "request_url req"
  have p: "printable (Url_scheme U ?url)" "printable (Url_authority U ?url)" "printable (path_and_query U ?url)"
    using assms(1) by (simp_all add: url_laws_def)
  have lits: "printable (str ''CONNECT'')" "printable WEBTRANSPORT_PROTOCOL"
    by (simp_all add: printable_def str_def WEBTRANSPORT_PROTOCOL_def)
  have lens: "length (str ''CONNECT'') = 7" "length WEBTRANSPORT_PROTOCOL = 15"
    by (simp_all add: str_def WEBTRANSPORT_PROTOCOL_def)
  have names: "distinct [str '':method'', str '':scheme'', str '':authority'', str '':path'', str '':protocol'']"
    by (simp add: str_def)
  have f: "validate_field n v = Ok () \<and> field_ok (n, v)"
    if "n \<in> {str '':method'', str '':scheme'', str '':authority'', str '':path'', str '':protocol''}"
      "printable v" "length v < 2 ^ 31" for n v
    using pseudo_field_valid [of n v] printable_value(1) [OF that(2)] that by (auto simp: field_ok_def)
  have l: "length (Url_scheme U ?url) < 2 ^ 31" "length (Url_authority U ?url) < 2 ^ 31"
      "length (path_and_query U ?url) < 2 ^ 31"
    using assms(2) unfolding url_fits_def url_length_def by linarith+
  show "headers_valid (request_headers U req)"
    using names f p lits l lens by (simp add: headers_valid_def request_headers_eq hash_map_ok_def)
  show "headers_size (request_headers U req) + 22 \<le> url_length U (request_url req) + 192"
    using lens by (simp add: headers_size_def request_headers_eq url_length_def str_def)
  then show "headers_size (request_headers U req) + 22 < 2 ^ 32"
    using assms(2) by (simp add: url_fits_def)
qed

lemma scheme_check_Ok_iff:
  "(case opt of None \<Rightarrow> Err e | Some x \<Rightarrow> if x = k then Ok x else Err (f x)) = Ok y \<longleftrightarrow> opt = Some k \<and> y = k"
  by (auto split: option.split)

lemma method_check_Ok_iff:
  "(case opt of None \<Rightarrow> Ok None | Some x \<Rightarrow> map_ok Some (ok_or e (f x))) = Ok y \<longleftrightarrow>
    (opt = None \<and> y = None) \<or> (\<exists>x z. opt = Some x \<and> f x = Some z \<and> y = Some z)"
  by (auto split: option.split)

lemma request_checks_Ok_iff:
  "(if m \<noteq> Some c then Err e1 else let protocol = p in if protocol \<notin> ps then Err (e2 protocol)
     else and_then x (\<lambda>url. if g url then Err e3 else if k url then Err e4 else Ok \<lparr>request_url = url\<rparr>)) = Ok req \<longleftrightarrow>
   m = Some c \<and> p \<in> ps \<and> x = Ok (request_url req) \<and> \<not> g (request_url req) \<and> \<not> k (request_url req)"
  by (cases req) auto

lemma ConnectRequest_from_headers_Ok_iff:
  assumes "hash_order ho"
  shows "ConnectRequest_from_headers U H ho headers = Ok req \<longleftrightarrow>
    (\<forall>name \<in> fst ` set headers. starts_with_colon name \<longrightarrow>
       name \<in> {str '':method'', str '':scheme'', str '':authority'', str '':path'', str '':protocol''}) \<and>
    map_of headers (str '':scheme'') = Some (str ''https'') \<and>
    (\<exists>m. map_of headers (str '':method'') = Some m \<and> Method_try_from H m = Some (Method_CONNECT H)) \<and>
    map_of headers (str '':protocol'') \<in> {Some WEBTRANSPORT_PROTOCOL, Some LEGACY_WEBTRANSPORT_PROTOCOL} \<and>
    (\<exists>authority path. map_of headers (str '':authority'') = Some authority \<and>
       map_of headers (str '':path'') = Some path \<and>
       Url_parse U (str ''https'' @ str ''://'' @ authority @ path) = Ok (request_url req)) \<and>
    Url_username U (request_url req) = [] \<and> Url_password U (request_url req) = None \<and>
    Url_fragment U (request_url req) = None"
proof -
  have "validate_pseudo_headers ho headers
      [str '':method'', str '':scheme'', str '':authority'', str '':path'', str '':protocol''] = Ok () \<longleftrightarrow>
    (\<forall>name \<in> fst ` set headers. starts_with_colon name \<longrightarrow>
       name \<in> {str '':method'', str '':scheme'', str '':authority'', str '':path'', str '':protocol''})"
    by (simp add: validate_pseudo_headers_Ok_iff [OF assms])
  then show ?thesis
    unfolding ConnectRequest_from_headers_def Headers_get_def and_then_Ok_iff map_err_Ok_iff ok_or_Ok_iff
      scheme_check_Ok_iff method_check_Ok_iff request_checks_Ok_iff
    by simp blast
qed

lemma request_lookup:
  "map_of (request_headers U req) (str '':method'') = Some (str ''CONNECT'')"
  "map_of (request_headers U req) (str '':scheme'') = Some (Url_scheme U (request_url req))"
  "map_of (request_headers U req) (str '':authority'') = Some (Url_authority U (request_url req))"
  "map_of (request_headers U req) (str '':path'') = Some (path_and_query U (request_url req))"
  "map_of (request_headers U req) (str '':protocol'') = Some WEBTRANSPORT_PROTOCOL"
  by (simp_all add: request_headers_eq str_def)

lemma ConnectRequest_decode_Ok_iff:
  "ConnectRequest_decode U H ho buf = Ok (req, rest) \<longleftrightarrow>
    (\<exists>data headers. Frame_read buf = Ok (Frame_HEADERS, data, rest) \<and> Headers_decode data = Ok headers \<and>
      ConnectRequest_from_headers U H ho headers = Ok req)"
  by (auto simp: ConnectRequest_decode_def split: if_splits)

lemma ConnectRequest_roundtrip:
  assumes "hash_order ho" and "hash_order ho'" and "url_laws U" and "http_laws H"
    and "webtransport_url U (request_url req)" and "url_fits U (request_url req)"
  obtains payload where "frame_ok (Frame_HEADERS, payload)"
    and "\<And>buf. ConnectRequest_encode U ho req buf = (Ok (buf @ frame_wire (Frame_HEADERS, payload)) :: (_, 'e) res)"
    and "\<And>rest. ConnectRequest_decode U H ho' (frame_wire (Frame_HEADERS, payload) @ rest) = Ok (req, rest)"
    and "length payload \<le> url_length U (request_url req) + 192"
proof -
  obtain xs where enc: "\<And>buf. encode_headers_frame ho buf (request_headers U req) =
        (Ok (buf @ frame_wire (Frame_HEADERS, block_wire xs)) :: (bytes, 'e) res)"
      and dec: "Headers_decode (block_wire xs) = Ok xs" and same: "map_of xs = map_of (request_headers U req)"
      and ok: "frame_ok (Frame_HEADERS, block_wire xs)"
      and size: "length (block_wire xs) \<le> headers_size (request_headers U req) + 22"
    by (rule encode_headers_frame_wire [OF assms(1) request_headers_valid(1,2) [OF assms(3,6)]]) blast
  have "fst ` set xs = {str '':method'', str '':scheme'', str '':authority'', str '':path'', str '':protocol''}"
    unfolding map_of_same_keys [OF same] by (simp add: request_headers_eq)
  then have from_headers: "ConnectRequest_from_headers U H ho' xs = Ok req"
    using assms(3-5) unfolding ConnectRequest_from_headers_Ok_iff [OF assms(2)] same
    by (simp add: request_lookup url_laws_def http_laws_def webtransport_url_def)
  have "ConnectRequest_decode U H ho' (frame_wire (Frame_HEADERS, block_wire xs) @ rest) = Ok (req, rest)" for rest
    unfolding ConnectRequest_decode_Ok_iff
    using Frame_read_wire [OF ok, of rest] dec from_headers by simp
  then show thesis using that [OF ok] enc le_trans [OF size request_headers_valid(3) [OF assms(3,6)]]
    by (simp add: ConnectRequest_encode_def)
qed

subsection \<open>Responses\<close>

lemma response_headers_eq:
  "response_headers H resp = [(str '':status'', StatusCode_as_str H (response_status resp)),
     (str ''sec-webtransport-http3-draft'', str ''draft02'')]"
  by (simp add: response_headers_def Headers_set_def str_def)

lemma response_headers_valid:
  assumes "http_laws H"
  shows "headers_valid (response_headers H resp)" and "headers_size (response_headers H resp) + 22 < 2 ^ 32"
    and "headers_size (response_headers H resp) + 22 \<le> 192"
proof -
  let ?s = "StatusCode_as_str H (response_status resp)"
  have p: "printable ?s" "length ?s = 3"
    using assms by (auto simp: http_laws_def intro: printable_digits)
  have d: "printable (str ''draft02'')" "length (str ''draft02'') = 7"
    by (simp_all add: printable_def str_def)
  have f: "validate_field n v = Ok () \<and> field_ok (n, v)"
    if "n \<in> {str '':status'', str ''sec-webtransport-http3-draft''}" "printable v" "length v < 10" for n v
    using pseudo_field_valid [of n v] printable_value(1) [OF that(2)] that by (auto simp: field_ok_def)
  have "str '':status'' \<noteq> str ''sec-webtransport-http3-draft''" by (simp add: str_def)
  then show "headers_valid (response_headers H resp)"
    using f p d by (simp add: headers_valid_def response_headers_eq hash_map_ok_def)
  show "headers_size (response_headers H resp) + 22 < 2 ^ 32"
    "headers_size (response_headers H resp) + 22 \<le> 192"
    using p d by (simp_all add: headers_size_def response_headers_eq str_def)
qed

lemma ConnectResponse_from_headers_Ok_iff:
  assumes "hash_order ho"
  shows "ConnectResponse_from_headers H ho headers = Ok resp \<longleftrightarrow>
    (\<forall>name \<in> fst ` set headers. starts_with_colon name \<longrightarrow> name = str '':status'') \<and>
    (\<exists>s. map_of headers (str '':status'') = Some s \<and> StatusCode_from_str H s = Some (response_status resp))"
  using validate_pseudo_headers_Ok_iff [OF assms, of headers "[str '':status'']"]
  by (cases resp) (auto simp: ConnectResponse_from_headers_def Headers_get_def)

lemma ConnectResponse_decode_Ok_iff:
  "ConnectResponse_decode H ho buf = (Ok (resp, rest) :: (_, ('p, 'm, 's) ConnectError) res) \<longleftrightarrow>
    (\<exists>data headers. Frame_read buf = Ok (Frame_HEADERS, data, rest) \<and> Headers_decode data = Ok headers \<and>
      ConnectResponse_from_headers H ho headers = (Ok resp :: (_, ('p, 'm, 's) ConnectError) res))"
  by (auto simp: ConnectResponse_decode_def split: if_splits)

lemma ConnectResponse_roundtrip:
  assumes "hash_order ho" and "hash_order ho'" and "http_laws H"
  obtains payload where "frame_ok (Frame_HEADERS, payload)"
    and "\<And>buf. ConnectResponse_encode H ho resp buf = (Ok (buf @ frame_wire (Frame_HEADERS, payload)) :: (_, 'e) res)"
    and "\<And>rest. ConnectResponse_decode H ho' (frame_wire (Frame_HEADERS, payload) @ rest) =
      (Ok (resp, rest) :: (_, ('p, 'm, 's) ConnectError) res)"
    and "length payload \<le> 192"
proof -
  obtain xs where enc: "\<And>buf. encode_headers_frame ho buf (response_headers H resp) =
        (Ok (buf @ frame_wire (Frame_HEADERS, block_wire xs)) :: (bytes, 'e) res)"
      and dec: "Headers_decode (block_wire xs) = Ok xs" and same: "map_of xs = map_of (response_headers H resp)"
      and ok: "frame_ok (Frame_HEADERS, block_wire xs)"
      and size: "length (block_wire xs) \<le> headers_size (response_headers H resp) + 22"
    by (rule encode_headers_frame_wire [OF assms(1) response_headers_valid(1,2) [OF assms(3)]]) blast
  have "fst ` set xs = {str '':status'', str ''sec-webtransport-http3-draft''}"
    unfolding map_of_same_keys [OF same] by (simp add: response_headers_eq)
  then have from_headers: "ConnectResponse_from_headers H ho' xs = (Ok resp :: (_, ('p, 'm, 's) ConnectError) res)"
    using assms(3) unfolding ConnectResponse_from_headers_Ok_iff [OF assms(2)] same
    by (simp add: response_headers_eq http_laws_def starts_with_colon_def str_def)
  have "ConnectResponse_decode H ho' (frame_wire (Frame_HEADERS, block_wire xs) @ rest) =
      (Ok (resp, rest) :: (_, ('p, 'm, 's) ConnectError) res)" for rest
    unfolding ConnectResponse_decode_Ok_iff
    using Frame_read_wire [OF ok, of rest] dec from_headers by simp
  then show thesis using that [OF ok] enc le_trans [OF size response_headers_valid(3) [OF assms(3)]]
    by (simp add: ConnectResponse_encode_def)
qed

subsection \<open>Reading from a stream\<close>

text \<open>A complete frame decodes like the stream position it was read from.\<close>

lemma Frame_read_rebuilt:
  assumes "Frame_read buf = Ok (ty, payload, rest)" and "length payload < 2 ^ 62"
  shows "frame_ok (ty, payload)" and "Frame_read (frame_wire (ty, payload)) = Ok (ty, payload, [])"
proof -
  show ok: "frame_ok (ty, payload)" using Frame_read_Ok [OF assms(1)] assms(2) by (simp add: frame_ok_def)
  show "Frame_read (frame_wire (ty, payload)) = Ok (ty, payload, [])"
    using Frame_read_wire [OF ok, of "[]"] Frame_read_Ok [OF assms(1)] by simp
qed

lemma Connect_decode_rebuilt:
  assumes "Frame_read buf = Ok (ty, payload, rest)" and "length payload < 2 ^ 62"
  shows "ConnectRequest_decode U H ho (frame_wire (ty, payload)) =
      map_ok (\<lambda>(r, _). (r, [])) (ConnectRequest_decode U H ho buf)"
    and "ConnectResponse_decode H ho (frame_wire (ty, payload)) =
      map_ok (\<lambda>(r, _). (r, [])) (ConnectResponse_decode H ho buf)"
proof -
  show "ConnectRequest_decode U H ho (frame_wire (ty, payload)) =
      map_ok (\<lambda>(r, _). (r, [])) (ConnectRequest_decode U H ho buf)"
    by (simp add: ConnectRequest_decode_def Frame_read_rebuilt(2) [OF assms] assms(1) map_ok_and_then)
  show "ConnectResponse_decode H ho (frame_wire (ty, payload)) =
      map_ok (\<lambda>(r, _). (r, [])) (ConnectResponse_decode H ho buf)"
    by (simp add: ConnectResponse_decode_def Frame_read_rebuilt(2) [OF assms] assms(1) map_ok_and_then)
qed

text \<open>The step of the loop in \<^verbatim>\<open>read_frame\<close>.\<close>

abbreviation connect_next :: "'st reader \<Rightarrow> 'st \<Rightarrow> ((VarInt \<times> bytes) \<times> 'st, ('p, 'm, 's) ConnectError) res" where
  "connect_next \<equiv> read_tlv ConnectError_UnexpectedEnd ConnectError_MessageTooLong ConnectError_Io
     MAX_CONNECT_FRAME_SIZE"

lemmas connect_source = frame_source_read_tlv [where limit = MAX_CONNECT_FRAME_SIZE]

lemma Connect_loop_Ok:
  assumes "reads_exactly rd content"
    and "read_frame_loop fuel (connect_next rd) s =
      Some (Ok ((ty, payload), s') :: (_, ('p, 'm, 's) ConnectError) res)"
  shows "Frame_read (content s) = Ok (ty, payload, content s')" and "length payload \<le> MAX_CONNECT_FRAME_SIZE"
    and "Connect_read_frame fuel rd s =
      Some (Ok (frame_wire (ty, payload), s') :: (_, ('p, 'm, 's) ConnectError) res)"
proof -
  note sound = frame_source.loop_sound [OF connect_source [OF assms(1)] assms(2)]
  then show "Frame_read (content s) = Ok (ty, payload, content s')" "length payload \<le> MAX_CONNECT_FRAME_SIZE"
    by simp_all
  have "length payload < 2 ^ 62" using sound by (simp add: MAX_CONNECT_FRAME_SIZE_def)
  then show "Connect_read_frame fuel rd s =
      Some (Ok (frame_wire (ty, payload), s') :: (_, ('p, 'm, 's) ConnectError) res)"
    using assms(2) sound
    by (simp add: Connect_read_frame_def VarInt_size_ok frame_type.enc_wire varint.enc_wire
        VarInt_try_from_usize_ok frame_wire_def)
qed

lemma Connect_read_Ok:
  fixes U :: "('u, 'p) url_api" and H :: "('m, 's) http_api"
  assumes "reads_exactly rd content"
    and "read_frame_loop fuel (connect_next rd) s =
      Some (Ok ((ty, payload), s') :: (_, ('p, 'm, 's) ConnectError) res)"
  shows "ConnectRequest_read U H ho fuel rd s =
      Some (map_ok (\<lambda>(r, _). (r, s')) (ConnectRequest_decode U H ho (content s)))"
    and "ConnectResponse_read H ho fuel rd s =
      Some (map_ok (\<lambda>(r, _). (r, s')) (ConnectResponse_decode H ho (content s)) :: (_, ('p, 'm, 's) ConnectError) res)"
proof -
  note l = Connect_loop_Ok [OF assms]
  then have "length payload < 2 ^ 62" by (simp add: MAX_CONNECT_FRAME_SIZE_def)
  note d = Connect_decode_rebuilt [OF l(1) this]
  show "ConnectRequest_read U H ho fuel rd s =
      Some (map_ok (\<lambda>(r, _). (r, s')) (ConnectRequest_decode U H ho (content s)))"
    by (simp add: ConnectRequest_read_def l(3) d(1) and_then_map_ok) (simp add: map_ok_eq_and_then split_def)
  show "ConnectResponse_read H ho fuel rd s =
      Some (map_ok (\<lambda>(r, _). (r, s')) (ConnectResponse_decode H ho (content s)) :: (_, ('p, 'm, 's) ConnectError) res)"
    by (simp add: ConnectResponse_read_def l(3) d(2) and_then_map_ok) (simp add: map_ok_eq_and_then split_def)
qed

lemma Connect_loop_returns:
  assumes "reads_exactly rd content" and "length (content s) < fuel"
  shows "Connect_read_frame fuel rd s \<noteq> (None :: (_, ('p, 'm, 's) ConnectError) res option)"
  using frame_source.loop_returns [OF connect_source [OF assms(1)] assms(2)]
  by (simp add: Connect_read_frame_def)

lemma ConnectRequest_from_headers_no_panic:
  assumes "url_laws U"
  shows "ConnectRequest_from_headers U H ho headers \<noteq> Panic"
proof -
  have p: "Url_parse U x \<noteq> Panic" for x using assms by (simp add: url_laws_def)
  show ?thesis
    by (auto simp: ConnectRequest_from_headers_def and_then_Panic_iff validate_pseudo_headers_def Let_def p
        split: if_splits option.splits)
qed

lemma ConnectResponse_from_headers_no_panic: "ConnectResponse_from_headers H ho headers \<noteq> Panic"
  by (auto simp: ConnectResponse_from_headers_def and_then_Panic_iff validate_pseudo_headers_def
      split: option.splits)

lemma Frame_read_length: "Frame_read buf = Ok (ty, payload, rest) \<Longrightarrow> length payload \<le> length buf"
  by (drule Frame_read_Ok) auto

lemma Connect_decode_no_panic:
  assumes "Frame_read buf = Ok (ty, payload, rest)" and "huffman_input_ok payload"
  shows "url_laws U \<Longrightarrow> ConnectRequest_decode U H ho buf \<noteq> Panic"
    and "ConnectResponse_decode H ho buf \<noteq> Panic"
  using assms(1) Headers_decode_no_panic [OF assms(2)]
  by (auto simp: ConnectRequest_decode_def ConnectResponse_decode_def and_then_Panic_iff
      ConnectRequest_from_headers_no_panic ConnectResponse_from_headers_no_panic split: if_splits)

lemma Connect_payload_ok: "length payload \<le> MAX_CONNECT_FRAME_SIZE \<Longrightarrow> huffman_input_ok payload"
  by (simp add: huffman_input_ok_def MAX_CONNECT_FRAME_SIZE_def)

text \<open>The outcome of the loop decides: either reader fails with its error, or it is the decoder.\<close>

lemma Connect_read_cases:
  fixes U :: "('u, 'p) url_api" and H :: "('m, 's) http_api"
  assumes rd: "reads_exactly rd content" and f: "length (content s) < fuel" and U: "url_laws U"
  obtains (decoded) ty payload s' where "Frame_read (content s) = Ok (ty, payload, content s')"
      and "ConnectRequest_read U H ho fuel rd s =
        Some (map_ok (\<lambda>(r, _). (r, s')) (ConnectRequest_decode U H ho (content s)))"
      and "ConnectResponse_read H ho fuel rd s =
        Some (map_ok (\<lambda>(r, _). (r, s')) (ConnectResponse_decode H ho (content s)) :: (_, ('p, 'm, 's) ConnectError) res)"
      and "ConnectRequest_decode U H ho (content s) \<noteq> Panic"
      and "ConnectResponse_decode H ho (content s) \<noteq> (Panic :: (_, ('p, 'm, 's) ConnectError) res)"
  | (failed) e where "ConnectRequest_read U H ho fuel rd s = Some (Err e)"
      and "ConnectResponse_read H ho fuel rd s = Some (Err e :: (_, ('p, 'm, 's) ConnectError) res)"
proof -
  let ?loop = "read_frame_loop fuel (connect_next rd) s :: (_, ('p, 'm, 's) ConnectError) res option"
  obtain r where r: "?loop = Some r"
    using frame_source.loop_returns [OF connect_source [OF rd] f] by fast
  show thesis
  proof (cases r)
    case (Ok x)
    then obtain ty payload s' where l: "?loop = Some (Ok ((ty, payload), s'))"
      using r by (metis prod.exhaust)
    note o = Connect_loop_Ok(1,2) [OF rd l]
    show thesis
      by (rule decoded [OF o(1) Connect_read_Ok [OF rd l]])
        (simp_all add: Connect_decode_no_panic [OF o(1) Connect_payload_ok [OF o(2)]] U)
  next
    case (Err e)
    then show thesis
      using r by (intro failed [of e]) (simp_all add: ConnectRequest_read_def ConnectResponse_read_def Connect_read_frame_def)
  next
    case Panic
    then show thesis
      using r frame_source.loop_no_panic [OF connect_source [OF rd]] by fast
  qed
qed

lemma Connect_read_wire:
  fixes U :: "('u, 'p) url_api" and H :: "('m, 's) http_api"
  assumes rd: "reads_exactly rd content" and f: "length (content s) < fuel"
    and c: "content s = concat (map frame_wire gs) @ frame_wire (ty, payload) @ rest"
    and gs: "\<forall>g \<in> set gs. frame_ok g \<and> Frame_is_grease (fst g) \<and> length (snd g) \<le> MAX_CONNECT_FRAME_SIZE"
    and ok: "frame_ok (ty, payload)"
  shows "length payload \<le> MAX_CONNECT_FRAME_SIZE \<Longrightarrow> \<not> Frame_is_grease ty \<Longrightarrow> \<exists>s'. content s' = rest \<and>
      ConnectRequest_read U H ho fuel rd s =
        Some (map_ok (\<lambda>(r, _). (r, s')) (ConnectRequest_decode U H ho (content s))) \<and>
      ConnectResponse_read H ho fuel rd s =
        Some (map_ok (\<lambda>(r, _). (r, s')) (ConnectResponse_decode H ho (content s)) :: (_, ('p, 'm, 's) ConnectError) res)"
    and "MAX_CONNECT_FRAME_SIZE < length payload \<Longrightarrow>
      ConnectRequest_read U H ho fuel rd s = Some (Err ConnectError_MessageTooLong) \<and>
      ConnectResponse_read H ho fuel rd s = Some (Err (ConnectError_MessageTooLong :: ('p, 'm, 's) ConnectError))"
proof -
  have fuel: "length gs < fuel" using frames_fuel [of gs] f c by simp
  note src = connect_source [OF rd, where ue = ConnectError_UnexpectedEnd and tlo = ConnectError_MessageTooLong
      and io = ConnectError_Io]
  show "\<exists>s'. content s' = rest \<and> ConnectRequest_read U H ho fuel rd s =
        Some (map_ok (\<lambda>(r, _). (r, s')) (ConnectRequest_decode U H ho (content s))) \<and>
      ConnectResponse_read H ho fuel rd s =
        Some (map_ok (\<lambda>(r, _). (r, s')) (ConnectResponse_decode H ho (content s)) :: (_, ('p, 'm, 's) ConnectError) res)"
    if le: "length payload \<le> MAX_CONNECT_FRAME_SIZE" "\<not> Frame_is_grease ty"
  proof -
    obtain s' where l: "read_frame_loop fuel (connect_next rd) s =
        Some (Ok ((ty, payload), s') :: (_, ('p, 'm, 's) ConnectError) res)" "content s' = rest"
      using frame_source.loop_complete [OF src gs c fuel ok le(2,1)] by fast
    show ?thesis using Connect_read_Ok [OF rd l(1)] l(2) by blast
  qed
  assume "MAX_CONNECT_FRAME_SIZE < length payload"
  then have "read_frame_loop fuel (connect_next rd) s =
      Some (Err (ConnectError_MessageTooLong :: ('p, 'm, 's) ConnectError))"
    by (rule frame_source.loop_too_long [OF src gs c fuel ok])
  then show "ConnectRequest_read U H ho fuel rd s = Some (Err ConnectError_MessageTooLong) \<and>
      ConnectResponse_read H ho fuel rd s = Some (Err (ConnectError_MessageTooLong :: ('p, 'm, 's) ConnectError))"
    by (simp add: ConnectRequest_read_def ConnectResponse_read_def Connect_read_frame_def)
qed

lemma Connect_read_sound:
  fixes U :: "('u, 'p) url_api" and H :: "('m, 's) http_api"
  assumes "reads_exactly rd content" and "length (content s) < fuel" and "url_laws U"
  obtains req resp where "ConnectRequest_read U H ho fuel rd s = Some req"
    and "ConnectResponse_read H ho fuel rd s = Some (resp :: (_, ('p, 'm, 's) ConnectError) res)"
    and "req \<noteq> Panic" and "resp \<noteq> Panic"
    and "\<And>r s'. req = Ok (r, s') \<Longrightarrow> ConnectRequest_decode U H ho (content s) = Ok (r, content s')"
    and "\<And>r s'. resp = Ok (r, s') \<Longrightarrow> ConnectResponse_decode H ho (content s) =
      (Ok (r, content s') :: (_, ('p, 'm, 's) ConnectError) res)"
proof (rule Connect_read_cases [OF assms, of H ho])
  fix ty payload s'
  assume f: "Frame_read (content s) = Ok (ty, payload, content s')"
    and r: "ConnectRequest_read U H ho fuel rd s =
        Some (map_ok (\<lambda>(r, _). (r, s')) (ConnectRequest_decode U H ho (content s)))"
      "ConnectResponse_read H ho fuel rd s =
        Some (map_ok (\<lambda>(r, _). (r, s')) (ConnectResponse_decode H ho (content s)) :: (_, ('p, 'm, 's) ConnectError) res)"
    and np: "ConnectRequest_decode U H ho (content s) \<noteq> Panic"
      "ConnectResponse_decode H ho (content s) \<noteq> (Panic :: (_, ('p, 'm, 's) ConnectError) res)"
  show thesis
    by (rule that [OF r]) (use f np in \<open>auto simp: ConnectRequest_decode_Ok_iff ConnectResponse_decode_Ok_iff\<close>)
next
  fix e
  assume "ConnectRequest_read U H ho fuel rd s = Some (Err e)"
    and "ConnectResponse_read H ho fuel rd s = Some (Err e :: (_, ('p, 'm, 's) ConnectError) res)"
  then show thesis by (rule that) simp_all
qed

text \<open>
  The accepted requests do not tell how the target is split between \<^verbatim>\<open>:authority\<close> and
  \<^verbatim>\<open>:path\<close>: the path need not begin with a slash, and only the concatenation is parsed.
\<close>

lemma ConnectRequest_joins_authority_and_path:
  assumes "hash_order ho" and "authority @ path = authority' @ path'"
  shows "ConnectRequest_from_headers U H ho [(str '':method'', m), (str '':scheme'', sc),
      (str '':authority'', authority), (str '':path'', path), (str '':protocol'', p)] =
    ConnectRequest_from_headers U H ho [(str '':method'', m), (str '':scheme'', sc),
      (str '':authority'', authority'), (str '':path'', path'), (str '':protocol'', p)]"
proof -
  let ?h = "\<lambda>a b. [(str '':method'', m), (str '':scheme'', sc), (str '':authority'', a), (str '':path'', b),
    (str '':protocol'', p)]"
  have v: "validate_pseudo_headers ho (?h a b)
      [str '':method'', str '':scheme'', str '':authority'', str '':path'', str '':protocol''] = Ok ()" for a b
    by (simp add: validate_pseudo_headers_Ok_iff [OF assms(1)])
  have l: "map_of (?h a b) (str '':method'') = Some m" "map_of (?h a b) (str '':scheme'') = Some sc"
      "map_of (?h a b) (str '':authority'') = Some a" "map_of (?h a b) (str '':path'') = Some b"
      "map_of (?h a b) (str '':protocol'') = Some p" for a b
    by (simp_all add: str_def)
  show ?thesis
    unfolding ConnectRequest_from_headers_def Headers_get_def v l by (simp add: assms(2) Let_def cong: if_cong)
qed

subsection \<open>An instance of the libraries\<close>

text \<open>Two URLs and two status codes, to show that the laws can hold.\<close>

definition example_url_api :: "(bool, unit) url_api" where
  "example_url_api = \<lparr>Url_parse = (\<lambda>s. if s = str ''https://a.b/'' then Ok False
      else if s = str ''https://a.b/c?d'' then Ok True else Err ()),
    Url_scheme = (\<lambda>_. str ''https''), Url_authority = (\<lambda>_. str ''a.b''), Url_username = (\<lambda>_. []),
    Url_password = (\<lambda>_. None), Url_path = (\<lambda>u. if u then str ''/c'' else str ''/''),
    Url_query = (\<lambda>u. if u then Some (str ''d'') else None), Url_fragment = (\<lambda>_. None)\<rparr>"

definition example_http_api :: "(unit, bool) http_api" where
  "example_http_api = \<lparr>Method_try_from = (\<lambda>s. if s = str ''CONNECT'' then Some () else None),
    Method_CONNECT = (),
    StatusCode_from_str = (\<lambda>s. if s = str ''200'' then Some True else if s = str ''404'' then Some False else None),
    StatusCode_as_str = (\<lambda>b. if b then str ''200'' else str ''404'')\<rparr>"

lemma example_laws: "url_laws example_url_api" "http_laws example_http_api"
    "webtransport_url example_url_api u" "url_fits example_url_api u"
  by (auto simp: url_laws_def http_laws_def example_url_api_def example_http_api_def path_and_query_def
      printable_def str_def webtransport_url_def url_fits_def url_length_def)

lemma example_status_block: "Headers_decode [0, 0, 0xD9] = Ok [(str '':status'', str ''200'')]"
  by (simp add: Headers_decode_def decode_prefix_Cons Headers_decode_loop.simps decode_field_def
      decode_index_def static_entry_def StaticTable_get_def PREDEFINED_HEADERS_def validate_field_def
      starts_with_colon_def str_def is_lowercase_field_name_byte_def forbidden_value_byte_def)

subsection \<open>Properties\<close>

text \<open>
  The request a client writes is the request a server reads: for a WebTransport URL,
  whatever the iteration order of the header maps at either end, \<^verbatim>\<open>ConnectRequest::encode\<close> appends
  one HEADERS frame that \<^verbatim>\<open>ConnectRequest::decode\<close> reads back to the same URL, with GREASE frames in
  front of it skipped and the bytes behind it left.
\<close>

theorem connect_request_roundtrip:
  assumes "hash_order ho" and "hash_order ho'" and "url_laws U" and "http_laws H"
    and "webtransport_url U (request_url req)" and "url_fits U (request_url req)"
  shows "\<exists>bs. (\<forall>buf. ConnectRequest_encode U ho req buf = (Ok (buf @ bs) :: (_, 'e) res)) \<and>
    (\<forall>gs rest. (\<forall>g \<in> set gs. frame_ok g \<and> Frame_is_grease (fst g)) \<longrightarrow>
       ConnectRequest_decode U H ho' (concat (map frame_wire gs) @ bs @ rest) = Ok (req, rest))"
proof -
  obtain payload where p: "\<And>buf. ConnectRequest_encode U ho req buf =
        (Ok (buf @ frame_wire (Frame_HEADERS, payload)) :: (_, 'e) res)"
      and d: "\<And>rest. ConnectRequest_decode U H ho' (frame_wire (Frame_HEADERS, payload) @ rest) = Ok (req, rest)"
    by (rule ConnectRequest_roundtrip [OF assms]) blast
  have "ConnectRequest_decode U H ho' (concat (map frame_wire gs) @ buf) = ConnectRequest_decode U H ho' buf"
    if "\<forall>g \<in> set gs. frame_ok g \<and> Frame_is_grease (fst g)" for gs buf
    by (simp add: ConnectRequest_decode_def Frame_read_skips [OF that])
  then show ?thesis using p d by auto
qed

theorem connect_request_roundtrip_witness:
  "\<exists>bs. ConnectRequest_encode example_url_api rev \<lparr>request_url = True\<rparr> [] = (Ok ([] @ bs) :: (_, unit) res) \<and>
     ConnectRequest_decode example_url_api example_http_api (\<lambda>h. h) (bs @ [7]) = Ok (\<lparr>request_url = True\<rparr>, [7])"
proof -
  note laws = example_laws(1,2) example_laws(3,4) [of "request_url \<lparr>request_url = True\<rparr>"]
  obtain bs where enc: "\<And>buf. ConnectRequest_encode example_url_api rev \<lparr>request_url = True\<rparr> buf =
        (Ok (buf @ bs) :: (_, unit) res)"
      and dec: "\<forall>gs rest. (\<forall>g \<in> set gs. frame_ok g \<and> Frame_is_grease (fst g)) \<longrightarrow>
        ConnectRequest_decode example_url_api example_http_api (\<lambda>h. h) (concat (map frame_wire gs) @ bs @ rest) =
          Ok (\<lparr>request_url = True\<rparr>, rest)"
    using connect_request_roundtrip [OF hash_order_rev hash_order_id laws] by blast
  show ?thesis
    using enc [of "[]"] dec [rule_format, of "[]" "[7]"] by auto
qed

text \<open>
  A response keeps its status: \<^verbatim>\<open>ConnectResponse::encode\<close> appends one HEADERS frame that
  \<^verbatim>\<open>ConnectResponse::decode\<close> reads back to the same status code, behind any GREASE frames.
\<close>

theorem connect_response_roundtrip:
  assumes "hash_order ho" and "hash_order ho'" and "http_laws H"
  shows "\<exists>bs. (\<forall>buf. ConnectResponse_encode H ho resp buf = (Ok (buf @ bs) :: (_, 'e) res)) \<and>
    (\<forall>gs rest. (\<forall>g \<in> set gs. frame_ok g \<and> Frame_is_grease (fst g)) \<longrightarrow>
       ConnectResponse_decode H ho' (concat (map frame_wire gs) @ bs @ rest) =
         (Ok (resp, rest) :: (_, ('p, 'm, 's) ConnectError) res))"
proof -
  obtain payload where p: "\<And>buf. ConnectResponse_encode H ho resp buf =
        (Ok (buf @ frame_wire (Frame_HEADERS, payload)) :: (_, 'e) res)"
      and d: "\<And>rest. ConnectResponse_decode H ho' (frame_wire (Frame_HEADERS, payload) @ rest) =
        (Ok (resp, rest) :: (_, ('p, 'm, 's) ConnectError) res)"
    by (rule ConnectResponse_roundtrip [OF assms]) blast
  have "ConnectResponse_decode H ho' (concat (map frame_wire gs) @ buf) =
      (ConnectResponse_decode H ho' buf :: (_, ('p, 'm, 's) ConnectError) res)"
    if "\<forall>g \<in> set gs. frame_ok g \<and> Frame_is_grease (fst g)" for gs buf
    by (simp add: ConnectResponse_decode_def Frame_read_skips [OF that])
  then show ?thesis using p d by auto
qed

theorem connect_response_roundtrip_witness:
  "\<exists>bs. ConnectResponse_encode example_http_api rev \<lparr>response_status = False\<rparr> [] = (Ok ([] @ bs) :: (_, unit) res) \<and>
     ConnectResponse_decode example_http_api (\<lambda>h. h) (bs @ [7]) =
       (Ok (\<lparr>response_status = False\<rparr>, [7]) :: (_, (unit, _, _) ConnectError) res)"
proof -
  obtain bs where enc: "\<And>buf. ConnectResponse_encode example_http_api rev \<lparr>response_status = False\<rparr> buf =
        (Ok (buf @ bs) :: (_, unit) res)"
      and dec: "\<forall>gs rest. (\<forall>g \<in> set gs. frame_ok g \<and> Frame_is_grease (fst g)) \<longrightarrow>
        ConnectResponse_decode example_http_api (\<lambda>h. h) (concat (map frame_wire gs) @ bs @ rest) =
          (Ok (\<lparr>response_status = False\<rparr>, rest) :: (_, (unit, _, _) ConnectError) res)"
    using connect_response_roundtrip [OF hash_order_rev hash_order_id example_laws(2)] by blast
  show ?thesis
    using enc [of "[]"] dec [rule_format, of "[]" "[7]"] by auto
qed

text \<open>
  C2. What an accepted request guarantees. \<^verbatim>\<open>ConnectRequest::decode\<close> succeeds exactly when the first
  frame that is not GREASE is a HEADERS frame whose header block decodes, whose pseudo-headers are
  among the five of an extended CONNECT, with the \<^verbatim>\<open>https\<close> scheme, the CONNECT method, one of the two
  protocol tokens, and an authority and a path whose concatenation parses to a URL without user
  information and without fragment; the URL is the one returned.
\<close>

theorem connect_request_accepted:
  assumes "hash_order ho"
  shows "ConnectRequest_decode U H ho buf = Ok (req, rest) \<longleftrightarrow>
    (\<exists>data headers. Frame_read buf = Ok (Frame_HEADERS, data, rest) \<and> Headers_decode data = Ok headers \<and>
       (\<forall>name \<in> fst ` set headers. starts_with_colon name \<longrightarrow>
          name \<in> {str '':method'', str '':scheme'', str '':authority'', str '':path'', str '':protocol''}) \<and>
       map_of headers (str '':scheme'') = Some (str ''https'') \<and>
       (\<exists>m. map_of headers (str '':method'') = Some m \<and> Method_try_from H m = Some (Method_CONNECT H)) \<and>
       map_of headers (str '':protocol'') \<in> {Some (str ''webtransport-h3''), Some (str ''webtransport'')} \<and>
       (\<exists>authority path. map_of headers (str '':authority'') = Some authority \<and>
          map_of headers (str '':path'') = Some path \<and>
          Url_parse U (str ''https'' @ str ''://'' @ authority @ path) = Ok (request_url req)) \<and>
       Url_username U (request_url req) = [] \<and> Url_password U (request_url req) = None \<and>
       Url_fragment U (request_url req) = None)"
  unfolding ConnectRequest_decode_Ok_iff ConnectRequest_from_headers_Ok_iff [OF assms]
    WEBTRANSPORT_PROTOCOL_def LEGACY_WEBTRANSPORT_PROTOCOL_def
  by (rule refl)

theorem connect_request_accepted_witness:
  "hash_order (rev :: Headers \<Rightarrow> Headers) \<and> (\<forall>req rest.
     ConnectRequest_decode example_url_api example_http_api rev [0x01, 0x03, 0x00, 0x00, 0xD9] \<noteq> Ok (req, rest))"
proof -
  have r: "Frame_read [0x01, 0x03, 0x00, 0x00, 0xD9] = Ok (Frame_HEADERS, [0x00, 0x00, 0xD9], [])"
    by (subst Frame_read.simps) (simp add: frame_read_eval)
  note h = example_status_block
  have "ConnectRequest_decode example_url_api example_http_api rev [0x01, 0x03, 0x00, 0x00, 0xD9] \<noteq> Ok (req, rest)"
    for req rest
    unfolding connect_request_accepted [OF hash_order_rev]
    by (simp add: r h) (simp add: str_def)
  then show ?thesis by (simp add: hash_order_rev)
qed

text \<open>
  Reading a request or a response from a stream: with more fuel than the stream has bytes
  both readers return without panicking; what they return is what the decoder finds in the
  stream's bytes, with the same bytes left unread; GREASE frames in front are skipped; and a frame
  above the 64 KiB limit is refused from its header, before its payload is read.
\<close>

theorem connect_read_agrees:
  fixes U :: "('u, 'p) url_api" and H :: "('m, 's) http_api"
  assumes "reads_exactly rd content" and "length (content s) < fuel" and "url_laws U"
  shows "\<exists>req resp. ConnectRequest_read U H ho fuel rd s = Some req \<and>
    ConnectResponse_read H ho fuel rd s = Some (resp :: (_, ('p, 'm, 's) ConnectError) res) \<and>
    req \<noteq> Panic \<and> resp \<noteq> Panic \<and>
    (\<forall>r s'. req = Ok (r, s') \<longrightarrow> ConnectRequest_decode U H ho (content s) = Ok (r, content s')) \<and>
    (\<forall>r s'. resp = Ok (r, s') \<longrightarrow> ConnectResponse_decode H ho (content s) =
       (Ok (r, content s') :: (_, ('p, 'm, 's) ConnectError) res)) \<and>
    (\<forall>gs typ payload rest.
       content s = concat (map frame_wire gs) @ frame_wire (typ, payload) @ rest \<and>
       (\<forall>g \<in> set gs. frame_ok g \<and> Frame_is_grease (fst g) \<and> length (snd g) \<le> MAX_CONNECT_FRAME_SIZE) \<and>
       frame_ok (typ, payload) \<and> \<not> Frame_is_grease typ \<longrightarrow>
       (if length payload \<le> MAX_CONNECT_FRAME_SIZE
        then \<exists>s'. content s' = rest \<and>
          req = map_ok (\<lambda>(r, _). (r, s')) (ConnectRequest_decode U H ho (content s)) \<and>
          resp = map_ok (\<lambda>(r, _). (r, s')) (ConnectResponse_decode H ho (content s))
        else req = Err ConnectError_MessageTooLong \<and> resp = Err ConnectError_MessageTooLong))"
proof -
  obtain req resp where eq: "ConnectRequest_read U H ho fuel rd s = Some req"
      "ConnectResponse_read H ho fuel rd s = Some (resp :: (_, ('p, 'm, 's) ConnectError) res)"
    and ok: "req \<noteq> Panic" "resp \<noteq> Panic"
      "req = Ok (r, s') \<Longrightarrow> ConnectRequest_decode U H ho (content s) = Ok (r, content s')"
      "resp = Ok (r', s') \<Longrightarrow> ConnectResponse_decode H ho (content s) =
        (Ok (r', content s') :: (_, ('p, 'm, 's) ConnectError) res)" for r r' s'
    by (rule Connect_read_sound [OF assms, of H ho]) blast
  then show ?thesis
  proof (intro exI conjI allI impI)
    fix gs ty payload rest
    assume c: "content s = concat (map frame_wire gs) @ frame_wire (ty, payload) @ rest \<and>
       (\<forall>g \<in> set gs. frame_ok g \<and> Frame_is_grease (fst g) \<and> length (snd g) \<le> MAX_CONNECT_FRAME_SIZE) \<and>
       frame_ok (ty, payload) \<and> \<not> Frame_is_grease ty"
    note w = Connect_read_wire [OF assms(1,2) c [THEN conjunct1], of U H ho, unfolded eq option.inject]
    show "if length payload \<le> MAX_CONNECT_FRAME_SIZE
        then \<exists>s'. content s' = rest \<and>
          req = map_ok (\<lambda>(r, _). (r, s')) (ConnectRequest_decode U H ho (content s)) \<and>
          resp = map_ok (\<lambda>(r, _). (r, s')) (ConnectResponse_decode H ho (content s))
        else req = Err ConnectError_MessageTooLong \<and> resp = Err ConnectError_MessageTooLong"
      using w c by (cases "length payload \<le> MAX_CONNECT_FRAME_SIZE") (simp_all add: not_le)
  qed
qed

theorem connect_read_agrees_witness:
  "\<exists>s'. ConnectResponse_read example_http_api (\<lambda>h. h) 100 slice_read (frame_wire (Frame_HEADERS, [0, 0, 0xD9]) @ [7]) =
     Some (Ok (\<lparr>response_status = True\<rparr>, s') :: (_, (unit, unit, bool) ConnectError) res) \<and> s' = [7]"
proof -
  let ?s = "frame_wire (Frame_HEADERS, [0, 0, 0xD9]) @ [7]"
  have ok: "frame_ok (Frame_HEADERS, [0, 0, 0xD9])" by (simp add: frame_ok_def)
  have len: "length ?s < 100"
    using length_varint_wire_le [of "frame_type Frame_HEADERS"] length_varint_wire_le [of "VarInt (of_nat (length [0, 0, 0xD9 :: u8]))"]
    by (simp add: frame_wire_def)
  have "ConnectResponse_from_headers example_http_api (\<lambda>h. h) [(str '':status'', str ''200'')] =
      (Ok \<lparr>response_status = True\<rparr> :: (_, (unit, _, _) ConnectError) res)"
    unfolding ConnectResponse_from_headers_Ok_iff [OF hash_order_id] by (simp add: example_http_api_def)
  then have d: "ConnectResponse_decode example_http_api (\<lambda>h. h) ?s =
      (Ok (\<lparr>response_status = True\<rparr>, [7]) :: (_, (unit, _, _) ConnectError) res)"
    using Frame_read_wire [OF ok, of "[7]"] example_status_block by (simp add: ConnectResponse_decode_def)
  note t = connect_read_agrees [OF slice_reads_exactly len example_laws(1), of example_http_api "\<lambda>h. h"]
  then show ?thesis
    apply (elim exE conjE)
    subgoal premises p for req resp
      using p(2) p(7) [THEN spec, of "[]", THEN spec, of Frame_HEADERS, THEN spec, of "[0, 0, 0xD9]",
          THEN spec, of "[7]"] d ok
      by (simp add: MAX_CONNECT_FRAME_SIZE_def)
    done
qed

end
