(* ===== verification/Traits.thy ===== *)
theory Traits
  imports Prelude
begin

section \<open>The stream traits and their default methods\<close>

text \<open>
  \<^verbatim>\<open>webtrans-trait/src/lib.rs\<close>: what \<^verbatim>\<open>SendStream\<close> and \<^verbatim>\<open>RecvStream\<close> build from the one operation an
  implementation has to provide. \<^verbatim>\<open>write\<close> and \<^verbatim>\<open>read\<close> are arguments of the definitions; they
  take the state of the stream and return it with the result, also on an error. The locales
  \<open>send_stream\<close> and \<open>recv_stream\<close> state the contracts of the two traits; the methods are proved
  against them, and the streams of the crate's own tests are instances.

  A \<^verbatim>\<open>Buf\<close> is the list of its remaining bytes, with \<open>chunk\<close> the contiguous part in front; a
  \<^verbatim>\<open>BufMut\<close> is the list of the bytes in it, with the two lengths the code asks for.
  \<^verbatim>\<open>read_all_buf\<close> may run forever on a stream that keeps returning no bytes, so it takes fuel.
\<close>

subsection \<open>Definitions\<close>

type_synonym ('s, 'e) stream_write = "bytes \<Rightarrow> 's \<Rightarrow> (nat, 'e) res \<times> 's"
type_synonym ('s, 'e) stream_read = "bytes \<Rightarrow> 's \<Rightarrow> (nat option, 'e) res \<times> bytes \<times> 's"

definition write_buf :: "(bytes \<Rightarrow> bytes) \<Rightarrow> ('s, 'e) stream_write \<Rightarrow> bytes \<Rightarrow> 's \<Rightarrow> (nat, 'e) res \<times> bytes \<times> 's" where
  "write_buf chunk write buf s =
     (let c = chunk buf in
      case write c s of
        (Ok sz, s) \<Rightarrow>
          if \<not> (sz > 0 \<or> c = []) then (Panic, buf, s)
          else if \<not> sz \<le> length c then (Panic, buf, s)
          else (Ok sz, drop sz buf, s)
      | (Err e, s) \<Rightarrow> (Err e, buf, s)
      | (Panic, s) \<Rightarrow> (Panic, buf, s))"

function write_all_loop :: "('s, 'e) stream_write \<Rightarrow> bytes \<Rightarrow> nat \<Rightarrow> 's \<Rightarrow> (unit, 'e) res \<times> 's" where
  "write_all_loop write buf pos s =
     (if pos < length buf then
        case write (drop pos buf) s of
          (Ok written, s) \<Rightarrow>
            if \<not> written > 0 then (Panic, s)
            else if \<not> written \<le> length buf - pos then (Panic, s)
            else write_all_loop write buf (pos + written) s
        | (Err e, s) \<Rightarrow> (Err e, s)
        | (Panic, s) \<Rightarrow> (Panic, s)
      else (Ok (), s))"
  by pat_completeness auto
termination by (relation "measure (\<lambda>(_, buf, pos, _). length buf - pos)") auto

definition write_all :: "('s, 'e) stream_write \<Rightarrow> bytes \<Rightarrow> 's \<Rightarrow> (unit, 'e) res \<times> 's" where
  "write_all write buf s = write_all_loop write buf 0 s"

function write_all_buf :: "(bytes \<Rightarrow> bytes) \<Rightarrow> ('s, 'e) stream_write \<Rightarrow> bytes \<Rightarrow> 's \<Rightarrow>
    (unit, 'e) res \<times> bytes \<times> 's" where
  "write_all_buf chunk write buf s =
     (if buf \<noteq> [] then
        case write_buf chunk write buf s of
          (Ok written, buf', s') \<Rightarrow>
            if \<not> written > 0 then (Panic, buf', s') else write_all_buf chunk write buf' s'
        | (Err e, buf', s') \<Rightarrow> (Err e, buf', s')
        | (Panic, buf', s') \<Rightarrow> (Panic, buf', s')
      else (Ok (), buf, s))"
  by pat_completeness auto
termination
  by (relation "measure (\<lambda>(_, _, buf, _). length buf)")
    (auto simp: write_buf_def Let_def split: prod.splits res.splits if_splits)

declare write_all_loop.simps [simp del] write_all_buf.simps [simp del]

text \<open>The chunk of a \<^verbatim>\<open>Bytes\<close> is all of it.\<close>

definition write_chunk :: "('s, 'e) stream_write \<Rightarrow> bytes \<Rightarrow> 's \<Rightarrow> (unit, 'e) res \<times> 's" where
  "write_chunk write chunk s =
     (case write_all_buf (\<lambda>b. b) write chunk s of (r, _, s) \<Rightarrow> (r, s))"

record buf_mut =
  chunk_mut_len :: "bytes \<Rightarrow> nat"
  remaining_mut :: "bytes \<Rightarrow> nat"

definition read_buf :: "buf_mut \<Rightarrow> ('s, 'e) stream_read \<Rightarrow> bytes \<Rightarrow> 's \<Rightarrow> (nat option, 'e) res \<times> bytes \<times> 's" where
  "read_buf M read buf s =
     (let capacity = min (chunk_mut_len M buf) (8 * 1024) in
      if capacity = 0 then (Ok (Some 0), buf, s)
      else case read (replicate capacity 0) s of
        (Ok (Some sz), dst, s) \<Rightarrow>
          if \<not> sz \<le> length dst then (Panic, buf, s)
          else if remaining_mut M buf < sz then (Panic, buf, s)
          else (Ok (Some sz), buf @ take sz dst, s)
      | (Ok None, dst, s) \<Rightarrow> (Ok None, buf, s)
      | (Err e, dst, s) \<Rightarrow> (Err e, buf, s)
      | (Panic, dst, s) \<Rightarrow> (Panic, buf, s))"

text \<open>\<open>with_capacity n\<close> is the fresh \<^verbatim>\<open>BytesMut\<close> of that capacity.\<close>

definition read_chunk :: "(nat \<Rightarrow> buf_mut) \<Rightarrow> ('s, 'e) stream_read \<Rightarrow> nat \<Rightarrow> 's \<Rightarrow> (bytes option, 'e) res \<times> 's" where
  "read_chunk with_capacity read limit s =
     (case read_buf (with_capacity (min limit (8 * 1024))) read [] s of
        (r, buf, s) \<Rightarrow> (map_ok (map_option (\<lambda>_. buf)) r, s))"

fun read_all_buf_loop :: "nat \<Rightarrow> buf_mut \<Rightarrow> ('s, 'e) stream_read \<Rightarrow> bytes \<Rightarrow> nat \<Rightarrow> 's \<Rightarrow>
    ((nat, 'e) res \<times> bytes \<times> 's) option" where
  "read_all_buf_loop 0 M read buf sz s = None"
| "read_all_buf_loop (Suc fuel) M read buf sz s =
     (if remaining_mut M buf > 0 then
        case read_buf M read buf s of
          (Ok (Some n), buf, s) \<Rightarrow>
            if sz + n < 2 ^ 64 then read_all_buf_loop fuel M read buf (sz + n) s
            else Some (Panic, buf, s)
        | (Ok None, buf, s) \<Rightarrow> Some (Ok sz, buf, s)
        | (Err e, buf, s) \<Rightarrow> Some (Err e, buf, s)
        | (Panic, buf, s) \<Rightarrow> Some (Panic, buf, s)
      else Some (Ok sz, buf, s))"

definition read_all_buf :: "nat \<Rightarrow> buf_mut \<Rightarrow> ('s, 'e) stream_read \<Rightarrow> bytes \<Rightarrow> 's \<Rightarrow>
    ((nat, 'e) res \<times> bytes \<times> 's) option" where
  "read_all_buf fuel M read buf s = read_all_buf_loop fuel M read buf 0 s"

definition read_all :: "nat \<Rightarrow> buf_mut \<Rightarrow> ('s, 'e) stream_read \<Rightarrow> 's \<Rightarrow> ((bytes, 'e) res \<times> 's) option" where
  "read_all fuel M read s =
     map_option (\<lambda>(r, buf, s). (map_ok (\<lambda>_. buf) r, s)) (read_all_buf fuel M read [] s)"

text \<open>The streams of the crate's tests.\<close>

record TestRecvStream =
  data :: bytes
  pos :: nat

definition TestRecvStream_read :: "(TestRecvStream, 'e) stream_read" where
  "TestRecvStream_read dst s =
     (let available = length (data s) - pos s in
      if available = 0 then (Ok None, dst, s)
      else
        let sz = min available (length dst); stop = pos s + sz
        in (Ok (Some sz), take sz (drop (pos s) (data s)) @ drop sz dst, s\<lparr>pos := stop\<rparr>))"

record PartialSendStream =
  written :: bytes
  max_write :: nat

definition PartialSendStream_write :: "(PartialSendStream, 'e) stream_write" where
  "PartialSendStream_write buf s =
     (let sz = min (length buf) (max_write s) in (Ok sz, s\<lparr>written := written s @ take sz buf\<rparr>))"

subsection \<open>The contract of a send stream\<close>

text \<open>
  \<open>sent s\<close> are the bytes the stream has accepted. A write accepts a prefix of its argument,
  which is not empty when the argument is not; a failed write accepts nothing.
\<close>

definition chunk_ok :: "(bytes \<Rightarrow> bytes) \<Rightarrow> bool" where
  "chunk_ok chunk \<longleftrightarrow> (\<forall>b. prefix (chunk b) b \<and> (b \<noteq> [] \<longrightarrow> chunk b \<noteq> []))"

lemma chunk_ok_id [simp]: "chunk_ok (\<lambda>b. b)"
  by (simp add: chunk_ok_def)

locale send_stream =
  fixes "write" :: "('s, 'e) stream_write" and sent :: "'s \<Rightarrow> bytes" and invar :: "'s \<Rightarrow> bool"
  assumes write_Ok: "invar s \<Longrightarrow> write bs s = (Ok n, s') \<Longrightarrow>
      n \<le> length bs \<and> (bs \<noteq> [] \<longrightarrow> 0 < n) \<and> sent s' = sent s @ take n bs"
    and write_Err: "invar s \<Longrightarrow> write bs s = (Err e, s') \<Longrightarrow> sent s' = sent s"
    and write_no_panic: "invar s \<Longrightarrow> fst (write bs s) \<noteq> Panic"
    and write_invar: "invar s \<Longrightarrow> invar (snd (write bs s))"
begin

lemma write_cases:
  assumes "invar s"
  obtains (ok) n s' where "write bs s = (Ok n, s')" "n \<le> length bs" "bs \<noteq> [] \<Longrightarrow> 0 < n"
      "sent s' = sent s @ take n bs" "invar s'"
    | (err) e s' where "write bs s = (Err e, s')" "sent s' = sent s" "invar s'"
  using assms write_Ok [of s bs] write_Err [of s bs] write_no_panic [of s bs] write_invar [of s bs]
  by (cases "write bs s"; cases "fst (write bs s)") auto

lemma write_all_loop_delivers:
  assumes "invar s" and "i \<le> length buf" and "write_all_loop write buf i s = (r, s')"
  shows "r \<noteq> Panic \<and> invar s' \<and>
    (\<exists>part rest. drop i buf = part @ rest \<and> sent s' = sent s @ part \<and> (r = Ok () \<longrightarrow> rest = []))"
  using assms
proof (induction "length buf - i" arbitrary: i s rule: less_induct)
  case less
  show ?case
  proof (cases "i < length buf")
    case False
    then show ?thesis using less.prems by (subst (asm) write_all_loop.simps) auto
  next
    case True
    show ?thesis
    proof (rule write_cases [OF less.prems(1), of "drop i buf"])
      fix e s1
      assume "write (drop i buf) s = (Err e, s1)" "sent s1 = sent s" "invar s1"
      then show ?thesis using less.prems(3) True by (subst (asm) write_all_loop.simps) auto
    next
      fix n s1
      assume ok: "write (drop i buf) s = (Ok n, s1)" "n \<le> length (drop i buf)"
        "drop i buf \<noteq> [] \<Longrightarrow> 0 < n" "sent s1 = sent s @ take n (drop i buf)" "invar s1"
      have n: "0 < n" "n \<le> length buf - i" using ok True by auto
      have "write_all_loop write buf (i + n) s1 = (r, s')"
        using less.prems(3) True ok(1) n by (subst (asm) write_all_loop.simps) simp
      then have ih: "r \<noteq> Panic \<and> invar s' \<and> (\<exists>part rest. drop (i + n) buf = part @ rest \<and>
          sent s' = sent s1 @ part \<and> (r = Ok () \<longrightarrow> rest = []))"
        using less.hyps [of "i + n" s1] ok(5) n True by simp
      then obtain part rest where p: "drop (i + n) buf = part @ rest" "sent s' = sent s1 @ part"
        "r = Ok () \<longrightarrow> rest = []" by blast
      have "drop i buf = (take n (drop i buf) @ part) @ rest"
        using p(1) by (metis append.assoc append_take_drop_id add.commute drop_drop)
      then show ?thesis using ih p ok(4) by (metis append.assoc)
    qed
  qed
qed

lemma write_all_delivers:
  assumes "invar s" and "write_all write buf s = (r, s')"
  shows "r \<noteq> Panic \<and> invar s' \<and>
    (\<exists>part rest. buf = part @ rest \<and> sent s' = sent s @ part \<and> (r = Ok () \<longrightarrow> rest = []))"
  using write_all_loop_delivers [of s 0 buf r s'] assms by (simp add: write_all_def)

lemma write_buf_advances:
  assumes "invar s" and "chunk_ok chunk" and "write_buf chunk write buf s = (r, buf', s')"
  shows "r \<noteq> Panic \<and> invar s' \<and> (\<exists>part. buf = part @ buf' \<and> sent s' = sent s @ part \<and>
    (\<forall>n. r = Ok n \<longrightarrow> length part = n \<and> (buf \<noteq> [] \<longrightarrow> 0 < n)))"
proof (rule write_cases [OF assms(1), of "chunk buf"])
  fix n s1
  assume ok: "write (chunk buf) s = (Ok n, s1)" "n \<le> length (chunk buf)" "chunk buf \<noteq> [] \<Longrightarrow> 0 < n"
    "sent s1 = sent s @ take n (chunk buf)" "invar s1"
  have c: "prefix (chunk buf) buf" "buf \<noteq> [] \<Longrightarrow> chunk buf \<noteq> []"
    using assms(2) by (simp_all add: chunk_ok_def)
  from c(1) obtain zs where z: "buf = chunk buf @ zs" by (rule prefixE)
  have "take n (chunk buf) = take n (chunk buf @ zs)" using ok(2) by simp
  then have "take n (chunk buf) = take n buf" using z by metis
  moreover have "n \<le> length buf" using c(1) ok(2) prefix_length_le by fastforce
  ultimately show ?thesis
    using ok c(2) assms(3) by (auto simp: write_buf_def Let_def split: if_splits intro!: exI [of _ "take n buf"])
next
  fix e s1
  assume "write (chunk buf) s = (Err e, s1)" "sent s1 = sent s" "invar s1"
  then show ?thesis using assms(3) by (auto simp: write_buf_def Let_def)
qed

lemma write_all_buf_delivers:
  assumes "invar s" and "chunk_ok chunk" and "write_all_buf chunk write buf s = (r, buf', s')"
  shows "r \<noteq> Panic \<and> invar s' \<and>
    (\<exists>part. buf = part @ buf' \<and> sent s' = sent s @ part) \<and> (r = Ok () \<longrightarrow> buf' = [])"
  using assms(1,3)
proof (induction "length buf" arbitrary: buf s rule: less_induct)
  case less
  show ?case
  proof (cases "buf = []")
    case True
    then show ?thesis using less.prems by (subst (asm) write_all_buf.simps) auto
  next
    case False
    obtain r1 buf1 s1 where w: "write_buf chunk write buf s = (r1, buf1, s1)" by (metis prod_cases3)
    note a = write_buf_advances [OF less.prems(1) assms(2) w]
    then obtain part where p: "buf = part @ buf1" "sent s1 = sent s @ part"
        "\<And>n. r1 = Ok n \<Longrightarrow> length part = n \<and> 0 < n" using False by blast
    show ?thesis
    proof (cases r1)
      case (Ok n)
      have "write_all_buf chunk write buf1 s1 = (r, buf', s')"
        using less.prems(2) w False Ok p(3) by (subst (asm) write_all_buf.simps) simp
      moreover have "length buf1 < length buf" using p(1) p(3) [OF Ok] by simp
      ultimately have "r \<noteq> Panic \<and> invar s' \<and>
          (\<exists>part. buf1 = part @ buf' \<and> sent s' = sent s1 @ part) \<and> (r = Ok () \<longrightarrow> buf' = [])"
        using less.hyps a by blast
      then show ?thesis using p(1,2) by (metis append.assoc)
    next
      case (Err e)
      then show ?thesis using less.prems(2) w False a p(1,2) by (subst (asm) write_all_buf.simps) auto
    next
      case Panic
      then show ?thesis using a by simp
    qed
  qed
qed

lemma write_chunk_delivers:
  assumes "invar s" and "write_chunk write buf s = (r, s')"
  shows "r \<noteq> Panic \<and> invar s' \<and>
    (\<exists>part rest. buf = part @ rest \<and> sent s' = sent s @ part \<and> (r = Ok () \<longrightarrow> rest = []))"
proof -
  obtain buf' where "write_all_buf (\<lambda>b. b) write buf s = (r, buf', s')"
    using assms(2) by (auto simp: write_chunk_def split: prod.splits)
  then show ?thesis using write_all_buf_delivers [OF assms(1) chunk_ok_id] by blast
qed

end

interpretation partial_stream: send_stream PartialSendStream_write written "\<lambda>s. 0 < max_write s"
  by unfold_locales (auto simp: PartialSendStream_write_def Let_def)

subsection \<open>The contract of a receive stream\<close>

text \<open>
  \<open>content s\<close> are the bytes the stream still delivers before it ends. A read puts the next ones
  in front of the destination, at least one where there is room; \<^const>\<open>None\<close> means the end.
\<close>

definition buf_mut_ok :: "buf_mut \<Rightarrow> bool" where
  "buf_mut_ok M \<longleftrightarrow> (\<forall>b. chunk_mut_len M b \<le> remaining_mut M b \<and>
     (remaining_mut M b > 0 \<longrightarrow> chunk_mut_len M b > 0) \<and>
     (\<forall>xs. length xs \<le> remaining_mut M b \<longrightarrow> remaining_mut M (b @ xs) = remaining_mut M b - length xs))"

locale recv_stream =
  fixes read :: "('s, 'e) stream_read" and content :: "'s \<Rightarrow> bytes"
  assumes read_Some: "read dst s = (Ok (Some n), dst', s') \<Longrightarrow> n \<le> length dst \<and> length dst' = length dst \<and>
      (dst \<noteq> [] \<longrightarrow> 0 < n) \<and> content s = take n dst' @ content s'"
    and read_None: "read dst s = (Ok None, dst', s') \<Longrightarrow> content s = [] \<and> content s' = []"
    and read_no_panic: "fst (read dst s) \<noteq> Panic"
begin

lemma read_buf_delivers:
  assumes "buf_mut_ok M" and "read_buf M read buf s = (r, buf', s')"
  shows "r \<noteq> Panic"
    and "r = Ok (Some n) \<Longrightarrow> \<exists>xs. buf' = buf @ xs \<and> length xs = n \<and> content s = xs @ content s' \<and>
      n \<le> remaining_mut M buf \<and> n \<le> 8 * 1024 \<and> (remaining_mut M buf > 0 \<longrightarrow> 0 < n)"
    and "r = Ok None \<Longrightarrow> buf' = buf \<and> content s = []"
    and "r = Err e \<Longrightarrow> buf' = buf"
proof -
  let ?c = "min (chunk_mut_len M buf) (8 * 1024)"
  have M: "?c \<le> remaining_mut M buf" "remaining_mut M buf > 0 \<longrightarrow> ?c > 0"
    using assms(1) by (auto simp: buf_mut_ok_def min_le_iff_disj)
  obtain r1 dst s1 where rd: "read (replicate ?c 0) s = (r1, dst, s1)" by (metis prod_cases3)
  have np: "r1 \<noteq> Panic" using read_no_panic [of "replicate ?c 0" s] rd by simp
  have some: "n \<le> ?c \<and> length dst = ?c \<and> (?c > 0 \<longrightarrow> 0 < n) \<and> content s = take n dst @ content s1"
    if "r1 = Ok (Some n)" for n
    using read_Some rd that by (metis length_0_conv length_replicate neq0_conv)
  note r = assms(2) [unfolded read_buf_def Let_def rd]
  show "r \<noteq> Panic"
    using r np some M by (cases r1; cases "?c = 0") (fastforce split: option.splits if_splits)+
  show "\<exists>xs. buf' = buf @ xs \<and> length xs = n \<and> content s = xs @ content s' \<and>
      n \<le> remaining_mut M buf \<and> n \<le> 8 * 1024 \<and> (remaining_mut M buf > 0 \<longrightarrow> 0 < n)"
    if "r = Ok (Some n)"
  proof (cases "?c = 0")
    case True
    then show ?thesis using r M that by auto
  next
    case False
    then have "r1 = Ok (Some n)" "buf' = buf @ take n dst" "s' = s1"
      using r that by (auto split: res.splits option.splits if_splits)
    then show ?thesis using some [of n] False M by auto
  qed
  show "buf' = buf \<and> content s = []" if "r = Ok None"
    using r that rd read_None [of "replicate ?c 0" s dst s1]
    by (auto split: res.splits option.splits if_splits)
  show "buf' = buf" if "r = Err e"
    using r that by (auto split: res.splits option.splits if_splits)
qed

lemma read_all_buf_loop_delivers:
  assumes "buf_mut_ok M" and "sz + remaining_mut M buf < 2 ^ 64" and "length (content s) < fuel"
  shows "\<exists>r buf' s' xs. read_all_buf_loop fuel M read buf sz s = Some (r, buf', s') \<and> r \<noteq> Panic \<and>
    buf' = buf @ xs \<and> prefix xs (content s) \<and>
    (\<forall>n. r = Ok n \<longrightarrow> n = sz + length xs \<and> (xs = content s \<or> remaining_mut M buf' = 0))"
  using assms(2,3)
proof (induction fuel arbitrary: buf sz s)
  case (Suc fuel)
  show ?case
  proof (cases "remaining_mut M buf > 0")
    case True
    obtain r1 buf1 s1 where rd: "read_buf M read buf s = (r1, buf1, s1)" by (metis prod_cases3)
    note d = read_buf_delivers [OF assms(1) rd]
    show ?thesis
    proof (cases r1)
      case (Ok opt)
      show ?thesis
      proof (cases opt)
        case None
        then show ?thesis using True rd Ok d(3) by auto
      next
        case (Some n)
        then obtain xs where xs: "buf1 = buf @ xs" "length xs = n" "content s = xs @ content s1"
            "n \<le> remaining_mut M buf" "0 < n"
          using d(2) [of n] Ok True by blast
        have rem: "remaining_mut M buf1 = remaining_mut M buf - n"
          using assms(1) xs by (simp add: buf_mut_ok_def)
        have "length (content s) = n + length (content s1)" using arg_cong [OF xs(3), of length] xs(2) by simp
        then have pre: "sz + n + remaining_mut M buf1 < 2 ^ 64" "length (content s1) < fuel"
          using Suc.prems xs(4,5) rem by linarith+
        obtain r buf' s' ys where ih: "read_all_buf_loop fuel M read buf1 (sz + n) s1 = Some (r, buf', s')"
            "r \<noteq> Panic" "buf' = buf1 @ ys" "prefix ys (content s1)"
            "\<forall>k. r = Ok k \<longrightarrow> k = sz + n + length ys \<and> (ys = content s1 \<or> remaining_mut M buf' = 0)"
          using Suc.IH [OF pre] by blast
        have "read_all_buf_loop (Suc fuel) M read buf sz s = Some (r, buf', s')"
          using ih(1) True rd Ok Some xs(4) Suc.prems(1) by simp
        moreover have "prefix (xs @ ys) (content s)" using ih(4) xs(3) by simp
        moreover have "buf' = buf @ xs @ ys" using ih(3) xs(1) by simp
        moreover have "\<forall>k. r = Ok k \<longrightarrow> k = sz + length (xs @ ys) \<and>
            (xs @ ys = content s \<or> remaining_mut M buf' = 0)"
          using ih(5) xs(2,3) by auto
        ultimately show ?thesis using ih(2) by blast
      qed
    next
      case (Err e)
      then show ?thesis using True rd d(4) [of e] by auto
    next
      case Panic
      then show ?thesis using d(1) by simp
    qed
  qed auto
qed simp

lemma read_all_delivers:
  assumes "buf_mut_ok M" and "remaining_mut M [] < 2 ^ 64" and "length (content s) < fuel"
  shows "\<exists>r s'. read_all fuel M read s = Some (r, s') \<and> r \<noteq> Panic \<and>
    (\<forall>bs. r = Ok bs \<longrightarrow> prefix bs (content s) \<and> (bs = content s \<or> remaining_mut M bs = 0))"
proof -
  obtain r buf s' xs where r: "read_all_buf_loop fuel M read [] 0 s = Some (r, buf, s')" "r \<noteq> Panic"
      "buf = [] @ xs" "prefix xs (content s)" "\<forall>n. r = Ok n \<longrightarrow> n = 0 + length xs \<and> (xs = content s \<or> remaining_mut M buf = 0)"
    using read_all_buf_loop_delivers [of M 0 "[]" s fuel] assms by auto
  then show ?thesis by (cases r) (auto simp: read_all_def read_all_buf_def)
qed

lemma read_chunk_delivers:
  assumes "buf_mut_ok (with_capacity (min limit (8 * 1024)))" and "read_chunk with_capacity read limit s = (r, s')"
  shows "r \<noteq> Panic"
    and "r = Ok (Some bs) \<Longrightarrow> content s = bs @ content s' \<and> length bs \<le> 8 * 1024 \<and>
      (remaining_mut (with_capacity (min limit (8 * 1024))) [] > 0 \<longrightarrow> bs \<noteq> [])"
    and "r = Ok None \<Longrightarrow> content s = []"
proof -
  obtain r1 buf where b: "read_buf (with_capacity (min limit (8 * 1024))) read [] s = (r1, buf, s')"
      "r = map_ok (map_option (\<lambda>_. buf)) r1"
    using assms(2) by (auto simp: read_chunk_def split: prod.splits)
  note d = read_buf_delivers [OF assms(1) b(1)]
  show "r \<noteq> Panic" using d(1) b(2) by simp
  show "content s = bs @ content s' \<and> length bs \<le> 8 * 1024 \<and>
      (remaining_mut (with_capacity (min limit (8 * 1024))) [] > 0 \<longrightarrow> bs \<noteq> [])" if ok: "r = Ok (Some bs)"
  proof -
    obtain n where n: "r1 = Ok (Some n)" "buf = bs" using ok b(2) by (cases r1) auto
    show ?thesis using d(2) [OF n(1)] n(2) by auto
  qed
  show "content s = []" if "r = Ok None" using that b(2) d(3) by auto
qed

end

interpretation test_stream: recv_stream TestRecvStream_read "\<lambda>s. drop (pos s) (data s)"
proof
  fix dst dst' :: bytes and s s' :: TestRecvStream and n
  assume "TestRecvStream_read dst s = (Ok (Some n), dst', s')"
  then have r: "0 < length (data s) - pos s" "n = min (length (data s) - pos s) (length dst)"
      "dst' = take n (drop (pos s) (data s)) @ drop n dst" "s' = s\<lparr>pos := pos s + n\<rparr>"
    by (auto simp: TestRecvStream_read_def Let_def split: if_splits)
  have "drop (pos s) (data s) = take n (drop (pos s) (data s)) @ drop (pos s') (data s')"
    using r(4) by (simp add: add.commute) (metis append_take_drop_id drop_drop)
  moreover have "length (take n (drop (pos s) (data s))) = n" using r(2) by simp
  ultimately show "n \<le> length dst \<and> length dst' = length dst \<and> (dst \<noteq> [] \<longrightarrow> 0 < n) \<and>
      drop (pos s) (data s) = take n dst' @ drop (pos s') (data s')"
    using r by auto
qed (auto simp: TestRecvStream_read_def Let_def split: if_splits)

text \<open>
  A limit of 0 does not keep \<^verbatim>\<open>read_chunk\<close> from returning data: a \<^verbatim>\<open>BufMut\<close> that can grow always
  has room in its next chunk, whatever capacity it was created with.
\<close>

lemma read_chunk_limit_zero:
  assumes "buf_mut_ok (with_capacity 0)" and "remaining_mut (with_capacity 0) [] > 0"
  shows "read_chunk with_capacity TestRecvStream_read 0 \<lparr>data = [7], pos = 0\<rparr> =
    (Ok (Some [7]) :: (bytes option, 'e) res, \<lparr>data = [7], pos = 1\<rparr>)"
proof -
  let ?c = "min (chunk_mut_len (with_capacity 0) []) (8 * 1024)"
  have "0 < ?c" using assms by (auto simp: buf_mut_ok_def)
  then have "TestRecvStream_read (replicate ?c 0) \<lparr>data = [7], pos = 0\<rparr> =
      (Ok (Some 1) :: (nat option, 'e) res, 7 # drop 1 (replicate ?c 0), \<lparr>data = [7], pos = 1\<rparr>)"
    by (simp add: TestRecvStream_read_def Let_def min_def)
  then show ?thesis
    using \<open>0 < ?c\<close> assms(2) by (simp add: read_chunk_def read_buf_def Let_def)
qed

text \<open>A buffer that can always grow, up to the largest length.\<close>

definition growing_buf :: buf_mut where
  "growing_buf = \<lparr>chunk_mut_len = (\<lambda>b. min 64 (2 ^ 64 - 1 - length b)), remaining_mut = (\<lambda>b. 2 ^ 64 - 1 - length b)\<rparr>"

lemma growing_buf_ok: "buf_mut_ok growing_buf" "remaining_mut growing_buf [] < 2 ^ 64"
    "remaining_mut growing_buf [] > 0"
  by (simp_all add: buf_mut_ok_def growing_buf_def)

subsection \<open>Properties\<close>

text \<open>
  C34. The default writing methods over any stream that keeps the contract of \<^verbatim>\<open>write\<close>: they end
  without panicking, what reaches the stream is a prefix of the buffer, in order and exactly once,
  what they leave in the buffer is the rest of it, and success means that everything was sent.
\<close>

theorem trait_writes_deliver:
  assumes "send_stream write sent invar" and "invar s" and "chunk_ok chunk"
  shows "(\<exists>r s' part rest. write_all write buf s = (r, s') \<and> r \<noteq> Panic \<and> invar s' \<and> buf = part @ rest \<and>
      sent s' = sent s @ part \<and> (r = Ok () \<longrightarrow> rest = [])) \<and>
    (\<exists>r buf' s' part. write_all_buf chunk write buf s = (r, buf', s') \<and> r \<noteq> Panic \<and> invar s' \<and>
      buf = part @ buf' \<and> sent s' = sent s @ part \<and> (r = Ok () \<longrightarrow> buf' = [])) \<and>
    (\<exists>r s' part rest. write_chunk write buf s = (r, s') \<and> r \<noteq> Panic \<and> invar s' \<and> buf = part @ rest \<and>
      sent s' = sent s @ part \<and> (r = Ok () \<longrightarrow> rest = []))"
proof (intro conjI)
  note d = send_stream.write_all_delivers [OF assms(1,2)]
    send_stream.write_all_buf_delivers [OF assms(1-3)] send_stream.write_chunk_delivers [OF assms(1,2)]
  obtain r1 s1 where "write_all write buf s = (r1, s1)" by (metis prod.exhaust)
  then show "\<exists>r s' part rest. write_all write buf s = (r, s') \<and> r \<noteq> Panic \<and> invar s' \<and> buf = part @ rest \<and>
      sent s' = sent s @ part \<and> (r = Ok () \<longrightarrow> rest = [])"
    using d(1) [of buf r1 s1] by blast
  obtain r2 b2 s2 where "write_all_buf chunk write buf s = (r2, b2, s2)" by (metis prod_cases3)
  then show "\<exists>r buf' s' part. write_all_buf chunk write buf s = (r, buf', s') \<and> r \<noteq> Panic \<and> invar s' \<and>
      buf = part @ buf' \<and> sent s' = sent s @ part \<and> (r = Ok () \<longrightarrow> buf' = [])"
    using d(2) [of buf r2 b2 s2] by blast
  obtain r3 s3 where "write_chunk write buf s = (r3, s3)" by (metis prod.exhaust)
  then show "\<exists>r s' part rest. write_chunk write buf s = (r, s') \<and> r \<noteq> Panic \<and> invar s' \<and> buf = part @ rest \<and>
      sent s' = sent s @ part \<and> (r = Ok () \<longrightarrow> rest = [])"
    using d(3) [of buf r3 s3] by blast
qed

theorem trait_writes_deliver_witness:
  "\<exists>r s' part rest. write_all PartialSendStream_write [1, 2, 3] \<lparr>written = [9], max_write = 2\<rparr> =
       ((r :: (unit, unit) res), s') \<and> r \<noteq> Panic \<and> [1, 2, 3] = part @ rest \<and> written s' = [9] @ part"
  using trait_writes_deliver [OF partial_stream.send_stream_axioms _ chunk_ok_id,
      of "\<lparr>written = [9], max_write = 2\<rparr>" "[1, 2, 3]", THEN conjunct1]
  by auto

text \<open>
  C35. The default reading methods over any stream that keeps the contract of \<^verbatim>\<open>read\<close>:
  \<^verbatim>\<open>read_all\<close> ends, without panicking, and returns exactly the bytes the stream delivers before its
  end unless the buffer is full; \<^verbatim>\<open>read_chunk\<close> returns the next bytes, at most 8 KiB and at least
  one, or says that the stream has ended.
\<close>

theorem trait_reads_deliver:
  assumes "recv_stream read content" and "length (content s) < fuel"
    and "buf_mut_ok M" and "0 < remaining_mut M []" and "remaining_mut M [] < 2 ^ 64"
  shows "(\<exists>r s'. read_all fuel M read s = Some (r, s') \<and> r \<noteq> Panic \<and>
      (\<forall>bs. r = Ok bs \<longrightarrow> prefix bs (content s) \<and> (bs = content s \<or> remaining_mut M bs = 0))) \<and>
    (\<exists>r s'. read_chunk (\<lambda>_. M) read limit s = (r, s') \<and> r \<noteq> Panic \<and> (r = Ok None \<longrightarrow> content s = []) \<and>
      (\<forall>bs. r = Ok (Some bs) \<longrightarrow> content s = bs @ content s' \<and> 0 < length bs \<and> length bs \<le> 8 * 1024))"
proof (intro conjI)
  show "\<exists>r s'. read_all fuel M read s = Some (r, s') \<and> r \<noteq> Panic \<and>
      (\<forall>bs. r = Ok bs \<longrightarrow> prefix bs (content s) \<and> (bs = content s \<or> remaining_mut M bs = 0))"
    by (rule recv_stream.read_all_delivers [OF assms(1,3,5,2)])
  obtain r s' where r: "read_chunk (\<lambda>_. M) read limit s = (r, s')" by (metis prod.exhaust)
  show "\<exists>r s'. read_chunk (\<lambda>_. M) read limit s = (r, s') \<and> r \<noteq> Panic \<and> (r = Ok None \<longrightarrow> content s = []) \<and>
      (\<forall>bs. r = Ok (Some bs) \<longrightarrow> content s = bs @ content s' \<and> 0 < length bs \<and> length bs \<le> 8 * 1024)"
    using r recv_stream.read_chunk_delivers [OF assms(1) assms(3) r] assms(4) by auto
qed

theorem trait_reads_deliver_witness:
  "\<exists>r s'. read_all 10 growing_buf TestRecvStream_read \<lparr>data = [5, 6, 7], pos = 1\<rparr> = Some (r :: (bytes, unit) res, s') \<and>
     r \<noteq> Panic"
  using trait_reads_deliver [OF test_stream.recv_stream_axioms _ growing_buf_ok(1,3,2),
      of "\<lparr>data = [5, 6, 7], pos = 1\<rparr>" 10, THEN conjunct1]
  by auto

end
