(* ===== verification/Quinn_Error.thy ===== *)
theory Quinn_Error
  imports Error_Codes Utf8
begin

section \<open>Errors of the Quinn backend\<close>

text \<open>
  \<^verbatim>\<open>webtrans-quinn/src/error.rs\<close>: the errors of sessions and streams and their conversions from
  Quinn's. Of Quinn's error enums the constructors that the source matches are modelled; where it
  matches the rest with a wildcard, the rest is a type variable. \<^verbatim>\<open>unreachable!\<close> is a panic. The
  lemmas show that application codes and reasons cross the mapping unchanged in both directions,
  and what the code does with codes from outside the WebTransport range.
\<close>

subsection \<open>Quinn's errors\<close>

text \<open>A \<^verbatim>\<open>quinn::VarInt\<close> is its inner 64-bit value.\<close>

record quinn_ApplicationClose =
  error_code :: u64
  reason :: bytes

datatype 'c quinn_ConnectionError = ApplicationClosed quinn_ApplicationClose
  | OtherConnectionError 'c

datatype 'c quinn_WriteError = QW_Stopped u64 | QW_ConnectionLost "'c quinn_ConnectionError"
  | QW_ClosedStream | QW_ZeroRttRejected

datatype 'c quinn_ReadError = QR_Reset u64 | QR_ConnectionLost "'c quinn_ConnectionError"
  | QR_ClosedStream | QR_IllegalOrderedRead | QR_ZeroRttRejected

datatype 'c quinn_ReadExactError = QRX_FinishedEarly nat | QRX_ReadError "'c quinn_ReadError"

datatype 'c quinn_ReadToEndError = QRE_Read "'c quinn_ReadError" | QRE_TooLong

datatype 'c quinn_StoppedError = QS_ConnectionLost "'c quinn_ConnectionError" | QS_ZeroRttRejected

datatype 'c quinn_ResetError = QT_ConnectionLost "'c quinn_ConnectionError" | QT_ZeroRttRejected

subsection \<open>Errors of sessions and streams\<close>

datatype 'c WebTransportError = WT_Closed u32 bytes | WT_UnknownSession
  | WT_ReadError "'c quinn_ReadExactError" | WT_WriteError "'c quinn_WriteError"

datatype ('c, 'd) SessionError = SE_ConnectionError "'c quinn_ConnectionError"
  | SE_WebTransportError "'c WebTransportError" | SE_SendDatagramError 'd

definition SessionError_from :: "'c quinn_ConnectionError \<Rightarrow> ('c, 'd) SessionError" where
  "SessionError_from e =
     (case e of
        ApplicationClosed close \<Rightarrow>
          (case error_from_http3 (error_code close) of
             Some code \<Rightarrow> SE_WebTransportError (WT_Closed code (from_utf8_lossy (reason close)))
           | None \<Rightarrow> SE_ConnectionError e)
      | _ \<Rightarrow> SE_ConnectionError e)"

datatype ('c, 'd) WriteError = WE_Stopped u32 | WE_InvalidStopped u64
  | WE_SessionError "('c, 'd) SessionError" | WE_ClosedStream

definition WriteError_from :: "'c quinn_WriteError \<Rightarrow> (('c, 'd) WriteError, 'e) res" where
  "WriteError_from e =
     (case e of
        QW_Stopped code \<Rightarrow>
          (case error_from_http3 code of
             Some code \<Rightarrow> Ok (WE_Stopped code)
           | None \<Rightarrow> Ok (WE_InvalidStopped code))
      | QW_ClosedStream \<Rightarrow> Ok WE_ClosedStream
      | QW_ConnectionLost e \<Rightarrow> Ok (WE_SessionError (SessionError_from e))
      | QW_ZeroRttRejected \<Rightarrow> Panic)"

datatype ('c, 'd) ReadError = RE_SessionError "('c, 'd) SessionError" | RE_Reset u32
  | RE_InvalidReset u64 | RE_ClosedStream | RE_IllegalOrderedRead

definition ReadError_from :: "'c quinn_ReadError \<Rightarrow> (('c, 'd) ReadError, 'e) res" where
  "ReadError_from e =
     (case e of
        QR_Reset code \<Rightarrow>
          (case error_from_http3 code of
             Some code \<Rightarrow> Ok (RE_Reset code)
           | None \<Rightarrow> Ok (RE_InvalidReset code))
      | QR_ConnectionLost e \<Rightarrow> Ok (RE_SessionError (SessionError_from e))
      | QR_IllegalOrderedRead \<Rightarrow> Ok RE_IllegalOrderedRead
      | QR_ClosedStream \<Rightarrow> Ok RE_ClosedStream
      | QR_ZeroRttRejected \<Rightarrow> Panic)"

datatype ('c, 'd) ReadExactError = RXE_FinishedEarly nat | RXE_ReadError "('c, 'd) ReadError"

definition ReadExactError_from :: "'c quinn_ReadExactError \<Rightarrow> (('c, 'd) ReadExactError, 'e) res" where
  "ReadExactError_from e =
     (case e of
        QRX_FinishedEarly sz \<Rightarrow> Ok (RXE_FinishedEarly sz)
      | QRX_ReadError e \<Rightarrow> map_ok RXE_ReadError (ReadError_from e))"

datatype ('c, 'd) ReadToEndError = RTE_TooLong | RTE_ReadError "('c, 'd) ReadError"

definition ReadToEndError_from :: "'c quinn_ReadToEndError \<Rightarrow> (('c, 'd) ReadToEndError, 'e) res" where
  "ReadToEndError_from e =
     (case e of
        QRE_TooLong \<Rightarrow> Ok RTE_TooLong
      | QRE_Read e \<Rightarrow> map_ok RTE_ReadError (ReadError_from e))"

datatype ClosedStream = ClosedStream

definition ClosedStream_from :: "'q \<Rightarrow> ClosedStream" where
  "ClosedStream_from _ = ClosedStream"

subsection \<open>The error trait\<close>

definition SessionError_session_error :: "('c, 'd) SessionError \<Rightarrow> (u32 \<times> bytes) option" where
  "SessionError_session_error self =
     (case self of SE_WebTransportError (WT_Closed code why) \<Rightarrow> Some (code, why) | _ \<Rightarrow> None)"

definition WriteError_session_error :: "('c, 'd) WriteError \<Rightarrow> (u32 \<times> bytes) option" where
  "WriteError_session_error self =
     (case self of WE_SessionError e \<Rightarrow> SessionError_session_error e | _ \<Rightarrow> None)"

definition WriteError_stream_error :: "('c, 'd) WriteError \<Rightarrow> u32 option" where
  "WriteError_stream_error self = (case self of WE_Stopped code \<Rightarrow> Some code | _ \<Rightarrow> None)"

definition ReadError_session_error :: "('c, 'd) ReadError \<Rightarrow> (u32 \<times> bytes) option" where
  "ReadError_session_error self =
     (case self of RE_SessionError e \<Rightarrow> SessionError_session_error e | _ \<Rightarrow> None)"

definition ReadError_stream_error :: "('c, 'd) ReadError \<Rightarrow> u32 option" where
  "ReadError_stream_error self = (case self of RE_Reset code \<Rightarrow> Some code | _ \<Rightarrow> None)"

subsection \<open>What the conversions keep\<close>

named_theorems error_convs \<open>the conversions of errors\<close>

lemmas [error_convs] = SessionError_from_def WriteError_from_def ReadError_from_def ReadExactError_from_def
  ReadToEndError_from_def

lemmas error_trait = SessionError_session_error_def WriteError_session_error_def WriteError_stream_error_def
  ReadError_session_error_def ReadError_stream_error_def

lemma WriteError_from_Panic [simp]: "WriteError_from e = Panic \<longleftrightarrow> e = QW_ZeroRttRejected"
  by (cases e) (auto simp: WriteError_from_def split: option.splits)

lemma WriteError_from_not_Err [simp]: "WriteError_from e \<noteq> Err x"
  by (cases e) (auto simp: WriteError_from_def split: option.splits)

lemma ReadError_from_Panic [simp]: "ReadError_from e = Panic \<longleftrightarrow> e = QR_ZeroRttRejected"
  by (cases e) (auto simp: ReadError_from_def split: option.splits)

lemma ReadError_from_not_Err [simp]: "ReadError_from e \<noteq> Err x"
  by (cases e) (auto simp: ReadError_from_def split: option.splits)

lemma SessionError_from_closed:
  "SessionError_session_error (SessionError_from e) = Some (c, why) \<longleftrightarrow>
    (\<exists>close. e = ApplicationClosed close \<and> error_from_http3 (error_code close) = Some c \<and>
       why = from_utf8_lossy (reason close))"
  by (cases e) (auto simp: SessionError_from_def SessionError_session_error_def split: option.splits)

subsection \<open>Properties\<close>

text \<open>
  What a peer's codes become. A session error reports a code and a reason exactly when the peer
  closed the connection with a code of the WebTransport range, and then the decoded code and the
  reason as text; a code an application closed with arrives unchanged, valid UTF-8 reasons too. A
  stream error reports exactly the decoded codes of \<^verbatim>\<open>STOP_SENDING\<close> and \<^verbatim>\<open>RESET_STREAM\<close>; other codes
  are kept raw; and only the rejection of 0-RTT panics.
\<close>

theorem error_conversions_exact:
  "(SessionError_session_error (SessionError_from e) = Some (c, why) \<longleftrightarrow>
      (\<exists>close. e = ApplicationClosed close \<and> error_from_http3 (error_code close) = Some c \<and>
         why = from_utf8_lossy (reason close))) \<and>
   SessionError_session_error (SessionError_from (ApplicationClosed
      \<lparr>error_code = error_to_http3 code, reason = r\<rparr>)) = Some (code, from_utf8_lossy r) \<and>
   (\<exists>w. WriteError_from (QW_Stopped h) = Ok w \<and> WriteError_stream_error w = error_from_http3 h \<and>
      (error_from_http3 h = None \<longleftrightarrow> w = WE_InvalidStopped h)) \<and>
   (\<exists>w. ReadError_from (QR_Reset h) = Ok w \<and> ReadError_stream_error w = error_from_http3 h \<and>
      (error_from_http3 h = None \<longleftrightarrow> w = RE_InvalidReset h)) \<and>
   WriteError_from (QW_Stopped (error_to_http3 code)) = Ok (WE_Stopped code) \<and>
   ReadError_from (QR_Reset (error_to_http3 code)) = Ok (RE_Reset code) \<and>
   (WriteError_from we = Panic \<longleftrightarrow> we = QW_ZeroRttRejected) \<and>
   (ReadError_from re = Panic \<longleftrightarrow> re = QR_ZeroRttRejected)"
proof (intro conjI)
  show "SessionError_session_error (SessionError_from (ApplicationClosed
      \<lparr>error_code = error_to_http3 code, reason = r\<rparr>)) = Some (code, from_utf8_lossy r)"
    by (simp add: SessionError_from_def SessionError_session_error_def error_from_to)
  show "(SessionError_session_error (SessionError_from e) = Some (c, why)) \<longleftrightarrow>
      (\<exists>close. e = ApplicationClosed close \<and> error_from_http3 (error_code close) = Some c \<and>
         why = from_utf8_lossy (reason close))"
    by (rule SessionError_from_closed)
  show "(WriteError_from we = Panic) \<longleftrightarrow> we = QW_ZeroRttRejected"
    by (rule WriteError_from_Panic)
  show "(ReadError_from re = Panic) \<longleftrightarrow> re = QR_ZeroRttRejected"
    by (rule ReadError_from_Panic)
qed (auto simp: error_convs error_trait error_from_to split: option.splits)

end
