(* ===== verification/Quinn_Streams.thy ===== *)
theory Quinn_Streams
  imports Quinn_Error Traits
begin

section \<open>Streams of the Quinn backend\<close>

text \<open>
  \<^verbatim>\<open>webtrans-quinn/src/send.rs\<close> and \<^verbatim>\<open>recv.rs\<close>: the wrappers that map application codes into the
  HTTP/3 error space on the way out and Quinn's errors on the way in. Quinn's streams are the
  fields of \<open>quinn_send\<close> and \<open>quinn_recv\<close>, functions of the state of the stream; what the code
  relies on in them is \<open>quinn_send_laws\<close> and \<open>quinn_recv_laws\<close>. The lemmas show that the wrappers
  satisfy the contracts of the stream traits and that codes reach the peer unchanged.
\<close>

subsection \<open>Quinn's streams\<close>

record ('s, 'c, 'written, 'id) quinn_send =
  Q_VarInt_try_from :: "u64 \<Rightarrow> (u64, unit) res"
  Q_reset :: "u64 \<Rightarrow> 's \<Rightarrow> (unit, unit) res \<times> 's"
  Q_stopped :: "'s \<Rightarrow> (u64 option, 'c quinn_StoppedError) res"
  Q_write :: "bytes \<Rightarrow> 's \<Rightarrow> (nat, 'c quinn_WriteError) res \<times> 's"
  Q_write_all :: "bytes \<Rightarrow> 's \<Rightarrow> (unit, 'c quinn_WriteError) res \<times> 's"
  Q_write_chunks :: "bytes list \<Rightarrow> 's \<Rightarrow> ('written, 'c quinn_WriteError) res \<times> bytes list \<times> 's"
  Q_write_chunk :: "bytes \<Rightarrow> 's \<Rightarrow> (unit, 'c quinn_WriteError) res \<times> 's"
  Q_write_all_chunks :: "bytes list \<Rightarrow> 's \<Rightarrow> (unit, 'c quinn_WriteError) res \<times> bytes list \<times> 's"
  Q_finish :: "'s \<Rightarrow> (unit, unit) res \<times> 's"
  Q_set_priority :: "int \<Rightarrow> 's \<Rightarrow> (unit, unit) res \<times> 's"
  Q_priority :: "'s \<Rightarrow> (int, unit) res"
  Q_send_id :: "'s \<Rightarrow> 'id"

record ('s, 'c, 'chunk, 'id) quinn_recv =
  Q_recv_VarInt_try_from :: "u64 \<Rightarrow> (u64, unit) res"
  Q_stop :: "u64 \<Rightarrow> 's \<Rightarrow> (unit, unit) res \<times> 's"
  Q_read :: "bytes \<Rightarrow> 's \<Rightarrow> (nat option, 'c quinn_ReadError) res \<times> bytes \<times> 's"
  Q_read_exact :: "bytes \<Rightarrow> 's \<Rightarrow> (unit, 'c quinn_ReadExactError) res \<times> bytes \<times> 's"
  Q_read_chunk :: "nat \<Rightarrow> bool \<Rightarrow> 's \<Rightarrow> ('chunk option, 'c quinn_ReadError) res \<times> 's"
  Q_chunk_bytes :: "'chunk \<Rightarrow> bytes"
  Q_read_chunks :: "bytes list \<Rightarrow> 's \<Rightarrow> (nat option, 'c quinn_ReadError) res \<times> bytes list \<times> 's"
  Q_read_to_end :: "nat \<Rightarrow> 's \<Rightarrow> (bytes, 'c quinn_ReadToEndError) res \<times> 's"
  Q_received_reset :: "'s \<Rightarrow> (u64 option, 'c quinn_ResetError) res \<times> 's"
  Q_recv_id :: "'s \<Rightarrow> 'id"

text \<open>\<^verbatim>\<open>map_err(Into::into)\<close> for a conversion that may panic.\<close>

definition err_into :: "('e \<Rightarrow> ('f, unit) res) \<Rightarrow> ('a, 'e) res \<Rightarrow> ('a, 'f) res" where
  "err_into conv r = (case r of
      Ok x \<Rightarrow> Ok x | Err e \<Rightarrow> (case conv e of Ok d \<Rightarrow> Err d | _ \<Rightarrow> Panic) | Panic \<Rightarrow> Panic)"

text \<open>\<^verbatim>\<open>.ok()\<close> of a result that is then ignored: a panic still unwinds.\<close>

definition ok :: "('a, 'e) res \<Rightarrow> (unit, 'f) res" where
  "ok r = (case r of Panic \<Rightarrow> Panic | _ \<Rightarrow> Ok ())"

subsection \<open>Send streams\<close>

definition SendStream_reset :: "('s, 'c, 'w, 'i, 'z) quinn_send_scheme \<Rightarrow> u32 \<Rightarrow> 's \<Rightarrow>
    (unit, ClosedStream) res \<times> 's" where
  "SendStream_reset Q code s =
     (let code = error_to_http3 code in
      case unwrap (Q_VarInt_try_from Q code) :: (u64, unit) res of
        Ok code \<Rightarrow> (case Q_reset Q code s of (r, s) \<Rightarrow> (map_err ClosedStream_from r, s))
      | _ \<Rightarrow> (Panic, s))"

definition SendStream_stopped :: "('s, 'c, 'w, 'i, 'z) quinn_send_scheme \<Rightarrow> 's \<Rightarrow>
    (u32 option, ('c, 'd) SessionError) res" where
  "SendStream_stopped Q s =
     (case Q_stopped Q s of
        Ok (Some code) \<Rightarrow> Ok (error_from_http3 code)
      | Ok None \<Rightarrow> Ok None
      | Err (QS_ConnectionLost e) \<Rightarrow> Err (SessionError_from e)
      | Err QS_ZeroRttRejected \<Rightarrow> Panic
      | Panic \<Rightarrow> Panic)"

definition SendStream_write :: "('s, 'c, 'w, 'i, 'z) quinn_send_scheme \<Rightarrow> bytes \<Rightarrow> 's \<Rightarrow>
    (nat, ('c, 'd) WriteError) res \<times> 's" where
  "SendStream_write Q buf s = (case Q_write Q buf s of (r, s) \<Rightarrow> (err_into WriteError_from r, s))"

definition SendStream_write_all :: "('s, 'c, 'w, 'i, 'z) quinn_send_scheme \<Rightarrow> bytes \<Rightarrow> 's \<Rightarrow>
    (unit, ('c, 'd) WriteError) res \<times> 's" where
  "SendStream_write_all Q buf s = (case Q_write_all Q buf s of (r, s) \<Rightarrow> (err_into WriteError_from r, s))"

definition SendStream_write_chunks :: "('s, 'c, 'w, 'i, 'z) quinn_send_scheme \<Rightarrow> bytes list \<Rightarrow> 's \<Rightarrow>
    ('w, ('c, 'd) WriteError) res \<times> bytes list \<times> 's" where
  "SendStream_write_chunks Q bufs s =
     (case Q_write_chunks Q bufs s of (r, bufs, s) \<Rightarrow> (err_into WriteError_from r, bufs, s))"

definition SendStream_write_chunk :: "('s, 'c, 'w, 'i, 'z) quinn_send_scheme \<Rightarrow> bytes \<Rightarrow> 's \<Rightarrow>
    (unit, ('c, 'd) WriteError) res \<times> 's" where
  "SendStream_write_chunk Q buf s = (case Q_write_chunk Q buf s of (r, s) \<Rightarrow> (err_into WriteError_from r, s))"

definition SendStream_write_all_chunks :: "('s, 'c, 'w, 'i, 'z) quinn_send_scheme \<Rightarrow> bytes list \<Rightarrow> 's \<Rightarrow>
    (unit, ('c, 'd) WriteError) res \<times> bytes list \<times> 's" where
  "SendStream_write_all_chunks Q bufs s =
     (case Q_write_all_chunks Q bufs s of (r, bufs, s) \<Rightarrow> (err_into WriteError_from r, bufs, s))"

definition SendStream_finish :: "('s, 'c, 'w, 'i, 'z) quinn_send_scheme \<Rightarrow> 's \<Rightarrow> (unit, ClosedStream) res \<times> 's" where
  "SendStream_finish Q s = (case Q_finish Q s of (r, s) \<Rightarrow> (map_err ClosedStream_from r, s))"

definition SendStream_set_priority :: "('s, 'c, 'w, 'i, 'z) quinn_send_scheme \<Rightarrow> int \<Rightarrow> 's \<Rightarrow>
    (unit, ClosedStream) res \<times> 's" where
  "SendStream_set_priority Q order s =
     (case Q_set_priority Q order s of (r, s) \<Rightarrow> (map_err ClosedStream_from r, s))"

definition SendStream_priority :: "('s, 'c, 'w, 'i, 'z) quinn_send_scheme \<Rightarrow> 's \<Rightarrow> (int, ClosedStream) res" where
  "SendStream_priority Q s = map_err ClosedStream_from (Q_priority Q s)"

definition SendStream_quic_id :: "('s, 'c, 'w, 'i, 'z) quinn_send_scheme \<Rightarrow> 's \<Rightarrow> 'i" where
  "SendStream_quic_id Q s = Q_send_id Q s"

text \<open>The methods of the trait, \<^verbatim>\<open>order.into()\<close> being the value of the byte.\<close>

definition Trait_set_priority :: "('s, 'c, 'w, 'i, 'z) quinn_send_scheme \<Rightarrow> u8 \<Rightarrow> 's \<Rightarrow> (unit, unit) res \<times> 's" where
  "Trait_set_priority Q order s = (case SendStream_set_priority Q (uint order) s of (r, s) \<Rightarrow> (ok r, s))"

definition Trait_reset :: "('s, 'c, 'w, 'i, 'z) quinn_send_scheme \<Rightarrow> u32 \<Rightarrow> 's \<Rightarrow> (unit, unit) res \<times> 's" where
  "Trait_reset Q code s = (case SendStream_reset Q code s of (r, s) \<Rightarrow> (ok r, s))"

definition Trait_finish :: "('s, 'c, 'w, 'i, 'z) quinn_send_scheme \<Rightarrow> 's \<Rightarrow>
    (unit, ('c, 'd) WriteError) res \<times> 's" where
  "Trait_finish Q s = (case SendStream_finish Q s of (r, s) \<Rightarrow> (map_err (\<lambda>_. WE_ClosedStream) r, s))"

definition Trait_write :: "('s, 'c, 'w, 'i, 'z) quinn_send_scheme \<Rightarrow> bytes \<Rightarrow> 's \<Rightarrow>
    (nat, ('c, 'd) WriteError) res \<times> 's" where
  "Trait_write Q buf s = SendStream_write Q buf s"

text \<open>\<^verbatim>\<open>copy_to_bytes\<close> takes the chunk out of the buffer before it is written.\<close>

definition Trait_write_buf :: "('s, 'c, 'w, 'i, 'z) quinn_send_scheme \<Rightarrow> (bytes \<Rightarrow> bytes) \<Rightarrow> bytes \<Rightarrow> 's \<Rightarrow>
    (nat, ('c, 'd) WriteError) res \<times> bytes \<times> 's" where
  "Trait_write_buf Q chunk buf s =
     (let sz = length (chunk buf); c = take sz buf; buf = drop sz buf in
      case SendStream_write_chunk Q c s of (r, s) \<Rightarrow> (and_then r (\<lambda>_. Ok sz), buf, s))"

definition Trait_write_chunk :: "('s, 'c, 'w, 'i, 'z) quinn_send_scheme \<Rightarrow> bytes \<Rightarrow> 's \<Rightarrow>
    (unit, ('c, 'd) WriteError) res \<times> 's" where
  "Trait_write_chunk Q chunk s = SendStream_write_chunk Q chunk s"

definition Trait_send_closed :: "('s, 'c, 'w, 'i, 'z) quinn_send_scheme \<Rightarrow> 's \<Rightarrow> (unit, ('c, 'd) WriteError) res" where
  "Trait_send_closed Q s =
     and_then (map_err WE_SessionError (SendStream_stopped Q s)) (\<lambda>r. case r of
       Some code \<Rightarrow> Err (WE_Stopped code) | None \<Rightarrow> Ok ())"

subsection \<open>Receive streams\<close>

definition RecvStream_stop :: "('s, 'c, 'k, 'i, 'z) quinn_recv_scheme \<Rightarrow> u32 \<Rightarrow> 's \<Rightarrow> (unit, unit) res \<times> 's" where
  "RecvStream_stop Q code s =
     (let code = error_to_http3 code in
      case unwrap (Q_recv_VarInt_try_from Q code) :: (u64, unit) res of
        Ok code \<Rightarrow> Q_stop Q code s
      | _ \<Rightarrow> (Panic, s))"

definition RecvStream_read :: "('s, 'c, 'k, 'i, 'z) quinn_recv_scheme \<Rightarrow> bytes \<Rightarrow> 's \<Rightarrow>
    (nat option, ('c, 'd) ReadError) res \<times> bytes \<times> 's" where
  "RecvStream_read Q buf s = (case Q_read Q buf s of (r, buf, s) \<Rightarrow> (err_into ReadError_from r, buf, s))"

definition RecvStream_read_exact :: "('s, 'c, 'k, 'i, 'z) quinn_recv_scheme \<Rightarrow> bytes \<Rightarrow> 's \<Rightarrow>
    (unit, ('c, 'd) ReadExactError) res \<times> bytes \<times> 's" where
  "RecvStream_read_exact Q buf s =
     (case Q_read_exact Q buf s of (r, buf, s) \<Rightarrow> (err_into ReadExactError_from r, buf, s))"

definition RecvStream_read_chunk :: "('s, 'c, 'k, 'i, 'z) quinn_recv_scheme \<Rightarrow> nat \<Rightarrow> bool \<Rightarrow> 's \<Rightarrow>
    ('k option, ('c, 'd) ReadError) res \<times> 's" where
  "RecvStream_read_chunk Q max_length ordered s =
     (case Q_read_chunk Q max_length ordered s of (r, s) \<Rightarrow> (err_into ReadError_from r, s))"

definition RecvStream_read_chunks :: "('s, 'c, 'k, 'i, 'z) quinn_recv_scheme \<Rightarrow> bytes list \<Rightarrow> 's \<Rightarrow>
    (nat option, ('c, 'd) ReadError) res \<times> bytes list \<times> 's" where
  "RecvStream_read_chunks Q bufs s =
     (case Q_read_chunks Q bufs s of (r, bufs, s) \<Rightarrow> (err_into ReadError_from r, bufs, s))"

definition RecvStream_read_to_end :: "('s, 'c, 'k, 'i, 'z) quinn_recv_scheme \<Rightarrow> nat \<Rightarrow> 's \<Rightarrow>
    (bytes, ('c, 'd) ReadToEndError) res \<times> 's" where
  "RecvStream_read_to_end Q size_limit s =
     (case Q_read_to_end Q size_limit s of (r, s) \<Rightarrow> (err_into ReadToEndError_from r, s))"

definition RecvStream_received_reset :: "('s, 'c, 'k, 'i, 'z) quinn_recv_scheme \<Rightarrow> 's \<Rightarrow>
    (u32 option, ('c, 'd) SessionError) res \<times> 's" where
  "RecvStream_received_reset Q s =
     (case Q_received_reset Q s of
        (Ok None, s) \<Rightarrow> (Ok None, s)
      | (Ok (Some code), s) \<Rightarrow> (Ok (error_from_http3 code), s)
      | (Err (QT_ConnectionLost e), s) \<Rightarrow> (Err (SessionError_from e), s)
      | (Err QT_ZeroRttRejected, s) \<Rightarrow> (Panic, s)
      | (Panic, s) \<Rightarrow> (Panic, s))"

definition RecvStream_quic_id :: "('s, 'c, 'k, 'i, 'z) quinn_recv_scheme \<Rightarrow> 's \<Rightarrow> 'i" where
  "RecvStream_quic_id Q s = Q_recv_id Q s"

definition Trait_stop :: "('s, 'c, 'k, 'i, 'z) quinn_recv_scheme \<Rightarrow> u32 \<Rightarrow> 's \<Rightarrow> (unit, unit) res \<times> 's" where
  "Trait_stop Q code s = (case RecvStream_stop Q code s of (r, s) \<Rightarrow> (ok r, s))"

definition Trait_read :: "('s, 'c, 'k, 'i, 'z) quinn_recv_scheme \<Rightarrow> bytes \<Rightarrow> 's \<Rightarrow>
    (nat option, ('c, 'd) ReadError) res \<times> bytes \<times> 's" where
  "Trait_read Q dst s = RecvStream_read Q dst s"

definition Trait_read_chunk :: "('s, 'c, 'k, 'i, 'z) quinn_recv_scheme \<Rightarrow> nat \<Rightarrow> 's \<Rightarrow>
    (bytes option, ('c, 'd) ReadError) res \<times> 's" where
  "Trait_read_chunk Q limit s =
     (case RecvStream_read_chunk Q limit True s of (r, s) \<Rightarrow> (map_ok (map_option (Q_chunk_bytes Q)) r, s))"

definition Trait_recv_closed :: "('s, 'c, 'k, 'i, 'z) quinn_recv_scheme \<Rightarrow> 's \<Rightarrow>
    (unit, ('c, 'd) ReadError) res \<times> 's" where
  "Trait_recv_closed Q s =
     (case RecvStream_received_reset Q s of
        (r, s) \<Rightarrow> (and_then (map_err RE_SessionError r) (\<lambda>_. Ok ()), s))"

subsection \<open>What the code relies on in Quinn\<close>

text \<open>
  \<open>sent s\<close> are the bytes the stream has accepted, \<open>content s\<close> those it still delivers. A write
  accepts a prefix, not empty unless there is nothing to write; 0-RTT is never rejected, because
  it is never used.
\<close>

definition quinn_send_laws :: "('s, 'c, 'w, 'i, 'z) quinn_send_scheme \<Rightarrow> ('s \<Rightarrow> bytes) \<Rightarrow> bool" where
  "quinn_send_laws Q sent \<longleftrightarrow>
     (\<forall>x. unat x < 2 ^ 62 \<longrightarrow> Q_VarInt_try_from Q x = Ok x) \<and>
     (\<forall>bs s. case Q_write Q bs s of
         (Ok n, s') \<Rightarrow> n \<le> length bs \<and> (bs \<noteq> [] \<longrightarrow> 0 < n) \<and> sent s' = sent s @ take n bs
       | (Err e, s') \<Rightarrow> sent s' = sent s \<and> e \<noteq> QW_ZeroRttRejected
       | (Panic, _) \<Rightarrow> False) \<and>
     (\<forall>bs s. case Q_write_chunk Q bs s of
         (Ok _, s') \<Rightarrow> sent s' = sent s @ bs
       | (Err e, s') \<Rightarrow> (\<exists>n. sent s' = sent s @ take n bs) \<and> e \<noteq> QW_ZeroRttRejected
       | (Panic, _) \<Rightarrow> False)"

definition quinn_recv_laws :: "('s, 'c, 'k, 'i, 'z) quinn_recv_scheme \<Rightarrow> ('s \<Rightarrow> bytes) \<Rightarrow> bool" where
  "quinn_recv_laws Q content \<longleftrightarrow>
     (\<forall>x. unat x < 2 ^ 62 \<longrightarrow> Q_recv_VarInt_try_from Q x = Ok x) \<and>
     (\<forall>dst s. case Q_read Q dst s of
         (Ok (Some n), dst', s') \<Rightarrow> n \<le> length dst \<and> length dst' = length dst \<and> (dst \<noteq> [] \<longrightarrow> 0 < n) \<and>
           content s = take n dst' @ content s'
       | (Ok None, _, s') \<Rightarrow> content s = [] \<and> content s' = []
       | (Err e, _, _) \<Rightarrow> e \<noteq> QR_ZeroRttRejected
       | (Panic, _, _) \<Rightarrow> False)"

lemma error_code_fits: "unat (error_to_http3 code) < 2 ^ 62"
  using unat_to_http3_range(2) [of code] by simp

lemma err_into_Ok [simp]: "err_into conv r = Ok x \<longleftrightarrow> r = Ok x"
  by (auto simp: err_into_def split: res.splits)

lemma err_into_Err [simp]: "err_into conv r = Err d \<longleftrightarrow> (\<exists>e. r = Err e \<and> conv e = Ok d)"
  by (auto simp: err_into_def split: res.splits)

lemma err_into_Panic [simp]:
  "err_into conv r = Panic \<longleftrightarrow> r = Panic \<or> (\<exists>e. r = Err e \<and> (\<forall>d. conv e \<noteq> Ok d))"
  by (auto simp: err_into_def split: res.splits)

subsection \<open>The wrappers keep the contracts of the traits\<close>

lemma WriteError_from_Ok: "e \<noteq> QW_ZeroRttRejected \<Longrightarrow> \<exists>d. WriteError_from e = Ok d"
  by (cases "WriteError_from e :: (_, unit) res") (auto simp: WriteError_from_def split: quinn_WriteError.splits option.splits)

lemma ReadError_from_Ok: "e \<noteq> QR_ZeroRttRejected \<Longrightarrow> \<exists>d. ReadError_from e = Ok d"
  by (cases "ReadError_from e :: (_, unit) res") (auto simp: ReadError_from_def split: quinn_ReadError.splits option.splits)

lemma Trait_write_send_stream:
  assumes "quinn_send_laws Q sent"
  shows "send_stream (Trait_write Q :: _ \<Rightarrow> _ \<Rightarrow> (_, ('c, 'd) WriteError) res \<times> _) sent (\<lambda>_. True)"
proof -
  have w: "case Q_write Q bs s of
         (Ok n, s') \<Rightarrow> n \<le> length bs \<and> (bs \<noteq> [] \<longrightarrow> 0 < n) \<and> sent s' = sent s @ take n bs
       | (Err e, s') \<Rightarrow> sent s' = sent s \<and> e \<noteq> QW_ZeroRttRejected
       | (Panic, _) \<Rightarrow> False" for bs s
    using assms by (simp add: quinn_send_laws_def)
  show ?thesis
  proof
    fix bs s n s'
    assume "(Trait_write Q bs s :: (_, ('c, 'd) WriteError) res \<times> _) = (Ok n, s')"
    then show "n \<le> length bs \<and> (bs \<noteq> [] \<longrightarrow> 0 < n) \<and> sent s' = sent s @ take n bs"
      using w [of bs s] by (auto simp: Trait_write_def SendStream_write_def split: prod.splits)
  next
    fix bs s e s'
    assume "(Trait_write Q bs s :: (_, ('c, 'd) WriteError) res \<times> _) = (Err e, s')"
    then show "sent s' = sent s"
      using w [of bs s] by (auto simp: Trait_write_def SendStream_write_def split: prod.splits)
  next
    fix bs s
    show "fst (Trait_write Q bs s :: (_, ('c, 'd) WriteError) res \<times> _) \<noteq> Panic"
      using w [of bs s] WriteError_from_Ok
      by (auto simp: Trait_write_def SendStream_write_def split: prod.splits) blast
  qed simp
qed

lemma Trait_read_recv_stream:
  assumes "quinn_recv_laws Q content"
  shows "recv_stream (Trait_read Q :: _ \<Rightarrow> _ \<Rightarrow> (_, ('c, 'd) ReadError) res \<times> _ \<times> _) content"
proof -
  have r: "case Q_read Q dst s of
         (Ok (Some n), dst', s') \<Rightarrow> n \<le> length dst \<and> length dst' = length dst \<and> (dst \<noteq> [] \<longrightarrow> 0 < n) \<and>
           content s = take n dst' @ content s'
       | (Ok None, _, s') \<Rightarrow> content s = [] \<and> content s' = []
       | (Err e, _, _) \<Rightarrow> e \<noteq> QR_ZeroRttRejected
       | (Panic, _, _) \<Rightarrow> False" for dst s
    using assms by (simp add: quinn_recv_laws_def)
  show ?thesis
  proof
    fix dst dst' :: bytes and s n s'
    assume "(Trait_read Q dst s :: (_, ('c, 'd) ReadError) res \<times> _ \<times> _) = (Ok (Some n), dst', s')"
    then show "n \<le> length dst \<and> length dst' = length dst \<and> (dst \<noteq> [] \<longrightarrow> 0 < n) \<and>
        content s = take n dst' @ content s'"
      using r [where dst = dst and s = s] by (auto simp: Trait_read_def RecvStream_read_def split: prod.splits)
  next
    fix dst dst' :: bytes and s s'
    assume "(Trait_read Q dst s :: (_, ('c, 'd) ReadError) res \<times> _ \<times> _) = (Ok None, dst', s')"
    then show "content s = [] \<and> content s' = []"
      using r [where dst = dst and s = s] by (auto simp: Trait_read_def RecvStream_read_def split: prod.splits)
  next
    fix dst :: bytes and s
    show "fst (Trait_read Q dst s :: (_, ('c, 'd) ReadError) res \<times> _ \<times> _) \<noteq> Panic"
      using r [where dst = dst and s = s] ReadError_from_Ok
      by (auto simp: Trait_read_def RecvStream_read_def split: prod.splits) blast
  qed
qed

lemma Trait_write_chunk_delivers:
  fixes Q :: "('s, 'c, 'w, 'i, 'z) quinn_send_scheme" and r :: "(unit, ('c, 'd) WriteError) res"
  assumes "quinn_send_laws Q sent" and "Trait_write_chunk Q buf s = (r, s')"
  shows "r \<noteq> Panic \<and> (\<exists>part rest. buf = part @ rest \<and> sent s' = sent s @ part \<and> (r = Ok () \<longrightarrow> rest = []))"
proof -
  have w: "case Q_write_chunk Q buf s of
         (Ok _, s') \<Rightarrow> sent s' = sent s @ buf
       | (Err e, s') \<Rightarrow> (\<exists>n. sent s' = sent s @ take n buf) \<and> e \<noteq> QW_ZeroRttRejected
       | (Panic, _) \<Rightarrow> False"
    using assms(1) by (simp add: quinn_send_laws_def)
  obtain q s1 where q: "Q_write_chunk Q buf s = (q, s1)" by (metis prod.exhaust)
  then have r: "r = err_into WriteError_from q" "s' = s1"
    using assms(2) by (auto simp: Trait_write_chunk_def SendStream_write_chunk_def)
  show ?thesis
  proof (cases q)
    case (Ok u)
    then show ?thesis using w q r by (auto simp: err_into_def)
  next
    case (Err e)
    then obtain n and d :: "('c, 'd) WriteError" where
        n: "sent s1 = sent s @ take n buf" "WriteError_from e = (Ok d :: (_, unit) res)"
      using w q WriteError_from_Ok by fastforce
    then have "r = Err d" using r Err by simp
    then show ?thesis using n(1) r(2) by (intro conjI exI [of _ "take n buf"] exI [of _ "drop n buf"]) simp_all
  next
    case Panic
    then show ?thesis using w q by simp
  qed
qed

lemma Trait_write_buf_delivers:
  fixes Q :: "('s, 'c, 'w, 'i, 'z) quinn_send_scheme" and r :: "(nat, ('c, 'd) WriteError) res"
  assumes "quinn_send_laws Q sent" and "chunk_ok chunk" and "Trait_write_buf Q chunk buf s = (r, buf', s')"
  shows "r \<noteq> Panic \<and> buf = chunk buf @ buf' \<and>
    (\<forall>n. r = Ok n \<longrightarrow> n = length (chunk buf) \<and> sent s' = sent s @ chunk buf)"
proof -
  have "prefix (chunk buf) buf" using assms(2) by (simp add: chunk_ok_def)
  then have c: "take (length (chunk buf)) buf = chunk buf" "buf = chunk buf @ drop (length (chunk buf)) buf"
    by (metis append_eq_conv_conj prefix_def)+
  obtain q s1 where q: "Trait_write_chunk Q (chunk buf) s = (q :: (unit, ('c, 'd) WriteError) res, s1)"
    by (metis prod.exhaust)
  note d = Trait_write_chunk_delivers [OF assms(1) q]
  have "r = and_then q (\<lambda>_. Ok (length (chunk buf)))" "buf' = drop (length (chunk buf)) buf" "s' = s1"
    using assms(3) q c(1) by (auto simp: Trait_write_buf_def Trait_write_chunk_def Let_def)
  then show ?thesis using d c(2) by (cases q) auto
qed

text \<open>
  Waiting for the end of a receive stream forgets the code of a reset, while waiting for the end
  of a send stream reports the code of a stop.
\<close>

lemma Trait_recv_closed_forgets_reset:
  "Q_received_reset Q s = (Ok (Some h), s') \<Longrightarrow> Trait_recv_closed Q s = (Ok (), s')"
  by (simp add: Trait_recv_closed_def RecvStream_received_reset_def)

subsection \<open>An instance of Quinn's streams\<close>

text \<open>A send stream that records what it accepts and a receive stream over given bytes.\<close>

definition example_quinn_send :: "(bytes, unit, unit, unit) quinn_send" where
  "example_quinn_send = \<lparr>Q_VarInt_try_from = (\<lambda>x. if unat x < 2 ^ 62 then Ok x else Err ()),
    Q_reset = (\<lambda>_ s. (Ok (), s)), Q_stopped = (\<lambda>s. Ok None),
    Q_write = (\<lambda>bs s. (Ok (length bs), s @ bs)), Q_write_all = (\<lambda>bs s. (Ok (), s @ bs)),
    Q_write_chunks = (\<lambda>bss s. (Ok (), [], s @ concat bss)), Q_write_chunk = (\<lambda>bs s. (Ok (), s @ bs)),
    Q_write_all_chunks = (\<lambda>bss s. (Ok (), [], s @ concat bss)), Q_finish = (\<lambda>s. (Ok (), s)),
    Q_set_priority = (\<lambda>_ s. (Ok (), s)), Q_priority = (\<lambda>s. Ok 0), Q_send_id = (\<lambda>_. ())\<rparr>"

definition example_quinn_recv :: "(bytes, unit, bytes, unit) quinn_recv" where
  "example_quinn_recv = \<lparr>Q_recv_VarInt_try_from = (\<lambda>x. if unat x < 2 ^ 62 then Ok x else Err ()),
    Q_stop = (\<lambda>_ s. (Ok (), s)),
    Q_read = (\<lambda>dst s. if s = [] then (Ok None, dst, s)
      else (Ok (Some (min (length s) (length dst))), take (length dst) s @ drop (length s) dst, drop (length dst) s)),
    Q_read_exact = (\<lambda>dst s. if length dst \<le> length s then (Ok (), take (length dst) s, drop (length dst) s)
      else (Err (QRX_FinishedEarly (length s)), dst, [])),
    Q_read_chunk = (\<lambda>n _ s. (Ok (if s = [] then None else Some (take n s)), drop n s)),
    Q_chunk_bytes = (\<lambda>b. b), Q_read_chunks = (\<lambda>bss s. (Ok None, bss, s)),
    Q_read_to_end = (\<lambda>n s. if length s \<le> n then (Ok s, []) else (Err QRE_TooLong, s)),
    Q_received_reset = (\<lambda>s. (Ok None, s)), Q_recv_id = (\<lambda>_. ())\<rparr>"

lemma example_quinn_laws: "quinn_send_laws example_quinn_send (\<lambda>s. s)" "quinn_recv_laws example_quinn_recv (\<lambda>s. s)"
  by (auto simp: quinn_send_laws_def quinn_recv_laws_def example_quinn_send_def example_quinn_recv_def min_def)

subsection \<open>Properties\<close>

text \<open>
  The streams of the Quinn backend implement the stream traits: over Quinn streams that behave
  as documented, \<^verbatim>\<open>write\<close> and \<^verbatim>\<open>read\<close> satisfy the contracts on which all default methods rest, and the
  two methods the backend overrides deliver what the defaults deliver: a prefix in order, all of it
  on success, and a buffer advanced by exactly one chunk. None of them panics.
\<close>

theorem quinn_streams_refine_traits:
  assumes "quinn_send_laws Q sent" and "quinn_recv_laws R content"
  shows "send_stream (Trait_write Q :: _ \<Rightarrow> _ \<Rightarrow> (_, ('c, 'd) WriteError) res \<times> _) sent (\<lambda>_. True) \<and>
    recv_stream (Trait_read R :: _ \<Rightarrow> _ \<Rightarrow> (_, ('c, 'd) ReadError) res \<times> _ \<times> _) content \<and>
    (\<forall>buf s r s'. Trait_write_chunk Q buf s = (r :: (_, ('c, 'd) WriteError) res, s') \<longrightarrow> r \<noteq> Panic \<and>
      (\<exists>part rest. buf = part @ rest \<and> sent s' = sent s @ part \<and> (r = Ok () \<longrightarrow> rest = []))) \<and>
    (\<forall>chunk buf s r buf' s'. chunk_ok chunk \<and>
        Trait_write_buf Q chunk buf s = (r :: (_, ('c, 'd) WriteError) res, buf', s') \<longrightarrow> r \<noteq> Panic \<and>
      buf = chunk buf @ buf' \<and> (\<forall>n. r = Ok n \<longrightarrow> n = length (chunk buf) \<and> sent s' = sent s @ chunk buf))"
  using Trait_write_send_stream [OF assms(1)] Trait_read_recv_stream [OF assms(2)]
    Trait_write_chunk_delivers [OF assms(1)] Trait_write_buf_delivers [OF assms(1)]
  by blast

theorem quinn_streams_refine_traits_witness:
  "send_stream (Trait_write example_quinn_send :: _ \<Rightarrow> _ \<Rightarrow> (_, (unit, unit) WriteError) res \<times> _) (\<lambda>s. s) (\<lambda>_. True) \<and>
   (Trait_write_buf example_quinn_send (take 2) [1, 2, 3] [9] :: (_, (unit, unit) WriteError) res \<times> _) =
     (Ok 2, [3], [9, 1, 2])"
proof
  show "send_stream (Trait_write example_quinn_send :: _ \<Rightarrow> _ \<Rightarrow> (_, (unit, unit) WriteError) res \<times> _)
      (\<lambda>s. s) (\<lambda>_. True)"
    using quinn_streams_refine_traits [OF example_quinn_laws] by blast
  show "(Trait_write_buf example_quinn_send (take 2) [1, 2, 3] [9] :: (_, (unit, unit) WriteError) res \<times> _) =
     (Ok 2, [3], [9, 1, 2])"
    by (simp add: Trait_write_buf_def SendStream_write_chunk_def example_quinn_send_def err_into_def)
qed

text \<open>
  Application codes cross the wire unchanged: the code passed to \<^verbatim>\<open>reset\<close> is sent as its image
  in the HTTP/3 range, without a panic, and the peer's read fails with that code, also for a peer
  waiting for the reset; the code passed to \<^verbatim>\<open>stop\<close> reaches the peer's writes, and ends its wait for
  the end of the stream with that code.
\<close>

theorem stream_codes_reach_peer:
  assumes "quinn_send_laws Q sent" and "quinn_recv_laws R content"
  shows "SendStream_reset Q code s =
      (map_err ClosedStream_from (fst (Q_reset Q (error_to_http3 code) s)), snd (Q_reset Q (error_to_http3 code) s)) \<and>
    err_into ReadError_from (Err (QR_Reset (error_to_http3 code))) =
      (Err (RE_Reset code) :: (nat option, ('c, 'd) ReadError) res) \<and>
    (Q_received_reset R t = (Ok (Some (error_to_http3 code)), t') \<longrightarrow>
      RecvStream_received_reset R t = (Ok (Some code) :: (_, ('c, 'd) SessionError) res, t')) \<and>
    RecvStream_stop R code t = Q_stop R (error_to_http3 code) t \<and>
    err_into WriteError_from (Err (QW_Stopped (error_to_http3 code))) =
      (Err (WE_Stopped code) :: (nat, ('c, 'd) WriteError) res) \<and>
    (Q_stopped Q s = Ok (Some (error_to_http3 code)) \<longrightarrow>
      Trait_send_closed Q s = (Err (WE_Stopped code) :: (_, ('c, 'd) WriteError) res))"
proof -
  have "Q_VarInt_try_from Q (error_to_http3 code) = Ok (error_to_http3 code)"
      "Q_recv_VarInt_try_from R (error_to_http3 code) = Ok (error_to_http3 code)"
    using assms error_code_fits by (auto simp: quinn_send_laws_def quinn_recv_laws_def)
  then show ?thesis
    by (simp add: SendStream_reset_def RecvStream_stop_def RecvStream_received_reset_def Trait_send_closed_def
        SendStream_stopped_def error_convs error_from_to split_def)
qed

theorem stream_codes_reach_peer_witness:
  "SendStream_reset example_quinn_send 7 [1] = (Ok (), [1]) \<and> RecvStream_stop example_quinn_recv 7 [2] = (Ok (), [2])"
proof -
  have q: "Q_reset example_quinn_send c s = (Ok (), s)" "Q_stop example_quinn_recv c s = (Ok (), s)" for c s
    by (simp_all add: example_quinn_send_def example_quinn_recv_def)
  show ?thesis
    using stream_codes_reach_peer [OF example_quinn_laws, where 'd = unit, of 7 "[1]" "[2]" "[2]"]
    unfolding q fst_conv snd_conv map_err.simps by blast
qed

end
