(* ===== verification/Capsule_Stream.thy ===== *)
theory Capsule_Stream
  imports Capsules Error_Codes
begin

section \<open>Capsules on the CONNECT stream\<close>

text \<open>
  The part of \<^verbatim>\<open>webtrans-quinn/src/session.rs\<close> that carries capsules in DATA frames: the
  reassembly of capsules from frames of any size, the writer, the close reason and the test for a
  graceful end. The Quion backend has the same functions. The lemmas show that the capsules read
  depend only on the concatenated payloads of the DATA frames, and that the reassembly buffer is
  bounded.
\<close>

subsection \<open>Definitions\<close>

definition MAX_CAPSULE_FRAME_SIZE :: nat where "MAX_CAPSULE_FRAME_SIZE = 2 * 1024"

record CloseCommand =
  close_code :: u32
  close_reason :: bytes

text \<open>\<open>message\<close> is the \<^verbatim>\<open>to_string()\<close> of the I/O error.\<close>

definition to_ascii_lowercase :: "bytes \<Rightarrow> bytes" where
  "to_ascii_lowercase s = map (\<lambda>b. if 0x41 \<le> b \<and> b \<le> 0x5A then b + 0x20 else b) s"

definition is_graceful_close :: "CapsuleError \<Rightarrow> bool" where
  "is_graceful_close e =
     (case e of
        CapsuleError_Io ioe \<Rightarrow>
          kind ioe \<in> {UnexpectedEof, BrokenPipe, ConnectionReset, ConnectionAborted, NotConnected} \<or>
          sublist (str ''connection lost'') (to_ascii_lowercase (message ioe))
      | CapsuleError_UnexpectedEnd \<Rightarrow> True
      | _ \<Rightarrow> False)"

text \<open>The position of the cursor is what the two integers took from the front of the buffer.\<close>

definition decode_buffered_capsule :: "bytes \<Rightarrow> (Capsule option \<times> bytes, CapsuleError) res" where
  "decode_buffered_capsule pending =
     (case VarInt_decode pending of
        Err _ \<Rightarrow> Ok (None, pending)
      | Panic \<Rightarrow> Panic
      | Ok (_, cursor) \<Rightarrow>
          (case VarInt_decode cursor of
             Err _ \<Rightarrow> Ok (None, pending)
           | Panic \<Rightarrow> Panic
           | Ok (len, cursor) \<Rightarrow>
               and_then (ok_or CapsuleError_MessageTooLong (usize_try_from (into_inner len))) (\<lambda>len.
                 if len > 1028 then Err CapsuleError_MessageTooLong
                 else
                   let total = (length pending - length cursor) + len in
                   if length pending < total then Ok (None, pending)
                   else and_then (Capsule_decode (take total pending)) (\<lambda>(c, _).
                     Ok (Some c, drop total pending)))))"

fun read_capsule_frame :: "nat \<Rightarrow> 's reader \<Rightarrow> 's \<Rightarrow> bytes \<Rightarrow> (Capsule \<times> 's \<times> bytes, CapsuleError) res option" where
  "read_capsule_frame 0 rd recv pending = None"
| "read_capsule_frame (Suc fuel) rd recv pending =
     (case decode_buffered_capsule pending of
        Err e \<Rightarrow> Some (Err e)
      | Panic \<Rightarrow> Some Panic
      | Ok (Some capsule, pending) \<Rightarrow> Some (Ok (capsule, recv, pending))
      | Ok (None, pending) \<Rightarrow>
          (case read_tlv CapsuleError_UnexpectedEnd CapsuleError_MessageTooLong CapsuleError_Io
              MAX_CAPSULE_FRAME_SIZE rd recv of
             Err e \<Rightarrow> Some (Err e)
           | Panic \<Rightarrow> Some Panic
           | Ok ((typ, payload), recv) \<Rightarrow>
               if Frame_is_grease (Frame typ) then read_capsule_frame fuel rd recv pending
               else if Frame typ \<noteq> Frame_DATA then read_capsule_frame fuel rd recv pending
               else read_capsule_frame fuel rd recv (pending @ payload)))"

text \<open>\<open>wr\<close> is \<^verbatim>\<open>AsyncWriteExt::write_all\<close> of the send side of the CONNECT stream.\<close>

definition write_capsule_frame :: "(bytes \<Rightarrow> 's \<Rightarrow> (unit, io_error) res \<times> 's) \<Rightarrow> Capsule \<Rightarrow> 's \<Rightarrow>
    (unit, CapsuleError) res \<times> 's" where
  "write_capsule_frame wr capsule send =
     (case and_then (Capsule_encode capsule []) (\<lambda>payload.
           and_then (Frame_encode Frame_DATA []) (\<lambda>frame.
           and_then (map_err (\<lambda>_. CapsuleError_MessageTooLong) (VarInt_try_from_usize (length payload))) (\<lambda>len.
           and_then (VarInt_encode len frame) (\<lambda>frame. Ok (frame @ payload))))) of
        Err e \<Rightarrow> (Err e, send)
      | Panic \<Rightarrow> (Panic, send)
      | Ok frame \<Rightarrow> (case wr frame send of (r, send) \<Rightarrow> (map_err CapsuleError_Io r, send)))"

function capsule_reason_loop :: "bytes \<Rightarrow> bytes" where
  "capsule_reason_loop r = (if length r > 1024 then capsule_reason_loop (String_pop r) else r)"
  by pat_completeness auto
termination
  by (relation "measure length") (auto intro: String_pop_shorter)

declare capsule_reason_loop.simps [simp del]

definition capsule_reason :: "bytes \<Rightarrow> bytes" where
  "capsule_reason r = capsule_reason_loop (from_utf8_lossy r)"

subsection \<open>The reassembly buffer\<close>

lemma decode_buffered_no_panic [simp]: "decode_buffered_capsule p \<noteq> Panic"
  by (auto simp: decode_buffered_capsule_def and_then_Panic_iff Let_def split: res.splits)

lemma decode_buffered_None: "decode_buffered_capsule p = Ok (None, p') \<Longrightarrow> p' = p"
  by (auto simp: decode_buffered_capsule_def Let_def split: res.splits if_splits)

text \<open>More bytes behind a decided buffer change nothing.\<close>

lemma decode_buffered_append:
  assumes "decode_buffered_capsule p \<noteq> Ok (None, p)"
  shows "decode_buffered_capsule (p @ x) =
    map_ok (\<lambda>(c, q). (c, q @ x)) (decode_buffered_capsule p)"
proof -
  from assms obtain ty b1 where d1: "VarInt_decode p = Ok (ty, b1)"
    by (auto simp: decode_buffered_capsule_def split: res.splits)
  with assms obtain len b2 where d2: "VarInt_decode b1 = Ok (len, b2)"
    by (auto simp: decode_buffered_capsule_def split: res.splits)
  have le: "length b2 \<le> length p"
    using VarInt_decode_shorter [OF d1] VarInt_decode_shorter [OF d2] by simp
  note dec = decode_buffered_capsule_def d1 d2 VarInt_decode_append [OF d1] VarInt_decode_append [OF d2]
  show ?thesis
  proof (cases "1028 < unat (into_inner len)")
    case True
    then show ?thesis by (simp add: dec)
  next
    case False
    define total where "total = length p - length b2 + unat (into_inner len)"
    have "\<not> length p < total" using assms False by (auto simp: dec total_def)
    then show ?thesis
      using False le unfolding total_def
      by (cases "Capsule_decode (take total p)") (auto simp: dec Let_def total_def)
  qed
qed

lemma decode_buffered_wire:
  assumes "capsule_ok c"
  shows "decode_buffered_capsule (capsule_wire c @ rest) = Ok (Some c, rest)"
proof -
  let ?p = "snd (capsule_parts c)"
  note parts = capsule_parts_ok [OF assms, of "fst (capsule_parts c)" ?p, simplified]
  have "length ?p < 2 ^ 62" using parts(3) by simp
  note len = VarInt_try_from_usize_ok(2) [OF this]
  have "VarInt_decode (capsule_wire c @ rest) =
      Ok (fst (capsule_parts c), varint_wire (VarInt (of_nat (length ?p))) @ ?p @ rest)"
    using parts(1) by (simp add: capsule_wire_def frame_wire_def varint.dec_wire)
  moreover have "VarInt_decode (varint_wire (VarInt (of_nat (length ?p))) @ ?p @ rest) =
      Ok (VarInt (of_nat (length ?p)), ?p @ rest)"
    using len by (rule varint.dec_wire)
  moreover have "length (capsule_wire c @ rest) - length (?p @ rest) + length ?p = length (capsule_wire c)"
    by (simp add: capsule_wire_def frame_wire_def)
  moreover have "unat (of_nat (length ?p) :: u64) = length ?p" "length ?p \<le> 1028"
    using parts(2,3) by (simp_all add: unat_of_nat capsule_limits)
  moreover have "Capsule_decode (capsule_wire c) = Ok (c, [])"
    using capsule.dec_wire [OF assms, of "[]"] by simp
  ultimately show ?thesis
    by (simp add: decode_buffered_capsule_def Let_def)
qed

lemma varint_size_le_8: "2 ^ (unat (b :: u8) div 64) \<le> (8 :: nat)"
proof -
  have "unat b div 64 \<le> 3" using unat_u8_less [of b] by simp
  then have "(2::nat) ^ (unat b div 64) \<le> 2 ^ 3" by (intro power_increasing) simp_all
  then show ?thesis by simp
qed

lemma VarInt_decode_Err_short: "VarInt_decode p = Err e \<Longrightarrow> length p < 8"
proof (cases p)
  case (Cons b r)
  moreover assume "VarInt_decode p = Err e"
  ultimately have "length r < 2 ^ (unat b div 64) - 1"
    by (simp add: VarInt_decode_Cons Let_def split: if_splits)
  then show ?thesis using Cons varint_size_le_8 [of b] by simp
qed simp

lemma VarInt_decode_takes: "VarInt_decode p = Ok (v, r) \<Longrightarrow> length p \<le> length r + 8"
proof (erule VarInt_decode_Ok)
  fix b t assume "p = b # t @ r" "length t = 2 ^ (unat b div 64) - 1"
  then show ?thesis using varint_size_le_8 [of b] by simp
qed

lemma decode_buffered_None_bound: "decode_buffered_capsule p = Ok (None, q) \<Longrightarrow> length p < 1044"
proof -
  assume n: "decode_buffered_capsule p = Ok (None, q)"
  show ?thesis
  proof (cases "VarInt_decode p")
    case (Err e)
    then show ?thesis using VarInt_decode_Err_short by fastforce
  next
    case (Ok a)
    then obtain ty b1 where d1: "VarInt_decode p = Ok (ty, b1)" by (cases a) simp
    note t1 = VarInt_decode_takes [OF d1]
    show ?thesis
    proof (cases "VarInt_decode b1")
      case (Err e)
      then show ?thesis using VarInt_decode_Err_short t1 by fastforce
    next
      case (Ok a)
      then obtain len b2 where d2: "VarInt_decode b1 = Ok (len, b2)" by (cases a) simp
      have "length p < length p - length b2 + unat (into_inner len)" "unat (into_inner len) \<le> 1028"
        using n by (auto simp: decode_buffered_capsule_def d1 d2 Let_def split: if_splits)
      then show ?thesis using t1 VarInt_decode_takes [OF d2] by linarith
    qed simp
  qed simp
qed

lemma decode_buffered_Some_shorter: "decode_buffered_capsule p = Ok (Some c, q) \<Longrightarrow> length q \<le> length p \<and> capsule_ok c"
  by (auto simp: decode_buffered_capsule_def Let_def split: res.splits if_splits elim!: Capsule_decode_Ok)

subsection \<open>Reading capsules from frames\<close>

text \<open>What the capsule protocol sees of a sequence of frames: the payloads of the DATA frames.\<close>

definition data_payloads :: "(Frame \<times> bytes) list \<Rightarrow> bytes" where
  "data_payloads fs = concat (map snd (filter (\<lambda>f. fst f = Frame_DATA) fs))"

definition capsule_frames_ok :: "(Frame \<times> bytes) list \<Rightarrow> bool" where
  "capsule_frames_ok fs \<longleftrightarrow> (\<forall>f \<in> set fs. frame_ok f \<and> length (snd f) \<le> MAX_CAPSULE_FRAME_SIZE)"

lemma data_payloads_simps [simp]: "data_payloads [] = []"
  "data_payloads (f # fs) = (if fst f = Frame_DATA then snd f @ data_payloads fs else data_payloads fs)"
  by (simp_all add: data_payloads_def)

lemma capsule_frames_ok_Cons [simp]: "capsule_frames_ok (f # fs) \<longleftrightarrow>
    frame_ok f \<and> length (snd f) \<le> MAX_CAPSULE_FRAME_SIZE \<and> capsule_frames_ok fs" "capsule_frames_ok []"
  by (auto simp: capsule_frames_ok_def)

text \<open>\<open>answer c q\<close> is what the reader returns where the complete bytes decode to \<open>c\<close>, leaving \<open>q\<close>.\<close>

lemma read_capsule_frame_frames:
  assumes rd: "reads_exactly rd content"
  shows "content s = concat (map frame_wire fs) @ rest \<Longrightarrow> capsule_frames_ok fs \<Longrightarrow> length fs < fuel \<Longrightarrow>
      decode_buffered_capsule (pending @ data_payloads fs) = Ok (Some c, q) \<Longrightarrow>
      \<exists>s' p' gs. read_capsule_frame fuel rd s pending = Some (Ok (c, s', p')) \<and>
        content s' = concat (map frame_wire gs) @ rest \<and> capsule_frames_ok gs \<and> length gs \<le> length fs \<and>
        p' @ data_payloads gs = q"
    and "content s = concat (map frame_wire fs) @ rest \<Longrightarrow> capsule_frames_ok fs \<Longrightarrow> length fs < fuel \<Longrightarrow>
      decode_buffered_capsule (pending @ data_payloads fs) = Err e \<Longrightarrow>
      read_capsule_frame fuel rd s pending = Some (Err e)"
proof (induction fuel arbitrary: s pending fs)
  case (Suc fuel)
  have tlv: "\<exists>s1. read_tlv CapsuleError_UnexpectedEnd CapsuleError_MessageTooLong CapsuleError_Io
        MAX_CAPSULE_FRAME_SIZE rd s = Ok ((frame_type (fst f), snd f), s1) \<and>
        content s1 = concat (map frame_wire gs) @ rest"
    if "fs = f # gs" "content s = concat (map frame_wire fs) @ rest" "capsule_frames_ok fs" for f gs fs s
    using that read_tlv_wire(1) [OF rd, of s "frame_type (fst f)" "snd f" "concat (map frame_wire gs) @ rest"]
    by (auto simp: frame_ok_def)
  {
    case 1
    show ?case
    proof (cases "decode_buffered_capsule pending = Ok (None, pending)")
      case False
      note a = decode_buffered_append [OF False, of "data_payloads fs"]
      then obtain p' where "decode_buffered_capsule pending = Ok (Some c, p')" "q = p' @ data_payloads fs"
        using 1(4) by (cases "decode_buffered_capsule pending") auto
      then show ?thesis using 1 by auto
    next
      case True
      then obtain f gs where fs: "fs = f # gs" using 1(4) by (cases fs) auto
      obtain s1 where s1: "read_tlv CapsuleError_UnexpectedEnd CapsuleError_MessageTooLong CapsuleError_Io
          MAX_CAPSULE_FRAME_SIZE rd s = Ok ((frame_type (fst f), snd f), s1)"
          "content s1 = concat (map frame_wire gs) @ rest"
        using tlv [OF fs 1(1,2)] by blast
      show ?thesis
        using Suc.IH(1) [OF s1(2), of "if fst f = Frame_DATA then pending @ snd f else pending"] 1(2-4) fs True s1(1)
        by (cases "fst f = Frame_DATA") (auto simp: frame_types_not_grease, (blast intro: le_SucI)+)
    qed
  next
    case 2
    show ?case
    proof (cases "decode_buffered_capsule pending = Ok (None, pending)")
      case False
      note a = decode_buffered_append [OF False, of "data_payloads fs"]
      then have "decode_buffered_capsule pending = Err e"
        using 2(4) by (cases "decode_buffered_capsule pending") auto
      then show ?thesis by simp
    next
      case True
      then obtain f gs where fs: "fs = f # gs" using 2(4) by (cases fs) auto
      obtain s1 where s1: "read_tlv CapsuleError_UnexpectedEnd CapsuleError_MessageTooLong CapsuleError_Io
          MAX_CAPSULE_FRAME_SIZE rd s = Ok ((frame_type (fst f), snd f), s1)"
          "content s1 = concat (map frame_wire gs) @ rest"
        using tlv [OF fs 2(1,2)] by blast
      show ?thesis
        using Suc.IH(2) [OF s1(2), of "if fst f = Frame_DATA then pending @ snd f else pending"] 2(2-4) fs True s1(1)
        by (cases "fst f = Frame_DATA") (auto simp: frame_types_not_grease)
    qed
  }
qed simp_all

text \<open>The reader returns on every stream, without panicking, with a bounded buffer.\<close>

lemma read_capsule_frame_returns:
  assumes rd: "reads_exactly rd content"
  shows "length (content s) < fuel \<Longrightarrow> read_capsule_frame fuel rd s pending \<noteq> None"
    and "read_capsule_frame fuel rd s pending \<noteq> Some Panic"
    and "length pending \<le> 3091 \<Longrightarrow> read_capsule_frame fuel rd s pending = Some (Ok (c, s', p')) \<Longrightarrow>
      length p' \<le> 3091 \<and> capsule_ok c"
proof (induction fuel arbitrary: s pending)
  case (Suc fuel)
  let ?tlv = "\<lambda>s. read_tlv CapsuleError_UnexpectedEnd CapsuleError_MessageTooLong CapsuleError_Io MAX_CAPSULE_FRAME_SIZE rd s"
  have shorter: "length (content s1) < length (content s)" if "?tlv s = Ok (f, s1)" for f s s1
    using read_tlv_shorter [OF rd that] .
  have limit: "length payload \<le> 2048" if "?tlv s = Ok ((ty, payload), s1)" for ty payload s s1
    using rd that by (rule read_tlv_Ok) (simp add: MAX_CAPSULE_FRAME_SIZE_def)
  {
    case 1
    then show ?case
      using Suc.IH(1) shorter [of s] decode_buffered_no_panic [of pending]
      by (fastforce split: res.split option.split prod.split)
  next
    case 2
    then show ?case
      using Suc.IH(2) by (auto simp: read_tlv_no_panic [OF rd] split: res.split option.split prod.split)
  next
    case 3
    show ?case
    proof (cases "decode_buffered_capsule pending = Ok (None, pending)")
      case True
      then have "length pending < 1044" by (rule decode_buffered_None_bound)
      moreover from 3(2) True obtain ty payload s1 more where t: "?tlv s = Ok ((ty, payload), s1)"
          and r: "read_capsule_frame fuel rd s1 (pending @ more) = Some (Ok (c, s', p'))" "more = [] \<or> more = payload"
        by (auto split: res.splits if_splits) (metis append_Nil2)+
      ultimately have "length (pending @ more) \<le> 3091" using limit [OF t] by auto
      then show ?thesis using r(1) by (rule Suc.IH(3))
    next
      case False
      then show ?thesis
        using 3 decode_buffered_None [of pending] decode_buffered_Some_shorter [of pending]
        by (auto split: res.splits option.splits)
    qed
  }
qed simp_all

text \<open>Reading one capsule after another.\<close>

fun read_capsules :: "nat \<Rightarrow> nat \<Rightarrow> 's reader \<Rightarrow> 's \<Rightarrow> bytes \<Rightarrow> Capsule list option" where
  "read_capsules 0 fuel rd s pending = Some []"
| "read_capsules (Suc n) fuel rd s pending =
     (case read_capsule_frame fuel rd s pending of
        Some (Ok (c, s, pending)) \<Rightarrow> map_option ((#) c) (read_capsules n fuel rd s pending)
      | _ \<Rightarrow> None)"

lemma read_capsules_frames:
  assumes rd: "reads_exactly rd content"
  shows "content s = concat (map frame_wire fs) @ rest \<Longrightarrow> capsule_frames_ok fs \<Longrightarrow> length fs < fuel \<Longrightarrow>
    pending @ data_payloads fs = concat (map capsule_wire cs) @ tail \<Longrightarrow> \<forall>c \<in> set cs. capsule_ok c \<Longrightarrow>
    read_capsules (length cs) fuel rd s pending = Some cs"
proof (induction cs arbitrary: s fs pending)
  case (Cons c cs)
  have "decode_buffered_capsule (pending @ data_payloads fs) = Ok (Some c, concat (map capsule_wire cs) @ tail)"
    using Cons.prems(4,5) decode_buffered_wire [of c "concat (map capsule_wire cs) @ tail"] by simp
  then obtain s' p' gs where r: "read_capsule_frame fuel rd s pending = Some (Ok (c, s', p'))"
      "content s' = concat (map frame_wire gs) @ rest" "capsule_frames_ok gs" "length gs \<le> length fs"
      "p' @ data_payloads gs = concat (map capsule_wire cs) @ tail"
    using read_capsule_frame_frames(1) [OF rd Cons.prems(1-3)] by blast
  then have "read_capsules (length cs) fuel rd s' p' = Some cs"
    using Cons.IH [of s' gs p'] Cons.prems(3,5) by simp
  then show ?case using r(1) by simp
qed simp

lemma write_capsule_frame_wire:
  assumes "capsule_ok c"
  shows "write_capsule_frame wr c send =
    (map_err CapsuleError_Io (fst (wr (frame_wire (Frame_DATA, capsule_wire c)) send)),
     snd (wr (frame_wire (Frame_DATA, capsule_wire c)) send))"
    and "frame_ok (Frame_DATA, capsule_wire c)" and "length (capsule_wire c) \<le> 1044"
proof -
  note parts = capsule_parts_ok [OF assms, of "fst (capsule_parts c)" "snd (capsule_parts c)", simplified]
  show len: "length (capsule_wire c) \<le> 1044"
    using parts(2) length_varint_wire_le [of "fst (capsule_parts c)"]
      length_varint_wire_le [of "VarInt (of_nat (length (snd (capsule_parts c))))"]
    by (simp add: capsule_wire_def frame_wire_def capsule_limits)
  then show ok: "frame_ok (Frame_DATA, capsule_wire c)" by (simp add: frame_ok_def)
  have n: "length (capsule_wire c) < 2 ^ 62" using len by simp
  show "write_capsule_frame wr c send =
    (map_err CapsuleError_Io (fst (wr (frame_wire (Frame_DATA, capsule_wire c)) send)),
     snd (wr (frame_wire (Frame_DATA, capsule_wire c)) send))"
    using ok VarInt_try_from_usize_ok [OF n] capsule.enc_wire [OF assms, of "[]"]
    by (simp add: write_capsule_frame_def frame_type.enc_wire varint.enc_wire frame_wire_def frame_ok_def split_def)
qed

lemma read_capsule_frame_one:
  assumes rd: "reads_exactly rd content" and ok: "capsule_ok c"
    and w: "content s = frame_wire (Frame_DATA, capsule_wire c) @ rest"
  shows "\<exists>s'. read_capsule_frame (Suc (Suc fuel)) rd s [] = Some (Ok (c, s', [])) \<and> content s' = rest"
proof -
  note wire = write_capsule_frame_wire(2,3) [OF ok]
  obtain s1 where s1: "read_tlv CapsuleError_UnexpectedEnd CapsuleError_MessageTooLong CapsuleError_Io
      MAX_CAPSULE_FRAME_SIZE rd s = Ok ((frame_type Frame_DATA, capsule_wire c), s1)" "content s1 = rest"
    using read_tlv_wire(1) [OF rd, of s "frame_type Frame_DATA" "capsule_wire c" rest MAX_CAPSULE_FRAME_SIZE
        CapsuleError_UnexpectedEnd CapsuleError_MessageTooLong CapsuleError_Io] w wire
    by (auto simp: frame_ok_def MAX_CAPSULE_FRAME_SIZE_def)
  have "decode_buffered_capsule [] = Ok (None, [])"
    by (simp add: decode_buffered_capsule_def VarInt_decode_def)
  then show ?thesis using s1 decode_buffered_wire [OF ok, of "[]"] by (simp add: frame_types_not_grease)
qed

subsection \<open>The close reason\<close>

lemma capsule_reason_loop_props:
  assumes "utf8_valid r"
  shows "utf8_valid (capsule_reason_loop r) \<and> length (capsule_reason_loop r) \<le> 1024 \<and>
    prefix (capsule_reason_loop r) r \<and> (length r \<le> 1024 \<longrightarrow> capsule_reason_loop r = r) \<and>
    (1024 < length r \<longrightarrow> 1020 < length (capsule_reason_loop r))"
  using assms
proof (induction r rule: capsule_reason_loop.induct)
  case (1 r)
  show ?case
  proof (cases "length r > 1024")
    case False
    then have "capsule_reason_loop r = r" by (subst capsule_reason_loop.simps) simp
    then show ?thesis using False "1.prems" by simp
  next
    case True
    then have "r \<noteq> []" by auto
    then obtain c where c: "r = String_pop r @ c" "0 < length c" "length c \<le> 4" by (rule String_pop_split)
    have eq: "capsule_reason_loop r = capsule_reason_loop (String_pop r)"
      using True by (subst capsule_reason_loop.simps) simp
    note ih = "1.IH" [OF True String_pop_valid [OF "1.prems"]]
    have "length r = length (String_pop r) + length c" using arg_cong [OF c(1), of length] by simp
    then have "1020 < length (capsule_reason_loop (String_pop r))"
      using ih True c(3) by (cases "length (String_pop r) \<le> 1024") auto
    moreover have "prefix (capsule_reason_loop (String_pop r)) r"
      using ih c(1) by (metis prefix_def append.assoc)
    ultimately show ?thesis using ih True eq by simp
  qed
qed

lemma capsule_reason_props:
  "utf8_valid (capsule_reason r)" "length (capsule_reason r) \<le> 1024" "prefix (capsule_reason r) (from_utf8_lossy r)"
  "utf8_valid r \<Longrightarrow> length r \<le> 1024 \<Longrightarrow> capsule_reason r = r"
  "1024 < length (from_utf8_lossy r) \<Longrightarrow> 1020 < length (capsule_reason r)"
  using capsule_reason_loop_props [OF from_utf8_lossy_valid [of r]]
  by (auto simp: capsule_reason_def from_utf8_lossy_id)

lemma capsule_reason_ok: "capsule_ok (CloseWebTransportSession code (capsule_reason r))"
  by (simp add: capsule_reason_props MAX_MESSAGE_SIZE_def)

subsection \<open>Properties\<close>

text \<open>
  C12. DATA frame boundaries are not capsule boundaries: however the bytes of a sequence of capsules
  are cut into DATA frames, and whatever GREASE frames and frames of other types lie between them,
  reading the CONNECT stream yields exactly these capsules in order; a partial capsule behind them
  stays in the buffer for later frames.
\<close>

theorem capsules_framing_independent:
  assumes "reads_exactly rd content" and "content s = concat (map frame_wire fs) @ rest"
    and "capsule_frames_ok fs" and "length fs < fuel"
    and "pending @ data_payloads fs = concat (map capsule_wire cs) @ tail" and "\<forall>c \<in> set cs. capsule_ok c"
  shows "read_capsules (length cs) fuel rd s pending = Some cs"
  using assms by (rule read_capsules_frames)

theorem capsules_framing_independent_witness:
  "read_capsules 2 9 slice_read (concat (map frame_wire
      [(Frame_DATA, take 1 (capsule_wire (Unknown (VarInt 5) [7]))), (Frame (VarInt 0x21), [1]),
       (Frame_DATA, drop 1 (capsule_wire (Unknown (VarInt 5) [7])) @ capsule_wire (Unknown (VarInt 6) []))])) [] =
   Some [Unknown (VarInt 5) [7], Unknown (VarInt 6) []]"
proof -
  let ?a = "Unknown (VarInt 5) [7]" and ?b = "Unknown (VarInt 6) []"
  let ?fs = "[(Frame_DATA, take 1 (capsule_wire ?a)), (Frame (VarInt 0x21), [1]),
    (Frame_DATA, drop 1 (capsule_wire ?a) @ capsule_wire ?b)]"
  have ok: "\<forall>c \<in> set [?a, ?b]. capsule_ok c"
    by (simp add: capsule_limits varint_ok_def CLOSE_WEBTRANSPORT_SESSION_TYPE_def)
  have len: "length (capsule_wire ?a) \<le> 1000" "length (capsule_wire ?b) \<le> 1000"
    using length_varint_wire_le [of "VarInt 5"] length_varint_wire_le [of "VarInt 6"]
      length_varint_wire_le [of "VarInt 1"] length_varint_wire_le [of "VarInt 0"]
    by (simp_all add: capsule_wire_def frame_wire_def)
  have v: "varint_ok (VarInt 0x21)" by (simp add: varint_ok_def)
  have ne: "Frame (VarInt 0x21) \<noteq> Frame_DATA" by (simp add: frame_type_defs VarInt_from_u32_def)
  have "capsule_frames_ok ?fs"
    using len v by (auto simp: frame_ok_def MAX_CAPSULE_FRAME_SIZE_def min_def)
  moreover have "[] @ data_payloads ?fs = concat (map capsule_wire [?a, ?b]) @ []"
    using ne append_take_drop_id [of 1 "capsule_wire ?a"] by simp
  ultimately have "read_capsules (length [?a, ?b]) 9 slice_read (concat (map frame_wire ?fs)) [] = Some [?a, ?b]"
    using capsules_framing_independent [OF slice_reads_exactly, of "concat (map frame_wire ?fs)" ?fs "[]" 9 "[]" "[?a, ?b]" "[]"] ok
    by simp
  then show ?thesis by (simp only: list.size) (simp add: numeral_2_eq_2)
qed

text \<open>
  C27. Reading a capsule is safe on any input: with more fuel than the stream has bytes it returns,
  it never panics, a returned capsule is within the limits and holds valid UTF-8, a partial
  capsule is smaller than 1,044 bytes, and the buffer never grows beyond 3,091 bytes, one partial
  capsule and one frame.
\<close>

theorem capsule_reading_bounded:
  assumes "reads_exactly rd content" and "length (content s) < fuel" and "length pending \<le> 3091"
  shows "\<exists>r. read_capsule_frame fuel rd s pending = Some r \<and> r \<noteq> Panic \<and>
    (\<forall>c s' p'. r = Ok (c, s', p') \<longrightarrow> capsule_ok c \<and> length p' \<le> 3091) \<and>
    (\<forall>p'. decode_buffered_capsule pending = Ok (None, p') \<longrightarrow> p' = pending \<and> length p' < 1044)"
proof -
  obtain r where r: "read_capsule_frame fuel rd s pending = Some r"
    using read_capsule_frame_returns(1) [OF assms(1,2)] by blast
  then show ?thesis
    using read_capsule_frame_returns(2,3) [OF assms(1)] assms(3) decode_buffered_None decode_buffered_None_bound
    by blast
qed

theorem capsule_reading_bounded_witness:
  "\<exists>r. read_capsule_frame 5 slice_read [0x00, 0x01, 0x05] [] = Some r \<and> r \<noteq> Panic"
  using capsule_reading_bounded [OF slice_reads_exactly, of "[0x00, 0x01, 0x05]" 5 "[]"] by auto

text \<open>
  A close request always reaches the peer's capsule reader as it was made: for any code and any
  reason bytes the reason is cut to valid UTF-8 of at most 1,024 bytes, losing no more than one
  character beyond the limit, and kept as it is when it fits; the capsule is written as a single
  DATA frame, without an encoding error, and read back from it.
\<close>

theorem close_capsule_delivered:
  assumes "reads_exactly rd content" and "capsule = CloseWebTransportSession code (capsule_reason r)"
    and "content s = frame_wire (Frame_DATA, capsule_wire capsule) @ rest"
  shows "write_capsule_frame wr capsule send =
      (map_err CapsuleError_Io (fst (wr (frame_wire (Frame_DATA, capsule_wire capsule)) send)),
       snd (wr (frame_wire (Frame_DATA, capsule_wire capsule)) send)) \<and>
    (\<exists>s'. read_capsule_frame 2 rd s [] = Some (Ok (capsule, s', [])) \<and> content s' = rest) \<and>
    utf8_valid (capsule_reason r) \<and> length (capsule_reason r) \<le> 1024 \<and>
    prefix (capsule_reason r) (from_utf8_lossy r) \<and>
    (if length (from_utf8_lossy r) \<le> 1024 then capsule_reason r = from_utf8_lossy r
     else 1020 < length (capsule_reason r))"
proof (intro conjI)
  have ok: "capsule_ok capsule" unfolding assms(2) by (rule capsule_reason_ok)
  note w = write_capsule_frame_wire [OF ok]
  show "write_capsule_frame wr capsule send =
      (map_err CapsuleError_Io (fst (wr (frame_wire (Frame_DATA, capsule_wire capsule)) send)),
       snd (wr (frame_wire (Frame_DATA, capsule_wire capsule)) send))" by (rule w(1))
  show "\<exists>s'. read_capsule_frame 2 rd s [] = Some (Ok (capsule, s', [])) \<and> content s' = rest"
    using read_capsule_frame_one [OF assms(1) ok assms(3), of 0] by (simp add: numeral_2_eq_2)
qed (use capsule_reason_props [of r] capsule_reason_loop_props [OF from_utf8_lossy_valid [of r]] in
    \<open>simp_all add: capsule_reason_def\<close>)

theorem close_capsule_delivered_witness:
  "read_capsule_frame 2 slice_read (frame_wire (Frame_DATA, capsule_wire
      (CloseWebTransportSession 3 (capsule_reason [0xFF])))) [] =
    Some (Ok (CloseWebTransportSession 3 (capsule_reason [0xFF]), [], []))"
  using close_capsule_delivered [OF slice_reads_exactly refl, where code = 3 and r = "[0xFF]" and rest = "[]"
      and s = "frame_wire (Frame_DATA, capsule_wire (CloseWebTransportSession 3 (capsule_reason [0xFF])))",
      THEN conjunct2, THEN conjunct1]
  by simp

end
