(* ===== verification/Session_Accept.thy ===== *)
theory Session_Accept
  imports Quinn_Streams Frame_Reader
begin

section \<open>Accepting streams of a session\<close>

text \<open>
  \<^verbatim>\<open>SessionAccept\<close> of \<^verbatim>\<open>webtrans-quinn/src/session.rs\<close>: the headers in front of WebTransport
  streams are read concurrently, and each poll yields the next stream whose header names the
  session. The futures in flight are the streams they read; which of them complete, and in which
  order, is decided by the peer and is the argument \<open>ready\<close> of a poll. The locale
  \<open>stream_acceptor\<close> states what the unidirectional and the bidirectional machine have in common, and
  shows that every stream of the session is delivered exactly once.
\<close>

subsection \<open>Definitions\<close>

datatype 'a poll = Poll_Pending | Poll_Ready 'a

record 'r RecvStream =
  recv_inner :: 'r

record 's SendStream =
  send_stream :: 's

definition RecvStream_new :: "'r \<Rightarrow> 'r RecvStream" where
  "RecvStream_new stream = \<lparr>recv_inner = stream\<rparr>"

definition SendStream_new :: "'s \<Rightarrow> 's SendStream" where
  "SendStream_new stream = \<lparr>send_stream = stream\<rparr>"

text \<open>\<open>accept_uni\<close> and \<open>accept_bi\<close> are what the connection has ready to be accepted.\<close>

record ('s, 'r, 'c) SessionAccept =
  accept_session_id :: VarInt
  qpack_encoder :: "'r option"
  qpack_decoder :: "'r option"
  accept_uni :: "('c quinn_ConnectionError + 'r) list"
  accept_bi :: "('c quinn_ConnectionError + ('s \<times> 'r)) list"
  pending_uni :: "'r list"
  pending_bi :: "('s \<times> 'r) list"

definition SessionAccept_new :: "VarInt \<Rightarrow> ('s, 'r, 'c) SessionAccept" where
  "SessionAccept_new sid = \<lparr>accept_session_id = sid, qpack_encoder = None, qpack_decoder = None,
     accept_uni = [], accept_bi = [], pending_uni = [], pending_bi = []\<rparr>"

definition decode_uni :: "'r reader \<Rightarrow> 'r \<Rightarrow> VarInt \<Rightarrow> (UniStream \<times> 'r, ('c, 'd) SessionError) res" where
  "decode_uni rd recv expected_session =
     and_then (map_err (\<lambda>_. SE_WebTransportError WT_UnknownSession) (VarInt_read rd recv)) (\<lambda>(typ, recv).
       let typ = UniStream typ in
       if typ = UniStream_WEBTRANSPORT then
         and_then (map_err (\<lambda>_. SE_WebTransportError WT_UnknownSession) (VarInt_read rd recv)) (\<lambda>(session, recv).
           if session \<noteq> expected_session then Err (SE_WebTransportError WT_UnknownSession)
           else Ok (typ, recv))
       else Ok (typ, recv))"

definition decode_bi :: "'r reader \<Rightarrow> 's \<Rightarrow> 'r \<Rightarrow> VarInt \<Rightarrow> (('s \<times> 'r) option, ('c, 'd) SessionError) res" where
  "decode_bi rd send recv expected_session =
     and_then (map_err (\<lambda>_. SE_WebTransportError WT_UnknownSession) (VarInt_read rd recv)) (\<lambda>(typ, recv).
       if Frame typ \<noteq> Frame_WEBTRANSPORT then Ok None
       else
         and_then (map_err (\<lambda>_. SE_WebTransportError WT_UnknownSession) (VarInt_read rd recv)) (\<lambda>(session, recv).
           if session \<noteq> expected_session then Err (SE_WebTransportError WT_UnknownSession)
           else Ok (Some (send, recv))))"

definition remove_at :: "nat \<Rightarrow> 'a list \<Rightarrow> 'a list" where
  "remove_at i xs = take i xs @ drop (Suc i) xs"

text \<open>\<open>ready fs\<close> is the future that completes next; none does where it is \<^const>\<open>None\<close>.\<close>

definition next_ready :: "('a list \<Rightarrow> nat option) \<Rightarrow> 'a list \<Rightarrow> ('a \<times> 'a list) option" where
  "next_ready ready fs =
     (case ready fs of
        None \<Rightarrow> None
      | Some i \<Rightarrow> if i < length fs then Some (fs ! i, remove_at i fs) else None)"

text \<open>The schedule under which the first stream that is \<open>complete\<close> completes.\<close>

definition first_complete :: "('a \<Rightarrow> bool) \<Rightarrow> 'a list \<Rightarrow> nat option" where
  "first_complete complete fs =
     (let i = length (takeWhile (\<lambda>f. \<not> complete f) fs) in if i < length fs then Some i else None)"

lemma next_ready_first_complete: "next_ready (first_complete complete) fs = None \<longleftrightarrow> (\<forall>f \<in> set fs. \<not> complete f)"
proof -
  have "length (takeWhile (\<lambda>f. \<not> complete f) fs) < length fs \<longleftrightarrow> (\<exists>f \<in> set fs. complete f)"
    by (induction fs) auto
  then show ?thesis by (auto simp: next_ready_def first_complete_def Let_def)
qed

lemma next_ready_Some: "next_ready ready fs = Some (f, fs') \<Longrightarrow> mset fs = add_mset f (mset fs') \<and> length fs = Suc (length fs')"
proof -
  assume a: "next_ready ready fs = Some (f, fs')"
  then obtain i where i: "i < length fs" "f = fs ! i" "fs' = take i fs @ drop (Suc i) fs"
    by (auto simp: next_ready_def remove_at_def split: option.splits if_splits)
  have "mset fs = mset (take i fs @ fs ! i # drop (Suc i) fs)" using i(1) by (simp add: id_take_nth_drop [symmetric])
  then show ?thesis using i by simp
qed

function poll_accept_uni :: "'r reader \<Rightarrow> ('r list \<Rightarrow> nat option) \<Rightarrow> ('s, 'r, 'c) SessionAccept \<Rightarrow>
    ('r RecvStream, ('c, 'd) SessionError) res poll \<times> ('s, 'r, 'c) SessionAccept" where
  "poll_accept_uni rd ready st =
     (case accept_uni st of
        Inl e # rest \<Rightarrow> (Poll_Ready (Err (SessionError_from e)), st\<lparr>accept_uni := rest\<rparr>)
      | Inr recv # rest \<Rightarrow>
          poll_accept_uni rd ready (st\<lparr>accept_uni := rest, pending_uni := recv # pending_uni st\<rparr>)
      | [] \<Rightarrow>
          (case next_ready ready (pending_uni st) of
             None \<Rightarrow> (Poll_Pending, st)
           | Some (f, fs) \<Rightarrow>
               let st = st\<lparr>pending_uni := fs\<rparr> in
               case decode_uni rd f (accept_session_id st) :: (UniStream \<times> 'r, ('c, 'd) SessionError) res of
                 Err _ \<Rightarrow> poll_accept_uni rd ready st
               | Panic \<Rightarrow> (Poll_Ready Panic, st)
               | Ok (typ, recv) \<Rightarrow>
                   if typ = UniStream_WEBTRANSPORT then (Poll_Ready (Ok (RecvStream_new recv)), st)
                   else if typ = UniStream_QPACK_DECODER then
                     poll_accept_uni rd ready (st\<lparr>qpack_decoder := Some recv\<rparr>)
                   else if typ = UniStream_QPACK_ENCODER then
                     poll_accept_uni rd ready (st\<lparr>qpack_encoder := Some recv\<rparr>)
                   else poll_accept_uni rd ready st))"
  by pat_completeness auto
termination
  by (relation "measure (\<lambda>(_, _, st). 2 * length (accept_uni st) + length (pending_uni st))")
    (auto dest: next_ready_Some)

function poll_accept_bi :: "'r reader \<Rightarrow> (('s \<times> 'r) list \<Rightarrow> nat option) \<Rightarrow> ('s, 'r, 'c) SessionAccept \<Rightarrow>
    ('s SendStream \<times> 'r RecvStream, ('c, 'd) SessionError) res poll \<times> ('s, 'r, 'c) SessionAccept" where
  "poll_accept_bi rd ready st =
     (case accept_bi st of
        Inl e # rest \<Rightarrow> (Poll_Ready (Err (SessionError_from e)), st\<lparr>accept_bi := rest\<rparr>)
      | Inr sr # rest \<Rightarrow>
          poll_accept_bi rd ready (st\<lparr>accept_bi := rest, pending_bi := sr # pending_bi st\<rparr>)
      | [] \<Rightarrow>
          (case next_ready ready (pending_bi st) of
             None \<Rightarrow> (Poll_Pending, st)
           | Some (f, fs) \<Rightarrow>
               let st = st\<lparr>pending_bi := fs\<rparr> in
               case decode_bi rd (fst f) (snd f) (accept_session_id st) :: (('s \<times> 'r) option, ('c, 'd) SessionError) res of
                 Err _ \<Rightarrow> poll_accept_bi rd ready st
               | Panic \<Rightarrow> (Poll_Ready Panic, st)
               | Ok (Some (send, recv)) \<Rightarrow> (Poll_Ready (Ok (SendStream_new send, RecvStream_new recv)), st)
               | Ok None \<Rightarrow> poll_accept_bi rd ready st))"
  by pat_completeness auto
termination
  by (relation "measure (\<lambda>(_, _, st). 2 * length (accept_bi st) + length (pending_bi st))")
    (auto dest: next_ready_Some)

declare poll_accept_uni.simps [simp del] poll_accept_bi.simps [simp del]

subsection \<open>The contract of the accepting machines\<close>

text \<open>
  A run: streams arrive, polls and other moves happen in between; \<open>arrived\<close> and \<open>delivered\<close> record
  the first two. The machine waits on the streams it has neither delivered nor dropped.
\<close>

inductive acceptor_run :: "(('p list \<Rightarrow> nat option) \<Rightarrow> 'st \<Rightarrow> ('o, 'e) res poll \<times> 'st) \<Rightarrow> ('p \<Rightarrow> 'st \<Rightarrow> 'st) \<Rightarrow>
    ('f \<Rightarrow> 'st \<Rightarrow> 'st) \<Rightarrow> 'st \<Rightarrow> 'p list \<Rightarrow> 'o list \<Rightarrow> 'st \<Rightarrow> bool"
  for poll arrive move st0 where
  start: "acceptor_run poll arrive move st0 [] [] st0"
| arrive: "acceptor_run poll arrive move st0 arrived delivered st \<Longrightarrow>
    acceptor_run poll arrive move st0 (arrived @ [p]) delivered (arrive p st)"
| move: "acceptor_run poll arrive move st0 arrived delivered st \<Longrightarrow>
    acceptor_run poll arrive move st0 arrived delivered (move e st)"
| poll_ok: "acceptor_run poll arrive move st0 arrived delivered st \<Longrightarrow> poll ready st = (Poll_Ready (Ok x), st') \<Longrightarrow>
    acceptor_run poll arrive move st0 arrived (delivered @ [x]) st'"
| poll_other: "acceptor_run poll arrive move st0 arrived delivered st \<Longrightarrow> poll ready st = (res, st') \<Longrightarrow>
    (\<nexists>x. res = Poll_Ready (Ok x)) \<Longrightarrow> acceptor_run poll arrive move st0 arrived delivered st'"

definition delivered_by :: "('o, 'e) res poll \<Rightarrow> 'o multiset" where
  "delivered_by res = (case res of Poll_Ready (Ok x) \<Rightarrow> {#x#} | _ \<Rightarrow> {#})"

definition accepted :: "('p \<Rightarrow> 'o option) \<Rightarrow> 'p list \<Rightarrow> 'o multiset" where
  "accepted f ps = mset (List.map_filter f ps)"

lemma accepted_simps [simp]: "accepted f [] = {#}"
  "accepted f (p # ps) = (case f p of None \<Rightarrow> accepted f ps | Some x \<Rightarrow> add_mset x (accepted f ps))"
  "accepted f (ps @ qs) = accepted f ps + accepted f qs"
  by (simp_all add: accepted_def List.map_filter_def split: option.split)

lemma accepted_mset: "mset ps = mset qs \<Longrightarrow> accepted f ps = accepted f qs"
  unfolding accepted_def List.map_filter_def by (metis mset_filter mset_map)

locale stream_acceptor =
  fixes poll :: "('p list \<Rightarrow> nat option) \<Rightarrow> 'st \<Rightarrow> ('o, 'e) res poll \<times> 'st"
    and arrive :: "'p \<Rightarrow> 'st \<Rightarrow> 'st" and move :: "'f \<Rightarrow> 'st \<Rightarrow> 'st"
    and waiting :: "'st \<Rightarrow> 'p list" and accepts :: "VarInt \<Rightarrow> 'p \<Rightarrow> 'o option" and session :: "'st \<Rightarrow> VarInt"
  assumes poll_session: "session (snd (poll ready st)) = session st"
    and arrive_session: "session (arrive p st) = session st" "session (move e st) = session st"
    and arrive_waiting: "mset (waiting (arrive p st)) = add_mset p (mset (waiting st))"
    and move_waiting: "waiting (move e st) = waiting st"
    and poll_conserves: "poll ready st = (res, st') \<Longrightarrow>
      accepted (accepts (session st)) (waiting st) = accepted (accepts (session st)) (waiting st') + delivered_by res"
    and poll_quiet: "poll ready st = (Poll_Pending, st') \<Longrightarrow> next_ready ready (waiting st') = None"
begin

lemma polled_session: "poll ready st = (res, st') \<Longrightarrow> session st' = session st"
  using poll_session [of ready st] by simp

lemma run_session: "acceptor_run poll arrive move st0 arrived delivered st \<Longrightarrow> session st = session st0"
  by (induction rule: acceptor_run.induct) (simp_all add: arrive_session polled_session)

lemma run_exactly_once:
  assumes "acceptor_run poll arrive move st0 arrived delivered st" and "waiting st0 = []"
  shows "mset delivered + accepted (accepts (session st0)) (waiting st) = accepted (accepts (session st0)) arrived"
  using assms
proof (induction rule: acceptor_run.induct)
  case start
  then show ?case by simp
next
  case (arrive arrived delivered st p)
  have "accepted (accepts (session st0)) (waiting (arrive p st)) =
      accepted (accepts (session st0)) (p # waiting st)"
    by (rule accepted_mset) (simp add: arrive_waiting)
  then show ?case using arrive by (simp split: option.split)
next
  case (move arrived delivered st e)
  then show ?case by (simp add: move_waiting)
next
  case (poll_ok arrived delivered st ready x st')
  then show ?case
    using poll_conserves [OF poll_ok(2)] run_session [OF poll_ok(1)] by (simp add: delivered_by_def)
next
  case (poll_other arrived delivered st ready res st')
  moreover have "delivered_by res = {#}"
    using poll_other(3) by (auto simp: delivered_by_def split: poll.split res.split)
  ultimately show ?case
    using poll_conserves [OF poll_other(2)] run_session [OF poll_other(1)] by simp
qed

text \<open>
  No header delays another: a poll that returns nothing leaves no stream waiting whose header is
  complete, whatever the other streams do.
\<close>

lemma run_drained:
  assumes "acceptor_run poll arrive move st0 arrived delivered st" and "waiting st0 = []"
    and p: "poll (first_complete complete) st = (Poll_Pending, st')"
  shows "(\<forall>f \<in> set (waiting st'). \<not> complete f) \<and>
    mset delivered + accepted (accepts (session st0)) (waiting st') = accepted (accepts (session st0)) arrived"
proof -
  have "acceptor_run poll arrive move st0 arrived delivered st'"
    by (rule acceptor_run.poll_other [OF assms(1) p]) simp
  from run_exactly_once [OF this assms(2)] show ?thesis
    using poll_quiet [OF p] by (simp add: next_ready_first_complete)
qed

end

subsection \<open>The two machines of the source\<close>

text \<open>
  The streams a machine waits on, the environment's moves, and what the source accepts: a stream
  that starts with the WebTransport type and the identifier of the session.
\<close>

definition waiting_uni :: "('s, 'r, 'c) SessionAccept \<Rightarrow> 'r list" where
  "waiting_uni st = pending_uni st @ List.map_filter (\<lambda>x. case x of Inl _ \<Rightarrow> None | Inr r \<Rightarrow> Some r) (accept_uni st)"

definition waiting_bi :: "('s, 'r, 'c) SessionAccept \<Rightarrow> ('s \<times> 'r) list" where
  "waiting_bi st = pending_bi st @ List.map_filter (\<lambda>x. case x of Inl _ \<Rightarrow> None | Inr r \<Rightarrow> Some r) (accept_bi st)"

definition arrive_uni :: "'r \<Rightarrow> ('s, 'r, 'c) SessionAccept \<Rightarrow> ('s, 'r, 'c) SessionAccept" where
  "arrive_uni r st = st\<lparr>accept_uni := accept_uni st @ [Inr r]\<rparr>"

definition arrive_bi :: "'s \<times> 'r \<Rightarrow> ('s, 'r, 'c) SessionAccept \<Rightarrow> ('s, 'r, 'c) SessionAccept" where
  "arrive_bi sr st = st\<lparr>accept_bi := accept_bi st @ [Inr sr]\<rparr>"

text \<open>
  The other moves: the connection reports an error, and the machine of the other direction, which
  shares the state, receives streams and is polled. The error of a datagram plays no part in it.
\<close>

datatype ('p, 'c) accept_move = Accept_fails "'c quinn_ConnectionError" | Other_arrives 'p
  | Other_fails "'c quinn_ConnectionError" | Other_polled "'p list \<Rightarrow> nat option"

definition move_uni :: "'r reader \<Rightarrow> ('s \<times> 'r, 'c) accept_move \<Rightarrow>
    ('s, 'r, 'c) SessionAccept \<Rightarrow> ('s, 'r, 'c) SessionAccept" where
  "move_uni rd m st =
     (case m of
        Accept_fails e \<Rightarrow> st\<lparr>accept_uni := accept_uni st @ [Inl e]\<rparr>
      | Other_arrives sr \<Rightarrow> arrive_bi sr st
      | Other_fails e \<Rightarrow> st\<lparr>accept_bi := accept_bi st @ [Inl e]\<rparr>
      | Other_polled ready \<Rightarrow> snd (poll_accept_bi rd ready st :: (_, ('c, unit) SessionError) res poll \<times> _))"

definition move_bi :: "'r reader \<Rightarrow> ('r, 'c) accept_move \<Rightarrow>
    ('s, 'r, 'c) SessionAccept \<Rightarrow> ('s, 'r, 'c) SessionAccept" where
  "move_bi rd m st =
     (case m of
        Accept_fails e \<Rightarrow> st\<lparr>accept_bi := accept_bi st @ [Inl e]\<rparr>
      | Other_arrives r \<Rightarrow> arrive_uni r st
      | Other_fails e \<Rightarrow> st\<lparr>accept_uni := accept_uni st @ [Inl e]\<rparr>
      | Other_polled ready \<Rightarrow> snd (poll_accept_uni rd ready st :: (_, ('c, unit) SessionError) res poll \<times> _))"

definition accepts_uni :: "'r reader \<Rightarrow> VarInt \<Rightarrow> 'r \<Rightarrow> 'r RecvStream option" where
  "accepts_uni rd sid r =
     (case VarInt_read rd r of
        Ok (typ, s1) \<Rightarrow>
          if UniStream typ = UniStream_WEBTRANSPORT then
            (case VarInt_read rd s1 of
               Ok (i, recv) \<Rightarrow> if i = sid then Some (RecvStream_new recv) else None
             | _ \<Rightarrow> None)
          else None
      | _ \<Rightarrow> None)"

definition accepts_bi :: "'r reader \<Rightarrow> VarInt \<Rightarrow> 's \<times> 'r \<Rightarrow> ('s SendStream \<times> 'r RecvStream) option" where
  "accepts_bi rd sid sr =
     (case VarInt_read rd (snd sr) of
        Ok (typ, s1) \<Rightarrow>
          if Frame typ = Frame_WEBTRANSPORT then
            (case VarInt_read rd s1 of
               Ok (i, recv) \<Rightarrow> if i = sid then Some (SendStream_new (fst sr), RecvStream_new recv) else None
             | _ \<Rightarrow> None)
          else None
      | _ \<Rightarrow> None)"

lemma decode_uni_accepts:
  "decode_uni rd r sid = Ok (typ, recv) \<Longrightarrow>
    accepts_uni rd sid r = (if typ = UniStream_WEBTRANSPORT then Some (RecvStream_new recv) else None)"
  "decode_uni rd r sid = Err e \<Longrightarrow> accepts_uni rd sid r = None"
  "decode_uni rd r sid = Panic \<Longrightarrow> accepts_uni rd sid r = None"
  by (auto simp: decode_uni_def accepts_uni_def Let_def and_then_Err_iff and_then_Panic_iff split: if_splits)

lemma decode_bi_accepts:
  "decode_bi rd send r sid = Ok x \<Longrightarrow>
    accepts_bi rd sid (send, r) = map_option (\<lambda>(s, recv). (SendStream_new s, RecvStream_new recv)) x"
  "decode_bi rd send r sid = Err e \<Longrightarrow> accepts_bi rd sid (send, r) = None"
  "decode_bi rd send r sid = Panic \<Longrightarrow> accepts_bi rd sid (send, r) = None"
  by (auto simp: decode_bi_def accepts_bi_def and_then_Err_iff and_then_Panic_iff split: if_splits)

text \<open>One turn of the loop: it returns, or it goes on with one thing less to do.\<close>

lemma poll_accept_uni_step:
  fixes st :: "('s, 'r, 'c) SessionAccept" and res :: "('r RecvStream, ('c, 'd) SessionError) res poll"
  assumes "poll_accept_uni rd ready st = (res, st')"
  obtains (failed) e rest where "accept_uni st = Inl e # rest" and "res = Poll_Ready (Err (SessionError_from e))"
      and "st' = st\<lparr>accept_uni := rest\<rparr>"
  | (taken) r rest where "accept_uni st = Inr r # rest"
      and "poll_accept_uni rd ready (st\<lparr>accept_uni := rest, pending_uni := r # pending_uni st\<rparr>) = (res, st')"
  | (idle) "accept_uni st = []" and "next_ready ready (pending_uni st) = None" and "res = Poll_Pending" and "st' = st"
  | (delivered) f fs x where "accept_uni st = []" and "next_ready ready (pending_uni st) = Some (f, fs)"
      and "accepts_uni rd (accept_session_id st) f = Some x" and "res = Poll_Ready (Ok x)" and "st' = st\<lparr>pending_uni := fs\<rparr>"
  | (dropped) f fs st1 where "accept_uni st = []" and "next_ready ready (pending_uni st) = Some (f, fs)"
      and "accepts_uni rd (accept_session_id st) f = None" and "poll_accept_uni rd ready st1 = (res, st')"
      and "accept_uni st1 = []" and "pending_uni st1 = fs" and "accept_session_id st1 = accept_session_id st"
      and "accept_bi st1 = accept_bi st" and "pending_bi st1 = pending_bi st"
  | (panicked) f fs where "accept_uni st = []" and "next_ready ready (pending_uni st) = Some (f, fs)"
      and "accepts_uni rd (accept_session_id st) f = None" and "res = Poll_Ready Panic" and "st' = st\<lparr>pending_uni := fs\<rparr>"
proof (cases "accept_uni st")
  case (Cons x rest)
  note r = assms [unfolded poll_accept_uni.simps [of rd ready st] Cons list.case]
  show thesis
  proof (cases x)
    case (Inl e)
    then show thesis using r by (intro failed [OF Cons [unfolded Inl]]) simp_all
  next
    case (Inr y)
    then show thesis using r by (intro taken [OF Cons [unfolded Inr]]) simp
  qed
next
  case Nil
  show thesis
  proof (cases "next_ready ready (pending_uni st)")
    case None
    note r = assms [unfolded poll_accept_uni.simps [of rd ready st] Nil list.case None option.case]
    show thesis using r by (intro idle [OF Nil None]) simp_all
  next
    case (Some ffs)
    then obtain f fs where n: "next_ready ready (pending_uni st) = Some (f, fs)" by (cases ffs) simp
    let ?d = "decode_uni rd f (accept_session_id st) :: (UniStream \<times> 'r, ('c, 'd) SessionError) res"
    note r = assms [unfolded poll_accept_uni.simps [of rd ready st] Nil list.case n option.case prod.case Let_def]
    show thesis
    proof (cases ?d)
      case (Ok p)
      then obtain ty recv where d: "?d = Ok (ty, recv)" by (cases p) simp
      note acc = decode_uni_accepts(1) [OF d]
      show thesis
      proof (cases "ty = UniStream_WEBTRANSPORT")
        case True
        then show thesis using r d acc by (intro delivered [OF Nil n, of "RecvStream_new recv"]) simp_all
      next
        case False
        then have none: "accepts_uni rd (accept_session_id st) f = None" using acc by simp
        consider "poll_accept_uni rd ready (st\<lparr>pending_uni := fs\<rparr>) = (res, st')"
          | "poll_accept_uni rd ready (st\<lparr>pending_uni := fs, qpack_decoder := Some recv\<rparr>) = (res, st')"
          | "poll_accept_uni rd ready (st\<lparr>pending_uni := fs, qpack_encoder := Some recv\<rparr>) = (res, st')"
          using r d False by (simp split: if_splits)
        then show thesis by cases (erule dropped [OF Nil n none], simp_all add: Nil)+
      qed
    next
      case (Err e)
      then show thesis
        using r decode_uni_accepts(2) [OF Err] Nil by (intro dropped [OF Nil n, of "st\<lparr>pending_uni := fs\<rparr>"]) simp_all
    next
      case Panic
      then show thesis
        using r decode_uni_accepts(3) [OF Panic] by (intro panicked [OF Nil n]) simp_all
    qed
  qed
qed

lemma poll_accept_bi_step:
  fixes st :: "('s, 'r, 'c) SessionAccept"
    and res :: "('s SendStream \<times> 'r RecvStream, ('c, 'd) SessionError) res poll"
  assumes "poll_accept_bi rd ready st = (res, st')"
  obtains (failed) e rest where "accept_bi st = Inl e # rest" and "res = Poll_Ready (Err (SessionError_from e))"
      and "st' = st\<lparr>accept_bi := rest\<rparr>"
  | (taken) r rest where "accept_bi st = Inr r # rest"
      and "poll_accept_bi rd ready (st\<lparr>accept_bi := rest, pending_bi := r # pending_bi st\<rparr>) = (res, st')"
  | (idle) "accept_bi st = []" and "next_ready ready (pending_bi st) = None" and "res = Poll_Pending" and "st' = st"
  | (delivered) f fs x where "accept_bi st = []" and "next_ready ready (pending_bi st) = Some (f, fs)"
      and "accepts_bi rd (accept_session_id st) f = Some x" and "res = Poll_Ready (Ok x)" and "st' = st\<lparr>pending_bi := fs\<rparr>"
  | (dropped) f fs st1 where "accept_bi st = []" and "next_ready ready (pending_bi st) = Some (f, fs)"
      and "accepts_bi rd (accept_session_id st) f = None" and "poll_accept_bi rd ready st1 = (res, st')"
      and "accept_bi st1 = []" and "pending_bi st1 = fs" and "accept_session_id st1 = accept_session_id st"
      and "accept_uni st1 = accept_uni st" and "pending_uni st1 = pending_uni st"
  | (panicked) f fs where "accept_bi st = []" and "next_ready ready (pending_bi st) = Some (f, fs)"
      and "accepts_bi rd (accept_session_id st) f = None" and "res = Poll_Ready Panic" and "st' = st\<lparr>pending_bi := fs\<rparr>"
proof (cases "accept_bi st")
  case (Cons x rest)
  note r = assms [unfolded poll_accept_bi.simps [of rd ready st] Cons list.case]
  show thesis
  proof (cases x)
    case (Inl e)
    then show thesis using r by (intro failed [OF Cons [unfolded Inl]]) simp_all
  next
    case (Inr y)
    then show thesis using r by (intro taken [OF Cons [unfolded Inr]]) simp
  qed
next
  case Nil
  show thesis
  proof (cases "next_ready ready (pending_bi st)")
    case None
    note r = assms [unfolded poll_accept_bi.simps [of rd ready st] Nil list.case None option.case]
    show thesis using r by (intro idle [OF Nil None]) simp_all
  next
    case (Some ffs)
    then obtain send f fs where n: "next_ready ready (pending_bi st) = Some ((send, f), fs)" by (metis prod.exhaust)
    let ?d = "decode_bi rd send f (accept_session_id st) :: (('s \<times> 'r) option, ('c, 'd) SessionError) res"
    note r = assms [unfolded poll_accept_bi.simps [of rd ready st] Nil list.case n option.case prod.case Let_def fst_conv snd_conv]
    show thesis
    proof (cases ?d)
      case (Ok x)
      note acc = decode_bi_accepts(1) [OF Ok]
      show thesis
      proof (cases x)
        case None
        then show thesis using r Ok acc Nil by (intro dropped [OF Nil n, of "st\<lparr>pending_bi := fs\<rparr>"]) simp_all
      next
        case (Some y)
        then show thesis using r Ok acc by (cases y) (intro delivered [OF Nil n], auto)
      qed
    next
      case (Err e)
      then show thesis
        using r decode_bi_accepts(2) [OF Err] Nil by (intro dropped [OF Nil n, of "st\<lparr>pending_bi := fs\<rparr>"]) simp_all
    next
      case Panic
      then show thesis
        using r decode_bi_accepts(3) [OF Panic] by (intro panicked [OF Nil n]) simp_all
    qed
  qed
qed

lemma poll_accept_uni_conserves:
  fixes st :: "('s, 'r, 'c) SessionAccept"
  assumes "poll_accept_uni rd ready st = (res, st')"
  shows "accept_session_id st' = accept_session_id st"
    and "accept_bi st' = accept_bi st" and "pending_bi st' = pending_bi st"
    and "accepted (accepts_uni rd (accept_session_id st)) (waiting_uni st) =
      accepted (accepts_uni rd (accept_session_id st)) (waiting_uni st') + delivered_by res"
    and "res = Poll_Pending \<Longrightarrow> next_ready ready (waiting_uni st') = None"
proof -
  let ?acc = "\<lambda>st. accepted (accepts_uni rd (accept_session_id st))"
  have "accept_session_id st' = accept_session_id st \<and> accept_bi st' = accept_bi st \<and> pending_bi st' = pending_bi st \<and>
    ?acc st (waiting_uni st) = ?acc st (waiting_uni st') + delivered_by res \<and>
    (res = Poll_Pending \<longrightarrow> next_ready ready (waiting_uni st') = None)"
    using assms
  proof (induction "2 * length (accept_uni st) + length (pending_uni st)" arbitrary: st rule: less_induct)
    case less
    show ?case
    proof (rule poll_accept_uni_step [OF less.prems])
      fix r rest
      assume t: "accept_uni st = Inr r # rest"
        "poll_accept_uni rd ready (st\<lparr>accept_uni := rest, pending_uni := r # pending_uni st\<rparr>) = (res, st')"
      have "?acc st (waiting_uni (st\<lparr>accept_uni := rest, pending_uni := r # pending_uni st\<rparr>)) = ?acc st (waiting_uni st)"
        by (rule accepted_mset) (simp add: waiting_uni_def t(1))
      then show ?thesis using less.hyps [OF _ t(2)] t(1) by simp
    next
      fix f fs st1
      assume d: "accept_uni st = []" "next_ready ready (pending_uni st) = Some (f, fs)"
        "accepts_uni rd (accept_session_id st) f = None" "poll_accept_uni rd ready st1 = (res, st')"
        "accept_uni st1 = []" "pending_uni st1 = fs" "accept_session_id st1 = accept_session_id st"
        "accept_bi st1 = accept_bi st" "pending_bi st1 = pending_bi st"
      note m = next_ready_Some [OF d(2)]
      have "?acc st (waiting_uni st) = ?acc st (f # waiting_uni st1)"
        by (rule accepted_mset) (use m d in \<open>simp add: waiting_uni_def\<close>)
      then show ?thesis using less.hyps [OF _ d(4)] m d by simp
    next
      fix f fs x
      assume d: "accept_uni st = []" "next_ready ready (pending_uni st) = Some (f, fs)"
        "accepts_uni rd (accept_session_id st) f = Some x" "res = Poll_Ready (Ok x)" "st' = st\<lparr>pending_uni := fs\<rparr>"
      have "?acc st (waiting_uni st) = ?acc st (f # waiting_uni st')"
        by (rule accepted_mset) (use next_ready_Some [OF d(2)] d in \<open>simp add: waiting_uni_def\<close>)
      then show ?thesis using d by (simp add: delivered_by_def)
    next
      fix f fs
      assume d: "accept_uni st = []" "next_ready ready (pending_uni st) = Some (f, fs)"
        "accepts_uni rd (accept_session_id st) f = None" "res = Poll_Ready Panic" "st' = st\<lparr>pending_uni := fs\<rparr>"
      have "?acc st (waiting_uni st) = ?acc st (f # waiting_uni st')"
        by (rule accepted_mset) (use next_ready_Some [OF d(2)] d in \<open>simp add: waiting_uni_def\<close>)
      then show ?thesis using d by (simp add: delivered_by_def)
    next
      assume "accept_uni st = []" "next_ready ready (pending_uni st) = None" "res = Poll_Pending" "st' = st"
      then show ?thesis by (simp add: delivered_by_def waiting_uni_def)
    qed (simp add: delivered_by_def waiting_uni_def)
  qed
  then show "accept_session_id st' = accept_session_id st"
    and "accept_bi st' = accept_bi st" and "pending_bi st' = pending_bi st"
    and "?acc st (waiting_uni st) = ?acc st (waiting_uni st') + delivered_by res"
    and "res = Poll_Pending \<Longrightarrow> next_ready ready (waiting_uni st') = None"
    by simp_all
qed

lemma poll_accept_bi_conserves:
  fixes st :: "('s, 'r, 'c) SessionAccept"
  assumes "poll_accept_bi rd ready st = (res, st')"
  shows "accept_session_id st' = accept_session_id st"
    and "accept_uni st' = accept_uni st" and "pending_uni st' = pending_uni st"
    and "accepted (accepts_bi rd (accept_session_id st)) (waiting_bi st) =
      accepted (accepts_bi rd (accept_session_id st)) (waiting_bi st') + delivered_by res"
    and "res = Poll_Pending \<Longrightarrow> next_ready ready (waiting_bi st') = None"
proof -
  let ?acc = "\<lambda>st. accepted (accepts_bi rd (accept_session_id st))"
  have "accept_session_id st' = accept_session_id st \<and> accept_uni st' = accept_uni st \<and> pending_uni st' = pending_uni st \<and>
    ?acc st (waiting_bi st) = ?acc st (waiting_bi st') + delivered_by res \<and>
    (res = Poll_Pending \<longrightarrow> next_ready ready (waiting_bi st') = None)"
    using assms
  proof (induction "2 * length (accept_bi st) + length (pending_bi st)" arbitrary: st rule: less_induct)
    case less
    show ?case
    proof (rule poll_accept_bi_step [OF less.prems])
      fix r rest
      assume t: "accept_bi st = Inr r # rest"
        "poll_accept_bi rd ready (st\<lparr>accept_bi := rest, pending_bi := r # pending_bi st\<rparr>) = (res, st')"
      have "?acc st (waiting_bi (st\<lparr>accept_bi := rest, pending_bi := r # pending_bi st\<rparr>)) = ?acc st (waiting_bi st)"
        by (rule accepted_mset) (simp add: waiting_bi_def t(1))
      then show ?thesis using less.hyps [OF _ t(2)] t(1) by simp
    next
      fix f fs st1
      assume d: "accept_bi st = []" "next_ready ready (pending_bi st) = Some (f, fs)"
        "accepts_bi rd (accept_session_id st) f = None" "poll_accept_bi rd ready st1 = (res, st')"
        "accept_bi st1 = []" "pending_bi st1 = fs" "accept_session_id st1 = accept_session_id st"
        "accept_uni st1 = accept_uni st" "pending_uni st1 = pending_uni st"
      note m = next_ready_Some [OF d(2)]
      have "?acc st (waiting_bi st) = ?acc st (f # waiting_bi st1)"
        by (rule accepted_mset) (use m d in \<open>simp add: waiting_bi_def\<close>)
      then show ?thesis using less.hyps [OF _ d(4)] m d by simp
    next
      fix f fs x
      assume d: "accept_bi st = []" "next_ready ready (pending_bi st) = Some (f, fs)"
        "accepts_bi rd (accept_session_id st) f = Some x" "res = Poll_Ready (Ok x)" "st' = st\<lparr>pending_bi := fs\<rparr>"
      have "?acc st (waiting_bi st) = ?acc st (f # waiting_bi st')"
        by (rule accepted_mset) (use next_ready_Some [OF d(2)] d in \<open>simp add: waiting_bi_def\<close>)
      then show ?thesis using d by (simp add: delivered_by_def)
    next
      fix f fs
      assume d: "accept_bi st = []" "next_ready ready (pending_bi st) = Some (f, fs)"
        "accepts_bi rd (accept_session_id st) f = None" "res = Poll_Ready Panic" "st' = st\<lparr>pending_bi := fs\<rparr>"
      have "?acc st (waiting_bi st) = ?acc st (f # waiting_bi st')"
        by (rule accepted_mset) (use next_ready_Some [OF d(2)] d in \<open>simp add: waiting_bi_def\<close>)
      then show ?thesis using d by (simp add: delivered_by_def)
    next
      assume "accept_bi st = []" "next_ready ready (pending_bi st) = None" "res = Poll_Pending" "st' = st"
      then show ?thesis by (simp add: delivered_by_def waiting_bi_def)
    qed (simp add: delivered_by_def waiting_bi_def)
  qed
  then show "accept_session_id st' = accept_session_id st"
    and "accept_uni st' = accept_uni st" and "pending_uni st' = pending_uni st"
    and "?acc st (waiting_bi st) = ?acc st (waiting_bi st') + delivered_by res"
    and "res = Poll_Pending \<Longrightarrow> next_ready ready (waiting_bi st') = None"
    by simp_all
qed

lemma poll_accept_bi_keeps:
  fixes p :: "('s SendStream \<times> 'r RecvStream, ('c, 'd) SessionError) res poll \<times> ('s, 'r, 'c) SessionAccept"
  assumes "p = poll_accept_bi rd ready st"
  shows "accept_session_id (snd p) = accept_session_id st" and "waiting_uni (snd p) = waiting_uni st"
proof -
  have "poll_accept_bi rd ready st = (fst p, snd p)" using assms by simp
  note c = poll_accept_bi_conserves [OF this]
  show "accept_session_id (snd p) = accept_session_id st" "waiting_uni (snd p) = waiting_uni st"
    using c(1-3) by (simp_all add: waiting_uni_def)
qed

lemma poll_accept_uni_keeps:
  fixes p :: "('r RecvStream, ('c, 'd) SessionError) res poll \<times> ('s, 'r, 'c) SessionAccept"
  assumes "p = poll_accept_uni rd ready st"
  shows "accept_session_id (snd p) = accept_session_id st" and "waiting_bi (snd p) = waiting_bi st"
proof -
  have "poll_accept_uni rd ready st = (fst p, snd p)" using assms by simp
  note c = poll_accept_uni_conserves [OF this]
  show "accept_session_id (snd p) = accept_session_id st" "waiting_bi (snd p) = waiting_bi st"
    using c(1-3) by (simp_all add: waiting_bi_def)
qed

interpretation acceptor_uni: stream_acceptor "poll_accept_uni rd" arrive_uni "move_uni rd" waiting_uni "accepts_uni rd"
    accept_session_id for rd
proof
  show "accept_session_id (snd (poll_accept_uni rd ready st)) = accept_session_id st" for ready st
    by (rule poll_accept_uni_keeps(1) [OF refl])
  show "accept_session_id (move_uni rd m st) = accept_session_id st" for m st
    by (simp add: move_uni_def arrive_bi_def poll_accept_bi_keeps(1) [OF refl] split: accept_move.split)
  show "waiting_uni (move_uni rd m st) = waiting_uni st" for m st
  proof (cases m)
    case (Other_polled ready)
    then show ?thesis by (simp add: move_uni_def poll_accept_bi_keeps(2) [OF refl])
  qed (simp_all add: move_uni_def arrive_bi_def waiting_uni_def List.map_filter_def)
  show "accepted (accepts_uni rd (accept_session_id st)) (waiting_uni st) =
      accepted (accepts_uni rd (accept_session_id st)) (waiting_uni st') + delivered_by res"
    if "poll_accept_uni rd ready st = (res, st')" for ready st res st'
    by (rule poll_accept_uni_conserves(4) [OF that])
  show "next_ready ready (waiting_uni st') = None"
    if "poll_accept_uni rd ready st = (Poll_Pending, st')" for ready st st'
    by (rule poll_accept_uni_conserves(5) [OF that refl])
qed (simp_all add: arrive_uni_def waiting_uni_def List.map_filter_def)

interpretation acceptor_bi: stream_acceptor "poll_accept_bi rd" arrive_bi "move_bi rd" waiting_bi "accepts_bi rd"
    accept_session_id for rd
proof
  show "accept_session_id (snd (poll_accept_bi rd ready st)) = accept_session_id st" for ready st
    by (rule poll_accept_bi_keeps(1) [OF refl])
  show "accept_session_id (move_bi rd m st) = accept_session_id st" for m st
    by (simp add: move_bi_def arrive_uni_def poll_accept_uni_keeps(1) [OF refl] split: accept_move.split)
  show "waiting_bi (move_bi rd m st) = waiting_bi st" for m st
  proof (cases m)
    case (Other_polled ready)
    then show ?thesis by (simp add: move_bi_def poll_accept_uni_keeps(2) [OF refl])
  qed (simp_all add: move_bi_def arrive_uni_def waiting_bi_def List.map_filter_def)
  show "accepted (accepts_bi rd (accept_session_id st)) (waiting_bi st) =
      accepted (accepts_bi rd (accept_session_id st)) (waiting_bi st') + delivered_by res"
    if "poll_accept_bi rd ready st = (res, st')" for ready st res st'
    by (rule poll_accept_bi_conserves(4) [OF that])
  show "next_ready ready (waiting_bi st') = None"
    if "poll_accept_bi rd ready st = (Poll_Pending, st')" for ready st st'
    by (rule poll_accept_bi_conserves(5) [OF that refl])
qed (simp_all add: arrive_bi_def waiting_bi_def List.map_filter_def)

lemma SessionAccept_new_waiting [simp]:
  "waiting_uni (SessionAccept_new sid) = []" "waiting_bi (SessionAccept_new sid) = []"
  "accept_session_id (SessionAccept_new sid) = sid"
  by (simp_all add: waiting_uni_def waiting_bi_def SessionAccept_new_def List.map_filter_def)

subsection \<open>What is accepted\<close>

lemma accepts_uni_wire:
  assumes rd: "reads_exactly rd content" and sid: "varint_ok sid"
    and c: "content r = varint_wire (stream_type UniStream_WEBTRANSPORT) @ varint_wire sid @ payload"
  shows "\<exists>r'. accepts_uni rd sid r = Some (RecvStream_new r') \<and> content r' = payload"
proof -
  have ok: "varint_ok (stream_type UniStream_WEBTRANSPORT)" by (simp add: stream_types_ok)
  obtain s1 where s1: "VarInt_read rd r = Ok (stream_type UniStream_WEBTRANSPORT, s1)"
      "content s1 = varint_wire sid @ payload"
    by (rule VarInt_read_wire [OF rd c ok])
  obtain s2 where s2: "VarInt_read rd s1 = Ok (sid, s2)" "content s2 = payload"
    by (rule VarInt_read_wire [OF rd s1(2) sid])
  show ?thesis using s1 s2 by (intro exI [of _ s2]) (simp add: accepts_uni_def)
qed

lemma accepts_bi_wire:
  assumes rd: "reads_exactly rd content" and sid: "varint_ok sid"
    and c: "content r = varint_wire (frame_type Frame_WEBTRANSPORT) @ varint_wire sid @ payload"
  shows "\<exists>r'. accepts_bi rd sid (send, r) = Some (SendStream_new send, RecvStream_new r') \<and> content r' = payload"
proof -
  have ok: "varint_ok (frame_type Frame_WEBTRANSPORT)" by (simp add: frame_types_ok)
  obtain s1 where s1: "VarInt_read rd r = Ok (frame_type Frame_WEBTRANSPORT, s1)"
      "content s1 = varint_wire sid @ payload"
    by (rule VarInt_read_wire [OF rd c ok])
  obtain s2 where s2: "VarInt_read rd s1 = Ok (sid, s2)" "content s2 = payload"
    by (rule VarInt_read_wire [OF rd s1(2) sid])
  show ?thesis using s1 s2 by (intro exI [of _ s2]) (simp add: accepts_bi_def)
qed

subsection \<open>Properties\<close>

text \<open>
  C1. Every stream of the session is delivered exactly once: in any run of the accepting machine,
  with any arrivals, schedules of header reads, connection errors and polls of the other
  direction, the streams delivered and those still waiting that carry the session's header are
  together the streams that arrived with it, as multisets. None is lost, duplicated or invented,
  and no stream with another type or session identifier is delivered.
\<close>

theorem accept_streams_exactly_once:
  assumes "acceptor_run (poll_accept_uni rd) arrive_uni (move_uni rd) (SessionAccept_new sid) arrived delivered st"
    and "acceptor_run (poll_accept_bi rd) arrive_bi (move_bi rd) (SessionAccept_new sid) arrived' delivered' st'"
  shows "mset delivered + accepted (accepts_uni rd sid) (waiting_uni st) = accepted (accepts_uni rd sid) arrived \<and>
    mset delivered' + accepted (accepts_bi rd sid) (waiting_bi st') = accepted (accepts_bi rd sid) arrived'"
  using acceptor_uni.run_exactly_once [OF assms(1)] acceptor_bi.run_exactly_once [OF assms(2)] by simp

theorem accept_streams_exactly_once_witness:
  "mset ([] :: bytes RecvStream list) + accepted (accepts_uni slice_read (VarInt 0)) [[0x40, 0x54, 0x00]] =
     accepted (accepts_uni slice_read (VarInt 0)) [[0x40, 0x54, 0x00]] \<and>
   mset ([] :: (bytes SendStream \<times> bytes RecvStream) list) + accepted (accepts_bi slice_read (VarInt 0)) [] =
     accepted (accepts_bi slice_read (VarInt 0)) ([] :: (bytes \<times> bytes) list)"
proof -
  have "acceptor_run (poll_accept_uni slice_read) arrive_uni (move_uni slice_read) (SessionAccept_new (VarInt 0))
      ([] @ [[0x40, 0x54, 0x00]]) [] (arrive_uni [0x40, 0x54, 0x00] (SessionAccept_new (VarInt 0)))"
    by (intro acceptor_run.arrive acceptor_run.start)
  then show ?thesis
    using accept_streams_exactly_once [OF _ acceptor_run.start]
    by (fastforce simp: waiting_uni_def arrive_uni_def SessionAccept_new_def List.map_filter_def)
qed

text \<open>
  C22. No stream waits behind another: when a poll returns nothing, no stream whose header is
  complete is left waiting, however many streams with incomplete headers came before it, and
  everything else of the session has been delivered.
\<close>

theorem accept_never_blocks_ready_stream:
  fixes poll_uni :: "('r list \<Rightarrow> nat option) \<Rightarrow> ('s, 'r, 'c) SessionAccept \<Rightarrow>
      ('r RecvStream, ('c, 'd) SessionError) res poll \<times> ('s, 'r, 'c) SessionAccept"
    and poll_bi :: "(('s \<times> 'r) list \<Rightarrow> nat option) \<Rightarrow> ('s, 'r, 'c) SessionAccept \<Rightarrow>
      ('s SendStream \<times> 'r RecvStream, ('c, 'd) SessionError) res poll \<times> ('s, 'r, 'c) SessionAccept"
  assumes "poll_uni = poll_accept_uni rd" and "poll_bi = poll_accept_bi rd"
    and "acceptor_run poll_uni arrive_uni (move_uni rd) (SessionAccept_new sid) arrived delivered st"
    and "poll_uni (first_complete complete) st = (Poll_Pending, st')"
    and "acceptor_run poll_bi arrive_bi (move_bi rd) (SessionAccept_new sid) arrived_bi delivered_bi st_bi"
    and "poll_bi (first_complete complete_bi) st_bi = (Poll_Pending, st_bi')"
  shows "(\<forall>f \<in> set (waiting_uni st'). \<not> complete f) \<and>
    mset delivered + accepted (accepts_uni rd sid) (waiting_uni st') = accepted (accepts_uni rd sid) arrived \<and>
    (\<forall>f \<in> set (waiting_bi st_bi'). \<not> complete_bi f) \<and>
    mset delivered_bi + accepted (accepts_bi rd sid) (waiting_bi st_bi') = accepted (accepts_bi rd sid) arrived_bi"
  using acceptor_uni.run_drained [OF assms(3) [unfolded assms(1)] _ assms(4) [unfolded assms(1)]]
    acceptor_bi.run_drained [OF assms(5) [unfolded assms(2)] _ assms(6) [unfolded assms(2)]] by simp

lemma example_polls:
  fixes st1 :: "(bytes, bytes, unit) SessionAccept"
  assumes "st1 = arrive_uni [0x40, 0x54, 0x00, 7] (arrive_uni [0x40] (SessionAccept_new (VarInt 0)))"
  shows "(poll_accept_uni slice_read (first_complete (\<lambda>f. 3 \<le> length f)) st1 :: (_, (unit, unit) SessionError) res poll \<times> _) =
      (Poll_Ready (Ok (RecvStream_new [7])), (SessionAccept_new (VarInt 0))\<lparr>pending_uni := [[0x40]]\<rparr>)"
    and "(poll_accept_uni slice_read (first_complete (\<lambda>f. 3 \<le> length f))
        ((SessionAccept_new (VarInt 0))\<lparr>pending_uni := [[0x40]]\<rparr> :: (bytes, bytes, unit) SessionAccept) :: (_, (unit, unit) SessionError) res poll \<times> _) =
      (Poll_Pending, (SessionAccept_new (VarInt 0))\<lparr>pending_uni := [[0x40]]\<rparr>)"
  unfolding assms by code_simp+

theorem accept_never_blocks_ready_stream_witness:
  "mset [RecvStream_new [7]] + accepted (accepts_uni slice_read (VarInt 0)) [[0x40]] =
     accepted (accepts_uni slice_read (VarInt 0)) [[0x40], [0x40, 0x54, 0x00, 7]]"
proof -
  let ?poll = "poll_accept_uni slice_read :: _ \<Rightarrow> (bytes, bytes, unit) SessionAccept \<Rightarrow> (_, (unit, unit) SessionError) res poll \<times> _"
    and ?bi = "poll_accept_bi slice_read :: _ \<Rightarrow> (bytes, bytes, unit) SessionAccept \<Rightarrow> (_, (unit, unit) SessionError) res poll \<times> _"
  let ?st1 = "arrive_uni [0x40, 0x54, 0x00, 7] (arrive_uni [0x40] (SessionAccept_new (VarInt 0))) :: (bytes, bytes, unit) SessionAccept"
    and ?st2 = "(SessionAccept_new (VarInt 0))\<lparr>pending_uni := [[0x40]]\<rparr> :: (bytes, bytes, unit) SessionAccept"
  have "acceptor_run ?poll arrive_uni (move_uni slice_read) (SessionAccept_new (VarInt 0))
      (([] @ [[0x40]]) @ [[0x40, 0x54, 0x00, 7]]) [] ?st1"
    by (intro acceptor_run.arrive acceptor_run.start)
  from acceptor_run.poll_ok [OF this example_polls(1) [OF refl]]
  have run: "acceptor_run ?poll arrive_uni (move_uni slice_read) (SessionAccept_new (VarInt 0))
      [[0x40], [0x40, 0x54, 0x00, 7]] [RecvStream_new [7]] ?st2" by simp
  have bi: "?bi (first_complete (\<lambda>_. True)) (SessionAccept_new (VarInt 0)) = (Poll_Pending, SessionAccept_new (VarInt 0))"
    by code_simp
  have "waiting_uni ?st2 = [[0x40]]" by (simp add: waiting_uni_def SessionAccept_new_def List.map_filter_def)
  then show ?thesis
    using accept_never_blocks_ready_stream [OF refl refl run example_polls(2) acceptor_run.start bi] by simp
qed

end
