(* ===== verification/Quinn_Handshake.thy ===== *)
theory Quinn_Handshake
  imports Settings Connect Quinn_Streams
begin

section \<open>The HTTP/3 handshake over Quinn\<close>

text \<open>
  \<^verbatim>\<open>webtrans-quinn/src/settings.rs\<close> and \<^verbatim>\<open>connect.rs\<close>: the exchange of SETTINGS on a pair of
  unidirectional streams and the CONNECT request and response on a bidirectional one. A
  \<^verbatim>\<open>quinn::Connection\<close> is the record \<open>quinn_connection\<close> of functions of its state; awaited
  operations are the ones that complete. The lemmas show that each side reads what the other side
  of this library writes, and what a side that fails reports.
\<close>

subsection \<open>Operations that need fuel\<close>

definition fuel_bind :: "('a, 'e) res option \<Rightarrow> ('a \<Rightarrow> ('b, 'e) res option) \<Rightarrow> ('b, 'e) res option" where
  "fuel_bind x f = (case x of
      None \<Rightarrow> None | Some (Ok y) \<Rightarrow> f y | Some (Err e) \<Rightarrow> Some (Err e) | Some Panic \<Rightarrow> Some Panic)"

lemma fuel_bind_simps [simp]:
  "fuel_bind None f = None" "fuel_bind (Some (Ok y)) f = f y"
  "fuel_bind (Some (Err e)) f = Some (Err e)" "fuel_bind (Some Panic) f = Some Panic"
  by (simp_all add: fuel_bind_def)

lemma fuel_bind_eq_Ok: "fuel_bind x f = Some (Ok z) \<longleftrightarrow> (\<exists>y. x = Some (Ok y) \<and> f y = Some (Ok z))"
  by (auto simp: fuel_bind_def split: option.split res.split)

lemma fuel_bind_eq_Panic:
  "fuel_bind x f = Some Panic \<longleftrightarrow> x = Some Panic \<or> (\<exists>y. x = Some (Ok y) \<and> f y = Some Panic)"
  by (auto simp: fuel_bind_def split: option.split res.split)

lemma fuel_bind_eq_None: "fuel_bind x f = None \<longleftrightarrow> x = None \<or> (\<exists>y. x = Some (Ok y) \<and> f y = None)"
  by (auto simp: fuel_bind_def split: option.split res.split)

subsection \<open>Quinn's connection\<close>

record ('q, 's, 'r, 'c, 'd) quinn_connection =
  QC_open_uni :: "'q \<Rightarrow> ('s, 'c quinn_ConnectionError) res \<times> 'q"
  QC_open_bi :: "'q \<Rightarrow> ('s \<times> 'r, 'c quinn_ConnectionError) res \<times> 'q"
  QC_accept_uni :: "'q \<Rightarrow> ('r, 'c quinn_ConnectionError) res \<times> 'q"
  QC_accept_bi :: "'q \<Rightarrow> ('s \<times> 'r, 'c quinn_ConnectionError) res \<times> 'q"
  QC_read_datagram :: "'q \<Rightarrow> (bytes, 'c quinn_ConnectionError) res \<times> 'q"
  QC_send_datagram :: "bytes \<Rightarrow> 'q \<Rightarrow> (unit, 'd) res \<times> 'q"
  QC_max_datagram_size :: "'q \<Rightarrow> nat option"
  QC_close :: "u64 \<Rightarrow> bytes \<Rightarrow> 'q \<Rightarrow> 'q"
  QC_close_reason :: "'q \<Rightarrow> 'c quinn_ConnectionError option"
  QC_closed :: "'q \<Rightarrow> 'c quinn_ConnectionError \<times> 'q"
  QC_stable_id :: "'q \<Rightarrow> nat"
  QC_VarInt_from_u64 :: "u64 \<Rightarrow> (u64, unit) res"
  QC_stream_id :: "'s \<Rightarrow> u64"
  QC_read_exact :: "'r reader"
  QC_write_all :: "bytes \<Rightarrow> 's \<Rightarrow> (unit, io_error) res \<times> 's"

definition with_state :: "('a, 'e) res \<times> 'q \<Rightarrow> ('a \<times> 'q, 'e) res" where
  "with_state p = (case p of (r, q) \<Rightarrow> map_ok (\<lambda>x. (x, q)) r)"

text \<open>\<^verbatim>\<open>AsyncWriteExt::write_all\<close> on a stream that is not used after an error.\<close>

definition write_ok :: "('q, 's, 'r, 'c, 'd) quinn_connection \<Rightarrow> bytes \<Rightarrow> 's \<Rightarrow> ('s, io_error) res" where
  "write_ok C bs s = (case QC_write_all C bs s of (r, s) \<Rightarrow> map_ok (\<lambda>_. s) r)"

record 'st status_codes =
  StatusCode_OK :: 'st
  StatusCode_INTERNAL_SERVER_ERROR :: 'st

subsection \<open>SETTINGS\<close>

datatype 'c quinn_SettingsError = QSE_UnexpectedEnd | QSE_ProtoError SettingsError
  | QSE_WebTransportUnsupported | QSE_ConnectionError "'c quinn_ConnectionError"
  | QSE_ReadError "'c quinn_ReadError" | QSE_WriteError "'c quinn_WriteError"

record ('s, 'r) quinn_Settings =
  settings_send :: 's
  settings_recv :: 'r

definition quinn_Settings_accept :: "('q, 's, 'r, 'c, 'd) quinn_connection \<Rightarrow> nat \<Rightarrow> bool \<Rightarrow> 'q \<Rightarrow>
    ('r \<times> 'q, 'c quinn_SettingsError) res option" where
  "quinn_Settings_accept C fuel peer_is_server q =
     fuel_bind (Some (map_err QSE_ConnectionError (with_state (QC_accept_uni C q)))) (\<lambda>(recv, q).
     fuel_bind (map_option (map_err QSE_ProtoError) (Settings_read fuel (QC_read_exact C) recv)) (\<lambda>(settings, recv).
       let supported = (if peer_is_server then supports_webtransport_server settings
                        else supports_webtransport_client settings) in
       if \<not> supported then Some (Err QSE_WebTransportUnsupported) else Some (Ok (recv, q))))"

definition quinn_Settings_open :: "('q, 's, 'r, 'c, 'd) quinn_connection \<Rightarrow> (Settings \<Rightarrow> Settings) \<Rightarrow> 'q \<Rightarrow>
    ('s \<times> 'q, 'c quinn_SettingsError) res" where
  "quinn_Settings_open C ho q =
     (let settings = enable_webtransport 1 [] in
      and_then (map_err QSE_ConnectionError (with_state (QC_open_uni C q))) (\<lambda>(send, q).
      and_then (map_err QSE_ProtoError (Settings_write ho (write_ok C) settings send)) (\<lambda>send. Ok (send, q))))"

text \<open>
  \<^verbatim>\<open>try_join!\<close> runs both, and returns with the first error; \<open>open_first\<close> says which of the two
  completes first.
\<close>

definition quinn_Settings_connect :: "bool \<Rightarrow> ('q, 's, 'r, 'c, 'd) quinn_connection \<Rightarrow> (Settings \<Rightarrow> Settings) \<Rightarrow>
    nat \<Rightarrow> bool \<Rightarrow> 'q \<Rightarrow> (('s, 'r) quinn_Settings \<times> 'q, 'c quinn_SettingsError) res option" where
  "quinn_Settings_connect open_first C ho fuel peer_is_server q =
     (if open_first then
        fuel_bind (Some (quinn_Settings_open C ho q)) (\<lambda>(send, q).
        fuel_bind (quinn_Settings_accept C fuel peer_is_server q) (\<lambda>(recv, q).
          Some (Ok (\<lparr>settings_send = send, settings_recv = recv\<rparr>, q))))
      else
        fuel_bind (quinn_Settings_accept C fuel peer_is_server q) (\<lambda>(recv, q).
        fuel_bind (Some (quinn_Settings_open C ho q)) (\<lambda>(send, q).
          Some (Ok (\<lparr>settings_send = send, settings_recv = recv\<rparr>, q)))))"

subsection \<open>CONNECT\<close>

datatype ('c, 'p, 'm, 'st) quinn_ConnectError = QCE_UnexpectedEnd
  | QCE_ProtoError "('p, 'm, 'st) ConnectError" | QCE_ConnectionError "'c quinn_ConnectionError"
  | QCE_ReadError "'c quinn_ReadError" | QCE_WriteError "'c quinn_WriteError" | QCE_ErrorStatus 'st

record ('u, 's, 'r) quinn_Connect =
  connect_request :: "'u ConnectRequest"
  connect_send :: 's
  connect_recv :: 'r

definition quinn_Connect_accept :: "('q, 's, 'r, 'c, 'd) quinn_connection \<Rightarrow> ('u, 'p) url_api \<Rightarrow>
    ('m, 'st) http_api \<Rightarrow> (Headers \<Rightarrow> Headers) \<Rightarrow> nat \<Rightarrow> 'q \<Rightarrow>
    (('u, 's, 'r) quinn_Connect \<times> 'q, ('c, 'p, 'm, 'st) quinn_ConnectError) res option" where
  "quinn_Connect_accept C U H ho fuel q =
     fuel_bind (Some (map_err QCE_ConnectionError (with_state (QC_accept_bi C q)))) (\<lambda>((send, recv), q).
     fuel_bind (map_option (map_err QCE_ProtoError) (ConnectRequest_read U H ho fuel (QC_read_exact C) recv))
       (\<lambda>(request, recv).
          Some (Ok (\<lparr>connect_request = request, connect_send = send, connect_recv = recv\<rparr>, q))))"

definition quinn_Connect_respond :: "('q, 's, 'r, 'c, 'd) quinn_connection \<Rightarrow> ('m, 'st) http_api \<Rightarrow>
    (Headers \<Rightarrow> Headers) \<Rightarrow> 'st \<Rightarrow> ('u, 's, 'r) quinn_Connect \<Rightarrow>
    (('u, 's, 'r) quinn_Connect, ('c, 'p, 'm, 'st) quinn_ConnectError) res" where
  "quinn_Connect_respond C H ho status self =
     (let resp = \<lparr>response_status = status\<rparr> in
      and_then (map_err QCE_ProtoError (ConnectResponse_write H ho (write_ok C) resp (connect_send self)))
        (\<lambda>send. Ok (self\<lparr>connect_send := send\<rparr>)))"

definition quinn_Connect_reject :: "('q, 's, 'r, 'c, 'd) quinn_connection \<Rightarrow> ('s, 'c, 'w, 'i) quinn_send \<Rightarrow>
    ('m, 'st) http_api \<Rightarrow> (Headers \<Rightarrow> Headers) \<Rightarrow> 'st \<Rightarrow> ('u, 's, 'r) quinn_Connect \<Rightarrow>
    (('u, 's, 'r) quinn_Connect, ('c, 'p, 'm, 'st) quinn_ConnectError) res" where
  "quinn_Connect_reject C Q H ho status self =
     and_then (quinn_Connect_respond C H ho status self) (\<lambda>self.
     and_then (map_err (\<lambda>_. QCE_UnexpectedEnd) (with_state (Q_finish Q (connect_send self)))) (\<lambda>(_, send).
     and_then (ok (Q_stopped Q send)) (\<lambda>_. Ok (self\<lparr>connect_send := send\<rparr>))))"

definition quinn_Connect_open :: "('q, 's, 'r, 'c, 'd) quinn_connection \<Rightarrow> ('u, 'p) url_api \<Rightarrow>
    ('m, 'st) http_api \<Rightarrow> 'st status_codes \<Rightarrow> (Headers \<Rightarrow> Headers) \<Rightarrow> nat \<Rightarrow> 'u \<Rightarrow> 'q \<Rightarrow>
    (('u, 's, 'r) quinn_Connect \<times> 'q, ('c, 'p, 'm, 'st) quinn_ConnectError) res option" where
  "quinn_Connect_open C U H S ho fuel url q =
     fuel_bind (Some (map_err QCE_ConnectionError (with_state (QC_open_bi C q)))) (\<lambda>((send, recv), q).
     let request = \<lparr>request_url = url\<rparr> in
     fuel_bind (Some (map_err QCE_ProtoError (ConnectRequest_write U ho (write_ok C) request send))) (\<lambda>send.
     fuel_bind (map_option (map_err QCE_ProtoError) (ConnectResponse_read H ho fuel (QC_read_exact C) recv))
       (\<lambda>(response, recv).
          if response_status response \<noteq> StatusCode_OK S then
            Some (Err (QCE_ErrorStatus (response_status response)))
          else Some (Ok (\<lparr>connect_request = request, connect_send = send, connect_recv = recv\<rparr>, q)))))"

definition quinn_Connect_session_id :: "('q, 's, 'r, 'c, 'd) quinn_connection \<Rightarrow> ('u, 's, 'r) quinn_Connect \<Rightarrow>
    (VarInt, 'e) res" where
  "quinn_Connect_session_id C self =
     (let stream_id = QC_stream_id C (connect_send self) in unwrap (VarInt_from_u64 stream_id))"

definition quinn_Connect_url :: "('u, 's, 'r) quinn_Connect \<Rightarrow> 'u" where
  "quinn_Connect_url self = request_url (connect_request self)"

definition quinn_Connect_into_inner :: "('u, 's, 'r) quinn_Connect \<Rightarrow> 's \<times> 'r" where
  "quinn_Connect_into_inner self = (connect_send self, connect_recv self)"

subsection \<open>What the code relies on in Quinn\<close>

text \<open>
  \<open>sent s\<close> are the bytes a stream has accepted, \<open>content r\<close> those that a stream still delivers. A
  write that succeeds accepts all bytes; stream identifiers are below 2^62 and never change.
\<close>

definition quinn_connection_laws :: "('q, 's, 'r, 'c, 'd) quinn_connection \<Rightarrow> ('s \<Rightarrow> bytes) \<Rightarrow> ('r \<Rightarrow> bytes) \<Rightarrow> bool" where
  "quinn_connection_laws C sent content \<longleftrightarrow>
     reads_exactly (QC_read_exact C) content \<and>
     (\<forall>bs s. case QC_write_all C bs s of
         (Ok _, s') \<Rightarrow> sent s' = sent s @ bs \<and> QC_stream_id C s' = QC_stream_id C s
       | (Err _, s') \<Rightarrow> QC_stream_id C s' = QC_stream_id C s
       | (Panic, _) \<Rightarrow> False) \<and>
     (\<forall>s. unat (QC_stream_id C s) < 2 ^ 62) \<and>
     (\<forall>x. unat x < 2 ^ 62 \<longrightarrow> QC_VarInt_from_u64 C x = Ok x)"

lemma quinn_reads: "quinn_connection_laws C sent content \<Longrightarrow> reads_exactly (QC_read_exact C) content"
  by (simp add: quinn_connection_laws_def)

lemma write_ok_cases:
  assumes "quinn_connection_laws C sent content"
  obtains (written) s' where "write_ok C bs s = Ok s'" and "sent s' = sent s @ bs"
      and "QC_stream_id C s' = QC_stream_id C s"
  | (failed) e where "write_ok C bs s = Err e"
proof -
  have "case QC_write_all C bs s of
         (Ok _, s') \<Rightarrow> sent s' = sent s @ bs \<and> QC_stream_id C s' = QC_stream_id C s
       | (Err _, s') \<Rightarrow> QC_stream_id C s' = QC_stream_id C s
       | (Panic, _) \<Rightarrow> False"
    using assms by (simp add: quinn_connection_laws_def)
  then show thesis
    using written failed by (cases "QC_write_all C bs s") (auto simp: write_ok_def split: res.splits)
qed

lemma write_ok_Ok:
  assumes "quinn_connection_laws C sent content" and "write_ok C bs s = Ok s'"
  shows "sent s' = sent s @ bs" and "QC_stream_id C s' = QC_stream_id C s"
  by (rule write_ok_cases [OF assms(1), of bs s]; use assms(2) in simp)+

lemma session_id_ok:
  assumes "quinn_connection_laws C sent content"
  shows "quinn_Connect_session_id C self = Ok (VarInt (QC_stream_id C (connect_send self)))"
    and "varint_ok (VarInt (QC_stream_id C (connect_send self)))"
proof -
  have b: "unat (QC_stream_id C (connect_send self)) < 2 ^ 62"
    using assms by (simp add: quinn_connection_laws_def)
  then show "varint_ok (VarInt (QC_stream_id C (connect_send self)))" by (simp add: varint_ok_def)
  show "quinn_Connect_session_id C self = Ok (VarInt (QC_stream_id C (connect_send self)))"
    using b by (simp add: quinn_Connect_session_id_def VarInt_from_u64_def VarInt_MAX_def word_le_nat_alt)
qed

subsection \<open>SETTINGS reach the peer\<close>

lemma advertised_settings:
  assumes "hash_order ho"
  shows "Settings_encode ho (enable_webtransport 1 []) buf = Ok (buf @ settings_wire (ho (enable_webtransport 1 [])))"
    and "Settings_encoded_len ho (enable_webtransport 1 []) = Ok (length (settings_wire (ho (enable_webtransport 1 []))))"
    and "Settings_decode (settings_wire (ho (enable_webtransport 1 [])) @ rest) = Ok (ho (enable_webtransport 1 []), rest)"
    and "supports_webtransport_server (ho (enable_webtransport 1 []))"
    and "supports_webtransport_client (ho (enable_webtransport 1 []))"
    and "length (ho (enable_webtransport 1 [])) \<le> 7"
proof -
  let ?m = "enable_webtransport 1 []"
  have v: "settings_valid ?m" by (simp add: enable_webtransport_def enable_valid)
  have l: "length ?m \<le> 7"
    using setting_ids_distinct by (simp add: enable_webtransport_def enable_webtransport_internal_def Let_def)
  then have l58: "length ?m < 2 ^ 58" by simp
  note r = Settings_roundtrip [OF assms v l58]
  show "Settings_encode ho ?m buf = Ok (buf @ settings_wire (ho ?m))"
    "Settings_encoded_len ho ?m = Ok (length (settings_wire (ho ?m)))"
    "Settings_decode (settings_wire (ho ?m) @ rest) = Ok (ho ?m, rest)"
    by (fact r)+
  show "supports_webtransport_server (ho ?m)" "supports_webtransport_client (ho ?m)"
    using supports_map_of [OF r(4)] enable_supported [of 1 True "[]"] by (simp_all add: enable_webtransport_def)
  show "length (ho ?m) \<le> 7"
    using l assms by (metis hash_order_def size_mset)
qed

lemma quinn_Settings_open_writes:
  assumes "quinn_connection_laws C sent content" and "hash_order ho"
    and "quinn_Settings_open C ho q = Ok (send, q')" and "QC_open_uni C q = (Ok s0, q1)"
  shows "sent send = sent s0 @ settings_wire (ho (enable_webtransport 1 []))" and "q' = q1"
proof -
  have "write_ok C (settings_wire (ho (enable_webtransport 1 []))) s0 = Ok send" "q' = q1"
    using assms(3,4)
    by (auto simp: quinn_Settings_open_def with_state_def Settings_write_def Let_def advertised_settings(1,2) [OF assms(2)])
  then show "sent send = sent s0 @ settings_wire (ho (enable_webtransport 1 []))" "q' = q1"
    using write_ok_Ok(1) [OF assms(1)] by simp_all
qed

lemma quinn_Settings_accept_reads:
  assumes laws: "quinn_connection_laws C sent content" and ho: "hash_order ho"
    and a: "QC_accept_uni C q = (Ok recv, q1)"
    and c: "content recv = settings_wire (ho (enable_webtransport 1 [])) @ rest"
    and f: "length (content recv) < fuel"
  shows "\<exists>recv'. quinn_Settings_accept C fuel peer q = Some (Ok (recv', q1)) \<and> content recv' = rest"
proof -
  let ?m = "ho (enable_webtransport 1 [])"
  note adv = advertised_settings [OF ho]
  have p: "length (settings_payload ?m) \<le> 112"
    using length_settings_payload [of ?m] adv(6) by simp
  then have ok: "frame_ok (Frame_SETTINGS, settings_payload ?m)" by (simp add: frame_ok_def)
  have le: "length (settings_payload ?m) \<le> MAX_SETTINGS_FRAME_SIZE" using p by (simp add: MAX_SETTINGS_FRAME_SIZE_def)
  have w: "content recv = varint_wire (stream_type UniStream_CONTROL) @ concat (map frame_wire []) @
      frame_wire (Frame_SETTINGS, settings_payload ?m) @ rest"
    using c by (simp add: settings_wire_def)
  obtain recv' where r: "Settings_read fuel (QC_read_exact C) recv =
      Some (map_ok (\<lambda>(m, _). (m, recv')) (Settings_decode (content recv)))" "content recv' = rest"
    using Settings_read_wire(1) [OF quinn_reads [OF laws] f w _ ok le] by auto
  then show ?thesis
    using a c adv(3) [of rest] adv(4,5)
    by (intro exI [of _ recv']) (simp add: quinn_Settings_accept_def with_state_def Let_def)
qed

subsection \<open>Requests and responses reach the peer\<close>

text \<open>The bytes of the request depend only on the URL and the order of the headers.\<close>

lemma Connect_request_exchange:
  fixes U :: "('u, 'p) url_api" and H :: "('m, 'st) http_api"
  assumes "hash_order ho" and "hash_order ho'" and "url_laws U" and "http_laws H"
    and "webtransport_url U url" and "url_length U url + 192 \<le> MAX_CONNECT_FRAME_SIZE"
  obtains bs where
    "\<And>buf. ConnectRequest_encode U ho \<lparr>request_url = url\<rparr> buf = (Ok (buf @ bs) :: (_, ('p, 'm, 'st) ConnectError) res)"
    and "\<And>(C :: ('q, 's2, 'r, 'c, 'd) quinn_connection) sent content q send recv q1 rest fuel.
      quinn_connection_laws C sent content \<Longrightarrow> QC_accept_bi C q = (Ok (send, recv), q1) \<Longrightarrow>
      content recv = bs @ rest \<Longrightarrow> length (content recv) < fuel \<Longrightarrow>
      \<exists>recv'. quinn_Connect_accept C U H ho' fuel q = Some (Ok (\<lparr>connect_request = \<lparr>request_url = url\<rparr>,
          connect_send = send, connect_recv = recv'\<rparr>, q1)) \<and> content recv' = rest"
proof -
  have fits: "url_fits U (request_url \<lparr>request_url = url\<rparr>)"
    using assms(6) by (simp add: url_fits_def MAX_CONNECT_FRAME_SIZE_def)
  have wt: "webtransport_url U (request_url \<lparr>request_url = url\<rparr>)" using assms(5) by simp
  obtain payload where ok: "frame_ok (Frame_HEADERS, payload)"
    and enc: "\<And>buf. ConnectRequest_encode U ho \<lparr>request_url = url\<rparr> buf =
        (Ok (buf @ frame_wire (Frame_HEADERS, payload)) :: (_, ('p, 'm, 'st) ConnectError) res)"
    and dec: "\<And>rest. ConnectRequest_decode U H ho' (frame_wire (Frame_HEADERS, payload) @ rest) =
        Ok (\<lparr>request_url = url\<rparr>, rest)"
    and len: "length payload \<le> url_length U url + 192"
    using ConnectRequest_roundtrip [OF assms(1-4) wt fits] by (metis ConnectRequest.select_convs(1))
  show thesis
  proof (rule that [of "frame_wire (Frame_HEADERS, payload)"])
    show "ConnectRequest_encode U ho \<lparr>request_url = url\<rparr> buf =
        (Ok (buf @ frame_wire (Frame_HEADERS, payload)) :: (_, ('p, 'm, 'st) ConnectError) res)" for buf
      by (rule enc)
  next
    fix C :: "('q, 's2, 'r, 'c, 'd) quinn_connection" and sent content q send recv q1 rest fuel
    assume laws: "quinn_connection_laws C sent content" and a: "QC_accept_bi C q = (Ok (send, recv), q1)"
      and c: "content recv = frame_wire (Frame_HEADERS, payload) @ rest" and f: "length (content recv) < fuel"
    have le: "length payload \<le> MAX_CONNECT_FRAME_SIZE" using len assms(6) by simp
    have c': "content recv = concat (map frame_wire []) @ frame_wire (Frame_HEADERS, payload) @ rest" using c by simp
    obtain recv' where r: "content recv' = rest" "ConnectRequest_read U H ho' fuel (QC_read_exact C) recv =
        Some (map_ok (\<lambda>(r, _). (r, recv')) (ConnectRequest_decode U H ho' (content recv)))"
      using Connect_read_wire(1) [OF quinn_reads [OF laws] f c' _ ok le, of U H ho'] by auto
    show "\<exists>recv'. quinn_Connect_accept C U H ho' fuel q = Some (Ok (\<lparr>connect_request = \<lparr>request_url = url\<rparr>,
          connect_send = send, connect_recv = recv'\<rparr>, q1)) \<and> content recv' = rest"
      using a r dec [of rest] c
      by (intro exI [of _ recv']) (simp add: quinn_Connect_accept_def with_state_def)
  qed
qed

lemma Connect_response_exchange:
  fixes H :: "('m, 'st) http_api" and U :: "('u, 'p) url_api"
  assumes "hash_order ho" and "hash_order ho'" and "http_laws H"
  obtains bs where
    "\<And>buf. ConnectResponse_encode H ho \<lparr>response_status = status\<rparr> buf = (Ok (buf @ bs) :: (_, ('p, 'm, 'st) ConnectError) res)"
    and "\<And>(C :: ('q, 's2, 'r, 'c, 'd) quinn_connection) sent content recv rest fuel.
      quinn_connection_laws C sent content \<Longrightarrow>
      content recv = bs @ rest \<Longrightarrow> length (content recv) < fuel \<Longrightarrow>
      \<exists>recv'. ConnectResponse_read H ho' fuel (QC_read_exact C) recv =
        Some (Ok (\<lparr>response_status = status\<rparr>, recv') :: (_, ('p, 'm, 'st) ConnectError) res) \<and> content recv' = rest"
proof -
  let ?resp = "\<lparr>response_status = status\<rparr>"
  obtain payload where ok: "frame_ok (Frame_HEADERS, payload)"
    and enc: "\<And>buf. ConnectResponse_encode H ho ?resp buf =
        (Ok (buf @ frame_wire (Frame_HEADERS, payload)) :: (_, ('p, 'm, 'st) ConnectError) res)"
    and dec: "\<And>rest. ConnectResponse_decode H ho' (frame_wire (Frame_HEADERS, payload) @ rest) =
        (Ok (?resp, rest) :: (_, ('p, 'm, 'st) ConnectError) res)"
    and len: "length payload \<le> 192"
    using ConnectResponse_roundtrip [OF assms] by metis
  show thesis
  proof (rule that [of "frame_wire (Frame_HEADERS, payload)"])
    show "ConnectResponse_encode H ho ?resp buf =
        (Ok (buf @ frame_wire (Frame_HEADERS, payload)) :: (_, ('p, 'm, 'st) ConnectError) res)" for buf
      by (rule enc)
  next
    fix C :: "('q, 's2, 'r, 'c, 'd) quinn_connection" and sent content recv rest fuel
    assume laws: "quinn_connection_laws C sent content"
      and c: "content recv = frame_wire (Frame_HEADERS, payload) @ rest" and f: "length (content recv) < fuel"
    have le: "length payload \<le> MAX_CONNECT_FRAME_SIZE" using len by (simp add: MAX_CONNECT_FRAME_SIZE_def)
    have c': "content recv = concat (map frame_wire []) @ frame_wire (Frame_HEADERS, payload) @ rest" using c by simp
    obtain recv' where r: "content recv' = rest" "ConnectResponse_read H ho' fuel (QC_read_exact C) recv =
        Some (map_ok (\<lambda>(r, _). (r, recv')) (ConnectResponse_decode H ho' (content recv)) :: (_, ('p, 'm, 'st) ConnectError) res)"
      using Connect_read_wire(1) [OF quinn_reads [OF laws] f c' _ ok le, of _ H ho'] by auto
    show "\<exists>recv'. ConnectResponse_read H ho' fuel (QC_read_exact C) recv =
        Some (Ok (?resp, recv') :: (_, ('p, 'm, 'st) ConnectError) res) \<and> content recv' = rest"
      using r dec [of rest] c by (intro exI [of _ recv']) simp
  qed
qed

end
