(* ===== verification/Session.thy ===== *)
theory Session
  imports Quinn_Handshake Capsule_Stream Session_Accept
begin

section \<open>Sessions over Quinn\<close>

text \<open>
  \<^verbatim>\<open>Session\<close> of \<^verbatim>\<open>webtrans-quinn/src/session.rs\<close>: the headers in front of streams and datagrams, the
  close request that travels through a one-entry queue to the task on the CONNECT stream, and that
  task. A session's clones share the accepting machine and the queue, so the record holds their
  state; the connection's state is threaded through the operations. The lemmas show what a close
  request becomes on the CONNECT stream, on the connection and at the peer, and that what one
  side of a session opens or sends is what the other side accepts.
\<close>

subsection \<open>The queue of close requests\<close>

text \<open>\<^verbatim>\<open>tokio::sync::mpsc\<close>: a bounded queue. \<open>Ch_recv\<close> is one poll of the receiver.\<close>

datatype 'm TrySendError = TrySend_Full 'm | TrySend_Closed 'm

record ('ch, 'm) mpsc =
  Ch_channel :: "nat \<Rightarrow> 'ch"
  Ch_try_send :: "'m \<Rightarrow> 'ch \<Rightarrow> (unit, 'm TrySendError) res \<times> 'ch"
  Ch_recv :: "'ch \<Rightarrow> 'm option poll \<times> 'ch"
  Ch_drop_sender :: "'ch \<Rightarrow> 'ch"
  Ch_drop_receiver :: "'ch \<Rightarrow> 'ch"

subsection \<open>The session\<close>

record ('u, 's, 'r, 'c, 'ch) Session =
  session_id :: "VarInt option"
  accept :: "('s, 'r, 'c) SessionAccept option"
  header_uni :: bytes
  header_bi :: bytes
  header_datagram :: bytes
  session_settings :: "('s, 'r) quinn_Settings option"
  session_url :: 'u
  close_tx :: "'ch option"

text \<open>The variables of \<^verbatim>\<open>run_closed\<close>.\<close>

record ('s, 'r) closed_task =
  task_send :: 's
  task_recv :: 'r
  pending_capsules :: bytes

definition Session_new :: "('q, 's, 'r, 'c, 'd) quinn_connection \<Rightarrow> ('ch, CloseCommand) mpsc \<Rightarrow>
    ('s, 'r) quinn_Settings \<Rightarrow> ('u, 's, 'r) quinn_Connect \<Rightarrow>
    (('u, 's, 'r, 'c, 'ch) Session \<times> ('s, 'r) closed_task, 'e) res" where
  "Session_new C Ch settings connect =
     and_then (quinn_Connect_session_id C connect) (\<lambda>sid.
     and_then (UniStream_encode UniStream_WEBTRANSPORT []) (\<lambda>header_uni.
     and_then (VarInt_encode sid header_uni) (\<lambda>header_uni.
     and_then (Frame_encode Frame_WEBTRANSPORT []) (\<lambda>header_bi.
     and_then (VarInt_encode sid header_bi) (\<lambda>header_bi.
     and_then (VarInt_encode sid []) (\<lambda>header_datagram.
       Ok (\<lparr>session_id = Some sid, accept = Some (SessionAccept_new sid),
            header_uni = header_uni, header_bi = header_bi, header_datagram = header_datagram,
            session_settings = Some settings, session_url = quinn_Connect_url connect,
            close_tx = Some (Ch_channel Ch 1)\<rparr>,
           \<lparr>task_send = fst (quinn_Connect_into_inner connect),
            task_recv = snd (quinn_Connect_into_inner connect), pending_capsules = []\<rparr>)))))))"

definition Session_raw :: "'u \<Rightarrow> ('u, 's, 'r, 'c, 'ch) Session" where
  "Session_raw url = \<lparr>session_id = None, accept = None, header_uni = [], header_bi = [],
     header_datagram = [], session_settings = None, session_url = url, close_tx = None\<rparr>"

subsection \<open>The task on the CONNECT stream\<close>

definition close_connection :: "('q, 's, 'r, 'c, 'd) quinn_connection \<Rightarrow> u32 \<Rightarrow> bytes \<Rightarrow> 'q \<Rightarrow> 'q" where
  "close_connection C code why q =
     (let mapped = error_to_http3 code;
          code = (case QC_VarInt_from_u64 C mapped of Ok c \<Rightarrow> c | _ \<Rightarrow> 1)
      in QC_close C code why q)"

datatype ('s, 'r) loop_control = Loop_continue "('s, 'r) closed_task"
  | Loop_return "((u32 \<times> bytes) option, CapsuleError) res" "('s, 'r) closed_task"

text \<open>The arm of \<^verbatim>\<open>select!\<close> for a capsule, given what \<^verbatim>\<open>read_capsule_frame\<close> returned.\<close>

definition run_closed_capsule :: "(Capsule \<times> 'r \<times> bytes, CapsuleError) res \<Rightarrow> ('s, 'r) closed_task \<Rightarrow>
    ('s, 'r) loop_control" where
  "run_closed_capsule r task =
     (case r of
        Ok (CloseWebTransportSession code why, recv, pending) \<Rightarrow>
          Loop_return (Ok (Some (code, why))) (task\<lparr>task_recv := recv, pending_capsules := pending\<rparr>)
      | Ok (Unknown _ _, recv, pending) \<Rightarrow>
          Loop_continue (task\<lparr>task_recv := recv, pending_capsules := pending\<rparr>)
      | Err e \<Rightarrow> if is_graceful_close e then Loop_return (Ok None) task else Loop_return (Err e) task
      | Panic \<Rightarrow> Loop_return Panic task)"

text \<open>The block under the deadline of five seconds: the capsule, FIN and the wait for the peer.\<close>

definition submit_close :: "('q, 's, 'r, 'c, 'd) quinn_connection \<Rightarrow> ('s, 'c, 'w, 'i) quinn_send \<Rightarrow> Capsule \<Rightarrow> 's \<Rightarrow>
    (unit, CapsuleError) res \<times> 's" where
  "submit_close C Q capsule send =
     (case write_capsule_frame (QC_write_all C) capsule send of
        (Err e, send) \<Rightarrow> (Err e, send)
      | (Panic, send) \<Rightarrow> (Panic, send)
      | (Ok _, send) \<Rightarrow>
          (case Q_finish Q send of
             (r, send) \<Rightarrow> (and_then (ok r) (\<lambda>_. ok (Q_stopped Q send)), send)))"

text \<open>
  The arm for a close request; \<open>elapsed\<close> is the state of the stream at the deadline when the block
  does not complete before it.
\<close>

definition run_closed_close :: "('q, 's, 'r, 'c, 'd) quinn_connection \<Rightarrow> ('s, 'c, 'w, 'i) quinn_send \<Rightarrow>
    CloseCommand option \<Rightarrow> 's option \<Rightarrow> ('s, 'r) closed_task \<Rightarrow> ('s, 'r) loop_control" where
  "run_closed_close C Q close elapsed task =
     (case close of
        None \<Rightarrow> Loop_return (Ok (Some (0, str ''last session handle dropped''))) task
      | Some close \<Rightarrow>
          let capsule = CloseWebTransportSession (close_code close) (capsule_reason (close_reason close));
              finished = Ok (Some (close_code close, capsule_reason (close_reason close)))
          in case elapsed of
               Some send \<Rightarrow> Loop_return finished (task\<lparr>task_send := send\<rparr>)
             | None \<Rightarrow>
                 (case submit_close C Q capsule (task_send task) of
                    (Panic, send) \<Rightarrow> Loop_return Panic (task\<lparr>task_send := send\<rparr>)
                  | (_, send) \<Rightarrow> Loop_return finished (task\<lparr>task_send := send\<rparr>)))"

text \<open>
  \<^verbatim>\<open>run_closed\<close> along the arms that \<^verbatim>\<open>select!\<close> takes; \<^const>\<open>None\<close> while it has not returned.
\<close>

datatype 's select_arm = Arm_capsule | Arm_close "CloseCommand option" "'s option"

fun run_closed :: "('q, 's, 'r, 'c, 'd) quinn_connection \<Rightarrow> ('s, 'c, 'w, 'i) quinn_send \<Rightarrow> nat \<Rightarrow>
    's select_arm list \<Rightarrow> ('s, 'r) closed_task \<Rightarrow>
    (((u32 \<times> bytes) option, CapsuleError) res \<times> ('s, 'r) closed_task) option" where
  "run_closed C Q fuel [] task = None"
| "run_closed C Q fuel (arm # arms) task =
     (case (case arm of
              Arm_capsule \<Rightarrow> map_option (\<lambda>r. run_closed_capsule r task)
                (read_capsule_frame fuel (QC_read_exact C) (task_recv task) (pending_capsules task))
            | Arm_close close elapsed \<Rightarrow> Some (run_closed_close C Q close elapsed task)) of
        None \<Rightarrow> None
      | Some (Loop_return result task) \<Rightarrow> Some (result, task)
      | Some (Loop_continue task) \<Rightarrow> run_closed C Q fuel arms task)"

text \<open>The \<^verbatim>\<open>match\<close> of the spawned task on the result of \<^verbatim>\<open>run_closed\<close>.\<close>

definition session_task_finish :: "('q, 's, 'r, 'c, 'd) quinn_connection \<Rightarrow>
    ((u32 \<times> bytes) option, CapsuleError) res \<Rightarrow> 'q \<Rightarrow> 'q" where
  "session_task_finish C result q =
     (case result of
        Ok (Some (code, why)) \<Rightarrow> if QC_close_reason C q = None then close_connection C code why q else q
      | Ok None \<Rightarrow> q
      | Err e \<Rightarrow>
          if is_graceful_close e then q
          else if QC_close_reason C q = None then close_connection C 1 (str ''capsule error'') q else q
      | Panic \<Rightarrow> q)"

definition Session_close :: "('q, 's, 'r, 'c, 'd) quinn_connection \<Rightarrow> ('ch, CloseCommand) mpsc \<Rightarrow>
    ('u, 's, 'r, 'c, 'ch) Session \<Rightarrow> u32 \<Rightarrow> bytes \<Rightarrow> 'q \<Rightarrow> ('u, 's, 'r, 'c, 'ch) Session \<times> 'q" where
  "Session_close C Ch self code why q =
     (let direct = (if session_id self \<noteq> None then close_connection C code why q
                    else QC_close C (ucast code) why q)
      in case close_tx self of
           None \<Rightarrow> (self, direct)
         | Some ch \<Rightarrow>
             let r = capsule_reason (take (min (length why) 1024) why) in
             case Ch_try_send Ch \<lparr>close_code = code, close_reason = r\<rparr> ch of
               (Err (TrySend_Closed _), ch) \<Rightarrow> (self\<lparr>close_tx := Some ch\<rparr>, direct)
             | (_, ch) \<Rightarrow> (self\<lparr>close_tx := Some ch\<rparr>, q))"

subsection \<open>Streams and datagrams\<close>

definition write_full :: "('s, 'c, 'w, 'i) quinn_send \<Rightarrow> 's \<Rightarrow> bytes \<Rightarrow> ('s, ('c, 'd) SessionError) res" where
  "write_full Q send buf =
     (case Q_write_all Q buf send of
        (Ok _, send) \<Rightarrow> Ok send
      | (Err (QW_ConnectionLost err), _) \<Rightarrow> Err (SessionError_from err)
      | (Err err, _) \<Rightarrow> Err (SE_WebTransportError (WT_WriteError err))
      | (Panic, _) \<Rightarrow> Panic)"

text \<open>\<^verbatim>\<open>i32::MAX\<close> while the header is written, then the default.\<close>

definition write_header :: "('s, 'c, 'w, 'i) quinn_send \<Rightarrow> bytes \<Rightarrow> 's \<Rightarrow> ('s, ('c, 'd) SessionError) res" where
  "write_header Q header send =
     (case Q_set_priority Q 0x7FFFFFFF send of
        (r, send) \<Rightarrow> and_then (ok r) (\<lambda>_. and_then (write_full Q send header) (\<lambda>send.
          case Q_set_priority Q 0 send of (r, send) \<Rightarrow> and_then (ok r) (\<lambda>_. Ok send))))"

definition Session_open_uni :: "('q, 's, 'r, 'c, 'd) quinn_connection \<Rightarrow> ('s, 'c, 'w, 'i) quinn_send \<Rightarrow>
    ('u, 's, 'r, 'c, 'ch) Session \<Rightarrow> 'q \<Rightarrow> ('s SendStream, ('c, 'd) SessionError) res \<times> 'q" where
  "Session_open_uni C Q self q =
     (case QC_open_uni C q of
        (r, q) \<Rightarrow> (and_then (map_err SessionError_from r) (\<lambda>send.
          and_then (write_header Q (header_uni self) send) (\<lambda>send. Ok (SendStream_new send))), q))"

definition Session_open_bi :: "('q, 's, 'r, 'c, 'd) quinn_connection \<Rightarrow> ('s, 'c, 'w, 'i) quinn_send \<Rightarrow>
    ('u, 's, 'r, 'c, 'ch) Session \<Rightarrow> 'q \<Rightarrow> ('s SendStream \<times> 'r RecvStream, ('c, 'd) SessionError) res \<times> 'q" where
  "Session_open_bi C Q self q =
     (case QC_open_bi C q of
        (r, q) \<Rightarrow> (and_then (map_err SessionError_from r) (\<lambda>(send, recv).
          and_then (write_header Q (header_bi self) send) (\<lambda>send. Ok (SendStream_new send, RecvStream_new recv))), q))"

text \<open>One poll of the accepting futures; raw sessions accept from the connection.\<close>

definition Session_accept_uni :: "('q, 's, 'r, 'c, 'd) quinn_connection \<Rightarrow> ('r list \<Rightarrow> nat option) \<Rightarrow>
    ('u, 's, 'r, 'c, 'ch) Session \<Rightarrow> 'q \<Rightarrow>
    ('r RecvStream, ('c, 'd) SessionError) res poll \<times> ('u, 's, 'r, 'c, 'ch) Session \<times> 'q" where
  "Session_accept_uni C ready self q =
     (case accept self of
        Some acc \<Rightarrow>
          (case poll_accept_uni (QC_read_exact C) ready acc of (r, acc) \<Rightarrow> (r, self\<lparr>accept := Some acc\<rparr>, q))
      | None \<Rightarrow>
          (case QC_accept_uni C q of
             (r, q) \<Rightarrow> (Poll_Ready (map_err SessionError_from (map_ok RecvStream_new r)), self, q)))"

definition Session_accept_bi :: "('q, 's, 'r, 'c, 'd) quinn_connection \<Rightarrow> (('s \<times> 'r) list \<Rightarrow> nat option) \<Rightarrow>
    ('u, 's, 'r, 'c, 'ch) Session \<Rightarrow> 'q \<Rightarrow>
    ('s SendStream \<times> 'r RecvStream, ('c, 'd) SessionError) res poll \<times> ('u, 's, 'r, 'c, 'ch) Session \<times> 'q" where
  "Session_accept_bi C ready self q =
     (case accept self of
        Some acc \<Rightarrow>
          (case poll_accept_bi (QC_read_exact C) ready acc of (r, acc) \<Rightarrow> (r, self\<lparr>accept := Some acc\<rparr>, q))
      | None \<Rightarrow>
          (case QC_accept_bi C q of
             (r, q) \<Rightarrow> (Poll_Ready (map_err SessionError_from
               (map_ok (\<lambda>(send, recv). (SendStream_new send, RecvStream_new recv)) r)), self, q)))"

text \<open>The position of the cursor is what the identifier took from the front of the datagram.\<close>

definition Session_read_datagram :: "('q, 's, 'r, 'c, 'd) quinn_connection \<Rightarrow> ('u, 's, 'r, 'c, 'ch) Session \<Rightarrow> 'q \<Rightarrow>
    (bytes, ('c, 'd) SessionError) res \<times> 'q" where
  "Session_read_datagram C self q =
     (case QC_read_datagram C q of
        (r, q) \<Rightarrow> (and_then (map_err SessionError_from r) (\<lambda>datagram.
          and_then
            (case session_id self of
               Some sid \<Rightarrow>
                 and_then (map_err (\<lambda>_. SE_WebTransportError WT_UnknownSession) (VarInt_decode datagram))
                   (\<lambda>(actual_id, rest).
                      if actual_id \<noteq> sid then Err (SE_WebTransportError WT_UnknownSession)
                      else Ok (length datagram - length rest))
             | None \<Rightarrow> Ok 0)
            (\<lambda>position. Ok (drop position datagram))), q))"

definition Session_send_datagram :: "('q, 's, 'r, 'c, 'd) quinn_connection \<Rightarrow> ('u, 's, 'r, 'c, 'ch) Session \<Rightarrow>
    bytes \<Rightarrow> 'q \<Rightarrow> (unit, ('c, 'd) SessionError) res \<times> 'q" where
  "Session_send_datagram C self payload q =
     (if header_datagram self \<noteq> [] then
        (case QC_send_datagram C (header_datagram self @ payload) q of (r, q) \<Rightarrow> (map_err SE_SendDatagramError r, q))
      else
        (case QC_send_datagram C payload q of (r, q) \<Rightarrow> (map_err SE_SendDatagramError r, q)))"

definition Session_max_datagram_size :: "('q, 's, 'r, 'c, 'd) quinn_connection \<Rightarrow>
    ('u, 's, 'r, 'c, 'ch) Session \<Rightarrow> 'q \<Rightarrow> nat" where
  "Session_max_datagram_size C self q =
     (let mtu = (case QC_max_datagram_size C q of Some m \<Rightarrow> m | None \<Rightarrow> 0)
      in mtu - length (header_datagram self))"

definition Session_closed :: "('q, 's, 'r, 'c, 'd) quinn_connection \<Rightarrow> 'q \<Rightarrow> ('c, 'd) SessionError \<times> 'q" where
  "Session_closed C q = (case QC_closed C q of (e, q) \<Rightarrow> (SessionError_from e, q))"

definition Session_close_reason :: "('q, 's, 'r, 'c, 'd) quinn_connection \<Rightarrow> 'q \<Rightarrow> ('c, 'd) SessionError option" where
  "Session_close_reason C q = map_option SessionError_from (QC_close_reason C q)"

definition Session_eq :: "('q, 's, 'r, 'c, 'd) quinn_connection \<Rightarrow> 'q \<Rightarrow> 'q \<Rightarrow> bool" where
  "Session_eq C conn other \<longleftrightarrow> QC_stable_id C conn = QC_stable_id C other"

text \<open>The errors of a client; \<^verbatim>\<open>quinn::ConnectError\<close> and \<^verbatim>\<open>rustls::Error\<close> are type variables.\<close>

datatype ('c, 'p, 'm, 'st, 'qe, 'te) ClientError = CE_UnexpectedEnd
  | CE_Connection "'c quinn_ConnectionError" | CE_WriteError "'c quinn_WriteError"
  | CE_ReadError "'c quinn_ReadError" | CE_SettingsError "'c quinn_SettingsError"
  | CE_HttpError "('c, 'p, 'm, 'st) quinn_ConnectError" | CE_QuinnError 'qe
  | CE_InvalidDnsName bytes | CE_InvalidUrl bytes | CE_DnsTimeout | CE_HandshakeTimeout
  | CE_Io io_error | CE_InvalidCryptoConfiguration | CE_Rustls 'te

definition Session_connect :: "bool \<Rightarrow> ('q, 's, 'r, 'c, 'd) quinn_connection \<Rightarrow> ('ch, CloseCommand) mpsc \<Rightarrow>
    ('u, 'p) url_api \<Rightarrow> ('m, 'st) http_api \<Rightarrow> 'st status_codes \<Rightarrow> (Settings \<Rightarrow> Settings) \<Rightarrow> (Headers \<Rightarrow> Headers) \<Rightarrow>
    nat \<Rightarrow> 'u \<Rightarrow> 'q \<Rightarrow>
    ((('u, 's, 'r, 'c, 'ch) Session \<times> ('s, 'r) closed_task) \<times> 'q, ('c, 'p, 'm, 'st, 'qe, 'te) ClientError) res option" where
  "Session_connect open_first C Ch U H S ho ho' fuel url q =
     fuel_bind (map_option (map_err CE_SettingsError) (quinn_Settings_connect open_first C ho fuel True q)) (\<lambda>(settings, q).
     fuel_bind (map_option (map_err CE_HttpError) (quinn_Connect_open C U H S ho' fuel url q)) (\<lambda>(connect, q).
       Some (map_ok (\<lambda>s. (s, q)) (Session_new C Ch settings connect))))"

subsection \<open>What the code relies on in the queue\<close>

text \<open>\<open>view ch\<close> is what the queue holds, its capacity, and whether its ends are alive.\<close>

record 'm channel_view =
  queued :: "'m list"
  capacity :: nat
  senders :: nat
  receiver :: bool

definition mpsc_laws :: "('ch, 'm) mpsc \<Rightarrow> ('ch \<Rightarrow> 'm channel_view) \<Rightarrow> bool" where
  "mpsc_laws Ch view \<longleftrightarrow>
     (\<forall>n. view (Ch_channel Ch n) = \<lparr>queued = [], capacity = n, senders = 1, receiver = True\<rparr>) \<and>
     (\<forall>m ch. case Ch_try_send Ch m ch of
         (Ok _, ch') \<Rightarrow> receiver (view ch) \<and> length (queued (view ch)) < capacity (view ch) \<and>
           view ch' = (view ch)\<lparr>queued := queued (view ch) @ [m]\<rparr>
       | (Err (TrySend_Full _), ch') \<Rightarrow> receiver (view ch) \<and> capacity (view ch) \<le> length (queued (view ch)) \<and>
           view ch' = view ch
       | (Err (TrySend_Closed _), ch') \<Rightarrow> \<not> receiver (view ch) \<and> view ch' = view ch
       | (Panic, _) \<Rightarrow> False) \<and>
     (\<forall>ch. receiver (view ch) \<longrightarrow>
       (case Ch_recv Ch ch of
          (Poll_Ready (Some m), ch') \<Rightarrow> \<exists>ms. queued (view ch) = m # ms \<and> view ch' = (view ch)\<lparr>queued := ms\<rparr>
        | (Poll_Ready None, ch') \<Rightarrow> queued (view ch) = [] \<and> senders (view ch) = 0 \<and> view ch' = view ch
        | (Poll_Pending, ch') \<Rightarrow> queued (view ch) = [] \<and> 0 < senders (view ch) \<and> view ch' = view ch)) \<and>
     (\<forall>ch. view (Ch_drop_sender Ch ch) = (view ch)\<lparr>senders := senders (view ch) - 1\<rparr>) \<and>
     (\<forall>ch. view (Ch_drop_receiver Ch ch) = (view ch)\<lparr>queued := [], receiver := False\<rparr>)"

lemma mpsc_try_send:
  assumes "mpsc_laws Ch view"
  obtains (sent) ch' where "Ch_try_send Ch m ch = (Ok (), ch')" and "receiver (view ch)"
      and "length (queued (view ch)) < capacity (view ch)"
      and "view ch' = (view ch)\<lparr>queued := queued (view ch) @ [m]\<rparr>"
  | (full) m' ch' where "Ch_try_send Ch m ch = (Err (TrySend_Full m'), ch')" and "receiver (view ch)"
      and "capacity (view ch) \<le> length (queued (view ch))" and "view ch' = view ch"
  | (closed) m' ch' where "Ch_try_send Ch m ch = (Err (TrySend_Closed m'), ch')" and "\<not> receiver (view ch)"
      and "view ch' = view ch"
proof -
  have "case Ch_try_send Ch m ch of
         (Ok _, ch') \<Rightarrow> receiver (view ch) \<and> length (queued (view ch)) < capacity (view ch) \<and>
           view ch' = (view ch)\<lparr>queued := queued (view ch) @ [m]\<rparr>
       | (Err (TrySend_Full _), ch') \<Rightarrow> receiver (view ch) \<and> capacity (view ch) \<le> length (queued (view ch)) \<and>
           view ch' = view ch
       | (Err (TrySend_Closed _), ch') \<Rightarrow> \<not> receiver (view ch) \<and> view ch' = view ch
       | (Panic, _) \<Rightarrow> False"
    using assms by (simp add: mpsc_laws_def)
  then show thesis
    by (cases "Ch_try_send Ch m ch") (auto intro: sent full closed split: res.splits TrySendError.splits)
qed

lemma mpsc_recv:
  assumes "mpsc_laws Ch view" and "receiver (view ch)"
  obtains (message) m ms ch' where "Ch_recv Ch ch = (Poll_Ready (Some m), ch')"
      and "queued (view ch) = m # ms" and "view ch' = (view ch)\<lparr>queued := ms\<rparr>"
  | (dropped) ch' where "Ch_recv Ch ch = (Poll_Ready None, ch')" and "queued (view ch) = []"
      and "senders (view ch) = 0" and "view ch' = view ch"
  | (pending) ch' where "Ch_recv Ch ch = (Poll_Pending, ch')" and "queued (view ch) = []"
      and "0 < senders (view ch)" and "view ch' = view ch"
proof -
  have "case Ch_recv Ch ch of
          (Poll_Ready (Some m), ch') \<Rightarrow> \<exists>ms. queued (view ch) = m # ms \<and> view ch' = (view ch)\<lparr>queued := ms\<rparr>
        | (Poll_Ready None, ch') \<Rightarrow> queued (view ch) = [] \<and> senders (view ch) = 0 \<and> view ch' = view ch
        | (Poll_Pending, ch') \<Rightarrow> queued (view ch) = [] \<and> 0 < senders (view ch) \<and> view ch' = view ch"
    using assms by (simp add: mpsc_laws_def)
  then show thesis
    by (cases "Ch_recv Ch ch") (auto intro: message dropped pending split: poll.splits option.splits)
qed

definition example_mpsc :: "('m channel_view, 'm) mpsc" where
  "example_mpsc =
     \<lparr>Ch_channel = (\<lambda>n. \<lparr>queued = [], capacity = n, senders = 1, receiver = True\<rparr>),
      Ch_try_send = (\<lambda>m ch. if \<not> receiver ch then (Err (TrySend_Closed m), ch)
        else if length (queued ch) < capacity ch then (Ok (), ch\<lparr>queued := queued ch @ [m]\<rparr>)
        else (Err (TrySend_Full m), ch)),
      Ch_recv = (\<lambda>ch. case queued ch of
          m # ms \<Rightarrow> (Poll_Ready (Some m), ch\<lparr>queued := ms\<rparr>)
        | [] \<Rightarrow> if senders ch = 0 then (Poll_Ready None, ch) else (Poll_Pending, ch)),
      Ch_drop_sender = (\<lambda>ch. ch\<lparr>senders := senders ch - 1\<rparr>),
      Ch_drop_receiver = (\<lambda>ch. ch\<lparr>queued := [], receiver := False\<rparr>)\<rparr>"

lemma example_mpsc_laws: "mpsc_laws example_mpsc (\<lambda>ch. ch)"
  by (auto simp: mpsc_laws_def example_mpsc_def split: list.split)

subsection \<open>The session that the handshake yields\<close>

lemma Session_new_ok:
  assumes "quinn_connection_laws C sent content" and sid: "sid = VarInt (QC_stream_id C (connect_send connect))"
  shows "Session_new C Ch settings connect =
    Ok (\<lparr>session_id = Some sid, accept = Some (SessionAccept_new sid),
         header_uni = varint_wire (stream_type UniStream_WEBTRANSPORT) @ varint_wire sid,
         header_bi = varint_wire (frame_type Frame_WEBTRANSPORT) @ varint_wire sid,
         header_datagram = varint_wire sid, session_settings = Some settings,
         session_url = quinn_Connect_url connect, close_tx = Some (Ch_channel Ch 1)\<rparr>,
        \<lparr>task_send = connect_send connect, task_recv = connect_recv connect, pending_capsules = []\<rparr>)"
    and "varint_ok sid"
proof -
  show ok: "varint_ok sid" unfolding sid by (rule session_id_ok(2) [OF assms(1)])
  have id: "quinn_Connect_session_id C connect = Ok sid"
    unfolding sid by (rule session_id_ok(1) [OF assms(1)])
  show "Session_new C Ch settings connect =
    Ok (\<lparr>session_id = Some sid, accept = Some (SessionAccept_new sid),
         header_uni = varint_wire (stream_type UniStream_WEBTRANSPORT) @ varint_wire sid,
         header_bi = varint_wire (frame_type Frame_WEBTRANSPORT) @ varint_wire sid,
         header_datagram = varint_wire sid, session_settings = Some settings,
         session_url = quinn_Connect_url connect, close_tx = Some (Ch_channel Ch 1)\<rparr>,
        \<lparr>task_send = connect_send connect, task_recv = connect_recv connect, pending_capsules = []\<rparr>)"
    by (simp add: Session_new_def id UniStream_encode_def Frame_encode_def varint.enc_wire ok quinn_Connect_into_inner_def)
qed

subsection \<open>Headers\<close>

text \<open>\<^verbatim>\<open>write_all\<close> that succeeds sends everything; a priority leaves the bytes as they are.\<close>

definition quinn_write_all_laws :: "('s, 'c, 'w, 'i) quinn_send \<Rightarrow> ('s \<Rightarrow> bytes) \<Rightarrow> bool" where
  "quinn_write_all_laws Q sent \<longleftrightarrow>
     (\<forall>bs s. case Q_write_all Q bs s of
         (Ok _, s') \<Rightarrow> sent s' = sent s @ bs | (Err _, _) \<Rightarrow> True | (Panic, _) \<Rightarrow> False) \<and>
     (\<forall>p s. case Q_set_priority Q p s of (r, s') \<Rightarrow> r \<noteq> Panic \<and> sent s' = sent s)"

lemma write_full_Ok:
  assumes "quinn_write_all_laws Q sent" and "write_full Q s bs = Ok s'"
  shows "sent s' = sent s @ bs"
proof -
  have "case Q_write_all Q bs s of (Ok _, s') \<Rightarrow> sent s' = sent s @ bs | (Err _, _) \<Rightarrow> True | (Panic, _) \<Rightarrow> False"
    using assms(1) by (simp add: quinn_write_all_laws_def)
  then show ?thesis
    using assms(2) by (auto simp: write_full_def split: prod.splits res.splits quinn_WriteError.splits)
qed

lemma write_header_Ok:
  fixes s' :: 's and e :: "('c, 'd) SessionError"
  assumes laws: "quinn_write_all_laws Q sent" and "write_header Q header s = (Ok s' :: (_, ('c, 'd) SessionError) res)"
  shows "sent s' = sent s @ header"
proof -
  have p: "sent (snd (Q_set_priority Q x u)) = sent u" for x u
  proof -
    have "case Q_set_priority Q x u of (r, s') \<Rightarrow> r \<noteq> Panic \<and> sent s' = sent u"
      using laws by (simp add: quinn_write_all_laws_def)
    then show ?thesis by (simp split: prod.splits)
  qed
  obtain r s1 where s1: "Q_set_priority Q 0x7FFFFFFF s = (r, s1)" by (metis prod.exhaust)
  with assms(2) obtain s2 where s2: "write_full Q s1 header = (Ok s2 :: (_, ('c, 'd) SessionError) res)"
    by (auto simp: write_header_def)
  obtain r' s3 where s3: "Q_set_priority Q 0 s2 = (r', s3)" by (metis prod.exhaust)
  then have "s' = s3" using assms(2) s1 s2 by (auto simp: write_header_def)
  then show ?thesis
    using p [of "0x7FFFFFFF" s] p [of 0 s2] s1 s3 write_full_Ok [OF laws s2] by simp
qed

lemma Session_open_uni_header:
  fixes C :: "('q, 's, 'r, 'c, 'd) quinn_connection"
  assumes "quinn_write_all_laws Q sent" and "Session_open_uni C Q self q = (Ok s, q')"
    and "QC_open_uni C q = (Ok s0, q1)" and "sent s0 = []"
  shows "sent (send_stream s) = header_uni self" and "q' = q1"
proof -
  obtain s1 where s1: "write_header Q (header_uni self) s0 = (Ok s1 :: (_, ('c, 'd) SessionError) res)"
      "s = SendStream_new s1" and q: "q' = q1"
    using assms(2,3) by (auto simp: Session_open_uni_def)
  then show "sent (send_stream s) = header_uni self"
    using write_header_Ok [OF assms(1) s1(1)] assms(4) by (simp add: SendStream_new_def)
  show "q' = q1" by (rule q)
qed

lemma Session_open_bi_header:
  fixes C :: "('q, 's, 'r, 'c, 'd) quinn_connection"
  assumes "quinn_write_all_laws Q sent" and "Session_open_bi C Q self q = (Ok (s, r), q')"
    and "QC_open_bi C q = (Ok (s0, r0), q1)" and "sent s0 = []"
  shows "sent (send_stream s) = header_bi self" and "r = RecvStream_new r0" and "q' = q1"
proof -
  obtain s1 where s1: "write_header Q (header_bi self) s0 = (Ok s1 :: (_, ('c, 'd) SessionError) res)"
      "s = SendStream_new s1" and q: "r = RecvStream_new r0" "q' = q1"
    using assms(2,3) by (auto simp: Session_open_bi_def)
  then show "sent (send_stream s) = header_bi self"
    using write_header_Ok [OF assms(1) s1(1)] assms(4) by (simp add: SendStream_new_def)
  show "r = RecvStream_new r0" "q' = q1" by (rule q)+
qed

subsection \<open>Closing\<close>

text \<open>\<^verbatim>\<open>finish\<close> adds no bytes; neither it nor \<^verbatim>\<open>stopped\<close> panics.\<close>

definition quinn_close_laws :: "('s, 'c, 'w, 'i) quinn_send \<Rightarrow> ('s \<Rightarrow> bytes) \<Rightarrow> bool" where
  "quinn_close_laws Q sent \<longleftrightarrow>
     (\<forall>s. case Q_finish Q s of (r, s') \<Rightarrow> r \<noteq> Panic \<and> sent s' = sent s) \<and>
     (\<forall>s. Q_stopped Q s \<noteq> Panic)"

lemma close_connection_code:
  assumes "quinn_connection_laws C sent content"
  shows "close_connection C code why q = QC_close C (error_to_http3 code) why q"
  using assms error_code_fits [of code] by (simp add: close_connection_def quinn_connection_laws_def)

lemma ok_no_panic [simp]: "ok r = Panic \<longleftrightarrow> r = Panic"
  by (cases r) (simp_all add: ok_def)

lemma submit_close_sends:
  assumes laws: "quinn_connection_laws C sent content" "quinn_close_laws Q sent" and ok: "capsule_ok c"
  obtains r s' where "submit_close C Q c s = (r, s')" and "r \<noteq> Panic"
    and "\<And>s1. QC_write_all C (frame_wire (Frame_DATA, capsule_wire c)) s = (Ok (), s1) \<Longrightarrow>
      sent s' = sent s @ frame_wire (Frame_DATA, capsule_wire c)"
proof -
  let ?w = "frame_wire (Frame_DATA, capsule_wire c)"
  obtain r1 s1 where w: "QC_write_all C ?w s = (r1, s1)" by (metis prod.exhaust)
  have wl: "case QC_write_all C ?w s of (Ok _, s') \<Rightarrow> sent s' = sent s @ ?w \<and> QC_stream_id C s' = QC_stream_id C s
       | (Err _, s') \<Rightarrow> QC_stream_id C s' = QC_stream_id C s | (Panic, _) \<Rightarrow> False"
    using laws(1) by (simp add: quinn_connection_laws_def)
  obtain r2 s2 where f: "Q_finish Q s1 = (r2, s2)" by (metis prod.exhaust)
  have fl: "case Q_finish Q s1 of (r, s') \<Rightarrow> r \<noteq> Panic \<and> sent s' = sent s1" and st: "Q_stopped Q s2 \<noteq> Panic"
    using laws(2) by (simp_all add: quinn_close_laws_def)
  have eq: "submit_close C Q c s = (case r1 of
      Err e \<Rightarrow> (Err (CapsuleError_Io e), s1) | Panic \<Rightarrow> (Panic, s1)
    | Ok _ \<Rightarrow> (and_then (ok r2) (\<lambda>_. ok (Q_stopped Q s2)), s2))"
    by (cases r1) (simp_all add: submit_close_def write_capsule_frame_wire(1) [OF ok] w f)
  show thesis
  proof (rule that [of "fst (submit_close C Q c s)" "snd (submit_close C Q c s)"])
    show "fst (submit_close C Q c s) \<noteq> Panic"
      using wl fl st w f unfolding eq by (auto simp: and_then_Panic_iff split: res.splits)
    show "sent (snd (submit_close C Q c s)) = sent s @ ?w" if "QC_write_all C ?w s = (Ok (), s3)" for s3
      using wl fl that w f unfolding eq by simp
  qed simp
qed

text \<open>The arm for a close request returns its code and reason, whatever the stream does.\<close>

lemma run_closed_close_returns:
  assumes laws: "quinn_connection_laws C sent content" "quinn_close_laws Q sent"
    and r: "utf8_valid r" "length r \<le> 1024"
  obtains task' where
    "run_closed_close C Q (Some \<lparr>close_code = code, close_reason = r\<rparr>) elapsed task = Loop_return (Ok (Some (code, r))) task'"
    and "\<And>s1. elapsed = None \<Longrightarrow>
      QC_write_all C (frame_wire (Frame_DATA, capsule_wire (CloseWebTransportSession code r))) (task_send task) = (Ok (), s1) \<Longrightarrow>
      sent (task_send task') = sent (task_send task) @ frame_wire (Frame_DATA, capsule_wire (CloseWebTransportSession code r))"
proof -
  let ?c = "CloseWebTransportSession code r"
  have id: "capsule_reason r = r" by (rule capsule_reason_props(4) [OF r])
  have ok: "capsule_ok ?c" using capsule_reason_ok [of code r] by (simp only: id)
  obtain x s' where s: "submit_close C Q ?c (task_send task) = (x, s')" "x \<noteq> Panic"
    and sent: "\<And>s1. QC_write_all C (frame_wire (Frame_DATA, capsule_wire ?c)) (task_send task) = (Ok (), s1) \<Longrightarrow>
      sent s' = sent (task_send task) @ frame_wire (Frame_DATA, capsule_wire ?c)"
    using submit_close_sends [OF laws ok] by blast
  show thesis
  proof (cases elapsed)
    case None
    then show thesis
      using s sent by (intro that [of "task\<lparr>task_send := s'\<rparr>"])
        (auto simp: run_closed_close_def id Let_def split: res.split)
  next
    case (Some s2)
    then show thesis
      by (intro that [of "task\<lparr>task_send := s2\<rparr>"]) (simp_all add: run_closed_close_def id Let_def)
  qed
qed

text \<open>The peer's task returns what the capsule says.\<close>

lemma run_closed_reads_close:
  assumes laws: "quinn_connection_laws C sent content"
    and ok: "capsule_ok (CloseWebTransportSession code r)" and p: "pending_capsules task = []"
    and c: "content (task_recv task) = frame_wire (Frame_DATA, capsule_wire (CloseWebTransportSession code r)) @ rest"
  shows "\<exists>task'. run_closed C Q (Suc (Suc fuel)) (Arm_capsule # arms) task = Some (Ok (Some (code, r)), task')"
proof -
  obtain recv' where "read_capsule_frame (Suc (Suc fuel)) (QC_read_exact C) (task_recv task) [] =
      Some (Ok (CloseWebTransportSession code r, recv', []))"
    using read_capsule_frame_one [OF quinn_reads [OF laws] ok c] by blast
  then show ?thesis by (simp add: p run_closed_capsule_def)
qed

text \<open>A first close request is queued; later ones change nothing.\<close>

lemma Session_close_queues:
  assumes laws: "mpsc_laws Ch view" and tx: "close_tx self = Some ch" and rx: "receiver (view ch)"
    and q: "queued (view ch) = []" and cap: "capacity (view ch) = 1"
  obtains ch' where "Session_close C Ch self code why q0 = (self\<lparr>close_tx := Some ch'\<rparr>, q0)"
    and "view ch' = (view ch)\<lparr>queued := [\<lparr>close_code = code, close_reason = capsule_reason (take 1024 why)\<rparr>]\<rparr>"
proof -
  have t: "take (min (length why) 1024) why = take 1024 why" by (metis min.commute take_take take_all le_refl)
  show thesis
  proof (rule mpsc_try_send [OF laws, of "\<lparr>close_code = code, close_reason = capsule_reason (take 1024 why)\<rparr>" ch])
    fix ch' assume "Ch_try_send Ch \<lparr>close_code = code, close_reason = capsule_reason (take 1024 why)\<rparr> ch = (Ok (), ch')"
      "view ch' = (view ch)\<lparr>queued := queued (view ch) @ [\<lparr>close_code = code, close_reason = capsule_reason (take 1024 why)\<rparr>]\<rparr>"
    then show thesis using that [of ch'] tx q by (simp add: Session_close_def Let_def t)
  qed (use rx q cap in simp_all)
qed

lemma Session_close_full:
  assumes laws: "mpsc_laws Ch view" and tx: "close_tx self = Some ch" and rx: "receiver (view ch)"
    and full: "capacity (view ch) \<le> length (queued (view ch))"
  obtains ch' where "Session_close C Ch self code why q0 = (self\<lparr>close_tx := Some ch'\<rparr>, q0)" and "view ch' = view ch"
proof -
  let ?m = "\<lparr>close_code = code, close_reason = capsule_reason (take (min (length why) 1024) why)\<rparr>"
  show thesis
  proof (rule mpsc_try_send [OF laws, of ?m ch])
    fix m' ch' assume "Ch_try_send Ch ?m ch = (Err (TrySend_Full m'), ch')" "view ch' = view ch"
    then show thesis using that [of ch'] tx by (simp add: Session_close_def Let_def)
  qed (use rx full in simp_all)
qed

lemma Session_close_direct:
  assumes laws: "mpsc_laws Ch view" and tx: "close_tx self = Some ch" and rx: "\<not> receiver (view ch)"
    and sid: "session_id self \<noteq> None"
  obtains ch' where "Session_close C Ch self code why q0 =
    (self\<lparr>close_tx := Some ch'\<rparr>, close_connection C code why q0)" and "view ch' = view ch"
proof -
  let ?m = "\<lparr>close_code = code, close_reason = capsule_reason (take (min (length why) 1024) why)\<rparr>"
  show thesis
  proof (rule mpsc_try_send [OF laws, of ?m ch])
    fix m' ch' assume "Ch_try_send Ch ?m ch = (Err (TrySend_Closed m'), ch')" "view ch' = view ch"
    then show thesis using that [of ch'] tx sid by (simp add: Session_close_def Let_def)
  qed (use rx in simp_all)
qed

subsection \<open>An instance of Quinn\<close>

text \<open>
  A connection whose state holds what the next unidirectional stream and the next bidirectional
  stream deliver, the first also being the next datagram; streams are lists of bytes.
\<close>

definition example_connection :: "(bytes \<times> bytes, bytes, bytes, unit, unit) quinn_connection" where
  "example_connection =
     \<lparr>QC_open_uni = (\<lambda>q. (Ok [], q)), QC_open_bi = (\<lambda>q. (Ok ([], snd q), q)),
      QC_accept_uni = (\<lambda>q. (Ok (fst q), q)), QC_accept_bi = (\<lambda>q. (Ok ([], snd q), q)),
      QC_read_datagram = (\<lambda>q. (Ok (fst q), q)), QC_send_datagram = (\<lambda>bs q. (Ok (), q)),
      QC_max_datagram_size = (\<lambda>_. Some 1200), QC_close = (\<lambda>code why q. (why, snd q)),
      QC_close_reason = (\<lambda>_. None), QC_closed = (\<lambda>q. (OtherConnectionError (), q)),
      QC_stable_id = (\<lambda>_. 0), QC_VarInt_from_u64 = (\<lambda>x. if unat x < 2 ^ 62 then Ok x else Err ()),
      QC_stream_id = (\<lambda>_. 0), QC_read_exact = slice_read, QC_write_all = (\<lambda>bs s. (Ok (), s @ bs))\<rparr>"

lemma example_connection_laws: "quinn_connection_laws example_connection (\<lambda>s. s) (\<lambda>r. r)"
  by (simp add: quinn_connection_laws_def example_connection_def slice_reads_exactly)

subsection \<open>Properties\<close>

text \<open>
  C21. What one side of a session sends is what the other side accepts as its own. Sessions over the
  two ends of one CONNECT stream have the same identifier. A stream opened on one side carries a
  header with which the accepting machine of the other side delivers it, with exactly the
  application's bytes left to read. A datagram arrives with its payload unchanged, one for another
  session is refused, and a payload fits the maximum size exactly when the datagram with its header
  fits Quinn's.
\<close>

theorem session_traffic_accepted:
  fixes C :: "('q, 's, 'r, 'c, 'd) quinn_connection" and C' :: "('q2, 's2, 'r2, 'c2, 'd2) quinn_connection"
  assumes laws: "quinn_connection_laws C sent content" "quinn_connection_laws C' sent' content'"
      "quinn_write_all_laws Q sent"
    and new: "Session_new C Ch settings connect = (Ok (self, task) :: (_, 'e) res)"
      "Session_new C' Ch' settings' connect' = (Ok (peer, task') :: (_, 'e) res)"
    and same: "QC_stream_id C (connect_send connect) = QC_stream_id C' (connect_send connect')"
  shows "\<exists>sid. session_id self = Some sid \<and> session_id peer = Some sid \<and>
    accept peer = Some (SessionAccept_new sid) \<and>
    (\<forall>q q1 q' s0 s r payload. QC_open_uni C q = (Ok s0, q1) \<and> sent s0 = [] \<and>
       Session_open_uni C Q self q = (Ok s :: (_, ('c, 'd) SessionError) res, q') \<and>
       content' r = sent (send_stream s) @ payload \<longrightarrow>
       (\<exists>r'. accepts_uni (QC_read_exact C') sid r = Some (RecvStream_new r') \<and> content' r' = payload)) \<and>
    (\<forall>q q1 q' s0 r0 s u r send payload. QC_open_bi C q = (Ok (s0, r0), q1) \<and> sent s0 = [] \<and>
       Session_open_bi C Q self q = (Ok (s, u) :: (_, ('c, 'd) SessionError) res, q') \<and>
       content' r = sent (send_stream s) @ payload \<longrightarrow>
       (\<exists>r'. accepts_bi (QC_read_exact C') sid (send, r) = Some (SendStream_new send, RecvStream_new r') \<and>
          content' r' = payload)) \<and>
    (\<forall>q payload. Session_send_datagram C self payload q =
       (case QC_send_datagram C (varint_wire sid @ payload) q of (r, q) \<Rightarrow> (map_err SE_SendDatagramError r, q))) \<and>
    (\<forall>q q' payload. QC_read_datagram C' q = (Ok (varint_wire sid @ payload), q') \<longrightarrow>
       Session_read_datagram C' peer q = (Ok payload, q')) \<and>
    (\<forall>q q' other payload. QC_read_datagram C' q = (Ok (varint_wire other @ payload), q') \<and> varint_ok other \<and>
       other \<noteq> sid \<longrightarrow>
       Session_read_datagram C' peer q = (Err (SE_WebTransportError WT_UnknownSession), q')) \<and>
    (\<forall>q mtu payload. QC_max_datagram_size C q = Some mtu \<and> length (varint_wire sid) \<le> mtu \<longrightarrow>
       (length payload \<le> Session_max_datagram_size C self q \<longleftrightarrow> length (varint_wire sid @ payload) \<le> mtu))"
proof -
  define sid where "sid = VarInt (QC_stream_id C (connect_send connect))"
  have sid': "sid = VarInt (QC_stream_id C' (connect_send connect'))" unfolding sid_def same ..
  note me = Session_new_ok [OF laws(1) sid_def] and you = Session_new_ok [OF laws(2) sid']
  have hdr: "header_uni self = varint_wire (stream_type UniStream_WEBTRANSPORT) @ varint_wire sid"
      "header_bi self = varint_wire (frame_type Frame_WEBTRANSPORT) @ varint_wire sid"
      "header_datagram self = varint_wire sid" "session_id self = Some sid"
    using new(1) by (auto simp: me(1))
  have peer: "session_id peer = Some sid" "accept peer = Some (SessionAccept_new sid)"
    using new(2) by (auto simp: you(1))
  note ok = me(2) and rd = quinn_reads [OF laws(2)]
  have dec: "VarInt_decode (varint_wire v @ payload) = Ok (v, payload)" if "varint_ok v" for v payload
    by (rule varint.dec_wire [OF that])
  have ne: "varint_wire sid \<noteq> []" using dec [OF ok, of "[]"] by (auto simp: VarInt_decode_def)
  show ?thesis
  proof (intro exI [of _ sid] conjI allI impI hdr(4) peer)
    fix q q1 q' s0 s r payload
    assume o: "QC_open_uni C q = (Ok s0, q1) \<and> sent s0 = [] \<and>
       Session_open_uni C Q self q = (Ok s :: (_, ('c, 'd) SessionError) res, q') \<and>
       content' r = sent (send_stream s) @ payload"
    then have "content' r = varint_wire (stream_type UniStream_WEBTRANSPORT) @ varint_wire sid @ payload"
      using Session_open_uni_header(1) [OF laws(3)] hdr(1) by fastforce
    then show "\<exists>r'. accepts_uni (QC_read_exact C') sid r = Some (RecvStream_new r') \<and> content' r' = payload"
      by (rule accepts_uni_wire [OF rd ok])
  next
    fix q q1 q' s0 r0 s u r send payload
    assume o: "QC_open_bi C q = (Ok (s0, r0), q1) \<and> sent s0 = [] \<and>
       Session_open_bi C Q self q = (Ok (s, u) :: (_, ('c, 'd) SessionError) res, q') \<and>
       content' r = sent (send_stream s) @ payload"
    then have "content' r = varint_wire (frame_type Frame_WEBTRANSPORT) @ varint_wire sid @ payload"
      using Session_open_bi_header(1) [OF laws(3)] hdr(2) by fastforce
    then show "\<exists>r'. accepts_bi (QC_read_exact C') sid (send, r) = Some (SendStream_new send, RecvStream_new r') \<and>
          content' r' = payload"
      by (rule accepts_bi_wire [OF rd ok])
  next
    show "Session_send_datagram C self payload q =
       (case QC_send_datagram C (varint_wire sid @ payload) q of (r, q) \<Rightarrow> (map_err SE_SendDatagramError r, q))"
      for q payload using ne by (simp add: Session_send_datagram_def hdr)
    show "Session_read_datagram C' peer q = (Ok payload, q')"
      if "QC_read_datagram C' q = (Ok (varint_wire sid @ payload), q')" for q q' payload
      using that by (simp add: Session_read_datagram_def peer dec [OF ok])
    show "Session_read_datagram C' peer q = (Err (SE_WebTransportError WT_UnknownSession), q')"
      if "QC_read_datagram C' q = (Ok (varint_wire other @ payload), q') \<and> varint_ok other \<and> other \<noteq> sid"
      for q q' other payload
      using that by (simp add: Session_read_datagram_def peer dec)
    show "length payload \<le> Session_max_datagram_size C self q \<longleftrightarrow> length (varint_wire sid @ payload) \<le> mtu"
      if "QC_max_datagram_size C q = Some mtu \<and> length (varint_wire sid) \<le> mtu" for q mtu payload
      using that by (auto simp: Session_max_datagram_size_def hdr)
  qed
qed

theorem session_traffic_accepted_witness:
  "\<exists>self task. Session_new example_connection example_mpsc \<lparr>settings_send = [], settings_recv = []\<rparr>
      \<lparr>connect_request = \<lparr>request_url = ()\<rparr>, connect_send = [], connect_recv = []\<rparr> = (Ok (self, task) :: (_, unit) res) \<and>
    session_id self = Some (VarInt 0) \<and>
    Session_read_datagram example_connection self (varint_wire (VarInt 0) @ [7], []) =
      (Ok [7], (varint_wire (VarInt 0) @ [7], []))"
proof -
  let ?connect = "\<lparr>connect_request = \<lparr>request_url = ()\<rparr>, connect_send = [] :: bytes, connect_recv = [] :: bytes\<rparr>"
  let ?settings = "\<lparr>settings_send = [] :: bytes, settings_recv = [] :: bytes\<rparr>"
  have id: "VarInt 0 = VarInt (QC_stream_id example_connection (connect_send ?connect))"
    by (simp add: example_connection_def)
  have w: "quinn_write_all_laws example_quinn_send (\<lambda>s. s)"
    by (simp add: quinn_write_all_laws_def example_quinn_send_def)
  obtain self task where new: "Session_new example_connection example_mpsc ?settings ?connect = (Ok (self, task) :: (_, unit) res)"
      and sid: "session_id self = Some (VarInt 0)"
    by (simp add: Session_new_ok(1) [OF example_connection_laws id])
  have d: "QC_read_datagram example_connection (varint_wire (VarInt 0) @ [7], []) =
      (Ok (varint_wire (VarInt 0) @ [7]), (varint_wire (VarInt 0) @ [7], []))"
    by (simp add: example_connection_def)
  note t = session_traffic_accepted [OF example_connection_laws example_connection_laws w new new refl]
  then have "Session_read_datagram example_connection self (varint_wire (VarInt 0) @ [7], []) =
      (Ok [7], (varint_wire (VarInt 0) @ [7], []))"
    apply (elim exE conjE)
    subgoal premises p for sid'
      using p(7) [THEN spec, THEN spec, THEN spec, THEN mp, of "(varint_wire (VarInt 0) @ [7], [])" "[7]"] p(1) sid d by simp
    done
  then show ?thesis using new sid by blast
qed

text \<open>
  C5. What becomes of a close request. With the task of the session running and no request queued,
  \<^verbatim>\<open>close\<close> leaves the connection open and queues the code with the reason cut to 1,024 bytes of valid
  UTF-8; further requests are ignored while it is queued. If the task takes it, the task returns this
  code and reason, also when the write fails or the deadline passes, and closes the connection,
  unless it is closed already, with the code in the HTTP/3 range; if the write succeeds in time, one
  close capsule was sent. A peer whose stream delivers this capsule returns the same code and reason
  from it, and a peer whose connection is closed with the code reports them as its session error. If
  the task sees the end of the CONNECT stream before it takes the request, the request is dropped:
  the task returns without a code and leaves the connection as it is.
\<close>

theorem close_request_outcome:
  fixes C :: "('q, 's, 'r, 'c, 'd) quinn_connection" and Q :: "('s, 'c, 'w, 'i) quinn_send"
    and C' :: "('q2, 's2, 'r2, 'c2, 'd2) quinn_connection"
  assumes "quinn_connection_laws C sent content" and "quinn_close_laws Q sent" and "mpsc_laws Ch view"
    and "quinn_connection_laws C' sent' content'"
    and "close_tx self = Some ch" and "receiver (view ch)" and "queued (view ch) = []" and "capacity (view ch) = 1"
  shows "\<exists>r ch' ch''. utf8_valid r \<and> length r \<le> 1024 \<and> (utf8_valid why \<and> length why \<le> 1024 \<longrightarrow> r = why) \<and>
    Session_close C Ch self code why q = (self\<lparr>close_tx := Some ch'\<rparr>, q) \<and>
    (\<forall>code2 why2 q2. \<exists>ch2. Session_close C Ch (self\<lparr>close_tx := Some ch'\<rparr>) code2 why2 q2 =
       (self\<lparr>close_tx := Some ch2\<rparr>, q2) \<and> view ch2 = view ch') \<and>
    Ch_recv Ch ch' = (Poll_Ready (Some \<lparr>close_code = code, close_reason = r\<rparr>), ch'') \<and>
    (\<forall>elapsed arms fuel (task :: ('s, 'r) closed_task). \<exists>task'.
       run_closed C Q fuel (Arm_close (Some \<lparr>close_code = code, close_reason = r\<rparr>) elapsed # arms) task =
         Some (Ok (Some (code, r)), task') \<and>
       (elapsed = None \<and> (\<exists>s1. QC_write_all C (frame_wire (Frame_DATA, capsule_wire (CloseWebTransportSession code r)))
            (task_send task) = (Ok (), s1)) \<longrightarrow>
          sent (task_send task') = sent (task_send task) @
            frame_wire (Frame_DATA, capsule_wire (CloseWebTransportSession code r)))) \<and>
    (\<forall>q2. session_task_finish C (Ok (Some (code, r))) q2 =
       (if QC_close_reason C q2 = None then QC_close C (error_to_http3 code) r q2 else q2)) \<and>
    (\<forall>fuel arms (task :: ('s, 'r) closed_task).
       read_capsule_frame fuel (QC_read_exact C) (task_recv task) (pending_capsules task) =
         Some (Err CapsuleError_UnexpectedEnd) \<longrightarrow>
       run_closed C Q fuel (Arm_capsule # arms) task = Some (Ok None, task) \<and>
       (\<forall>q2. session_task_finish C (Ok None) q2 = q2) \<and> queued (view (Ch_drop_receiver Ch ch')) = []) \<and>
    (\<forall>(task2 :: ('s2, 'r2) closed_task) rest (Q' :: ('s2, 'c2, 'w2, 'i2) quinn_send) arms fuel. pending_capsules task2 = [] \<and>
       content' (task_recv task2) = frame_wire (Frame_DATA, capsule_wire (CloseWebTransportSession code r)) @ rest \<longrightarrow>
       (\<exists>task2'. run_closed C' Q' (Suc (Suc fuel)) (Arm_capsule # arms) task2 = Some (Ok (Some (code, r)), task2'))) \<and>
    SessionError_session_error (SessionError_from (ApplicationClosed \<lparr>error_code = error_to_http3 code, reason = r\<rparr>)) =
      Some (code, r)"
proof -
  let ?r = "capsule_reason (take 1024 why)"
  let ?m = "\<lparr>close_code = code, close_reason = ?r\<rparr>"
  note r = capsule_reason_props(1,2) [of "take 1024 why"]
  obtain ch' where c: "Session_close C Ch self code why q = (self\<lparr>close_tx := Some ch'\<rparr>, q)"
      "view ch' = (view ch)\<lparr>queued := [?m]\<rparr>"
    by (rule Session_close_queues [OF assms(3,5-8), of C code why q])
  have rx: "receiver (view ch')" using c(2) assms(6) by simp
  obtain ch'' where recv: "Ch_recv Ch ch' = (Poll_Ready (Some ?m), ch'')"
    by (rule mpsc_recv [OF assms(3) rx]) (use c(2) in auto)
  show ?thesis
  proof (rule exI [of _ ?r], rule exI [of _ ch'], rule exI [of _ ch''], intro conjI allI impI r c(1) recv)
    show "?r = why" if "utf8_valid why \<and> length why \<le> 1024"
      using that capsule_reason_props(4) [of why] by simp
    show "\<exists>ch2. Session_close C Ch (self\<lparr>close_tx := Some ch'\<rparr>) code2 why2 q2 =
       (self\<lparr>close_tx := Some ch2\<rparr>, q2) \<and> view ch2 = view ch'" for code2 why2 q2
      by (rule Session_close_full [OF assms(3) _ rx, of "self\<lparr>close_tx := Some ch'\<rparr>" C code2 why2 q2])
        (use c(2) assms(8) in auto)
    show "\<exists>task'. run_closed C Q fuel (Arm_close (Some ?m) elapsed # arms) task = Some (Ok (Some (code, ?r)), task') \<and>
       (elapsed = None \<and> (\<exists>s1. QC_write_all C (frame_wire (Frame_DATA, capsule_wire (CloseWebTransportSession code ?r)))
            (task_send task) = (Ok (), s1)) \<longrightarrow>
          sent (task_send task') = sent (task_send task) @
            frame_wire (Frame_DATA, capsule_wire (CloseWebTransportSession code ?r)))"
      for elapsed arms fuel and task :: "('s, 'r) closed_task"
      by (rule run_closed_close_returns [OF assms(1,2) r, of code elapsed task]) auto
    show "session_task_finish C (Ok (Some (code, ?r))) q2 =
       (if QC_close_reason C q2 = None then QC_close C (error_to_http3 code) ?r q2 else q2)" for q2
      by (simp add: session_task_finish_def close_connection_code [OF assms(1)])
    show "run_closed C Q fuel (Arm_capsule # arms) task = Some (Ok None, task)"
      if "read_capsule_frame fuel (QC_read_exact C) (task_recv task) (pending_capsules task) =
         Some (Err CapsuleError_UnexpectedEnd)" for fuel arms and task :: "('s, 'r) closed_task"
      using that by (simp add: run_closed_capsule_def is_graceful_close_def)
    show "session_task_finish C (Ok None) q2 = q2" for q2
      by (simp add: session_task_finish_def)
    show "queued (view (Ch_drop_receiver Ch ch')) = []"
      using assms(3) by (simp add: mpsc_laws_def)
    show "\<exists>task2'. run_closed C' Q' (Suc (Suc fuel)) (Arm_capsule # arms) task2 = Some (Ok (Some (code, ?r)), task2')"
      if "pending_capsules task2 = [] \<and>
       content' (task_recv task2) = frame_wire (Frame_DATA, capsule_wire (CloseWebTransportSession code ?r)) @ rest"
      for task2 :: "('s2, 'r2) closed_task" and rest and Q' :: "('s2, 'c2, 'w2, 'i2) quinn_send" and arms fuel
      using run_closed_reads_close [OF assms(4) capsule_reason_ok] that by blast
    show "SessionError_session_error (SessionError_from (ApplicationClosed
        \<lparr>error_code = error_to_http3 code, reason = ?r\<rparr>)) = Some (code, ?r)"
      using r(1) by (simp add: SessionError_session_error_def SessionError_from_def error_from_to from_utf8_lossy_id)
  qed
qed

theorem close_request_outcome_witness:
  "\<exists>r ch'. Session_close example_connection example_mpsc ((Session_raw ())
      \<lparr>close_tx := Some (Ch_channel example_mpsc 1)\<rparr> :: (unit, bytes, bytes, unit, CloseCommand channel_view) Session)
      7 [0x62, 0x79, 0x65] ([], []) =
      ((Session_raw ())\<lparr>close_tx := Some ch'\<rparr>, ([], [])) \<and>
    session_task_finish example_connection (Ok (Some (7, r))) ([], []) =
      QC_close example_connection (error_to_http3 7) r ([], []) \<and> length r \<le> 1024"
proof -
  let ?self = "(Session_raw ())\<lparr>close_tx := Some (Ch_channel example_mpsc 1)\<rparr> :: (unit, bytes, bytes, unit, CloseCommand channel_view) Session"
  let ?ch = "Ch_channel example_mpsc 1 :: CloseCommand channel_view"
  have q: "quinn_close_laws example_quinn_send (\<lambda>s. s)"
    by (simp add: quinn_close_laws_def example_quinn_send_def)
  have ch: "receiver ?ch" "queued ?ch = []" "capacity ?ch = 1" by (simp_all add: example_mpsc_def)
  have tx: "close_tx ?self = Some ?ch" by simp
  have n: "QC_close_reason example_connection q = None" for q by (simp add: example_connection_def)
  note t = close_request_outcome [OF example_connection_laws q example_mpsc_laws example_connection_laws tx ch,
      of "[0x62, 0x79, 0x65]" 7 "([], [])"]
  then show ?thesis
    apply (elim exE conjE)
    subgoal premises p for r ch' ch''
      using p(2,4) p(8) [THEN spec, of "([], [])"] n by fastforce
    done
qed

end
