(* ===== verification/Session_Lifecycle.thy ===== *)
theory Session_Lifecycle
  imports Session
begin

section \<open>The life of a session\<close>

text \<open>
  The handles of a session, the queue of close requests and the task on the CONNECT stream of
  \<^verbatim>\<open>webtrans-quinn/src/session.rs\<close> as one machine. Its steps are the calls of \<^verbatim>\<open>close\<close>, dropped
  handles, the arms of \<^verbatim>\<open>select!\<close> in \<^verbatim>\<open>run_closed\<close>, the end of the spawned task, and what the
  network does. The lemmas show an invariant of every reachable state, what a close request does in
  it, and how a queued request can be lost when the peer ends the CONNECT stream.
\<close>

subsection \<open>States and steps\<close>

text \<open>The task runs, has returned from \<^verbatim>\<open>run_closed\<close> and dropped the receiver, or is done.\<close>

datatype ('s, 'r) task_phase = Phase_running "('s, 'r) closed_task"
  | Phase_ending "((u32 \<times> bytes) option, CapsuleError) res" | Phase_done

record ('q, 'u, 's, 'r, 'c, 'ch) session_world =
  world_conn :: 'q
  world_session :: "('u, 's, 'r, 'c, 'ch) Session"
  world_phase :: "('s, 'r) task_phase"

definition session_return :: "('ch, CloseCommand) mpsc \<Rightarrow> ((u32 \<times> bytes) option, CapsuleError) res \<Rightarrow>
    ('q, 'u, 's, 'r, 'c, 'ch) session_world \<Rightarrow> ('q, 'u, 's, 'r, 'c, 'ch) session_world" where
  "session_return Ch result w =
     w\<lparr>world_phase := Phase_ending result,
       world_session := (world_session w)\<lparr>close_tx := map_option (Ch_drop_receiver Ch) (close_tx (world_session w))\<rparr>\<rparr>"

inductive session_step :: "('q, 's, 'r, 'c, 'd) quinn_connection \<Rightarrow> ('s, 'c, 'w, 'i) quinn_send \<Rightarrow>
    ('ch, CloseCommand) mpsc \<Rightarrow> ('q, 'u, 's, 'r, 'c, 'ch) session_world \<Rightarrow> ('q, 'u, 's, 'r, 'c, 'ch) session_world \<Rightarrow> bool"
  for C Q Ch where
  close: "Session_close C Ch (world_session w) code why (world_conn w) = (self, q) \<Longrightarrow>
    session_step C Q Ch w (w\<lparr>world_session := self, world_conn := q\<rparr>)"
| drop_handle: "close_tx (world_session w) = Some ch \<Longrightarrow>
    session_step C Q Ch w (w\<lparr>world_session := (world_session w)\<lparr>close_tx := Some (Ch_drop_sender Ch ch)\<rparr>\<rparr>)"
| capsule: "world_phase w = Phase_running task \<Longrightarrow>
    read_capsule_frame fuel (QC_read_exact C) (task_recv task) (pending_capsules task) = Some r \<Longrightarrow>
    run_closed_capsule r task = Loop_continue task' \<Longrightarrow>
    session_step C Q Ch w (w\<lparr>world_phase := Phase_running task'\<rparr>)"
| capsule_end: "world_phase w = Phase_running task \<Longrightarrow>
    read_capsule_frame fuel (QC_read_exact C) (task_recv task) (pending_capsules task) = Some r \<Longrightarrow>
    run_closed_capsule r task = Loop_return result task' \<Longrightarrow>
    session_step C Q Ch w (session_return Ch result w)"
| close_request: "world_phase w = Phase_running task \<Longrightarrow> close_tx (world_session w) = Some ch \<Longrightarrow>
    Ch_recv Ch ch = (Poll_Ready cmd, ch') \<Longrightarrow> run_closed_close C Q cmd elapsed task = Loop_return result task' \<Longrightarrow>
    session_step C Q Ch w
      (session_return Ch result (w\<lparr>world_session := (world_session w)\<lparr>close_tx := Some ch'\<rparr>\<rparr>))"
| finish: "world_phase w = Phase_ending result \<Longrightarrow>
    session_step C Q Ch w (w\<lparr>world_conn := session_task_finish C result (world_conn w), world_phase := Phase_done\<rparr>)"
| network: "session_step C Q Ch w (w\<lparr>world_conn := q\<rparr>)"
| arrives: "world_phase w = Phase_running task \<Longrightarrow>
    session_step C Q Ch w (w\<lparr>world_phase := Phase_running (task\<lparr>task_recv := r\<rparr>)\<rparr>)"

inductive_cases session_stepE: "session_step C Q Ch w w'"

text \<open>The state in which \<^verbatim>\<open>Session::new\<close> leaves session and task.\<close>

definition session_start :: "'q \<Rightarrow> ('u, 's, 'r, 'c, 'ch) Session \<times> ('s, 'r) closed_task \<Rightarrow>
    ('q, 'u, 's, 'r, 'c, 'ch) session_world" where
  "session_start q st = \<lparr>world_conn = q, world_session = fst st, world_phase = Phase_running (snd st)\<rparr>"

subsection \<open>The invariant\<close>

definition running :: "('s, 'r) task_phase \<Rightarrow> bool" where
  "running ph \<longleftrightarrow> (case ph of Phase_running _ \<Rightarrow> True | _ \<Rightarrow> False)"

definition queue_ok :: "CloseCommand channel_view \<Rightarrow> bool" where
  "queue_ok v \<longleftrightarrow> capacity v = 1 \<and> length (queued v) \<le> 1 \<and>
     (\<forall>c \<in> set (queued v). length (close_reason c) \<le> 1024 \<and> utf8_valid (close_reason c))"

definition phase_ok :: "('s, 'r) task_phase \<Rightarrow> bool" where
  "phase_ok ph \<longleftrightarrow> (case ph of
      Phase_running task \<Rightarrow> length (pending_capsules task) \<le> 3091
    | Phase_ending (Ok (Some (code, r))) \<Rightarrow> length r \<le> 1024 \<and> utf8_valid r
    | _ \<Rightarrow> True)"

definition session_inv :: "('ch \<Rightarrow> CloseCommand channel_view) \<Rightarrow> ('q, 'u, 's, 'r, 'c, 'ch) session_world \<Rightarrow> bool" where
  "session_inv view w \<longleftrightarrow> session_id (world_session w) \<noteq> None \<and>
     (\<exists>ch. close_tx (world_session w) = Some ch \<and> queue_ok (view ch) \<and>
        (receiver (view ch) \<longleftrightarrow> running (world_phase w))) \<and>
     phase_ok (world_phase w)"

lemma running_simps [simp]: "running (Phase_running t)" "\<not> running (Phase_ending r)" "\<not> running Phase_done"
  by (simp_all add: running_def)

lemma phase_ok_simps [simp]:
  "phase_ok (Phase_running t) \<longleftrightarrow> length (pending_capsules t) \<le> 3091" "phase_ok Phase_done"
  "phase_ok (Phase_ending (Ok (Some (code, r)))) \<longleftrightarrow> length r \<le> 1024 \<and> utf8_valid r"
  "phase_ok (Phase_ending (Ok None))" "phase_ok (Phase_ending (Err e))" "phase_ok (Phase_ending Panic)"
  by (simp_all add: phase_ok_def)

lemma session_inv_start:
  assumes "quinn_connection_laws C sent content" and "mpsc_laws Ch view"
    and "Session_new C Ch settings connect = (Ok st :: (_, 'e) res)"
  shows "session_inv view (session_start q st)"
proof -
  have "view (Ch_channel Ch 1) = \<lparr>queued = [], capacity = 1, senders = 1, receiver = True\<rparr>"
    using assms(2) unfolding mpsc_laws_def by blast
  then show ?thesis
    using assms(3)
    by (auto simp: Session_new_ok(1) [OF assms(1) refl] session_inv_def session_start_def queue_ok_def)
qed

lemma session_inv_return:
  fixes w :: "('q, 'u, 's, 'r, 'c, 'ch) session_world"
  assumes "mpsc_laws Ch view" and "close_tx (world_session w) = Some ch" and "queue_ok (view ch)"
    and "session_id (world_session w) \<noteq> None" and "phase_ok (Phase_ending result :: ('s, 'r) task_phase)"
  shows "session_inv view (session_return Ch result w)"
proof -
  have "view (Ch_drop_receiver Ch ch) = (view ch)\<lparr>queued := [], receiver := False\<rparr>"
    using assms(1) unfolding mpsc_laws_def by blast
  then show ?thesis using assms(2-) by (simp add: session_inv_def session_return_def queue_ok_def)
qed

text \<open>What a close request does in a state of the invariant.\<close>

lemma session_inv_close:
  assumes laws: "mpsc_laws Ch view" and inv: "session_inv view w"
    and c: "Session_close C Ch (world_session w) code why (world_conn w) = (self, q)"
  obtains (queued) ch where "running (world_phase w)" and "q = world_conn w" and "self = (world_session w)\<lparr>close_tx := Some ch\<rparr>"
      and "queue_ok (view ch)" and "receiver (view ch)" and "queued (view ch) \<noteq> []"
  | (direct) ch where "\<not> running (world_phase w)" and "q = close_connection C code why (world_conn w)"
      and "self = (world_session w)\<lparr>close_tx := Some ch\<rparr>" and "queue_ok (view ch)" and "\<not> receiver (view ch)"
proof -
  from inv obtain ch where ch: "close_tx (world_session w) = Some ch" "queue_ok (view ch)"
      "receiver (view ch) \<longleftrightarrow> running (world_phase w)" and sid: "session_id (world_session w) \<noteq> None"
    by (auto simp: session_inv_def)
  show thesis
  proof (cases "receiver (view ch)")
    case False
    obtain ch' where "Session_close C Ch (world_session w) code why (world_conn w) =
        ((world_session w)\<lparr>close_tx := Some ch'\<rparr>, close_connection C code why (world_conn w))" "view ch' = view ch"
      by (rule Session_close_direct [OF laws ch(1) False sid])
    then show thesis using direct [of ch'] c ch False by simp
  next
    case True
    show thesis
    proof (cases "queued (view ch) = []")
      case empty: True
      have cap: "capacity (view ch) = 1" using ch(2) by (simp add: queue_ok_def)
      obtain ch' where "Session_close C Ch (world_session w) code why (world_conn w) =
          ((world_session w)\<lparr>close_tx := Some ch'\<rparr>, world_conn w)"
          "view ch' = (view ch)\<lparr>queued := [\<lparr>close_code = code, close_reason = capsule_reason (take 1024 why)\<rparr>]\<rparr>"
        by (rule Session_close_queues [OF laws ch(1) True empty cap])
      then show thesis
        using queued [of ch'] c True ch(3) cap by (simp add: queue_ok_def capsule_reason_props)
    next
      case False
      then have full: "capacity (view ch) \<le> length (queued (view ch))"
        using ch(2) by (cases "queued (view ch)") (simp_all add: queue_ok_def)
      obtain ch' where "Session_close C Ch (world_session w) code why (world_conn w) =
          ((world_session w)\<lparr>close_tx := Some ch'\<rparr>, world_conn w)" "view ch' = view ch"
        by (rule Session_close_full [OF laws ch(1) True full])
      then show thesis using queued [of ch'] c True ch False by simp
    qed
  qed
qed

lemma run_closed_close_cases:
  assumes "run_closed_close C Q cmd elapsed task = ctl"
    and "\<And>c. cmd = Some c \<Longrightarrow> length (close_reason c) \<le> 1024 \<and> utf8_valid (close_reason c)"
  obtains task' where "ctl = Loop_return Panic task'"
  | code r task' where "ctl = Loop_return (Ok (Some (code, r))) task'" and "length r \<le> 1024" and "utf8_valid r"
proof (cases cmd)
  case None
  have "utf8_valid (str ''last session handle dropped'')" by (rule str_ascii) (simp add: str_def)
  then show thesis
    using assms(1) None that(2) [of 0 "str ''last session handle dropped''" task]
    by (simp add: run_closed_close_def str_def)
next
  case (Some c)
  note r = capsule_reason_props(2,1) [of "close_reason c"]
  show thesis
  proof (cases elapsed)
    case None
    then show thesis
      using assms(1) that(1) that(2) [OF _ r] \<open>cmd = Some c\<close>
      by (auto simp: run_closed_close_def Let_def split: prod.split_asm res.split_asm)
  next
    case (Some s)
    then show thesis using assms(1) that(2) [OF _ r] \<open>cmd = Some c\<close> by (auto simp: run_closed_close_def Let_def)
  qed
qed

lemma session_inv_step:
  assumes conn: "quinn_connection_laws C sent content" and laws: "mpsc_laws Ch view"
    and step: "session_step C Q Ch w w'" and inv: "session_inv view w"
  shows "session_inv view w'"
proof -
  from inv obtain ch where ch: "close_tx (world_session w) = Some ch" "queue_ok (view ch)"
      "receiver (view ch) \<longleftrightarrow> running (world_phase w)" and sid: "session_id (world_session w) \<noteq> None"
      and ph: "phase_ok (world_phase w)"
    by (auto simp: session_inv_def)
  note ret = read_capsule_frame_returns(2,3) [OF quinn_reads [OF conn]]
  show ?thesis
    using step
  proof (cases rule: session_step.cases)
    case (close code why self q)
    then show ?thesis
      by (cases rule: session_inv_close [OF laws inv close(2)]) (use sid ph in \<open>auto simp: session_inv_def\<close>)
  next
    case (drop_handle ch1)
    have "view (Ch_drop_sender Ch ch) = (view ch)\<lparr>senders := senders (view ch) - 1\<rparr>"
      using laws unfolding mpsc_laws_def by blast
    then show ?thesis using drop_handle ch sid ph by (simp add: session_inv_def queue_ok_def)
  next
    case (capsule task fuel r task')
    have "length (pending_capsules task') \<le> 3091"
      using capsule ph ret(2) [of "pending_capsules task" fuel "task_recv task"]
      by (auto simp: run_closed_capsule_def split: res.split_asm prod.split_asm Capsule.split_asm if_splits)
    then show ?thesis using capsule ch sid by (simp add: session_inv_def)
  next
    case (capsule_end task fuel r result task')
    have "phase_ok (Phase_ending result :: (_, _) task_phase)"
      using capsule_end ph ret(2) [of "pending_capsules task" fuel "task_recv task"]
      by (auto simp: run_closed_capsule_def MAX_MESSAGE_SIZE_def split: res.split_asm prod.split_asm Capsule.split_asm if_splits)
    then show ?thesis using capsule_end session_inv_return [OF laws ch(1,2) sid] by simp
  next
    case (close_request task ch1 cmd ch' elapsed result task')
    then have rx: "receiver (view ch)" using ch(3) by simp
    have recv: "Ch_recv Ch ch = (Poll_Ready cmd, ch')" using close_request ch(1) by simp
    have v: "queue_ok (view ch') \<and> (\<forall>c. cmd = Some c \<longrightarrow> length (close_reason c) \<le> 1024 \<and> utf8_valid (close_reason c))"
      by (rule mpsc_recv [OF laws rx]) (use recv ch(2) in \<open>auto simp: queue_ok_def\<close>)
    have p: "phase_ok (Phase_ending result :: (_, _) task_phase)"
      by (rule run_closed_close_cases [OF close_request(5)]) (use v in auto)
    show ?thesis
      using session_inv_return [OF laws, of "w\<lparr>world_session := (world_session w)\<lparr>close_tx := Some ch'\<rparr>\<rparr>" ch'] v sid p
      unfolding close_request(1) by simp
  next
    case (finish result)
    then show ?thesis using ch sid by (simp add: session_inv_def)
  next
    case (network q)
    then show ?thesis using inv by (simp add: session_inv_def)
  next
    case (arrives task r)
    then show ?thesis using ch sid ph by (simp add: session_inv_def)
  qed
qed

lemma session_inv_reachable:
  assumes "quinn_connection_laws C sent content" and "mpsc_laws Ch view"
    and "Session_new C Ch settings connect = (Ok st :: (_, 'e) res)"
    and "rtranclp (session_step C Q Ch) (session_start q st) w"
  shows "session_inv view w"
  using assms(4)
proof induction
  case base
  show ?case by (rule session_inv_start [OF assms(1-3)])
next
  case (step w1 w2)
  show ?case by (rule session_inv_step [OF assms(1,2) step.hyps(2) step.IH])
qed

subsection \<open>A request that is lost\<close>

text \<open>
  When the peer ends the CONNECT stream while a request is queued, \<^verbatim>\<open>select!\<close> may take the arm of the
  stream: \<^verbatim>\<open>run_closed\<close> returns without a code, the request is dropped with the receiver, and the
  connection stays as it is, although \<^verbatim>\<open>close\<close> has returned. The Quion backend closes the connection
  in this case.
\<close>

lemma queued_close_lost:
  assumes laws: "mpsc_laws Ch view" and ph: "world_phase w = Phase_running task"
    and ch: "close_tx (world_session w) = Some ch" and q: "queued (view ch) = [cmd]"
    and ended: "read_capsule_frame fuel (QC_read_exact C) (task_recv task) (pending_capsules task) =
      Some (Err CapsuleError_UnexpectedEnd)"
  shows "\<exists>w' ch'. rtranclp (session_step C Q Ch) w w' \<and> world_conn w' = world_conn w \<and>
    world_phase w' = Phase_done \<and> close_tx (world_session w') = Some ch' \<and> queued (view ch') = []"
proof -
  let ?w1 = "session_return Ch (Ok None) w"
  let ?w2 = "?w1\<lparr>world_conn := session_task_finish C (Ok None) (world_conn ?w1), world_phase := Phase_done\<rparr>"
  have "run_closed_capsule (Err CapsuleError_UnexpectedEnd) task = Loop_return (Ok None) task"
    by (simp add: run_closed_capsule_def is_graceful_close_def)
  then have "session_step C Q Ch w ?w1" by (rule session_step.capsule_end [OF ph ended])
  moreover have "session_step C Q Ch ?w1 ?w2" by (rule session_step.finish) (simp add: session_return_def)
  ultimately have "rtranclp (session_step C Q Ch) w ?w2"
    by (rule rtranclp.rtrancl_into_rtrancl [OF r_into_rtranclp])
  moreover have "view (Ch_drop_receiver Ch ch) = (view ch)\<lparr>queued := [], receiver := False\<rparr>"
    using laws unfolding mpsc_laws_def by blast
  ultimately show ?thesis
    using ch by (intro exI [of _ ?w2] exI [of _ "Ch_drop_receiver Ch ch"])
      (simp add: session_return_def session_task_finish_def)
qed

subsection \<open>Properties\<close>

text \<open>
  C6. In every state that a session can reach, whatever is called, arrives or fails and in whatever
  order: at most one close request is queued, its reason is valid UTF-8 of at most 1,024 bytes; the
  reassembly buffer of the task holds at most 3,091 bytes; and requests are queued exactly while
  the task runs. So a call of \<^verbatim>\<open>close\<close> always leads on: while the task runs a request is queued
  afterwards and the connection is left alone, and after that the connection is closed at once with
  the code in the HTTP/3 range.
\<close>

theorem session_invariant:
  fixes C :: "('q, 's, 'r, 'c, 'd) quinn_connection"
  assumes "quinn_connection_laws C sent content" and "mpsc_laws Ch view"
    and "Session_new C Ch settings connect = (Ok st :: (_, 'e) res)"
    and "rtranclp (session_step C Q Ch) (session_start q st) w"
    and "Session_close C Ch (world_session w) code why (world_conn w) = (self, q')"
  shows "\<exists>ch. close_tx (world_session w) = Some ch \<and> length (queued (view ch)) \<le> 1 \<and>
    (\<forall>c \<in> set (queued (view ch)). length (close_reason c) \<le> 1024 \<and> utf8_valid (close_reason c)) \<and>
    (\<forall>task. world_phase w = Phase_running task \<longrightarrow> length (pending_capsules task) \<le> 3091) \<and>
    (receiver (view ch) \<longleftrightarrow> running (world_phase w)) \<and>
    (if running (world_phase w)
     then q' = world_conn w \<and> (\<exists>ch' c. close_tx self = Some ch' \<and> queued (view ch') = [c])
     else q' = QC_close C (error_to_http3 code) why (world_conn w))"
proof -
  note inv = session_inv_reachable [OF assms(1-4)]
  from inv obtain ch where ch: "close_tx (world_session w) = Some ch" "queue_ok (view ch)"
      "receiver (view ch) \<longleftrightarrow> running (world_phase w)" and ph: "phase_ok (world_phase w)"
    by (auto simp: session_inv_def)
  have "if running (world_phase w)
     then q' = world_conn w \<and> (\<exists>ch' c. close_tx self = Some ch' \<and> queued (view ch') = [c])
     else q' = QC_close C (error_to_http3 code) why (world_conn w)"
  proof (cases rule: session_inv_close [OF assms(2) inv assms(5)])
    case (1 ch')
    then show ?thesis by (cases "queued (view ch')") (auto simp: queue_ok_def)
  next
    case (2 ch')
    then show ?thesis by (simp add: close_connection_code [OF assms(1)])
  qed
  then show ?thesis using ch ph by (auto simp: queue_ok_def)
qed

theorem session_invariant_witness:
  "\<exists>st w self ch. Session_new example_connection example_mpsc \<lparr>settings_send = [], settings_recv = []\<rparr>
      \<lparr>connect_request = \<lparr>request_url = ()\<rparr>, connect_send = [], connect_recv = []\<rparr> = (Ok st :: (_, unit) res) \<and>
    rtranclp (session_step example_connection example_quinn_send example_mpsc) (session_start ([], []) st) w \<and>
    running (world_phase w) \<and> w \<noteq> session_start ([], []) st \<and>
    Session_close example_connection example_mpsc (world_session w) 9 [] (world_conn w) = (self, world_conn w) \<and>
    close_tx self = Some ch \<and> length (queued ch) = 1"
proof -
  let ?connect = "\<lparr>connect_request = \<lparr>request_url = ()\<rparr>, connect_send = [] :: bytes, connect_recv = [] :: bytes\<rparr>"
  let ?settings = "\<lparr>settings_send = [] :: bytes, settings_recv = [] :: bytes\<rparr>"
  obtain self task where new: "Session_new example_connection example_mpsc ?settings ?connect = (Ok (self, task) :: (_, unit) res)"
      and tx: "close_tx self = Some (Ch_channel example_mpsc 1)"
    by (simp add: Session_new_ok(1) [OF example_connection_laws refl])
  let ?w = "session_start ([] :: bytes, [] :: bytes) (self, task)"
  have ch: "receiver (Ch_channel example_mpsc 1 :: CloseCommand channel_view)"
      "queued (Ch_channel example_mpsc 1 :: CloseCommand channel_view) = []"
      "capacity (Ch_channel example_mpsc 1 :: CloseCommand channel_view) = 1"
    by (simp_all add: example_mpsc_def)
  have start: "world_session ?w = self" "world_conn ?w = ([], [])" "running (world_phase ?w)"
    by (simp_all add: session_start_def)
  obtain ch1 where c: "Session_close example_connection example_mpsc self 7 [] ([], []) = (self\<lparr>close_tx := Some ch1\<rparr>, ([], []))"
      and "ch1 = (Ch_channel example_mpsc 1)\<lparr>queued := [\<lparr>close_code = 7, close_reason = capsule_reason (take 1024 [])\<rparr>]\<rparr>"
    by (rule Session_close_queues [OF example_mpsc_laws tx ch])
  then have c1: "Session_close example_connection example_mpsc (world_session ?w) 7 [] (world_conn ?w) =
      (self\<lparr>close_tx := Some ch1\<rparr>, ([], []))" and q1: "queued ch1 \<noteq> []"
    by (simp_all only: start) simp
  let ?w1 = "?w\<lparr>world_session := self\<lparr>close_tx := Some ch1\<rparr>, world_conn := ([], [])\<rparr>"
  have reach: "rtranclp (session_step example_connection example_quinn_send example_mpsc) ?w ?w1"
    by (rule r_into_rtranclp, rule session_step.close [OF c1])
  obtain self' q' where c: "Session_close example_connection example_mpsc (world_session ?w1) 9 [] (world_conn ?w1) = (self', q')"
    by (metis prod.exhaust)
  have run: "running (world_phase ?w1)" using start by simp
  have differs: "?w1 \<noteq> ?w"
  proof
    assume "?w1 = ?w"
    then have "close_tx (world_session ?w1) = close_tx (world_session ?w)" by (rule arg_cong)
    then have "Some ch1 = close_tx self" unfolding start(1) by simp
    then show False using tx ch(2) q1 by simp
  qed
  from session_invariant [OF example_connection_laws example_mpsc_laws new reach c]
  obtain ch' cmd where "q' = world_conn ?w1" "close_tx self' = Some ch'" "queued ch' = [cmd]"
    using run by (elim exE conjE) (simp only: if_True, blast)
  then show ?thesis using new reach run differs c by (intro exI conjI) auto
qed

end
