(* ===== verification/Quinn_Endpoints.thy ===== *)
theory Quinn_Endpoints
  imports Session
begin

section \<open>Clients and servers over Quinn\<close>

text \<open>
  \<^verbatim>\<open>webtrans-quinn/src/client.rs\<close> and \<^verbatim>\<open>server.rs\<close>: what a client checks of a URL and of a
  certificate before it connects, the requests a server accepts, answers, rejects or drops, and the
  loop that admits handshakes. URL parsing, name resolution, TLS and the QUIC handshake are
  parameters. The lemmas show that a client and a server of this library agree on the session
  they establish, and that a server returns every handshake it admits once and never holds more
  of them than its limit.
\<close>

subsection \<open>The client\<close>

datatype ('ip4, 'ip6) url_host = Domain bytes | Ipv4 'ip4 | Ipv6 'ip6

record ('u, 'ip4, 'ip6) url_target =
  Url_port :: "'u \<Rightarrow> u16 option"
  Url_host :: "'u \<Rightarrow> ('ip4, 'ip6) url_host option"
  Url_cannot_be_a_base :: "'u \<Rightarrow> bool"

definition validate_url :: "('u, 'p) url_api \<Rightarrow> ('u, 'ip4, 'ip6) url_target \<Rightarrow> 'u \<Rightarrow>
    (unit, ('c, 'p, 'm, 'st, 'qe, 'te) ClientError) res" where
  "validate_url U T url =
     (if Url_scheme U url \<noteq> str ''https'' then
        Err (CE_InvalidUrl (str ''WebTransport requires an https URL''))
      else if Url_username U url \<noteq> [] \<or> Url_password U url \<noteq> None then
        Err (CE_InvalidUrl (str ''userinfo is not supported in the authority''))
      else if Url_fragment U url \<noteq> None then
        Err (CE_InvalidUrl (str ''URL fragments are not sent in HTTP request targets''))
      else if Url_cannot_be_a_base T url \<or> Url_host T url = None then
        Err (CE_InvalidUrl (str ''URL must contain a valid authority and path''))
      else Ok ())"

text \<open>
  What the client uses of the system: name resolution, text and socket addresses of IP addresses,
  the endpoint and the QUIC handshake. \<open>dns_expires\<close> and \<open>establish_expires\<close> say whether a deadline
  that is set passes before the operation completes.
\<close>

record ('ip4, 'ip6, 'addr, 'cfg, 'qe, 'h, 'q, 'c) client_net =
  Net_lookup_host :: "bytes \<Rightarrow> u16 \<Rightarrow> 'addr list option"
  Net_ip4 :: "'ip4 \<Rightarrow> u16 \<Rightarrow> bytes \<times> 'addr"
  Net_ip6 :: "'ip6 \<Rightarrow> u16 \<Rightarrow> bytes \<times> 'addr"
  Net_connect_with :: "'cfg \<Rightarrow> 'addr \<Rightarrow> bytes \<Rightarrow> ('h, 'qe) res"
  Net_connecting :: "'h \<Rightarrow> ('q, 'c quinn_ConnectionError) res"
  Net_dns_expires :: "bytes \<Rightarrow> bool"
  Net_establish_expires :: "'h \<Rightarrow> bool"

record 'cfg Client =
  client_config :: 'cfg
  dns_timeout :: "nat option"
  client_handshake_timeout :: "nat option"

definition Client_new :: "'cfg \<Rightarrow> 'cfg Client" where
  "Client_new config = \<lparr>client_config = config, dns_timeout = None, client_handshake_timeout = None\<rparr>"

definition resolve_target :: "('ip4, 'ip6, 'addr, 'cfg, 'qe, 'h, 'q, 'c) client_net \<Rightarrow> 'cfg Client \<Rightarrow>
    ('ip4, 'ip6) url_host \<Rightarrow> u16 \<Rightarrow> (bytes \<times> 'addr, ('c, 'p, 'm, 'st, 'qe, 'te) ClientError) res" where
  "resolve_target N self host port =
     (case host of
        Domain domain \<Rightarrow>
          if dns_timeout self \<noteq> None \<and> Net_dns_expires N domain then Err CE_DnsTimeout
          else (case Net_lookup_host N domain port of
                  None \<Rightarrow> Err (CE_InvalidDnsName domain)
                | Some [] \<Rightarrow> Err (CE_InvalidDnsName domain)
                | Some (remote # _) \<Rightarrow> Ok (domain, remote))
      | Ipv4 ip \<Rightarrow> Ok (Net_ip4 N ip port)
      | Ipv6 ip \<Rightarrow> Ok (Net_ip6 N ip port))"

definition Client_connect :: "('ip4, 'ip6, 'addr, 'cfg, 'qe, 'h, 'q, 'c) client_net \<Rightarrow>
    ('u, 'ip4, 'ip6) url_target \<Rightarrow> bool \<Rightarrow> ('q, 's, 'r, 'c, 'd) quinn_connection \<Rightarrow> ('ch, CloseCommand) mpsc \<Rightarrow>
    ('u, 'p) url_api \<Rightarrow> ('m, 'st) http_api \<Rightarrow> 'st status_codes \<Rightarrow> (Settings \<Rightarrow> Settings) \<Rightarrow> (Headers \<Rightarrow> Headers) \<Rightarrow>
    nat \<Rightarrow> 'cfg Client \<Rightarrow> 'u \<Rightarrow>
    ((('u, 's, 'r, 'c, 'ch) Session \<times> ('s, 'r) closed_task) \<times> 'q, ('c, 'p, 'm, 'st, 'qe, 'te) ClientError) res option" where
  "Client_connect N T open_first C Ch U H S ho ho' fuel self url =
     fuel_bind (Some (validate_url U T url)) (\<lambda>_.
     let port = (case Url_port T url of Some port \<Rightarrow> port | None \<Rightarrow> 443) in
     fuel_bind (Some (ok_or (CE_InvalidDnsName []) (Url_host T url))) (\<lambda>host.
     fuel_bind (Some (resolve_target N self host port)) (\<lambda>(host, remote).
     fuel_bind (Some (map_err CE_QuinnError (Net_connect_with N (client_config self) remote host))) (\<lambda>connecting.
       if client_handshake_timeout self \<noteq> None \<and> Net_establish_expires N connecting then Some (Err CE_HandshakeTimeout)
       else
         fuel_bind (Some (map_err CE_Connection (Net_connecting N connecting))) (\<lambda>conn.
           Session_connect open_first C Ch U H S ho ho' fuel url conn)))))"

text \<open>\<open>sha256\<close> is the digest of the provider.\<close>

datatype cert_error = UnknownIssuer

definition verify_server_cert :: "(bytes \<Rightarrow> bytes) \<Rightarrow> bytes list \<Rightarrow> bytes \<Rightarrow> (unit, cert_error) res" where
  "verify_server_cert sha256 fingerprints end_entity =
     (let cert_hash = sha256 end_entity in
      if list_ex (\<lambda>fingerprint. fingerprint = cert_hash) fingerprints then Ok () else Err UnknownIssuer)"

subsection \<open>Requests on the server\<close>

datatype ('c, 'p, 'm, 'st, 'te) ServerError = SRV_RequestAlreadyCompleted | SRV_UnexpectedEnd
  | SRV_Connection "'c quinn_ConnectionError" | SRV_HandshakeTimeout | SRV_WriteError "'c quinn_WriteError"
  | SRV_ReadError "'c quinn_ReadError" | SRV_SettingsError "'c quinn_SettingsError"
  | SRV_ConnectError "('c, 'p, 'm, 'st) quinn_ConnectError" | SRV_IoError io_error
  | SRV_InvalidCryptoConfiguration | SRV_Rustls 'te

record ('q, 'u, 's, 'r) Request =
  request_conn :: "'q option"
  request_settings :: "('s, 'r) quinn_Settings option"
  request_connect :: "('u, 's, 'r) quinn_Connect option"
  request_target :: 'u

definition Request_accept :: "bool \<Rightarrow> ('q, 's, 'r, 'c, 'd) quinn_connection \<Rightarrow> ('u, 'p) url_api \<Rightarrow>
    ('m, 'st) http_api \<Rightarrow> (Settings \<Rightarrow> Settings) \<Rightarrow> (Headers \<Rightarrow> Headers) \<Rightarrow> nat \<Rightarrow> 'q \<Rightarrow>
    (('q, 'u, 's, 'r) Request, ('c, 'p, 'm, 'st, 'te) ServerError) res option" where
  "Request_accept open_first C U H ho ho' fuel conn =
     fuel_bind (map_option (map_err SRV_SettingsError) (quinn_Settings_connect open_first C ho fuel False conn))
       (\<lambda>(settings, conn).
     fuel_bind (map_option (map_err SRV_ConnectError) (quinn_Connect_accept C U H ho' fuel conn)) (\<lambda>(connect, conn).
       let url = quinn_Connect_url connect in
       Some (Ok \<lparr>request_conn = Some conn, request_settings = Some settings, request_connect = Some connect,
         request_target = url\<rparr>)))"

definition Request_ok :: "('q, 's, 'r, 'c, 'd) quinn_connection \<Rightarrow> ('ch, CloseCommand) mpsc \<Rightarrow>
    ('m, 'st) http_api \<Rightarrow> 'st status_codes \<Rightarrow> (Headers \<Rightarrow> Headers) \<Rightarrow> ('q, 'u, 's, 'r) Request \<Rightarrow>
    ((('u, 's, 'r, 'c, 'ch) Session \<times> ('s, 'r) closed_task) \<times> 'q, ('c, 'p, 'm, 'st, 'te) ServerError) res" where
  "Request_ok C Ch H S ho self =
     and_then (ok_or SRV_RequestAlreadyCompleted (request_connect self)) (\<lambda>connect.
     and_then (map_err SRV_ConnectError (quinn_Connect_respond C H ho (StatusCode_OK S) connect)) (\<lambda>connect.
     and_then (ok_or SRV_RequestAlreadyCompleted (request_conn self)) (\<lambda>conn.
     and_then (ok_or SRV_RequestAlreadyCompleted (request_settings self)) (\<lambda>settings.
       map_ok (\<lambda>s. (s, conn)) (Session_new C Ch settings connect)))))"

definition Request_close :: "('q, 's, 'r, 'c, 'd) quinn_connection \<Rightarrow> ('s, 'c, 'w, 'i) quinn_send \<Rightarrow>
    ('m, 'st) http_api \<Rightarrow> (Headers \<Rightarrow> Headers) \<Rightarrow> 'st \<Rightarrow> ('q, 'u, 's, 'r) Request \<Rightarrow>
    (('u, 's, 'r) quinn_Connect, ('c, 'p, 'm, 'st, 'te) ServerError) res" where
  "Request_close C Q H ho status self =
     and_then (ok_or SRV_RequestAlreadyCompleted (request_connect self)) (\<lambda>connect.
       map_err SRV_ConnectError (quinn_Connect_reject C Q H ho status connect))"

text \<open>
  A request dropped without an answer: the rejection that is sent, if there is a runtime to send it.
\<close>

definition Request_drop :: "('q, 's, 'r, 'c, 'd) quinn_connection \<Rightarrow> ('s, 'c, 'w, 'i) quinn_send \<Rightarrow>
    ('m, 'st) http_api \<Rightarrow> 'st status_codes \<Rightarrow> (Headers \<Rightarrow> Headers) \<Rightarrow> bool \<Rightarrow> ('q, 'u, 's, 'r) Request \<Rightarrow>
    (('u, 's, 'r) quinn_Connect, ('c, 'p, 'm, 'st) quinn_ConnectError) res option" where
  "Request_drop C Q H S ho in_runtime self =
     (case request_connect self of
        None \<Rightarrow> None
      | Some connect \<Rightarrow>
          if \<not> in_runtime then None
          else Some (quinn_Connect_reject C Q H ho (StatusCode_INTERNAL_SERVER_ERROR S) connect))"

subsection \<open>Admitting handshakes\<close>

text \<open>
  The handshakes in flight are the incoming connections they work on. An arm of \<^verbatim>\<open>select!\<close> is the
  endpoint yielding a connection, or its end, or a handshake that completes; \<^const>\<open>None\<close> while \<^verbatim>\<open>accept\<close> has not
  returned. \<open>expires\<close> says whether a handshake outlives its deadline.
\<close>

record 'inc Server =
  pending_handshakes :: "'inc list"
  handshake_timeout :: "nat option"
  max_pending_handshakes :: nat

definition Server_with_accept_limits :: "nat option \<Rightarrow> nat \<Rightarrow> 'inc Server" where
  "Server_with_accept_limits timeout limit =
     \<lparr>pending_handshakes = [], handshake_timeout = timeout, max_pending_handshakes = limit\<rparr>"

definition handshake_result :: "('inc \<Rightarrow> bool) \<Rightarrow> ('inc \<Rightarrow> ('req, ('c, 'p, 'm, 'st, 'te) ServerError) res) \<Rightarrow>
    nat option \<Rightarrow> 'inc \<Rightarrow> ('req, ('c, 'p, 'm, 'st, 'te) ServerError) res" where
  "handshake_result expires handshake timeout inc =
     (case timeout of
        Some _ \<Rightarrow> if expires inc then Err SRV_HandshakeTimeout else handshake inc
      | None \<Rightarrow> handshake inc)"

datatype 'inc server_arm = Arm_incoming "'inc option" | Arm_completes nat

fun Server_accept :: "('inc \<Rightarrow> bool) \<Rightarrow> ('inc \<Rightarrow> ('req, ('c, 'p, 'm, 'st, 'te) ServerError) res) \<Rightarrow>
    'inc server_arm list \<Rightarrow> 'inc Server \<Rightarrow>
    (('req, ('c, 'p, 'm, 'st, 'te) ServerError) res option \<times> 'inc Server) option" where
  "Server_accept expires handshake [] self = None"
| "Server_accept expires handshake (Arm_incoming inc # arms) self =
     (if length (pending_handshakes self) < max_pending_handshakes self then
        (case inc of
           None \<Rightarrow> Some (None, self)
         | Some conn \<Rightarrow>
             Server_accept expires handshake arms (self\<lparr>pending_handshakes := pending_handshakes self @ [conn]\<rparr>))
      else Server_accept expires handshake arms self)"
| "Server_accept expires handshake (Arm_completes i # arms) self =
     (if i < length (pending_handshakes self) then
        Some (Some (handshake_result expires handshake (handshake_timeout self) (pending_handshakes self ! i)),
          self\<lparr>pending_handshakes := remove_at i (pending_handshakes self)\<rparr>)
      else Server_accept expires handshake arms self)"

subsection \<open>Client and server agree\<close>

text \<open>
  The streams a connection yields during the handshake, whatever its state, and writes that all
  succeed.
\<close>

definition lossless :: "('q, 's, 'r, 'c, 'd) quinn_connection \<Rightarrow> bool" where
  "lossless C \<longleftrightarrow> (\<forall>bs s. \<exists>s'. QC_write_all C bs s = (Ok (), s'))"

definition uni_streams :: "('q, 's, 'r, 'c, 'd) quinn_connection \<Rightarrow> 's \<Rightarrow> 'r \<Rightarrow> bool" where
  "uni_streams C s r \<longleftrightarrow> (\<forall>q. \<exists>q'. QC_open_uni C q = (Ok s, q')) \<and> (\<forall>q. \<exists>q'. QC_accept_uni C q = (Ok r, q'))"

lemma lossless_write_ok: "lossless C \<Longrightarrow> \<exists>s'. write_ok C bs s = Ok s'"
proof -
  assume "lossless C"
  then obtain s' where "QC_write_all C bs s = (Ok (), s')" by (auto simp: lossless_def)
  then show ?thesis by (simp add: write_ok_def)
qed

lemma quinn_Settings_connect_ok:
  fixes C :: "('q, 's, 'r, 'c, 'd) quinn_connection"
  assumes laws: "quinn_connection_laws C sent content" and l: "lossless C" and u: "uni_streams C su r"
    and ho: "hash_order ho" "hash_order ho'"
    and c: "content r = settings_wire (ho' (enable_webtransport 1 [])) @ rest" and f: "length (content r) < fuel"
  shows "\<exists>st q'. quinn_Settings_connect open_first C ho fuel peer q = Some (Ok (st, q')) \<and>
    sent (settings_send st) = sent su @ settings_wire (ho (enable_webtransport 1 []))"
proof -
  have open_ok: "\<exists>s q'. quinn_Settings_open C ho q = Ok (s, q') \<and>
      sent s = sent su @ settings_wire (ho (enable_webtransport 1 []))" for q
  proof -
    obtain q' where o: "QC_open_uni C q = (Ok su, q')" using u by (auto simp: uni_streams_def)
    obtain s where "write_ok C (settings_wire (ho (enable_webtransport 1 []))) su = Ok s"
      using lossless_write_ok [OF l] by blast
    then have "quinn_Settings_open C ho q = Ok (s, q')"
      using o by (simp add: quinn_Settings_open_def with_state_def Settings_write_def Let_def advertised_settings(1,2) [OF ho(1)])
    then show ?thesis using quinn_Settings_open_writes(1) [OF laws ho(1) _ o] by blast
  qed
  have accept_ok: "\<exists>r' q'. quinn_Settings_accept C fuel peer q = Some (Ok (r', q'))" for q
  proof -
    obtain q' where "QC_accept_uni C q = (Ok r, q')" using u by (auto simp: uni_streams_def)
    then show ?thesis using quinn_Settings_accept_reads [OF laws ho(2) _ c f] by blast
  qed
  show ?thesis
  proof (cases open_first)
    case True
    obtain s q1 where "quinn_Settings_open C ho q = Ok (s, q1)"
        "sent s = sent su @ settings_wire (ho (enable_webtransport 1 []))" using open_ok by blast
    moreover obtain r' q2 where "quinn_Settings_accept C fuel peer q1 = Some (Ok (r', q2))" using accept_ok by blast
    ultimately show ?thesis using True by (simp add: quinn_Settings_connect_def)
  next
    case False
    obtain r' q1 where "quinn_Settings_accept C fuel peer q = Some (Ok (r', q1))" using accept_ok by blast
    moreover obtain s q2 where "quinn_Settings_open C ho q1 = Ok (s, q2)"
        "sent s = sent su @ settings_wire (ho (enable_webtransport 1 []))" using open_ok by blast
    ultimately show ?thesis using False by (simp add: quinn_Settings_connect_def)
  qed
qed

subsection \<open>Handshakes in flight\<close>

text \<open>The connections that the endpoint yields along a sequence of arms.\<close>

definition arrivals :: "'inc server_arm list \<Rightarrow> 'inc list" where
  "arrivals arms = List.map_filter (\<lambda>arm. case arm of Arm_incoming inc \<Rightarrow> inc | Arm_completes _ \<Rightarrow> None) arms"

lemma arrivals_simps [simp]:
  "arrivals [] = []" "arrivals (Arm_incoming None # arms) = arrivals arms"
  "arrivals (Arm_incoming (Some c) # arms) = c # arrivals arms" "arrivals (Arm_completes i # arms) = arrivals arms"
  by (simp_all add: arrivals_def List.map_filter_def)

text \<open>
  The handshakes in flight once the arms have been passed over: those there were, and behind them the first
  connections that arrived, as many as there was room for. And whether \<^verbatim>\<open>accept\<close> returns on an arm then.
\<close>

definition in_flight :: "nat \<Rightarrow> 'inc list \<Rightarrow> 'inc server_arm list \<Rightarrow> 'inc list" where
  "in_flight limit pending arms = pending @ take (limit - length pending) (arrivals arms)"

definition returns_on :: "nat \<Rightarrow> 'inc list \<Rightarrow> 'inc server_arm \<Rightarrow> bool" where
  "returns_on limit flight arm =
     (case arm of
        Arm_incoming inc \<Rightarrow> inc = None \<and> length flight < limit
      | Arm_completes i \<Rightarrow> i < length flight)"

lemma in_flight_simps [simp]:
  "in_flight limit pending [] = pending"
  "in_flight limit pending (Arm_incoming None # arms) = in_flight limit pending arms"
  "in_flight limit pending (Arm_completes i # arms) = in_flight limit pending arms"
  "limit \<le> length pending \<Longrightarrow> in_flight limit pending (Arm_incoming inc # arms) = in_flight limit pending arms"
  "length pending < limit \<Longrightarrow> in_flight limit pending (Arm_incoming (Some c) # arms) = in_flight limit (pending @ [c]) arms"
proof -
  assume "length pending < limit"
  then have "limit - length pending = Suc (limit - length (pending @ [c]))" by simp
  then show "in_flight limit pending (Arm_incoming (Some c) # arms) = in_flight limit (pending @ [c]) arms"
    by (simp add: in_flight_def)
qed (simp_all add: in_flight_def)

lemma returns_on_simps [simp]:
  "returns_on limit flight (Arm_incoming inc) \<longleftrightarrow> inc = None \<and> length flight < limit"
  "returns_on limit flight (Arm_completes i) \<longleftrightarrow> i < length flight"
  by (simp_all add: returns_on_def)

lemma length_in_flight: "length pending \<le> limit \<Longrightarrow> length (in_flight limit pending arms) \<le> limit"
  by (simp add: in_flight_def)

text \<open>The first arm on which \<^verbatim>\<open>accept\<close> returns.\<close>

definition first_return :: "nat \<Rightarrow> 'inc list \<Rightarrow> 'inc server_arm list \<Rightarrow> 'inc server_arm list \<Rightarrow> 'inc server_arm \<Rightarrow> bool" where
  "first_return limit pending arms before arm \<longleftrightarrow> (\<exists>rest. arms = before @ arm # rest) \<and>
     returns_on limit (in_flight limit pending before) arm \<and>
     (\<forall>us a vs. before = us @ a # vs \<longrightarrow> \<not> returns_on limit (in_flight limit pending us) a)"

lemma first_return_now: "returns_on limit pending arm \<Longrightarrow> first_return limit pending (arm # arms) [] arm"
  by (simp add: first_return_def)

lemma first_return_later:
  assumes "first_return limit pending' arms before arm" and "\<not> returns_on limit pending a"
    and "\<And>us. in_flight limit pending (a # us) = in_flight limit pending' us"
  shows "first_return limit pending (a # arms) (a # before) arm"
  using assms by (auto simp: first_return_def Cons_eq_append_conv)

lemma never_returns_later:
  assumes "\<forall>us b vs. arms = us @ b # vs \<longrightarrow> \<not> returns_on limit (in_flight limit pending' us) b"
    and "\<not> returns_on limit pending a" and "\<And>us. in_flight limit pending (a # us) = in_flight limit pending' us"
  shows "\<forall>us b vs. a # arms = us @ b # vs \<longrightarrow> \<not> returns_on limit (in_flight limit pending us) b"
  using assms by (auto simp: Cons_eq_append_conv)

text \<open>
  What \<^verbatim>\<open>accept\<close> answers, given the results of the handshakes: it returns on the first arm it can, and
  takes no handshake but the one it returns out of those in flight.
\<close>

definition accept_answer :: "('inc \<Rightarrow> 'res) \<Rightarrow> nat \<Rightarrow> 'inc list \<Rightarrow> 'inc server_arm list \<Rightarrow> ('res option \<times> 'inc list) option \<Rightarrow> bool" where
  "accept_answer run limit pending arms answer =
     (case answer of
        None \<Rightarrow> \<forall>us a vs. arms = us @ a # vs \<longrightarrow> \<not> returns_on limit (in_flight limit pending us) a
      | Some (r, pending') \<Rightarrow> \<exists>before arm. first_return limit pending arms before arm \<and>
          (let flight = in_flight limit pending before in
           case arm of
             Arm_incoming _ \<Rightarrow> r = None \<and> pending' = flight
           | Arm_completes i \<Rightarrow> r = Some (run (flight ! i)) \<and> pending' = take i flight @ drop (Suc i) flight))"

lemma accept_answer_later:
  assumes "accept_answer run limit pending' arms answer" and "\<not> returns_on limit pending a"
    and "\<And>us. in_flight limit pending (a # us) = in_flight limit pending' us"
  shows "accept_answer run limit pending (a # arms) answer"
proof (cases answer)
  case None
  then show ?thesis using assms(1) never_returns_later [OF _ assms(2,3)] by (simp add: accept_answer_def)
next
  case (Some x)
  obtain r pend where x: "x = (r, pend)" by fastforce
  obtain before arm where f: "first_return limit pending' arms before arm"
      "case arm of
         Arm_incoming _ \<Rightarrow> r = None \<and> pend = in_flight limit pending' before
       | Arm_completes i \<Rightarrow> r = Some (run (in_flight limit pending' before ! i)) \<and>
           pend = take i (in_flight limit pending' before) @ drop (Suc i) (in_flight limit pending' before)"
    using assms(1) by (auto simp: accept_answer_def Some x Let_def)
  show ?thesis
    unfolding accept_answer_def Some x Let_def assms(3) option.case prod.case
    using first_return_later [OF f(1) assms(2,3)] f(2)
    by (intro exI [of _ "a # before"] exI [of _ arm] conjI) (simp_all only: assms(3))
qed

lemma accept_answer_bound:
  assumes "accept_answer run limit pending arms (Some (r, pending'))" and "length pending \<le> limit"
  shows "length pending' \<le> limit"
proof -
  obtain before arm where "first_return limit pending arms before arm"
      "case arm of Arm_incoming _ \<Rightarrow> r = None \<and> pending' = in_flight limit pending before
       | Arm_completes i \<Rightarrow> r = Some (run (in_flight limit pending before ! i)) \<and>
           pending' = take i (in_flight limit pending before) @ drop (Suc i) (in_flight limit pending before)"
    using assms(1) by (auto simp: accept_answer_def Let_def)
  then show ?thesis
    using length_in_flight [OF assms(2), of before] by (cases arm) auto
qed

lemma accept_answer_map:
  assumes "accept_answer run limit pending arms answer"
  shows "accept_answer (\<lambda>inc. g (run inc)) limit pending arms (map_option (\<lambda>(r, pending'). (map_option g r, pending')) answer)"
proof (cases answer)
  case (Some x)
  obtain r pend where x: "x = (r, pend)" by fastforce
  obtain before arm where f: "first_return limit pending arms before arm"
      "case arm of
         Arm_incoming _ \<Rightarrow> r = None \<and> pend = in_flight limit pending before
       | Arm_completes i \<Rightarrow> r = Some (run (in_flight limit pending before ! i)) \<and>
           pend = take i (in_flight limit pending before) @ drop (Suc i) (in_flight limit pending before)"
    using assms by (auto simp: accept_answer_def Some x Let_def)
  then have "case arm of
         Arm_incoming _ \<Rightarrow> map_option g r = None \<and> pend = in_flight limit pending before
       | Arm_completes i \<Rightarrow> map_option g r = Some (g (run (in_flight limit pending before ! i))) \<and>
           pend = take i (in_flight limit pending before) @ drop (Suc i) (in_flight limit pending before)"
    by (cases arm) simp_all
  then show ?thesis using f(1) by (auto simp: accept_answer_def Some x Let_def)
qed (use assms in \<open>simp add: accept_answer_def\<close>)

lemma Server_accept_answers:
  "accept_answer (handshake_result expires handshake (handshake_timeout self)) (max_pending_handshakes self)
     (pending_handshakes self) arms
     (map_option (\<lambda>(r, self'). (r, pending_handshakes self')) (Server_accept expires handshake arms self)) \<and>
   (\<forall>r self'. Server_accept expires handshake arms self = Some (r, self') \<longrightarrow>
     self' = self\<lparr>pending_handshakes := pending_handshakes self'\<rparr>)"
proof (induction expires handshake arms self rule: Server_accept.induct)
  case (1 expires handshake self)
  then show ?case by (simp add: accept_answer_def)
next
  case (2 expires handshake inc arms self)
  show ?case
  proof (cases "length (pending_handshakes self) < max_pending_handshakes self")
    case False
    note ih = "2.IH"(2) [OF False]
    show ?thesis
      using ih accept_answer_later [OF ih [THEN conjunct1], of "pending_handshakes self" "Arm_incoming inc"] False by simp
  next
    case True
    show ?thesis
    proof (cases inc)
      case None
      have "first_return (max_pending_handshakes self) (pending_handshakes self) (Arm_incoming None # arms) [] (Arm_incoming None)"
        using True by (intro first_return_now) simp
      then show ?thesis
        using True None by (auto simp: accept_answer_def intro!: exI [of _ "[]"] exI [of _ "Arm_incoming None"])
    next
      case (Some c)
      note ih = "2.IH"(1) [OF True Some]
      show ?thesis
        using ih accept_answer_later [OF ih [THEN conjunct1], of "pending_handshakes self" "Arm_incoming (Some c)"] True Some
        by simp
    qed
  qed
next
  case (3 expires handshake i arms self)
  show ?case
  proof (cases "i < length (pending_handshakes self)")
    case True
    have "first_return (max_pending_handshakes self) (pending_handshakes self) (Arm_completes i # arms) [] (Arm_completes i)"
      using True by (intro first_return_now) simp
    then show ?thesis
      using True by (auto simp: accept_answer_def remove_at_def intro!: exI [of _ "[]"] exI [of _ "Arm_completes i"])
  next
    case False
    note ih = "3.IH" [OF False]
    show ?thesis
      using ih accept_answer_later [OF ih [THEN conjunct1], of "pending_handshakes self" "Arm_completes i"] False by simp
  qed
qed

subsection \<open>Properties\<close>

text \<open>
  C9. The handshake establishes one session. Take any URL the client's checks accept and any orders
  of the hash maps, and let the four byte strings be the SETTINGS of both sides, the request and
  the response as this library encodes them. A server whose streams deliver the client's two
  accepts the request with the client's URL, and answering it sends its own two. A client whose
  streams deliver the server's two connects, having sent its own two. Either order of the
  concurrent SETTINGS streams gives this, and both sessions have the identifier of the CONNECT
  stream.
\<close>

theorem handshake_establishes_session:
  fixes C :: "('q, 's, 'r, 'c, 'd) quinn_connection" and C' :: "('q2, 's2, 'r2, 'c2, 'd2) quinn_connection"
    and U :: "('u, 'p) url_api" and H :: "('m, 'st) http_api" and Ch :: "('ch, CloseCommand) mpsc"
    and Ch' :: "('ch2, CloseCommand) mpsc"
  assumes client: "quinn_connection_laws C sent content" "lossless C" "uni_streams C cu cr"
      "\<And>q. \<exists>q'. QC_open_bi C q = (Ok (cs, cb), q')"
    and server: "quinn_connection_laws C' sent' content'" "lossless C'" "uni_streams C' su sr"
      "\<And>q. \<exists>q'. QC_accept_bi C' q = (Ok (ss, sb), q')"
    and ho: "hash_order ho" "hash_order ho'" "hash_order hq" "hash_order hq'"
    and laws: "url_laws U" "http_laws H"
    and url: "validate_url U T url = (Ok () :: (_, ('c, 'p, 'm, 'st, 'qe, 'te) ClientError) res)"
      "url_length U url + 192 \<le> MAX_CONNECT_FRAME_SIZE"
    and same: "QC_stream_id C cs = QC_stream_id C' ss"
    and wire: "Settings_encode ho (enable_webtransport 1 []) [] = (Ok set_c :: (_, SettingsError) res)"
      "Settings_encode ho' (enable_webtransport 1 []) [] = (Ok set_s :: (_, SettingsError) res)"
      "ConnectRequest_encode U hq \<lparr>request_url = url\<rparr> [] = (Ok req :: (_, ('p, 'm, 'st) ConnectError) res)"
      "ConnectResponse_encode H hq' \<lparr>response_status = StatusCode_OK S\<rparr> [] =
        (Ok resp :: (_, ('p, 'm, 'st) ConnectError) res)"
    and arrives: "content' sr = set_c @ rest1" "content' sb = req @ rest2"
      "content cr = set_s @ rest3" "content cb = resp @ rest4"
    and fuel: "length (content' sr) + length (content' sb) + length (content cr) + length (content cb) < fuel"
  shows "(\<exists>request peer task q'. Request_accept open_first C' U H ho' hq' fuel q0' =
          Some (Ok request :: (_, ('c2, 'p, 'm, 'st, 'te2) ServerError) res) \<and> request_target request = url \<and>
        Request_ok C' Ch' H S hq' request = (Ok ((peer, task), q') :: (_, ('c2, 'p, 'm, 'st, 'te2) ServerError) res) \<and>
        session_url peer = url \<and> session_id peer = Some (VarInt (QC_stream_id C cs)) \<and>
        sent' (task_send task) = sent' ss @ resp \<and>
        (\<exists>st. session_settings peer = Some st \<and> sent' (settings_send st) = sent' su @ set_s)) \<and>
    (\<exists>self task q'. Session_connect open_first C Ch U H S ho hq fuel url q0 =
          Some (Ok ((self, task), q') :: (_, ('c, 'p, 'm, 'st, 'qe, 'te) ClientError) res) \<and>
        session_url self = url \<and> session_id self = Some (VarInt (QC_stream_id C cs)) \<and>
        sent (task_send task) = sent cs @ req \<and>
        (\<exists>st. session_settings self = Some st \<and> sent (settings_send st) = sent cu @ set_c))"
proof (rule conjI)
  have wt: "webtransport_url U url"
    using url(1) by (auto simp: validate_url_def webtransport_url_def split: if_splits)
  have set: "set_c = settings_wire (ho (enable_webtransport 1 []))" "set_s = settings_wire (ho' (enable_webtransport 1 []))"
    using wire(1,2) by (simp_all add: advertised_settings(1) [OF ho(1)] advertised_settings(1) [OF ho(2)])
  have f: "length (content' sr) < fuel" "length (content' sb) < fuel" "length (content cr) < fuel" "length (content cb) < fuel"
    using fuel by linarith+
  obtain req0 where req0: "\<And>buf. ConnectRequest_encode U hq \<lparr>request_url = url\<rparr> buf =
        (Ok (buf @ req0) :: (_, ('p, 'm, 'st) ConnectError) res)"
    and accept: "\<And>q send recv q1 rest fuel. QC_accept_bi C' q = (Ok (send, recv), q1) \<Longrightarrow>
      content' recv = req0 @ rest \<Longrightarrow> length (content' recv) < fuel \<Longrightarrow>
      \<exists>recv'. quinn_Connect_accept C' U H hq' fuel q = Some (Ok (\<lparr>connect_request = \<lparr>request_url = url\<rparr>,
          connect_send = send, connect_recv = recv'\<rparr>, q1))"
    using Connect_request_exchange [OF ho(3,4) laws wt url(2)] server(1) by metis
  have req: "req0 = req" using wire(3) req0 [of "[]"] by simp
  obtain resp0 where resp0: "\<And>buf. ConnectResponse_encode H hq' \<lparr>response_status = StatusCode_OK S\<rparr> buf =
        (Ok (buf @ resp0) :: (_, ('p, 'm, 'st) ConnectError) res)"
    and read: "\<And>recv rest fuel. content recv = resp0 @ rest \<Longrightarrow> length (content recv) < fuel \<Longrightarrow>
      \<exists>recv'. ConnectResponse_read H hq fuel (QC_read_exact C) recv =
        Some (Ok (\<lparr>response_status = StatusCode_OK S\<rparr>, recv') :: (_, ('p, 'm, 'st) ConnectError) res)"
    using Connect_response_exchange [OF ho(4,3) laws(2)] client(1) by metis
  have resp: "resp0 = resp" using wire(4) resp0 [of "[]"] by simp
  show "\<exists>request peer task q'. Request_accept open_first C' U H ho' hq' fuel q0' =
          Some (Ok request :: (_, ('c2, 'p, 'm, 'st, 'te2) ServerError) res) \<and> request_target request = url \<and>
        Request_ok C' Ch' H S hq' request = (Ok ((peer, task), q') :: (_, ('c2, 'p, 'm, 'st, 'te2) ServerError) res) \<and>
        session_url peer = url \<and> session_id peer = Some (VarInt (QC_stream_id C cs)) \<and>
        sent' (task_send task) = sent' ss @ resp \<and>
        (\<exists>st. session_settings peer = Some st \<and> sent' (settings_send st) = sent' su @ set_s)"
  proof -
    obtain st q1 where st: "quinn_Settings_connect open_first C' ho' fuel False q0' = Some (Ok (st, q1))"
        "sent' (settings_send st) = sent' su @ set_s"
      using quinn_Settings_connect_ok [OF server(1-3) ho(2,1) _ f(1)] arrives(1) set by blast
    obtain q2 where "QC_accept_bi C' q1 = (Ok (ss, sb), q2)" using server(4) by blast
    then obtain recv' where a: "quinn_Connect_accept C' U H hq' fuel q1 =
        Some (Ok (\<lparr>connect_request = \<lparr>request_url = url\<rparr>, connect_send = ss, connect_recv = recv'\<rparr>, q2))"
      using accept [OF _ _ f(2)] arrives(2) req by blast
    obtain send where w: "write_ok C' resp ss = Ok send" using lossless_write_ok [OF server(2)] by blast
    note send = write_ok_Ok [OF server(1) w]
    let ?answered = "\<lparr>connect_request = \<lparr>request_url = url\<rparr>, connect_send = send, connect_recv = recv'\<rparr>"
    have r: "quinn_Connect_respond C' H hq' (StatusCode_OK S)
          \<lparr>connect_request = \<lparr>request_url = url\<rparr>, connect_send = ss, connect_recv = recv'\<rparr> =
        (Ok ?answered :: (_, ('c2, 'p, 'm, 'st) quinn_ConnectError) res)"
      by (simp add: quinn_Connect_respond_def ConnectResponse_write_def resp0 resp w)
    have id: "VarInt (QC_stream_id C cs) = VarInt (QC_stream_id C' (connect_send ?answered))"
      using send(2) same by simp
    show ?thesis
      using st a r send(1)
      by (simp add: Request_accept_def Request_ok_def quinn_Connect_url_def Session_new_ok(1) [OF server(1) id])
  qed
  show "\<exists>self task q'. Session_connect open_first C Ch U H S ho hq fuel url q0 =
          Some (Ok ((self, task), q') :: (_, ('c, 'p, 'm, 'st, 'qe, 'te) ClientError) res) \<and>
        session_url self = url \<and> session_id self = Some (VarInt (QC_stream_id C cs)) \<and>
        sent (task_send task) = sent cs @ req \<and>
        (\<exists>st. session_settings self = Some st \<and> sent (settings_send st) = sent cu @ set_c)"
  proof -
    obtain st q1 where st: "quinn_Settings_connect open_first C ho fuel True q0 = Some (Ok (st, q1))"
        "sent (settings_send st) = sent cu @ set_c"
      using quinn_Settings_connect_ok [OF client(1-3) ho(1,2) _ f(3)] arrives(3) set by blast
    obtain q2 where o: "QC_open_bi C q1 = (Ok (cs, cb), q2)" using client(4) by blast
    obtain send where w: "write_ok C req cs = Ok send" using lossless_write_ok [OF client(2)] by blast
    note send = write_ok_Ok [OF client(1) w]
    obtain recv' where rd: "ConnectResponse_read H hq fuel (QC_read_exact C) cb =
        Some (Ok (\<lparr>response_status = StatusCode_OK S\<rparr>, recv') :: (_, ('p, 'm, 'st) ConnectError) res)"
      using read [OF _ f(4)] arrives(4) resp by blast
    let ?connect = "\<lparr>connect_request = \<lparr>request_url = url\<rparr>, connect_send = send, connect_recv = recv'\<rparr>"
    have op: "quinn_Connect_open C U H S hq fuel url q1 =
        Some (Ok (?connect, q2) :: (_, ('c, 'p, 'm, 'st) quinn_ConnectError) res)"
      using o rd by (simp add: quinn_Connect_open_def with_state_def Let_def ConnectRequest_write_def req0 req w)
    have id: "VarInt (QC_stream_id C cs) = VarInt (QC_stream_id C (connect_send ?connect))" using send(2) by simp
    show ?thesis
      using st op send(1)
      by (simp add: Session_connect_def quinn_Connect_url_def Session_new_ok(1) [OF client(1) id])
  qed
qed

theorem handshake_establishes_session_witness:
  "\<exists>(C' :: (bytes \<times> bytes, bytes, bytes, unit, unit) quinn_connection) fuel request peer task q'.
     Request_accept True C' example_url_api example_http_api (\<lambda>s. s) (\<lambda>h. h) fuel ([], []) =
       Some (Ok request :: (_, (unit, unit, unit, bool, unit) ServerError) res) \<and> request_target request = False \<and>
     Request_ok C' example_mpsc example_http_api \<lparr>StatusCode_OK = True, StatusCode_INTERNAL_SERVER_ERROR = False\<rparr>
       (\<lambda>h. h) request = (Ok ((peer, task), q') :: (_, (unit, unit, unit, bool, unit) ServerError) res) \<and>
     session_id peer = Some (VarInt 0)"
proof -
  let ?S = "\<lparr>StatusCode_OK = True, StatusCode_INTERNAL_SERVER_ERROR = False\<rparr>"
  let ?T = "\<lparr>Url_port = (\<lambda>_. None), Url_host = (\<lambda>_. Some (Domain [])), Url_cannot_be_a_base = (\<lambda>_. False)\<rparr>
    :: (bool, unit, unit) url_target"
  have url: "validate_url example_url_api ?T False = (Ok () :: (_, (unit, unit, unit, bool, unit, unit) ClientError) res)"
    by (simp add: validate_url_def example_url_api_def)
  have len: "url_length example_url_api False + 192 \<le> MAX_CONNECT_FRAME_SIZE"
    by (simp add: url_length_def example_url_api_def path_and_query_def str_def MAX_CONNECT_FRAME_SIZE_def)
  have wt: "webtransport_url example_url_api False" by (simp add: webtransport_url_def example_url_api_def)
  obtain req where req: "ConnectRequest_encode example_url_api (\<lambda>h. h) \<lparr>request_url = False\<rparr> [] =
      (Ok req :: (_, (unit, unit, bool) ConnectError) res)"
    by (rule Connect_request_exchange [OF hash_order_id hash_order_id example_laws(1,2) wt len]) auto
  obtain resp where resp: "ConnectResponse_encode example_http_api (\<lambda>h. h) \<lparr>response_status = StatusCode_OK ?S\<rparr> [] =
      (Ok resp :: (_, (unit, unit, bool) ConnectError) res)"
    by (rule Connect_response_exchange [OF hash_order_id hash_order_id example_laws(2)]) auto
  obtain sets where sets: "Settings_encode (\<lambda>s. s) (enable_webtransport 1 []) [] = (Ok sets :: (_, SettingsError) res)"
    using advertised_settings(1) [OF hash_order_id] by blast
  let ?C = "\<lambda>b. example_connection\<lparr>QC_accept_uni := (\<lambda>q. (Ok sets, q)), QC_accept_bi := (\<lambda>q. (Ok ([], b), q)),
    QC_open_bi := (\<lambda>q. (Ok ([], b), q))\<rparr>"
  have laws: "quinn_connection_laws (?C b) (\<lambda>s. s) (\<lambda>r. r)" "lossless (?C b)" "uni_streams (?C b) [] sets" for b
    by (simp_all add: quinn_connection_laws_def lossless_def uni_streams_def example_connection_def slice_reads_exactly)
  have bi: "\<And>q. \<exists>q'. QC_open_bi (?C b) q = (Ok ([], b), q')" "\<And>q. \<exists>q'. QC_accept_bi (?C b) q = (Ok ([], b), q')"
    and id: "QC_stream_id (?C b) s = 0" for b s by (simp_all add: example_connection_def)
  have same: "QC_stream_id (?C resp) [] = QC_stream_id (?C req) []" by (simp add: id)
  have c: "sets = sets @ []" "req = req @ []" "resp = resp @ []" by simp_all
  note t = handshake_establishes_session [OF laws bi(1) laws bi(2) hash_order_id hash_order_id hash_order_id hash_order_id
      example_laws(1,2) url len same sets sets req resp c(1,2,1,3), OF lessI, of True "([], [])" example_mpsc]
  then obtain request peer task q' where "Request_accept True (?C req) example_url_api example_http_api (\<lambda>s. s) (\<lambda>h. h)
        (Suc (length sets + length req + length sets + length resp)) ([], []) =
       Some (Ok request :: (_, (unit, unit, unit, bool, unit) ServerError) res)" "request_target request = False"
     "Request_ok (?C req) example_mpsc example_http_api ?S (\<lambda>h. h) request =
       (Ok ((peer, task), q') :: (_, (unit, unit, unit, bool, unit) ServerError) res)"
     "session_id peer = Some (VarInt 0)"
    unfolding id by blast
  then show ?thesis by blast
qed

text \<open>
  The server admits handshakes within its limit and loses none: a call of \<^verbatim>\<open>accept\<close> returns on the first
  arm it can, having admitted the first connections that arrived, as many as there was room for, and
  leaves in flight all of them but the one whose result it returns.
\<close>

theorem server_admission:
  assumes "length (pending_handshakes self) \<le> max_pending_handshakes self"
  shows "accept_answer (handshake_result expires handshake (handshake_timeout self)) (max_pending_handshakes self)
      (pending_handshakes self) arms
      (map_option (\<lambda>(r, self'). (r, pending_handshakes self')) (Server_accept expires handshake arms self)) \<and>
    (\<forall>before. length (in_flight (max_pending_handshakes self) (pending_handshakes self) before) \<le> max_pending_handshakes self)"
  using Server_accept_answers length_in_flight [OF assms] by blast

end
