(* ===== verification/Quion_Error.thy ===== *)
theory Quion_Error
  imports Quinn_Error
begin

section \<open>Errors of the Quion backend\<close>

text \<open>
  \<^verbatim>\<open>webtrans-quion/src/error.rs\<close>: the errors of sessions and streams over Quion. Quion's error
  enums are non-exhaustive: the constructors that the source matches are modelled, and what it
  matches with a wildcard is a type variable. A close reason is a \<^verbatim>\<open>String\<close>, so unlike the Quinn
  backend nothing is decoded here; no conversion panics, because errors without a WebTransport
  meaning are kept as \<^verbatim>\<open>Transport\<close>. The lemmas show that codes and reasons cross unchanged.
\<close>

subsection \<open>Quion's errors\<close>

datatype 'c quion_ConnectionError = N_ApplicationClosed u64 bytes | N_OtherConnectionError 'c

datatype ('c, 'x) quion_WriteError = NW_Stopped u64 | NW_ConnectionLost "'c quion_ConnectionError"
  | NW_Other 'x

datatype ('c, 'x) quion_ReadError = NR_Reset u64 | NR_ConnectionLost "'c quion_ConnectionError"
  | NR_IllegalOrderedState | NR_Other 'x

subsection \<open>Errors of sessions and streams\<close>

datatype ('c, 'x) quion_WebTransportError = NWT_Closed u32 bytes | NWT_UnknownSession
  | NWT_ReadError "('c, 'x) quion_ReadError" | NWT_WriteError "('c, 'x) quion_WriteError"

datatype ('c, 'x, 'd) quion_SessionError = NSE_ConnectionError "'c quion_ConnectionError"
  | NSE_WebTransportError "('c, 'x) quion_WebTransportError" | NSE_SendDatagramError 'd

definition quion_SessionError_from :: "'c quion_ConnectionError \<Rightarrow> ('c, 'x, 'd) quion_SessionError" where
  "quion_SessionError_from e =
     (case e of
        N_ApplicationClosed code why \<Rightarrow>
          (case error_from_http3 code of
             Some code \<Rightarrow> NSE_WebTransportError (NWT_Closed code why)
           | None \<Rightarrow> NSE_ConnectionError e)
      | _ \<Rightarrow> NSE_ConnectionError e)"

datatype ('c, 'x, 'd) StreamWriteError = NWE_Transport "('c, 'x) quion_WriteError" | NWE_Stopped u32
  | NWE_InvalidStopped u64 | NWE_SessionError "('c, 'x, 'd) quion_SessionError" | NWE_ClosedStream

definition quion_WriteError_from :: "('c, 'x) quion_WriteError \<Rightarrow> ('c, 'x, 'd) StreamWriteError" where
  "quion_WriteError_from e =
     (case e of
        NW_Stopped code \<Rightarrow>
          (case error_from_http3 code of
             Some code \<Rightarrow> NWE_Stopped code
           | None \<Rightarrow> NWE_InvalidStopped code)
      | NW_ConnectionLost e \<Rightarrow> NWE_SessionError (quion_SessionError_from e)
      | other \<Rightarrow> NWE_Transport other)"

datatype ('c, 'x, 'd) StreamReadError = NRE_Transport "('c, 'x) quion_ReadError"
  | NRE_SessionError "('c, 'x, 'd) quion_SessionError" | NRE_Reset u32 | NRE_InvalidReset u64
  | NRE_ClosedStream | NRE_IllegalOrderedRead

definition quion_ReadError_from :: "('c, 'x) quion_ReadError \<Rightarrow> ('c, 'x, 'd) StreamReadError" where
  "quion_ReadError_from value' =
     (case value' of
        NR_Reset code \<Rightarrow>
          (case error_from_http3 code of
             Some code \<Rightarrow> NRE_Reset code
           | None \<Rightarrow> NRE_InvalidReset code)
      | NR_ConnectionLost e \<Rightarrow> NRE_SessionError (quion_SessionError_from e)
      | NR_IllegalOrderedState \<Rightarrow> NRE_IllegalOrderedRead
      | other \<Rightarrow> NRE_Transport other)"

subsection \<open>The error trait\<close>

definition quion_SessionError_session_error :: "('c, 'x, 'd) quion_SessionError \<Rightarrow> (u32 \<times> bytes) option" where
  "quion_SessionError_session_error self =
     (case self of NSE_WebTransportError (NWT_Closed code why) \<Rightarrow> Some (code, why) | _ \<Rightarrow> None)"

definition quion_WriteError_session_error :: "('c, 'x, 'd) StreamWriteError \<Rightarrow> (u32 \<times> bytes) option" where
  "quion_WriteError_session_error self =
     (case self of NWE_SessionError e \<Rightarrow> quion_SessionError_session_error e | _ \<Rightarrow> None)"

definition quion_WriteError_stream_error :: "('c, 'x, 'd) StreamWriteError \<Rightarrow> u32 option" where
  "quion_WriteError_stream_error self = (case self of NWE_Stopped code \<Rightarrow> Some code | _ \<Rightarrow> None)"

definition quion_ReadError_session_error :: "('c, 'x, 'd) StreamReadError \<Rightarrow> (u32 \<times> bytes) option" where
  "quion_ReadError_session_error self =
     (case self of NRE_SessionError e \<Rightarrow> quion_SessionError_session_error e | _ \<Rightarrow> None)"

definition quion_ReadError_stream_error :: "('c, 'x, 'd) StreamReadError \<Rightarrow> u32 option" where
  "quion_ReadError_stream_error self = (case self of NRE_Reset code \<Rightarrow> Some code | _ \<Rightarrow> None)"

subsection \<open>Agreement with the Quinn backend\<close>

text \<open>
  An error of Quion and the error of Quinn that reports the same event: \<open>quinn_error_of\<close> is the
  abstraction for connections, and two relations compare the errors of streams.
\<close>

definition quinn_error_of :: "'c quion_ConnectionError \<Rightarrow> 'c quinn_ConnectionError" where
  "quinn_error_of e =
     (case e of
        N_ApplicationClosed code why \<Rightarrow> ApplicationClosed \<lparr>error_code = code, reason = why\<rparr>
      | N_OtherConnectionError c \<Rightarrow> OtherConnectionError c)"

fun same_write_event :: "'c quinn_WriteError \<Rightarrow> ('c, 'x) quion_WriteError \<Rightarrow> bool" where
  "same_write_event (QW_Stopped c) (NW_Stopped c') = (c = c')"
| "same_write_event (QW_ConnectionLost e) (NW_ConnectionLost e') = (e = quinn_error_of e')"
| "same_write_event _ _ = False"

fun same_read_event :: "'c quinn_ReadError \<Rightarrow> ('c, 'x) quion_ReadError \<Rightarrow> bool" where
  "same_read_event (QR_Reset c) (NR_Reset c') = (c = c')"
| "same_read_event (QR_ConnectionLost e) (NR_ConnectionLost e') = (e = quinn_error_of e')"
| "same_read_event QR_IllegalOrderedRead NR_IllegalOrderedState = True"
| "same_read_event _ _ = False"

text \<open>The reason of a Quion error is a \<^verbatim>\<open>String\<close>.\<close>

definition quion_error_ok :: "'c quion_ConnectionError \<Rightarrow> bool" where
  "quion_error_ok e = (case e of N_ApplicationClosed _ why \<Rightarrow> utf8_valid why | _ \<Rightarrow> True)"

lemmas [error_convs] = quion_SessionError_from_def quion_WriteError_from_def quion_ReadError_from_def

lemmas quion_error_trait = quion_SessionError_session_error_def quion_WriteError_session_error_def
  quion_WriteError_stream_error_def quion_ReadError_session_error_def quion_ReadError_stream_error_def

lemma session_error_agrees:
  "quion_error_ok e \<Longrightarrow> quion_SessionError_session_error (quion_SessionError_from e) =
    SessionError_session_error (SessionError_from (quinn_error_of e))"
  by (cases e) (auto simp: error_convs error_trait quion_error_trait quinn_error_of_def quion_error_ok_def
      from_utf8_lossy_id split: option.splits)

lemma quion_session_error_closed:
  "quion_SessionError_session_error (quion_SessionError_from e) = Some (c, why) \<longleftrightarrow>
    (\<exists>h. e = N_ApplicationClosed h why \<and> error_from_http3 h = Some c)"
  by (cases e) (auto simp: error_convs quion_error_trait split: option.splits)

subsection \<open>Properties\<close>

text \<open>
  The two backends report the same events alike. For an event that Quinn and Quion both have,
  a session's error carries the same code and reason, and a stream's error the same session error
  and the same stream code, so that an application written against the traits cannot tell which
  backend it runs on; an event only Quion has is reported as neither.
\<close>

theorem backends_report_alike:
  fixes e :: "'c quion_ConnectionError"
  assumes "quion_error_ok e"
  shows "quion_SessionError_session_error (quion_SessionError_from e) =
      SessionError_session_error (SessionError_from (quinn_error_of e)) \<and>
    quion_WriteError_session_error (quion_WriteError_from (NW_ConnectionLost e)) =
      SessionError_session_error (SessionError_from (quinn_error_of e)) \<and>
    quion_ReadError_session_error (quion_ReadError_from (NR_ConnectionLost e)) =
      SessionError_session_error (SessionError_from (quinn_error_of e)) \<and>
    (same_write_event w w' \<longrightarrow> (\<exists>d. WriteError_from w = Ok d \<and>
       quion_WriteError_stream_error (quion_WriteError_from w') = WriteError_stream_error d)) \<and>
    (same_read_event r r' \<longrightarrow> (\<exists>d. ReadError_from r = Ok d \<and>
       quion_ReadError_stream_error (quion_ReadError_from r') = ReadError_stream_error d)) \<and>
    quion_WriteError_stream_error (quion_WriteError_from (NW_Other x)) = None \<and>
    quion_WriteError_session_error (quion_WriteError_from (NW_Other x)) = None \<and>
    quion_ReadError_stream_error (quion_ReadError_from (NR_Other y)) = None \<and>
    quion_ReadError_session_error (quion_ReadError_from (NR_Other y)) = None"
proof (intro conjI impI)
  show s: "quion_SessionError_session_error (quion_SessionError_from e) =
      SessionError_session_error (SessionError_from (quinn_error_of e))"
    by (rule session_error_agrees [OF assms])
  show "quion_WriteError_session_error (quion_WriteError_from (NW_ConnectionLost e)) =
      SessionError_session_error (SessionError_from (quinn_error_of e))"
    and "quion_ReadError_session_error (quion_ReadError_from (NR_ConnectionLost e)) =
      SessionError_session_error (SessionError_from (quinn_error_of e))"
    by (simp_all add: quion_WriteError_from_def quion_ReadError_from_def quion_WriteError_session_error_def
        quion_ReadError_session_error_def session_error_agrees [OF assms])
  show "\<exists>d. WriteError_from w = Ok d \<and>
      quion_WriteError_stream_error (quion_WriteError_from w') = WriteError_stream_error d"
    if "same_write_event w w'"
    using that by (cases "(w, w')" rule: same_write_event.cases)
      (auto simp: error_convs error_trait quion_error_trait split: option.split)
  show "\<exists>d. ReadError_from r = Ok d \<and>
      quion_ReadError_stream_error (quion_ReadError_from r') = ReadError_stream_error d"
    if "same_read_event r r'"
    using that by (cases "(r, r')" rule: same_read_event.cases)
      (auto simp: error_convs error_trait quion_error_trait split: option.split)
qed (simp_all add: quion_WriteError_from_def quion_ReadError_from_def quion_error_trait)

theorem backends_report_alike_witness:
  "quion_SessionError_session_error (quion_SessionError_from
      (N_ApplicationClosed (error_to_http3 7) [0x62] :: unit quion_ConnectionError)) = Some (7, [0x62])"
proof -
  have ok: "quion_error_ok (N_ApplicationClosed (error_to_http3 7) [0x62] :: unit quion_ConnectionError)"
    by (simp add: quion_error_ok_def utf8_valid_ascii)
  show ?thesis
    using backends_report_alike [OF ok, THEN conjunct1]
    by (simp add: quinn_error_of_def SessionError_from_def SessionError_session_error_def error_from_to
        from_utf8_lossy_id utf8_valid_ascii)
qed

end
