(* ===== verification/Quion_Streams.thy ===== *)
theory Quion_Streams
  imports Quion_Error Quinn_Streams
begin

section \<open>Streams of the Quion backend\<close>

text \<open>
  \<^verbatim>\<open>webtrans-quion/src/send.rs\<close> and \<^verbatim>\<open>recv.rs\<close>. Beside the mapping of codes, a send stream here
  remembers how many bytes of session preface a reset must still deliver, and keeps the UDP driver
  alive; \<^verbatim>\<open>write_all_chunks\<close> is the backend's own loop. Quion's streams are the fields of
  \<open>quion_send\<close> and \<open>quion_recv\<close>, what the code relies on in them \<open>quion_send_laws\<close> and
  \<open>quion_recv_laws\<close>. The lemmas show that the wrappers satisfy the contracts of the stream traits,
  that the loop returns and loses nothing, and that codes reach the peer.
\<close>

subsection \<open>Quion's streams\<close>

record ('s, 'c, 'x, 'id) quion_send =
  N_VarInt_try_from :: "u64 \<Rightarrow> (u64, unit) res"
  N_reset :: "u64 \<Rightarrow> 's \<Rightarrow> (unit, ('c, 'x) quion_WriteError) res \<times> 's"
  N_reset_at :: "u64 \<Rightarrow> u64 \<Rightarrow> 's \<Rightarrow> (unit, ('c, 'x) quion_WriteError) res \<times> 's"
  N_stopped :: "'s \<Rightarrow> (u64 option, ('c, 'x) quion_WriteError) res \<times> 's"
  N_write :: "bytes \<Rightarrow> 's \<Rightarrow> (nat, ('c, 'x) quion_WriteError) res \<times> 's"
  N_write_all :: "bytes \<Rightarrow> 's \<Rightarrow> (unit, ('c, 'x) quion_WriteError) res \<times> 's"
  N_finish :: "'s \<Rightarrow> (unit, ('c, 'x) quion_WriteError) res \<times> 's"
  N_set_priority :: "u16 \<Rightarrow> 's \<Rightarrow> 's"
  N_send_id :: "'s \<Rightarrow> 'id option"

record ('s, 'c, 'x, 'chunk, 'id) quion_recv =
  N_recv_VarInt_try_from :: "u64 \<Rightarrow> (u64, unit) res"
  N_stop :: "u64 \<Rightarrow> 's \<Rightarrow> (unit, ('c, 'x) quion_ReadError) res \<times> 's"
  N_read :: "bytes \<Rightarrow> 's \<Rightarrow> (nat option, ('c, 'x) quion_ReadError) res \<times> bytes \<times> 's"
  N_read_exact :: "bytes \<Rightarrow> 's \<Rightarrow> (unit, ('c, 'x) quion_ReadError) res \<times> bytes \<times> 's"
  N_read_chunk :: "nat \<Rightarrow> bool \<Rightarrow> 's \<Rightarrow> ('chunk option, ('c, 'x) quion_ReadError) res \<times> 's"
  N_chunk_bytes :: "'chunk \<Rightarrow> bytes"
  N_read_to_end :: "nat \<Rightarrow> 's \<Rightarrow> (bytes, ('c, 'x) quion_ReadError) res \<times> 's"
  N_received_reset :: "'s \<Rightarrow> (u64 option, ('c, 'x) quion_ReadError) res \<times> 's"
  N_recv_id :: "'s \<Rightarrow> 'id option"

subsection \<open>Send streams\<close>

record ('s, 'v) quion_SendStream =
  n_stream :: 's
  n_driver :: "'v option"
  reliable_prefix :: "u64 option"
  n_priority :: u16

definition quion_SendStream_new :: "'s \<Rightarrow> ('s, 'v) quion_SendStream" where
  "quion_SendStream_new stream =
     \<lparr>n_stream = stream, n_driver = None, reliable_prefix = None, n_priority = 0\<rparr>"

text \<open>\<^verbatim>\<open>size as u32\<close> keeps the low 32 bits.\<close>

definition with_reliable_prefix :: "'s \<Rightarrow> nat \<Rightarrow> bool \<Rightarrow> ('s, 'v) quion_SendStream" where
  "with_reliable_prefix stream sz enabled =
     \<lparr>n_stream = stream, n_driver = None,
      reliable_prefix = (if enabled then Some (ucast (of_nat sz :: u32)) else None), n_priority = 0\<rparr>"

definition quion_SendStream_with_driver :: "('s, 'v) quion_SendStream \<Rightarrow> 'v option \<Rightarrow> ('s, 'v) quion_SendStream" where
  "quion_SendStream_with_driver self driver = self\<lparr>n_driver := driver\<rparr>"

text \<open>An operation on the stream inside the wrapper.\<close>

definition on_stream :: "('s \<Rightarrow> 'a \<times> 's) \<Rightarrow> ('s, 'v) quion_SendStream \<Rightarrow> 'a \<times> ('s, 'v) quion_SendStream" where
  "on_stream f self = (case f (n_stream self) of (r, s) \<Rightarrow> (r, self\<lparr>n_stream := s\<rparr>))"

definition quion_SendStream_reset :: "('s, 'c, 'x, 'i) quion_send \<Rightarrow> u32 \<Rightarrow> ('s, 'v) quion_SendStream \<Rightarrow>
    (unit, ('c, 'x, 'd) StreamWriteError) res \<times> ('s, 'v) quion_SendStream" where
  "quion_SendStream_reset N code self =
     (let code = error_to_http3 code in
      case unwrap (N_VarInt_try_from N code) :: (u64, unit) res of
        Ok code \<Rightarrow>
          (case on_stream (case reliable_prefix self of
                    Some sz \<Rightarrow> N_reset_at N code sz
                  | None \<Rightarrow> N_reset N code) self of
             (r, self) \<Rightarrow> (map_err quion_WriteError_from r, self))
      | _ \<Rightarrow> (Panic, self))"

definition quion_SendStream_stopped :: "('s, 'c, 'x, 'i) quion_send \<Rightarrow> ('s, 'v) quion_SendStream \<Rightarrow>
    (u32 option, ('c, 'x, 'd) StreamWriteError) res \<times> ('s, 'v) quion_SendStream" where
  "quion_SendStream_stopped N self =
     (case on_stream (N_stopped N) self of
        (r, self) \<Rightarrow>
          (map_err quion_WriteError_from (map_ok (\<lambda>code. Option.bind code error_from_http3) r), self))"

definition quion_SendStream_write :: "('s, 'c, 'x, 'i) quion_send \<Rightarrow> bytes \<Rightarrow> ('s, 'v) quion_SendStream \<Rightarrow>
    (nat, ('c, 'x, 'd) StreamWriteError) res \<times> ('s, 'v) quion_SendStream" where
  "quion_SendStream_write N buf self =
     (case on_stream (N_write N buf) self of (r, self) \<Rightarrow> (map_err quion_WriteError_from r, self))"

definition quion_SendStream_write_all :: "('s, 'c, 'x, 'i) quion_send \<Rightarrow> bytes \<Rightarrow> ('s, 'v) quion_SendStream \<Rightarrow>
    (unit, ('c, 'x, 'd) StreamWriteError) res \<times> ('s, 'v) quion_SendStream" where
  "quion_SendStream_write_all N buf self =
     (case on_stream (N_write_all N buf) self of (r, self) \<Rightarrow> (map_err quion_WriteError_from r, self))"

definition quion_SendStream_write_chunk :: "('s, 'c, 'x, 'i) quion_send \<Rightarrow> bytes \<Rightarrow> ('s, 'v) quion_SendStream \<Rightarrow>
    (unit, ('c, 'x, 'd) StreamWriteError) res \<times> ('s, 'v) quion_SendStream" where
  "quion_SendStream_write_chunk N buf self = quion_SendStream_write_all N buf self"

text \<open>
  The two loops of \<^verbatim>\<open>write_all_chunks\<close>, with what is left of the buffers: a write takes one unit of
  fuel, and \<^verbatim>\<open>advance\<close> panics past the end of a buffer.
\<close>

fun write_one_chunk :: "('s, 'c, 'x, 'i) quion_send \<Rightarrow> nat \<Rightarrow> bytes \<Rightarrow> ('s, 'v) quion_SendStream \<Rightarrow>
    ((unit, ('c, 'x, 'd) StreamWriteError) res \<times> bytes \<times> ('s, 'v) quion_SendStream) option" where
  "write_one_chunk N fuel buf self =
     (if buf = [] then Some (Ok (), buf, self)
      else case fuel of
        0 \<Rightarrow> None
      | Suc fuel \<Rightarrow>
          (case quion_SendStream_write N buf self of
             (Ok n, self) \<Rightarrow>
               if n \<le> length buf then write_one_chunk N fuel (drop n buf) self else Some (Panic, buf, self)
           | (Err e, self) \<Rightarrow> Some (Err e, buf, self)
           | (Panic, self) \<Rightarrow> Some (Panic, buf, self)))"

declare write_one_chunk.simps [simp del]

fun quion_write_all_chunks :: "('s, 'c, 'x, 'i) quion_send \<Rightarrow> nat \<Rightarrow> bytes list \<Rightarrow> ('s, 'v) quion_SendStream \<Rightarrow>
    ((unit, ('c, 'x, 'd) StreamWriteError) res \<times> bytes list \<times> ('s, 'v) quion_SendStream) option" where
  "quion_write_all_chunks N fuel [] self = Some (Ok (), [], self)"
| "quion_write_all_chunks N fuel (buf # bufs) self =
     (case write_one_chunk N fuel buf self of
        None \<Rightarrow> None
      | Some (Ok _, buf, self) \<Rightarrow>
          map_option (\<lambda>(r, bufs, self). (r, buf # bufs, self)) (quion_write_all_chunks N fuel bufs self)
      | Some (Err e, buf, self) \<Rightarrow> Some (Err e, buf # bufs, self)
      | Some (Panic, buf, self) \<Rightarrow> Some (Panic, buf # bufs, self))"

definition quion_SendStream_finish :: "('s, 'c, 'x, 'i) quion_send \<Rightarrow> ('s, 'v) quion_SendStream \<Rightarrow>
    (unit, ('c, 'x, 'd) StreamWriteError) res \<times> ('s, 'v) quion_SendStream" where
  "quion_SendStream_finish N self =
     (case on_stream (N_finish N) self of (r, self) \<Rightarrow> (map_err quion_WriteError_from r, self))"

definition quion_SendStream_set_priority :: "('s, 'c, 'x, 'i) quion_send \<Rightarrow> u16 \<Rightarrow> ('s, 'v) quion_SendStream \<Rightarrow>
    ('s, 'v) quion_SendStream" where
  "quion_SendStream_set_priority N order self =
     self\<lparr>n_priority := order, n_stream := N_set_priority N order (n_stream self)\<rparr>"

definition quion_SendStream_priority :: "('s, 'v) quion_SendStream \<Rightarrow> u16" where
  "quion_SendStream_priority self = n_priority self"

definition quion_SendStream_quic_id :: "('s, 'c, 'x, 'i) quion_send \<Rightarrow> ('s, 'v) quion_SendStream \<Rightarrow> 'i option" where
  "quion_SendStream_quic_id N self = N_send_id N (n_stream self)"

text \<open>The methods of the trait.\<close>

definition quion_Trait_set_priority :: "('s, 'c, 'x, 'i) quion_send \<Rightarrow> u8 \<Rightarrow> ('s, 'v) quion_SendStream \<Rightarrow>
    ('s, 'v) quion_SendStream" where
  "quion_Trait_set_priority N order self = quion_SendStream_set_priority N (ucast order) self"

definition quion_Trait_reset :: "('s, 'c, 'x, 'i) quion_send \<Rightarrow> u32 \<Rightarrow> ('s, 'v) quion_SendStream \<Rightarrow>
    (unit, unit) res \<times> ('s, 'v) quion_SendStream" where
  "quion_Trait_reset N code self =
     (case quion_SendStream_reset N code self :: (_, ('c, 'x, unit) StreamWriteError) res \<times> _ of (r, self) \<Rightarrow> (ok r, self))"

definition quion_Trait_finish :: "('s, 'c, 'x, 'i) quion_send \<Rightarrow> ('s, 'v) quion_SendStream \<Rightarrow>
    (unit, ('c, 'x, 'd) StreamWriteError) res \<times> ('s, 'v) quion_SendStream" where
  "quion_Trait_finish N self = quion_SendStream_finish N self"

definition quion_Trait_write :: "('s, 'c, 'x, 'i) quion_send \<Rightarrow> bytes \<Rightarrow> ('s, 'v) quion_SendStream \<Rightarrow>
    (nat, ('c, 'x, 'd) StreamWriteError) res \<times> ('s, 'v) quion_SendStream" where
  "quion_Trait_write N buf self = quion_SendStream_write N buf self"

definition quion_Trait_write_buf :: "('s, 'c, 'x, 'i) quion_send \<Rightarrow> (bytes \<Rightarrow> bytes) \<Rightarrow> bytes \<Rightarrow>
    ('s, 'v) quion_SendStream \<Rightarrow>
    (nat, ('c, 'x, 'd) StreamWriteError) res \<times> bytes \<times> ('s, 'v) quion_SendStream" where
  "quion_Trait_write_buf N chunk buf self =
     (case quion_Trait_write N (chunk buf) self of
        (Ok sz, self) \<Rightarrow>
          if sz \<le> length buf then (Ok sz, drop sz buf, self) else (Panic, buf, self)
      | (Err e, self) \<Rightarrow> (Err e, buf, self)
      | (Panic, self) \<Rightarrow> (Panic, buf, self))"

definition quion_Trait_write_chunk :: "('s, 'c, 'x, 'i) quion_send \<Rightarrow> bytes \<Rightarrow> ('s, 'v) quion_SendStream \<Rightarrow>
    (unit, ('c, 'x, 'd) StreamWriteError) res \<times> ('s, 'v) quion_SendStream" where
  "quion_Trait_write_chunk N chunk self = quion_SendStream_write_chunk N chunk self"

definition quion_Trait_send_closed :: "('s, 'c, 'x, 'i) quion_send \<Rightarrow> ('s, 'v) quion_SendStream \<Rightarrow>
    (unit, ('c, 'x, 'd) StreamWriteError) res \<times> ('s, 'v) quion_SendStream" where
  "quion_Trait_send_closed N self =
     (case quion_SendStream_stopped N self of
        (r, self) \<Rightarrow>
          (and_then r (\<lambda>r. case r of Some code \<Rightarrow> Err (NWE_Stopped code) | None \<Rightarrow> Ok ()), self))"

subsection \<open>Receive streams\<close>

record ('r, 'v) quion_RecvStream =
  n_inner :: 'r
  n_recv_driver :: "'v option"

definition quion_RecvStream_new :: "'r \<Rightarrow> ('r, 'v) quion_RecvStream" where
  "quion_RecvStream_new stream = \<lparr>n_inner = stream, n_recv_driver = None\<rparr>"

definition quion_RecvStream_with_driver :: "('r, 'v) quion_RecvStream \<Rightarrow> 'v option \<Rightarrow> ('r, 'v) quion_RecvStream" where
  "quion_RecvStream_with_driver self driver = self\<lparr>n_recv_driver := driver\<rparr>"

definition on_inner :: "('r \<Rightarrow> 'a \<times> 'r) \<Rightarrow> ('r, 'v) quion_RecvStream \<Rightarrow> 'a \<times> ('r, 'v) quion_RecvStream" where
  "on_inner f self = (case f (n_inner self) of (x, s) \<Rightarrow> (x, self\<lparr>n_inner := s\<rparr>))"

definition quion_RecvStream_stop :: "('r, 'c, 'x, 'k, 'i) quion_recv \<Rightarrow> u32 \<Rightarrow> ('r, 'v) quion_RecvStream \<Rightarrow>
    (unit, ('c, 'x, 'd) StreamReadError) res \<times> ('r, 'v) quion_RecvStream" where
  "quion_RecvStream_stop R code self =
     (let code = error_to_http3 code in
      case unwrap (N_recv_VarInt_try_from R code) :: (u64, unit) res of
        Ok code \<Rightarrow> (case on_inner (N_stop R code) self of (r, self) \<Rightarrow> (map_err quion_ReadError_from r, self))
      | _ \<Rightarrow> (Panic, self))"

definition quion_RecvStream_read :: "('r, 'c, 'x, 'k, 'i) quion_recv \<Rightarrow> bytes \<Rightarrow> ('r, 'v) quion_RecvStream \<Rightarrow>
    (nat option, ('c, 'x, 'd) StreamReadError) res \<times> bytes \<times> ('r, 'v) quion_RecvStream" where
  "quion_RecvStream_read R buf self =
     (case N_read R buf (n_inner self) of
        (r, buf, s) \<Rightarrow> (map_err quion_ReadError_from r, buf, self\<lparr>n_inner := s\<rparr>))"

definition quion_RecvStream_read_exact :: "('r, 'c, 'x, 'k, 'i) quion_recv \<Rightarrow> bytes \<Rightarrow> ('r, 'v) quion_RecvStream \<Rightarrow>
    (unit, ('c, 'x, 'd) StreamReadError) res \<times> bytes \<times> ('r, 'v) quion_RecvStream" where
  "quion_RecvStream_read_exact R buf self =
     (case N_read_exact R buf (n_inner self) of
        (r, buf, s) \<Rightarrow> (map_err quion_ReadError_from r, buf, self\<lparr>n_inner := s\<rparr>))"

definition quion_RecvStream_read_chunk :: "('r, 'c, 'x, 'k, 'i) quion_recv \<Rightarrow> nat \<Rightarrow> bool \<Rightarrow>
    ('r, 'v) quion_RecvStream \<Rightarrow>
    ('k option, ('c, 'x, 'd) StreamReadError) res \<times> ('r, 'v) quion_RecvStream" where
  "quion_RecvStream_read_chunk R max_length ordered self =
     (case on_inner (N_read_chunk R max_length ordered) self of (r, self) \<Rightarrow> (map_err quion_ReadError_from r, self))"

definition quion_RecvStream_read_to_end :: "('r, 'c, 'x, 'k, 'i) quion_recv \<Rightarrow> nat \<Rightarrow> ('r, 'v) quion_RecvStream \<Rightarrow>
    (bytes, ('c, 'x, 'd) StreamReadError) res \<times> ('r, 'v) quion_RecvStream" where
  "quion_RecvStream_read_to_end R size_limit self =
     (case on_inner (N_read_to_end R size_limit) self of (r, self) \<Rightarrow> (map_err quion_ReadError_from r, self))"

definition quion_RecvStream_received_reset :: "('r, 'c, 'x, 'k, 'i) quion_recv \<Rightarrow> ('r, 'v) quion_RecvStream \<Rightarrow>
    (u32 option, ('c, 'x, 'd) StreamReadError) res \<times> ('r, 'v) quion_RecvStream" where
  "quion_RecvStream_received_reset R self =
     (case on_inner (N_received_reset R) self of
        (r, self) \<Rightarrow>
          (map_err quion_ReadError_from (map_ok (\<lambda>code. Option.bind code error_from_http3) r), self))"

definition quion_RecvStream_quic_id :: "('r, 'c, 'x, 'k, 'i) quion_recv \<Rightarrow> ('r, 'v) quion_RecvStream \<Rightarrow> 'i option" where
  "quion_RecvStream_quic_id R self = N_recv_id R (n_inner self)"

definition quion_Trait_stop :: "('r, 'c, 'x, 'k, 'i) quion_recv \<Rightarrow> u32 \<Rightarrow> ('r, 'v) quion_RecvStream \<Rightarrow>
    (unit, unit) res \<times> ('r, 'v) quion_RecvStream" where
  "quion_Trait_stop R code self =
     (case quion_RecvStream_stop R code self :: (_, ('c, 'x, unit) StreamReadError) res \<times> _ of (r, self) \<Rightarrow> (ok r, self))"

definition quion_Trait_read :: "('r, 'c, 'x, 'k, 'i) quion_recv \<Rightarrow> bytes \<Rightarrow> ('r, 'v) quion_RecvStream \<Rightarrow>
    (nat option, ('c, 'x, 'd) StreamReadError) res \<times> bytes \<times> ('r, 'v) quion_RecvStream" where
  "quion_Trait_read R dst self = quion_RecvStream_read R dst self"

definition quion_Trait_read_chunk :: "('r, 'c, 'x, 'k, 'i) quion_recv \<Rightarrow> nat \<Rightarrow> ('r, 'v) quion_RecvStream \<Rightarrow>
    (bytes option, ('c, 'x, 'd) StreamReadError) res \<times> ('r, 'v) quion_RecvStream" where
  "quion_Trait_read_chunk R limit self =
     (case quion_RecvStream_read_chunk R limit True self of
        (r, self) \<Rightarrow> (map_ok (map_option (N_chunk_bytes R)) r, self))"

definition quion_Trait_recv_closed :: "('r, 'c, 'x, 'k, 'i) quion_recv \<Rightarrow> ('r, 'v) quion_RecvStream \<Rightarrow>
    (unit, ('c, 'x, 'd) StreamReadError) res \<times> ('r, 'v) quion_RecvStream" where
  "quion_Trait_recv_closed R self =
     (case quion_RecvStream_received_reset R self of
        (r, self) \<Rightarrow>
          (and_then r (\<lambda>r. case r of Some code \<Rightarrow> Err (NRE_Reset code) | None \<Rightarrow> Ok ()), self))"

subsection \<open>What the code relies on in Quion\<close>

text \<open>
  \<open>sent s\<close> are the bytes a stream has accepted and \<open>content s\<close> those it still delivers. A write
  accepts a prefix, at least one byte of a buffer that is not empty; a write that fails accepts
  none. A stream that is reset delivers what its reset keeps: nothing of an ordinary reset, and the
  given number of bytes of \<^verbatim>\<open>reset_at\<close>; \<open>kept s\<close> is that number once the stream is reset.
\<close>

definition quion_send_laws :: "('s, 'c, 'x, 'i) quion_send \<Rightarrow> ('s \<Rightarrow> bytes) \<Rightarrow> ('s \<Rightarrow> nat option) \<Rightarrow> bool" where
  "quion_send_laws N sent kept \<longleftrightarrow>
     (\<forall>x. unat x < 2 ^ 62 \<longrightarrow> N_VarInt_try_from N x = Ok x) \<and>
     (\<forall>bs s. case N_write N bs s of
         (Ok n, s') \<Rightarrow> n \<le> length bs \<and> (bs \<noteq> [] \<longrightarrow> 0 < n) \<and> sent s' = sent s @ take n bs
       | (Err _, s') \<Rightarrow> sent s' = sent s
       | (Panic, _) \<Rightarrow> False) \<and>
     (\<forall>bs s. case N_write_all N bs s of
         (Ok _, s') \<Rightarrow> sent s' = sent s @ bs
       | (Err _, s') \<Rightarrow> (\<exists>n. sent s' = sent s @ take n bs)
       | (Panic, _) \<Rightarrow> False) \<and>
     (\<forall>c s. case N_reset N c s of
         (Ok _, s') \<Rightarrow> sent s' = sent s \<and> kept s' = Some 0 | (Err _, _) \<Rightarrow> True | (Panic, _) \<Rightarrow> False) \<and>
     (\<forall>c n s. case N_reset_at N c n s of
         (Ok _, s') \<Rightarrow> sent s' = sent s \<and> kept s' = Some (unat n) | (Err _, _) \<Rightarrow> True | (Panic, _) \<Rightarrow> False)"

definition quion_recv_laws :: "('r, 'c, 'x, 'k, 'i) quion_recv \<Rightarrow> ('r \<Rightarrow> bytes) \<Rightarrow> bool" where
  "quion_recv_laws R content \<longleftrightarrow>
     (\<forall>x. unat x < 2 ^ 62 \<longrightarrow> N_recv_VarInt_try_from R x = Ok x) \<and>
     (\<forall>dst s. case N_read R dst s of
         (Ok (Some n), dst', s') \<Rightarrow> n \<le> length dst \<and> length dst' = length dst \<and> (dst \<noteq> [] \<longrightarrow> 0 < n) \<and>
           content s = take n dst' @ content s'
       | (Ok None, _, s') \<Rightarrow> content s = [] \<and> content s' = []
       | (Err e, _, _) \<Rightarrow> True
       | (Panic, _, _) \<Rightarrow> False)"

subsection \<open>The wrappers keep the contracts of the traits\<close>

lemma quion_write_cases:
  assumes "quion_send_laws N sent kept"
  obtains (accepted) n s' where "(quion_SendStream_write N buf self :: (_, ('c, 'x, 'd) StreamWriteError) res \<times> _) =
        (Ok n, self\<lparr>n_stream := s'\<rparr>)"
      and "n \<le> length buf" and "buf \<noteq> [] \<Longrightarrow> 0 < n" and "sent s' = sent (n_stream self) @ take n buf"
  | (failed) e s' where "(quion_SendStream_write N buf self :: (_, ('c, 'x, 'd) StreamWriteError) res \<times> _) =
        (Err e, self\<lparr>n_stream := s'\<rparr>)"
      and "sent s' = sent (n_stream self)"
proof -
  have w: "case N_write N buf (n_stream self) of
         (Ok n, s') \<Rightarrow> n \<le> length buf \<and> (buf \<noteq> [] \<longrightarrow> 0 < n) \<and> sent s' = sent (n_stream self) @ take n buf
       | (Err _, s') \<Rightarrow> sent s' = sent (n_stream self)
       | (Panic, _) \<Rightarrow> False"
    using assms by (simp add: quion_send_laws_def)
  obtain r s' where r: "N_write N buf (n_stream self) = (r, s')" by (metis prod.exhaust)
  show thesis
    using w r by (cases r) (auto simp: quion_SendStream_write_def on_stream_def intro: that)
qed

lemma quion_write_send_stream:
  fixes N :: "('s, 'c, 'x, 'i) quion_send"
  assumes "quion_send_laws N sent kept"
  shows "send_stream (quion_Trait_write N :: _ \<Rightarrow> ('s, 'v) quion_SendStream \<Rightarrow>
      (_, ('c, 'x, 'd) StreamWriteError) res \<times> _)
    (\<lambda>s. sent (n_stream s)) (\<lambda>_. True)"
proof
  fix bs n and s s' :: "('s, 'v) quion_SendStream"
  assume a: "(quion_Trait_write N bs s :: (_, ('c, 'x, 'd) StreamWriteError) res \<times> _) = (Ok n, s')"
  show "n \<le> length bs \<and> (bs \<noteq> [] \<longrightarrow> 0 < n) \<and> sent (n_stream s') = sent (n_stream s) @ take n bs"
    by (rule quion_write_cases [OF assms, of bs s, where 'd = 'd]) (use a in \<open>auto simp: quion_Trait_write_def\<close>)
next
  fix bs and s s' :: "('s, 'v) quion_SendStream" and e
  assume a: "(quion_Trait_write N bs s :: (_, ('c, 'x, 'd) StreamWriteError) res \<times> _) = (Err e, s')"
  show "sent (n_stream s') = sent (n_stream s)"
    by (rule quion_write_cases [OF assms, of bs s, where 'd = 'd]) (use a in \<open>auto simp: quion_Trait_write_def\<close>)
next
  fix bs and s :: "('s, 'v) quion_SendStream"
  show "fst (quion_Trait_write N bs s :: (_, ('c, 'x, 'd) StreamWriteError) res \<times> _) \<noteq> Panic"
    by (rule quion_write_cases [OF assms, of bs s, where 'd = 'd]) (auto simp: quion_Trait_write_def)
qed simp

lemma quion_read_recv_stream:
  fixes R :: "('r, 'c, 'x, 'k, 'i) quion_recv"
  assumes "quion_recv_laws R content"
  shows "recv_stream (quion_Trait_read R :: _ \<Rightarrow> ('r, 'v) quion_RecvStream \<Rightarrow>
      (_, ('c, 'x, 'd) StreamReadError) res \<times> _ \<times> _) (\<lambda>s. content (n_inner s))"
proof -
  have r: "case N_read R dst s of
         (Ok (Some n), dst', s') \<Rightarrow> n \<le> length dst \<and> length dst' = length dst \<and> (dst \<noteq> [] \<longrightarrow> 0 < n) \<and>
           content s = take n dst' @ content s'
       | (Ok None, _, s') \<Rightarrow> content s = [] \<and> content s' = []
       | (Err e, _, _) \<Rightarrow> True
       | (Panic, _, _) \<Rightarrow> False" for dst s
    using assms by (simp add: quion_recv_laws_def)
  show ?thesis
  proof
    fix dst dst' :: bytes and s s' :: "('r, 'v) quion_RecvStream" and n
    assume "(quion_Trait_read R dst s :: (_, ('c, 'x, 'd) StreamReadError) res \<times> _ \<times> _) = (Ok (Some n), dst', s')"
    then show "n \<le> length dst \<and> length dst' = length dst \<and> (dst \<noteq> [] \<longrightarrow> 0 < n) \<and>
        content (n_inner s) = take n dst' @ content (n_inner s')"
      using r [where dst = dst and s = "n_inner s"]
      by (auto simp: quion_Trait_read_def quion_RecvStream_read_def split: prod.splits)
  next
    fix dst dst' :: bytes and s s' :: "('r, 'v) quion_RecvStream"
    assume "(quion_Trait_read R dst s :: (_, ('c, 'x, 'd) StreamReadError) res \<times> _ \<times> _) = (Ok None, dst', s')"
    then show "content (n_inner s) = [] \<and> content (n_inner s') = []"
      using r [where dst = dst and s = "n_inner s"]
      by (auto simp: quion_Trait_read_def quion_RecvStream_read_def split: prod.splits)
  next
    fix dst :: bytes and s :: "('r, 'v) quion_RecvStream"
    show "fst (quion_Trait_read R dst s :: (_, ('c, 'x, 'd) StreamReadError) res \<times> _ \<times> _) \<noteq> Panic"
      using r [where dst = dst and s = "n_inner s"]
      by (auto simp: quion_Trait_read_def quion_RecvStream_read_def split: prod.splits)
  qed
qed

lemma quion_write_buf_advances:
  fixes self :: "('s, 'v) quion_SendStream" and r :: "(nat, ('c, 'x, 'd) StreamWriteError) res"
  assumes "quion_send_laws N sent kept" and "chunk_ok chunk"
    and "quion_Trait_write_buf N chunk buf self = (r, buf', self')"
  shows "r \<noteq> Panic \<and> (\<exists>part. buf = part @ buf' \<and> sent (n_stream self') = sent (n_stream self) @ part \<and>
    (\<forall>n. r = Ok n \<longrightarrow> length part = n \<and> (buf \<noteq> [] \<longrightarrow> 0 < n)))"
proof -
  obtain zs where z: "buf = chunk buf @ zs" using assms(2) by (auto simp: chunk_ok_def prefix_def)
  have ne: "buf \<noteq> [] \<Longrightarrow> chunk buf \<noteq> []" using assms(2) by (simp add: chunk_ok_def)
  show ?thesis
  proof (rule quion_write_cases [OF assms(1), of "chunk buf" self, where 'd = 'd])
    fix n s'
    assume w: "(quion_SendStream_write N (chunk buf) self :: (_, ('c, 'x, 'd) StreamWriteError) res \<times> _) =
        (Ok n, self\<lparr>n_stream := s'\<rparr>)" "n \<le> length (chunk buf)" "chunk buf \<noteq> [] \<Longrightarrow> 0 < n"
      "sent s' = sent (n_stream self) @ take n (chunk buf)"
    have le: "n \<le> length buf" using w(2) arg_cong [OF z, of length] by simp
    have "take n (chunk buf) = take n (chunk buf @ zs)" using w(2) by simp
    then have t: "take n (chunk buf) = take n buf" using z by metis
    have "r = Ok n" "buf' = drop n buf" "self' = self\<lparr>n_stream := s'\<rparr>"
      using assms(3) w(1) le by (auto simp: quion_Trait_write_buf_def quion_Trait_write_def)
    then show ?thesis using w(3,4) t le ne by (intro conjI exI [of _ "take n buf"]) auto
  next
    fix e s'
    assume "(quion_SendStream_write N (chunk buf) self :: (_, ('c, 'x, 'd) StreamWriteError) res \<times> _) =
        (Err e, self\<lparr>n_stream := s'\<rparr>)" "sent s' = sent (n_stream self)"
    then show ?thesis using assms(3) by (auto simp: quion_Trait_write_buf_def quion_Trait_write_def)
  qed
qed

subsection \<open>The loop over chunks\<close>

lemma write_one_chunk_delivers:
  fixes self :: "('s, 'v) quion_SendStream" and N :: "('s, 'c, 'x, 'i) quion_send"
  assumes "quion_send_laws N sent kept" and "length buf \<le> fuel"
  obtains r :: "(unit, ('c, 'x, 'd) StreamWriteError) res" and buf' self'
  where "write_one_chunk N fuel buf self = Some (r, buf', self')" and "r \<noteq> Panic" and "r = Ok () \<longrightarrow> buf' = []"
    and "sent (n_stream self') @ buf' = sent (n_stream self) @ buf"
    and "self' = self\<lparr>n_stream := n_stream self'\<rparr>"
proof -
  have "\<exists>(r :: (unit, ('c, 'x, 'd) StreamWriteError) res) buf' self'.
    write_one_chunk N fuel buf self = Some (r, buf', self') \<and> r \<noteq> Panic \<and> (r = Ok () \<longrightarrow> buf' = []) \<and>
    sent (n_stream self') @ buf' = sent (n_stream self) @ buf \<and> self' = self\<lparr>n_stream := n_stream self'\<rparr>"
    using assms(2)
  proof (induction fuel arbitrary: buf self)
    case 0
    then show ?case by (subst write_one_chunk.simps) simp
  next
    case (Suc fuel)
    show ?case
    proof (cases "buf = []")
      case True
      then show ?thesis by (subst write_one_chunk.simps) simp
    next
      case False
      show ?thesis
      proof (rule quion_write_cases [OF assms(1), of buf self, where 'd = 'd])
        fix n s'
        assume w: "(quion_SendStream_write N buf self :: (_, ('c, 'x, 'd) StreamWriteError) res \<times> _) =
            (Ok n, self\<lparr>n_stream := s'\<rparr>)" "n \<le> length buf" "buf \<noteq> [] \<Longrightarrow> 0 < n"
          "sent s' = sent (n_stream self) @ take n buf"
        have "length (drop n buf) \<le> fuel" using Suc.prems w(3) False by simp
        from Suc.IH [OF this, of "self\<lparr>n_stream := s'\<rparr>"]
        obtain r :: "(unit, ('c, 'x, 'd) StreamWriteError) res" and buf' self' where
            ih: "write_one_chunk N fuel (drop n buf) (self\<lparr>n_stream := s'\<rparr>) = Some (r, buf', self')"
            "r \<noteq> Panic" "r = Ok () \<longrightarrow> buf' = []" "sent (n_stream self') @ buf' = sent s' @ drop n buf"
            "self' = self\<lparr>n_stream := n_stream self'\<rparr>"
          by auto
        have "write_one_chunk N (Suc fuel) buf self = Some (r, buf', self')"
          using ih(1) w(1,2) False by (subst write_one_chunk.simps) simp
        then show ?thesis using ih(2-5) w(4) by (intro exI conjI) simp_all
      next
        fix e s'
        assume "(quion_SendStream_write N buf self :: (_, ('c, 'x, 'd) StreamWriteError) res \<times> _) =
            (Err e, self\<lparr>n_stream := s'\<rparr>)" "sent s' = sent (n_stream self)"
        then show ?thesis using False by (subst write_one_chunk.simps) simp
      qed
    qed
  qed
  then show thesis using that by blast
qed

lemma quion_write_all_chunks_delivers:
  fixes self :: "('s, 'v) quion_SendStream" and N :: "('s, 'c, 'x, 'i) quion_send"
  assumes "quion_send_laws N sent kept" and "length (concat bufs) \<le> fuel"
  shows "\<exists>(r :: (unit, ('c, 'x, 'd) StreamWriteError) res) bufs' self'.
    quion_write_all_chunks N fuel bufs self = Some (r, bufs', self') \<and> r \<noteq> Panic \<and>
    length bufs' = length bufs \<and> (r = Ok () \<longrightarrow> concat bufs' = []) \<and>
    sent (n_stream self') @ concat bufs' = sent (n_stream self) @ concat bufs \<and>
    self' = self\<lparr>n_stream := n_stream self'\<rparr>"
  using assms(2)
proof (induction bufs arbitrary: self)
  case Nil
  then show ?case by simp
next
  case (Cons buf bufs)
  have le: "length buf \<le> fuel" "length (concat bufs) \<le> fuel" using Cons.prems by simp_all
  obtain r1 :: "(unit, ('c, 'x, 'd) StreamWriteError) res" and buf1 self1 where
      one: "write_one_chunk N fuel buf self = Some (r1, buf1, self1)" "r1 \<noteq> Panic" "r1 = Ok () \<longrightarrow> buf1 = []"
      "sent (n_stream self1) @ buf1 = sent (n_stream self) @ buf" "self1 = self\<lparr>n_stream := n_stream self1\<rparr>"
    by (rule write_one_chunk_delivers [OF assms(1) le(1), of self])
  show ?case
  proof (cases r1)
    case (Ok u)
    then have b: "buf1 = []" "sent (n_stream self1) = sent (n_stream self) @ buf" using one(3,4) by simp_all
    obtain r :: "(unit, ('c, 'x, 'd) StreamWriteError) res" and bufs' self' where
        ih: "quion_write_all_chunks N fuel bufs self1 = Some (r, bufs', self')" "r \<noteq> Panic"
        "length bufs' = length bufs" "r = Ok () \<longrightarrow> concat bufs' = []"
        "sent (n_stream self') @ concat bufs' = sent (n_stream self1) @ concat bufs"
        "self' = self1\<lparr>n_stream := n_stream self'\<rparr>"
      using Cons.IH [OF le(2), of self1] by blast
    have "self' = self\<lparr>n_stream := n_stream self'\<rparr>"
      using ih(6) one(5) by (metis quion_SendStream.surjective quion_SendStream.update_convs(1))
    then show ?thesis using one(1) Ok ih(1-5) b
      by (intro exI [of _ r] exI [of _ "[] # bufs'"] exI [of _ self']) simp
  next
    case (Err e)
    have "sent (n_stream self1) @ concat (buf1 # bufs) = sent (n_stream self) @ concat (buf # bufs)"
      using one(4) by (metis append.assoc concat.simps(2))
    then show ?thesis using one(1,5) Err by (intro exI [of _ r1] exI [of _ "buf1 # bufs"] exI [of _ self1]) simp
  qed (use one(2) in simp)
qed

subsection \<open>Codes\<close>

lemma quion_reset_code:
  assumes "quion_send_laws N sent kept"
  shows "quion_SendStream_reset N code self =
    (case on_stream (case reliable_prefix self of Some sz \<Rightarrow> N_reset_at N (error_to_http3 code) sz
        | None \<Rightarrow> N_reset N (error_to_http3 code)) self of
      (r, self) \<Rightarrow> (map_err quion_WriteError_from r, self))"
  using assms error_code_fits by (simp add: quion_SendStream_reset_def quion_send_laws_def)

lemma quion_stop_code:
  assumes "quion_recv_laws R content"
  shows "quion_RecvStream_stop R code self =
    (case on_inner (N_stop R (error_to_http3 code)) self of (r, self) \<Rightarrow> (map_err quion_ReadError_from r, self))"
  using assms error_code_fits by (simp add: quion_RecvStream_stop_def quion_recv_laws_def)

lemma quion_recv_closed_reports_reset:
  "N_received_reset R (n_inner self) = (Ok (Some (error_to_http3 code)), s) \<Longrightarrow>
    quion_Trait_recv_closed R self = (Err (NRE_Reset code), self\<lparr>n_inner := s\<rparr>)"
  by (simp add: quion_Trait_recv_closed_def quion_RecvStream_received_reset_def on_inner_def error_from_to)

subsection \<open>An instance of Quion's streams\<close>

text \<open>
  A send stream that takes at most two bytes at a time and records what it accepts and what a reset
  keeps, and a receive stream over given bytes.
\<close>

definition example_quion_send :: "(bytes \<times> nat option, unit, unit, u64) quion_send" where
  "example_quion_send = \<lparr>N_VarInt_try_from = (\<lambda>x. if unat x < 2 ^ 62 then Ok x else Err ()),
    N_reset = (\<lambda>_ (s, _). (Ok (), (s, Some 0))), N_reset_at = (\<lambda>_ n (s, _). (Ok (), (s, Some (unat n)))),
    N_stopped = (\<lambda>s. (Ok None, s)), N_write = (\<lambda>bs (s, k). (Ok (min 2 (length bs)), (s @ take 2 bs, k))),
    N_write_all = (\<lambda>bs (s, k). (Ok (), (s @ bs, k))), N_finish = (\<lambda>s. (Ok (), s)),
    N_set_priority = (\<lambda>_ s. s), N_send_id = (\<lambda>_. Some 0)\<rparr>"

definition example_quion_recv :: "(bytes, unit, unit, bytes, u64) quion_recv" where
  "example_quion_recv = \<lparr>N_recv_VarInt_try_from = (\<lambda>x. if unat x < 2 ^ 62 then Ok x else Err ()),
    N_stop = (\<lambda>_ s. (Ok (), s)),
    N_read = (\<lambda>dst s. if s = [] then (Ok None, dst, s)
      else (Ok (Some (min (length s) (length dst))), take (length dst) s @ drop (length s) dst, drop (length dst) s)),
    N_read_exact = (\<lambda>dst s. if length dst \<le> length s then (Ok (), take (length dst) s, drop (length dst) s)
      else (Err (NR_Other ()), dst, [])),
    N_read_chunk = (\<lambda>n _ s. (Ok (if s = [] then None else Some (take n s)), drop n s)),
    N_chunk_bytes = (\<lambda>b. b), N_read_to_end = (\<lambda>n s. if length s \<le> n then (Ok s, []) else (Err (NR_Other ()), s)),
    N_received_reset = (\<lambda>s. (Ok None, s)), N_recv_id = (\<lambda>_. Some 0)\<rparr>"

lemma example_quion_laws:
  "quion_send_laws example_quion_send fst snd" "quion_recv_laws example_quion_recv (\<lambda>s. s)"
  by (auto simp: quion_send_laws_def quion_recv_laws_def example_quion_send_def example_quion_recv_def min_def)

subsection \<open>Properties\<close>

text \<open>
  The streams of the Quion backend implement the stream traits: over Quion streams that behave as
  documented, \<^verbatim>\<open>write\<close> and \<^verbatim>\<open>read\<close> satisfy the contracts on which the traits' default methods rest,
  and \<^verbatim>\<open>write_buf\<close>, which the backend overrides, advances the buffer by exactly what the stream
  accepted, at least one byte unless it is empty. Waiting for the end of a receive stream reports
  the code of a reset, and a code given to \<^verbatim>\<open>stop\<close> goes out in the HTTP/3 range without a panic.
\<close>

theorem quion_streams_refine_traits:
  fixes N :: "('s, 'c, 'x, 'i) quion_send" and R :: "('r, 'c, 'x, 'k, 'j) quion_recv"
    and self :: "('s, 'v) quion_SendStream" and rself :: "('r, 'v) quion_RecvStream"
  assumes "quion_send_laws N sent kept" and "quion_recv_laws R content"
  shows "send_stream (quion_Trait_write N :: _ \<Rightarrow> ('s, 'v) quion_SendStream \<Rightarrow>
      (_, ('c, 'x, 'd) StreamWriteError) res \<times> _) (\<lambda>s. sent (n_stream s)) (\<lambda>_. True) \<and>
    recv_stream (quion_Trait_read R :: _ \<Rightarrow> ('r, 'v) quion_RecvStream \<Rightarrow>
      (_, ('c, 'x, 'd) StreamReadError) res \<times> _ \<times> _) (\<lambda>s. content (n_inner s)) \<and>
    (chunk_ok chunk \<and> quion_Trait_write_buf N chunk buf self =
        (r :: (_, ('c, 'x, 'd) StreamWriteError) res, buf', self') \<longrightarrow>
      r \<noteq> Panic \<and> (\<exists>part. buf = part @ buf' \<and> sent (n_stream self') = sent (n_stream self) @ part \<and>
        (\<forall>n. r = Ok n \<longrightarrow> length part = n \<and> (buf \<noteq> [] \<longrightarrow> 0 < n)))) \<and>
    (N_received_reset R (n_inner rself) = (Ok (Some (error_to_http3 code)), t) \<longrightarrow>
      quion_Trait_recv_closed R rself =
        (Err (NRE_Reset code :: ('c, 'x, 'd) StreamReadError), rself\<lparr>n_inner := t\<rparr>)) \<and>
    (quion_RecvStream_stop R code rself :: (_, ('c, 'x, 'd) StreamReadError) res \<times> _) =
      (case N_stop R (error_to_http3 code) (n_inner rself) of
         (r, s) \<Rightarrow> (map_err quion_ReadError_from r, rself\<lparr>n_inner := s\<rparr>))"
proof (intro conjI impI)
  show "r \<noteq> Panic" "\<exists>part. buf = part @ buf' \<and> sent (n_stream self') = sent (n_stream self) @ part \<and>
        (\<forall>n. r = Ok n \<longrightarrow> length part = n \<and> (buf \<noteq> [] \<longrightarrow> 0 < n))"
    if "chunk_ok chunk \<and> quion_Trait_write_buf N chunk buf self = (r, buf', self')"
    using quion_write_buf_advances [OF assms(1) conjunct1 [OF that] conjunct2 [OF that]] by simp_all
  show "(quion_RecvStream_stop R code rself :: (_, ('c, 'x, 'd) StreamReadError) res \<times> _) =
      (case N_stop R (error_to_http3 code) (n_inner rself) of
         (r, s) \<Rightarrow> (map_err quion_ReadError_from r, rself\<lparr>n_inner := s\<rparr>))"
    by (simp add: quion_stop_code [OF assms(2)] on_inner_def split_def)
qed (rule quion_write_send_stream [OF assms(1)] quion_read_recv_stream [OF assms(2)]
    quion_recv_closed_reports_reset | assumption)+

theorem quion_streams_refine_traits_witness:
  "recv_stream (quion_Trait_read example_quion_recv :: _ \<Rightarrow> (bytes, unit) quion_RecvStream \<Rightarrow>
      (_, (unit, unit, unit) StreamReadError) res \<times> _ \<times> _) n_inner \<and>
   (quion_Trait_write_buf example_quion_send (\<lambda>b. b) [1, 2, 3] (quion_SendStream_new ([9], None)) ::
      (_, (unit, unit, unit) StreamWriteError) res \<times> _ \<times> (_, unit) quion_SendStream) =
     (Ok 2, [3], quion_SendStream_new ([9, 1, 2], None))"
proof
  show "recv_stream (quion_Trait_read example_quion_recv :: _ \<Rightarrow> (bytes, unit) quion_RecvStream \<Rightarrow>
      (_, (unit, unit, unit) StreamReadError) res \<times> _ \<times> _) n_inner"
    using quion_streams_refine_traits [OF example_quion_laws, THEN conjunct2, THEN conjunct1] by simp
qed (simp add: quion_Trait_write_buf_def quion_Trait_write_def quion_SendStream_write_def on_stream_def
    example_quion_send_def quion_SendStream_new_def)

text \<open>
  \<^verbatim>\<open>write_all_chunks\<close> returns, after at most as many writes as there are bytes: it succeeds only when
  every buffer is empty, and however it ends, the bytes the stream has accepted followed by those
  left in the buffers are what there was before, in order. No byte is lost, repeated or reordered
  by a write that takes only part of a buffer or by one that fails, and it never panics.
\<close>

theorem write_all_chunks_returns:
  fixes self :: "('s, 'v) quion_SendStream" and N :: "('s, 'c, 'x, 'i) quion_send"
  assumes "quion_send_laws N sent kept" and "length (concat bufs) \<le> fuel"
  shows "\<exists>(r :: (unit, ('c, 'x, 'd) StreamWriteError) res) bufs' self'.
    quion_write_all_chunks N fuel bufs self = Some (r, bufs', self') \<and> r \<noteq> Panic \<and>
    length bufs' = length bufs \<and> (r = Ok () \<longrightarrow> concat bufs' = []) \<and>
    sent (n_stream self') @ concat bufs' = sent (n_stream self) @ concat bufs"
  using quion_write_all_chunks_delivers [OF assms, of self, where 'd = 'd] by blast

theorem write_all_chunks_returns_witness:
  "\<exists>bufs' self'. quion_write_all_chunks example_quion_send 3 [[1, 2, 3], []] (quion_SendStream_new ([9], None)) =
      Some (Ok () :: (unit, (unit, unit, unit) StreamWriteError) res, bufs', self' :: (_, unit) quion_SendStream) \<and>
    fst (n_stream self') @ concat bufs' = [9, 1, 2, 3]"
proof -
  have "quion_write_all_chunks example_quion_send 3 [[1, 2, 3], []] (quion_SendStream_new ([9], None)) =
      Some (Ok () :: (unit, (unit, unit, unit) StreamWriteError) res, [[], []],
        quion_SendStream_new ([9, 1, 2, 3], None) :: (_, unit) quion_SendStream)"
    by (simp add: write_one_chunk.simps quion_SendStream_write_def on_stream_def example_quion_send_def
        quion_SendStream_new_def numeral_3_eq_3)
  then show ?thesis
    using write_all_chunks_returns [OF example_quion_laws(1), of "[[1, 2, 3], []]" 3
        "quion_SendStream_new ([9], None) :: (_, unit) quion_SendStream", where 'd = unit]
    by (auto simp: quion_SendStream_new_def)
qed

end
