(* ===== verification/Quion_Handshake.thy ===== *)
theory Quion_Handshake
  imports Quinn_Handshake Quion_Streams
begin

section \<open>The HTTP/3 handshake over Quion\<close>

text \<open>
  \<^verbatim>\<open>webtrans-quion/src/settings.rs\<close>, \<^verbatim>\<open>connect.rs\<close> and the handshake guard of \<^verbatim>\<open>lib.rs\<close>. The guard
  closes a connection whose handshake fails, so the operations here return the state of the
  connection on errors too. The abstraction \<open>quinn_of\<close> turns a Quion connection into a Quinn
  connection; the lemmas show that the exchange over Quion refines the exchange over Quinn, so that
  what is proved of one holds of the other.
\<close>

subsection \<open>Operations on the state of a connection\<close>

type_synonym ('a, 'e, 'q) run = "(('a, 'e) res \<times> 'q) option"

definition run_bind :: "('a, 'e, 'q) run \<Rightarrow> ('a \<Rightarrow> 'q \<Rightarrow> ('b, 'e, 'q) run) \<Rightarrow> ('b, 'e, 'q) run" where
  "run_bind m f =
     (case m of
        None \<Rightarrow> None
      | Some (Ok x, q) \<Rightarrow> f x q
      | Some (Err e, q) \<Rightarrow> Some (Err e, q)
      | Some (Panic, q) \<Rightarrow> Some (Panic, q))"

definition run_err :: "('e \<Rightarrow> 'f) \<Rightarrow> ('a, 'e, 'q) run \<Rightarrow> ('a, 'f, 'q) run" where
  "run_err f m = map_option (\<lambda>(r, q). (map_err f r, q)) m"

text \<open>An operation that leaves the connection as it is.\<close>

definition run_at :: "'q \<Rightarrow> ('a, 'e) res option \<Rightarrow> ('a, 'e, 'q) run" where
  "run_at q m = map_option (\<lambda>r. (r, q)) m"

subsection \<open>Quion's connection\<close>

text \<open>
  \<open>NC_closed_now\<close> is \<^verbatim>\<open>closed().now_or_never()\<close>, \<open>NC_closed\<close> the awaited \<^verbatim>\<open>closed()\<close>, and
  \<open>NC_negotiated\<close> the \<^verbatim>\<open>reset_stream_at\<close> of the negotiated transport, once there is one.
\<close>

record ('q, 's, 'r, 'c, 'd) quion_connection =
  NC_open_uni :: "'q \<Rightarrow> ('s, 'c quion_ConnectionError) res \<times> 'q"
  NC_open_bi :: "'q \<Rightarrow> ('s \<times> 'r, 'c quion_ConnectionError) res \<times> 'q"
  NC_accept_uni :: "'q \<Rightarrow> ('r, 'c quion_ConnectionError) res \<times> 'q"
  NC_accept_bi :: "'q \<Rightarrow> ('s \<times> 'r, 'c quion_ConnectionError) res \<times> 'q"
  NC_read_datagram_bytes :: "'q \<Rightarrow> (bytes, 'c quion_ConnectionError) res \<times> 'q"
  NC_send_datagram_bytes :: "bytes \<Rightarrow> 'q \<Rightarrow> (unit, 'd) res \<times> 'q"
  NC_max_datagram_size :: "'q \<Rightarrow> nat option"
  NC_negotiated :: "'q \<Rightarrow> bool option"
  NC_close :: "u64 \<Rightarrow> bytes \<Rightarrow> 'q \<Rightarrow> 'q"
  NC_is_closed :: "'q \<Rightarrow> bool"
  NC_closed_now :: "'q \<Rightarrow> 'c quion_ConnectionError option"
  NC_closed :: "'q \<Rightarrow> 'c quion_ConnectionError \<times> 'q"
  NC_VarInt_new :: "u64 \<Rightarrow> (u64, unit) res"
  NC_stream_id :: "'s \<Rightarrow> u64 option"
  NC_read_exact :: "'r reader"
  NC_write_all :: "bytes \<Rightarrow> 's \<Rightarrow> (unit, io_error) res \<times> 's"

text \<open>\<^verbatim>\<open>AsyncWriteExt::write_all\<close> on a stream that is not used after an error.\<close>

definition quion_write_ok :: "('q, 's, 'r, 'c, 'd) quion_connection \<Rightarrow> bytes \<Rightarrow> 's \<Rightarrow> ('s, io_error) res" where
  "quion_write_ok N bs s = (case NC_write_all N bs s of (r, s) \<Rightarrow> map_ok (\<lambda>_. s) r)"

subsection \<open>The handshake guard\<close>

text \<open>Whether a guard still holds its connection; dropping it then closes the connection.\<close>

datatype HandshakeGuard = HandshakeGuard (guards: bool)

definition HandshakeGuard_new :: HandshakeGuard where
  "HandshakeGuard_new = HandshakeGuard True"

definition HandshakeGuard_complete :: "HandshakeGuard \<Rightarrow> HandshakeGuard" where
  "HandshakeGuard_complete self = HandshakeGuard False"

definition HandshakeGuard_drop :: "('q, 's, 'r, 'c, 'd) quion_connection \<Rightarrow> HandshakeGuard \<Rightarrow> 'q \<Rightarrow> 'q" where
  "HandshakeGuard_drop N self q =
     (if guards self then NC_close N 0x102 (str ''WebTransport handshake aborted'') q else q)"

text \<open>
  The scope of a guard: it is completed when the handshake succeeds, and dropped in every case, also
  when a panic unwinds.
\<close>

definition guarded :: "('q, 's, 'r, 'c, 'd) quion_connection \<Rightarrow> ('a, 'e, 'q) run \<Rightarrow> ('a, 'e, 'q) run" where
  "guarded N m = map_option (\<lambda>(r, q).
     let guard = HandshakeGuard_new;
         guard = (case r of Ok _ \<Rightarrow> HandshakeGuard_complete guard | _ \<Rightarrow> guard)
     in (r, HandshakeGuard_drop N guard q)) m"

subsection \<open>SETTINGS\<close>

datatype ('c, 'x) quion_SettingsError = NSS_UnexpectedEnd | NSS_ProtoError SettingsError
  | NSS_WebTransportUnsupported | NSS_ConnectionError "'c quion_ConnectionError"
  | NSS_ReadError "('c, 'x) quion_ReadError" | NSS_WriteError "('c, 'x) quion_WriteError"

record ('s, 'r) quion_Settings =
  n_settings_send :: 's
  n_settings_recv :: 'r

definition quion_Settings_accept :: "('q, 's, 'r, 'c, 'd) quion_connection \<Rightarrow> nat \<Rightarrow> bool \<Rightarrow> 'q \<Rightarrow>
    ('r, ('c, 'x) quion_SettingsError, 'q) run" where
  "quion_Settings_accept N fuel peer_is_server q =
     run_bind (run_err NSS_ConnectionError (Some (NC_accept_uni N q))) (\<lambda>recv q.
     run_bind (run_at q (map_option (map_err NSS_ProtoError) (Settings_read fuel (NC_read_exact N) recv)))
       (\<lambda>(settings, recv) q.
          let supported = (if peer_is_server then supports_webtransport_server settings
                           else supports_webtransport_client settings) in
          if \<not> supported then Some (Err NSS_WebTransportUnsupported, q) else Some (Ok recv, q)))"

definition quion_Settings_open :: "('q, 's, 'r, 'c, 'd) quion_connection \<Rightarrow> (Settings \<Rightarrow> Settings) \<Rightarrow> 'q \<Rightarrow>
    ('s, ('c, 'x) quion_SettingsError, 'q) run" where
  "quion_Settings_open N ho q =
     (let settings = enable_webtransport 1 [] in
      run_bind (run_err NSS_ConnectionError (Some (NC_open_uni N q))) (\<lambda>send q.
      run_bind (run_at q (Some (map_err NSS_ProtoError (Settings_write ho (quion_write_ok N) settings send))))
        (\<lambda>send q. Some (Ok send, q))))"

text \<open>\<open>open_first\<close> says which of the two futures of \<^verbatim>\<open>try_join!\<close> completes first.\<close>

definition quion_Settings_connect :: "bool \<Rightarrow> ('q, 's, 'r, 'c, 'd) quion_connection \<Rightarrow> (Settings \<Rightarrow> Settings) \<Rightarrow>
    nat \<Rightarrow> bool \<Rightarrow> 'q \<Rightarrow> (('s, 'r) quion_Settings, ('c, 'x) quion_SettingsError, 'q) run" where
  "quion_Settings_connect open_first N ho fuel peer_is_server q =
     (if open_first then
        run_bind (quion_Settings_open N ho q) (\<lambda>send q.
        run_bind (quion_Settings_accept N fuel peer_is_server q) (\<lambda>recv q.
          Some (Ok \<lparr>n_settings_send = send, n_settings_recv = recv\<rparr>, q)))
      else
        run_bind (quion_Settings_accept N fuel peer_is_server q) (\<lambda>recv q.
        run_bind (quion_Settings_open N ho q) (\<lambda>send q.
          Some (Ok \<lparr>n_settings_send = send, n_settings_recv = recv\<rparr>, q))))"

subsection \<open>CONNECT\<close>

datatype ('c, 'x, 'p, 'm, 'st) quion_ConnectError = NCE_UnexpectedEnd
  | NCE_ProtoError "('p, 'm, 'st) ConnectError" | NCE_ConnectionError "'c quion_ConnectionError"
  | NCE_ReadError "('c, 'x) quion_ReadError" | NCE_WriteError "('c, 'x) quion_WriteError" | NCE_ErrorStatus 'st

record ('u, 's, 'r) quion_Connect =
  n_connect_request :: "'u ConnectRequest"
  n_connect_send :: 's
  n_connect_recv :: 'r

definition quion_Connect_accept :: "('q, 's, 'r, 'c, 'd) quion_connection \<Rightarrow> ('u, 'p) url_api \<Rightarrow>
    ('m, 'st) http_api \<Rightarrow> (Headers \<Rightarrow> Headers) \<Rightarrow> nat \<Rightarrow> 'q \<Rightarrow>
    (('u, 's, 'r) quion_Connect, ('c, 'x, 'p, 'm, 'st) quion_ConnectError, 'q) run" where
  "quion_Connect_accept N U H ho fuel q =
     run_bind (run_err NCE_ConnectionError (Some (NC_accept_bi N q))) (\<lambda>(send, recv) q.
     run_bind (run_at q (map_option (map_err NCE_ProtoError) (ConnectRequest_read U H ho fuel (NC_read_exact N) recv)))
       (\<lambda>(request, recv) q.
          Some (Ok \<lparr>n_connect_request = request, n_connect_send = send, n_connect_recv = recv\<rparr>, q)))"

definition quion_Connect_respond :: "('q, 's, 'r, 'c, 'd) quion_connection \<Rightarrow> ('m, 'st) http_api \<Rightarrow>
    (Headers \<Rightarrow> Headers) \<Rightarrow> 'st \<Rightarrow> ('u, 's, 'r) quion_Connect \<Rightarrow>
    (('u, 's, 'r) quion_Connect, ('c, 'x, 'p, 'm, 'st) quion_ConnectError) res" where
  "quion_Connect_respond N H ho status self =
     (let resp = \<lparr>response_status = status\<rparr> in
      and_then (map_err NCE_ProtoError (ConnectResponse_write H ho (quion_write_ok N) resp (n_connect_send self)))
        (\<lambda>send. Ok (self\<lparr>n_connect_send := send\<rparr>)))"

definition quion_Connect_reject :: "('q, 's, 'r, 'c, 'd) quion_connection \<Rightarrow> ('s, 'c, 'x, 'i) quion_send \<Rightarrow>
    ('m, 'st) http_api \<Rightarrow> (Headers \<Rightarrow> Headers) \<Rightarrow> 'st \<Rightarrow> ('u, 's, 'r) quion_Connect \<Rightarrow>
    (('u, 's, 'r) quion_Connect, ('c, 'x, 'p, 'm, 'st) quion_ConnectError) res" where
  "quion_Connect_reject N S H ho status self =
     and_then (quion_Connect_respond N H ho status self) (\<lambda>self.
     and_then (map_err (\<lambda>_. NCE_UnexpectedEnd) (with_state (N_finish S (n_connect_send self)))) (\<lambda>(_, send).
     case N_stopped S send of
       (r, send) \<Rightarrow> and_then (ok r) (\<lambda>_. Ok (self\<lparr>n_connect_send := send\<rparr>))))"

definition quion_Connect_open :: "('q, 's, 'r, 'c, 'd) quion_connection \<Rightarrow> ('u, 'p) url_api \<Rightarrow>
    ('m, 'st) http_api \<Rightarrow> 'st status_codes \<Rightarrow> (Headers \<Rightarrow> Headers) \<Rightarrow> nat \<Rightarrow> 'u \<Rightarrow> 'q \<Rightarrow>
    (('u, 's, 'r) quion_Connect, ('c, 'x, 'p, 'm, 'st) quion_ConnectError, 'q) run" where
  "quion_Connect_open N U H S ho fuel url q =
     run_bind (run_err NCE_ConnectionError (Some (NC_open_bi N q))) (\<lambda>(send, recv) q.
     let request = \<lparr>request_url = url\<rparr> in
     run_bind (run_at q (Some (map_err NCE_ProtoError (ConnectRequest_write U ho (quion_write_ok N) request send))))
       (\<lambda>send q.
     run_bind (run_at q (map_option (map_err NCE_ProtoError) (ConnectResponse_read H ho fuel (NC_read_exact N) recv)))
       (\<lambda>(response, recv) q.
          if response_status response \<noteq> StatusCode_OK S then
            Some (Err (NCE_ErrorStatus (response_status response)), q)
          else Some (Ok \<lparr>n_connect_request = request, n_connect_send = send, n_connect_recv = recv\<rparr>, q))))"

definition quion_Connect_session_id :: "('q, 's, 'r, 'c, 'd) quion_connection \<Rightarrow> ('u, 's, 'r) quion_Connect \<Rightarrow>
    (VarInt, 'e) res" where
  "quion_Connect_session_id N self =
     (case NC_stream_id N (n_connect_send self) of
        None \<Rightarrow> Panic
      | Some stream_id \<Rightarrow> unwrap (VarInt_from_u64 stream_id))"

definition quion_Connect_url :: "('u, 's, 'r) quion_Connect \<Rightarrow> 'u" where
  "quion_Connect_url self = request_url (n_connect_request self)"

definition quion_Connect_into_inner :: "('u, 's, 'r) quion_Connect \<Rightarrow> 's \<times> 'r" where
  "quion_Connect_into_inner self = (n_connect_send self, n_connect_recv self)"

subsection \<open>The abstraction to Quinn\<close>

text \<open>Streams are shared; errors become Quinn's, and a stream without identifier gets 0.\<close>

definition quinn_of :: "('q, 's, 'r, 'c, 'd) quion_connection \<Rightarrow> ('q, 's, 'r, 'c, 'd) quinn_connection" where
  "quinn_of N = \<lparr>
     QC_open_uni = (\<lambda>q. apfst (map_err quinn_error_of) (NC_open_uni N q)),
     QC_open_bi = (\<lambda>q. apfst (map_err quinn_error_of) (NC_open_bi N q)),
     QC_accept_uni = (\<lambda>q. apfst (map_err quinn_error_of) (NC_accept_uni N q)),
     QC_accept_bi = (\<lambda>q. apfst (map_err quinn_error_of) (NC_accept_bi N q)),
     QC_read_datagram = (\<lambda>q. apfst (map_err quinn_error_of) (NC_read_datagram_bytes N q)),
     QC_send_datagram = NC_send_datagram_bytes N,
     QC_max_datagram_size = NC_max_datagram_size N,
     QC_close = NC_close N,
     QC_close_reason = (\<lambda>q. if NC_is_closed N q then map_option quinn_error_of (NC_closed_now N q) else None),
     QC_closed = (\<lambda>q. apfst quinn_error_of (NC_closed N q)),
     QC_stable_id = (\<lambda>_. 0),
     QC_VarInt_from_u64 = NC_VarInt_new N,
     QC_stream_id = (\<lambda>s. case NC_stream_id N s of Some i \<Rightarrow> i | None \<Rightarrow> 0),
     QC_read_exact = NC_read_exact N,
     QC_write_all = NC_write_all N\<rparr>"

lemma quinn_of_sel [simp]:
  "QC_open_uni (quinn_of N) q = apfst (map_err quinn_error_of) (NC_open_uni N q)"
  "QC_open_bi (quinn_of N) q = apfst (map_err quinn_error_of) (NC_open_bi N q)"
  "QC_accept_uni (quinn_of N) q = apfst (map_err quinn_error_of) (NC_accept_uni N q)"
  "QC_accept_bi (quinn_of N) q = apfst (map_err quinn_error_of) (NC_accept_bi N q)"
  "QC_read_datagram (quinn_of N) q = apfst (map_err quinn_error_of) (NC_read_datagram_bytes N q)"
  "QC_send_datagram (quinn_of N) = NC_send_datagram_bytes N"
  "QC_max_datagram_size (quinn_of N) = NC_max_datagram_size N"
  "QC_close (quinn_of N) = NC_close N"
  "QC_VarInt_from_u64 (quinn_of N) = NC_VarInt_new N"
  "QC_stream_id (quinn_of N) s = (case NC_stream_id N s of Some i \<Rightarrow> i | None \<Rightarrow> 0)"
  "QC_read_exact (quinn_of N) = NC_read_exact N"
  "QC_write_all (quinn_of N) = NC_write_all N"
  by (simp_all add: quinn_of_def)

lemma write_ok_quinn_of [simp]: "write_ok (quinn_of N) = quion_write_ok N"
  by (simp add: fun_eq_iff write_ok_def quion_write_ok_def)

definition quinn_settings_of :: "('s, 'r) quion_Settings \<Rightarrow> ('s, 'r) quinn_Settings" where
  "quinn_settings_of x = \<lparr>settings_send = n_settings_send x, settings_recv = n_settings_recv x\<rparr>"

definition quinn_connect_of :: "('u, 's, 'r) quion_Connect \<Rightarrow> ('u, 's, 'r) quinn_Connect" where
  "quinn_connect_of x = \<lparr>connect_request = n_connect_request x, connect_send = n_connect_send x,
     connect_recv = n_connect_recv x\<rparr>"

text \<open>
  What both backends have in common of a result: whether it is an error, and otherwise the value,
  seen through \<open>f\<close>, with the state.
\<close>

definition forget :: "('a, 'e) res \<Rightarrow> ('a, unit) res" where
  "forget r = map_err (\<lambda>_. ()) r"

definition outcome :: "('a \<Rightarrow> 'b) \<Rightarrow> ('a, 'e, 'q) run \<Rightarrow> ('b \<times> 'q, unit) res option" where
  "outcome f m = map_option (\<lambda>(r, q). forget (map_ok (\<lambda>x. (f x, q)) r)) m"

lemma map_ok_cases: "map_ok f r = (case r of Ok x \<Rightarrow> Ok (f x) | Err e \<Rightarrow> Err e | Panic \<Rightarrow> Panic)"
  "map_err g r = (case r of Ok x \<Rightarrow> Ok x | Err e \<Rightarrow> Err (g e) | Panic \<Rightarrow> Panic)"
  by (cases r; simp)+

named_theorems refines \<open>operations that refine those of the Quinn backend\<close>

lemma forget_simps [simp]:
  "forget (Ok x) = Ok x" "forget (Err e) = Err ()" "forget Panic = Panic"
  "forget (map_err f r) = forget r" "forget (map_ok g r) = map_ok g (forget r)"
  by (cases r; simp add: forget_def)+

lemma forget_Ok_iff [simp]: "forget r = Ok x \<longleftrightarrow> r = Ok x"
  by (cases r) simp_all

lemma forget_and_then: "forget (and_then r k) = and_then (forget r) (\<lambda>x. forget (k x))"
  by (cases r) simp_all

lemma outcome_simps [simp]:
  "outcome f None = None" "outcome f (Some (r, q)) = Some (forget (map_ok (\<lambda>x. (f x, q)) r))"
  "outcome f (run_err g m) = outcome f m" "outcome f (run_at q x) = map_option (\<lambda>r. map_ok (\<lambda>y. (f y, q)) (forget r)) x"
  by (auto simp: outcome_def run_err_def run_at_def option.map_comp comp_def split_def)

lemma outcome_bind [refines]:
  "outcome f (run_bind m k) = fuel_bind (outcome (\<lambda>x. x) m) (\<lambda>(x, q). outcome f (k x q))"
  by (cases m) (auto simp: run_bind_def split: res.split)

lemma forget_bind [refines]:
  "map_option forget (fuel_bind m k) = fuel_bind (map_option forget m) (\<lambda>x. map_option forget (k x))"
  by (auto simp: fuel_bind_def split: option.split res.split)

lemma fuel_bind_map_ok [refines]:
  "fuel_bind (map_option (\<lambda>r. map_ok g r) m) k = fuel_bind m (\<lambda>x. k (g x))"
  "fuel_bind (Some (map_ok g r)) k = fuel_bind (Some r) (\<lambda>x. k (g x))"
  by (auto simp: fuel_bind_def map_ok_cases split: option.split res.split)

lemma fuel_bind_and_then: "fuel_bind (Some r) (\<lambda>x. Some (k x)) = Some (and_then r k)"
  by (cases r) simp_all

lemma forget_with_state [refines]: "forget (with_state (apfst (map_err g) p)) = forget (with_state p)"
  "forget (with_state p) = (case p of (r, q) \<Rightarrow> map_ok (\<lambda>x. (x, q)) (forget r))"
  by (cases p; cases "fst p"; simp add: with_state_def)+

lemma outcome_Ok: "outcome f m = Some (Ok (y, q)) \<longleftrightarrow> (\<exists>x. m = Some (Ok x, q) \<and> y = f x)"
  by (cases m) (auto simp: outcome_def)

lemmas refine_steps = run_bind_def fuel_bind_def run_err_def run_at_def with_state_def map_ok_cases
  outcome_def map_option_case

subsection \<open>The exchange refines the exchange over Quinn\<close>

lemma quion_Settings_accept_refines:
  "outcome (\<lambda>x. x) (quion_Settings_accept N fuel peer q :: (_, ('c, 'x) quion_SettingsError, _) run) =
    map_option forget (quinn_Settings_accept (quinn_of N) fuel peer q)"
  unfolding quion_Settings_accept_def quinn_Settings_accept_def Let_def
  by (cases "NC_accept_uni N q"; cases "fst (NC_accept_uni N q)")
    (auto simp: refine_steps split: res.split option.split)

lemma quion_Settings_open_refines:
  "outcome (\<lambda>x. x) (quion_Settings_open N ho q :: (_, ('c, 'x) quion_SettingsError, _) run) =
    Some (forget (quinn_Settings_open (quinn_of N) ho q))"
  unfolding quion_Settings_open_def quinn_Settings_open_def Let_def
  by (cases "NC_open_uni N q"; cases "fst (NC_open_uni N q)")
    (auto simp: refine_steps split: res.split option.split)

lemma quion_Settings_connect_refines:
  "outcome quinn_settings_of (quion_Settings_connect open_first N ho fuel peer q :: (_, ('c, 'x) quion_SettingsError, _) run) =
    map_option forget (quinn_Settings_connect open_first (quinn_of N) ho fuel peer q)"
  using quion_Settings_accept_refines [of N fuel peer, where 'x = 'x] quion_Settings_open_refines [of N ho, where 'x = 'x]
  by (simp add: quion_Settings_connect_def quinn_Settings_connect_def outcome_bind forget_bind
      quinn_settings_of_def split_def)

lemma quion_Connect_accept_refines:
  fixes U :: "('u, 'p) url_api" and H :: "('m, 'st) http_api"
  shows "outcome quinn_connect_of (quion_Connect_accept N U H ho fuel q ::
      (_, ('c, 'x, 'p, 'm, 'st) quion_ConnectError, _) run) =
    map_option forget (quinn_Connect_accept (quinn_of N) U H ho fuel q)"
proof -
  obtain r q1 where a: "NC_accept_bi N q = (r, q1)" by (metis prod.exhaust)
  show ?thesis
  proof (cases r)
    case (Ok sr)
    obtain send recv where sr: "sr = (send, recv)" by (cases sr) simp
    obtain x where x: "ConnectRequest_read U H ho fuel (NC_read_exact N) recv = x" by simp
    show ?thesis
      using a Ok sr x unfolding quion_Connect_accept_def quinn_Connect_accept_def
      by (cases x; cases "the x") (auto simp: refine_steps quinn_connect_of_def)
  qed (simp_all add: a quion_Connect_accept_def quinn_Connect_accept_def refine_steps)
qed

lemma quion_Connect_open_refines:
  fixes U :: "('u, 'p) url_api" and H :: "('m, 'st) http_api"
  shows "outcome quinn_connect_of (quion_Connect_open N U H S ho fuel url q ::
      (_, ('c, 'x, 'p, 'm, 'st) quion_ConnectError, _) run) =
    map_option forget (quinn_Connect_open (quinn_of N) U H S ho fuel url q)"
proof -
  obtain r q1 where a: "NC_open_bi N q = (r, q1)" by (metis prod.exhaust)
  show ?thesis
  proof (cases r)
    case (Ok sr)
    obtain send recv where sr: "sr = (send, recv)" by (cases sr) simp
    obtain w where w: "(ConnectRequest_write U ho (quion_write_ok N) \<lparr>request_url = url\<rparr> send ::
        (_, ('p, 'm, 'st) ConnectError) res) = w" by simp
    obtain x where x: "(ConnectResponse_read H ho fuel (NC_read_exact N) recv ::
        (_, ('p, 'm, 'st) ConnectError) res option) = x" by simp
    show ?thesis
      using a Ok sr w x unfolding quion_Connect_open_def quinn_Connect_open_def Let_def
      by (cases w; cases x; cases "the x") (auto simp: refine_steps quinn_connect_of_def)
  qed (simp_all add: a quion_Connect_open_def quinn_Connect_open_def refine_steps Let_def)
qed

lemma quion_Connect_respond_refines:
  "map_ok quinn_connect_of (forget (quion_Connect_respond N H ho status self ::
      (_, ('c, 'x, 'p, 'm, 'st) quion_ConnectError) res)) =
    forget (quinn_Connect_respond (quinn_of N) H ho status (quinn_connect_of self) ::
      (_, ('c, 'p, 'm, 'st) quinn_ConnectError) res)"
proof -
  obtain w where w: "(ConnectResponse_write H ho (quion_write_ok N) \<lparr>response_status = status\<rparr> (n_connect_send self) ::
        (_, ('p, 'm, 'st) ConnectError) res) = w" by simp
  then show ?thesis
    by (cases w) (simp_all add: quion_Connect_respond_def quinn_Connect_respond_def quinn_connect_of_def Let_def)
qed

lemma quion_Connect_session_id_refines:
  "NC_stream_id N (n_connect_send self) \<noteq> None \<Longrightarrow>
    quion_Connect_session_id N self = quinn_Connect_session_id (quinn_of N) (quinn_connect_of self)"
  by (auto simp: quion_Connect_session_id_def quinn_Connect_session_id_def quinn_connect_of_def)

subsection \<open>The guard\<close>

lemma guarded_cases:
  "guarded N m = Some (r, q) \<longleftrightarrow>
    (\<exists>q'. m = Some (r, q') \<and> q = (case r of Ok _ \<Rightarrow> q' | _ \<Rightarrow> NC_close N 0x102 (str ''WebTransport handshake aborted'') q'))"
  by (cases m; cases r) (auto simp: guarded_def HandshakeGuard_new_def HandshakeGuard_complete_def
      HandshakeGuard_drop_def Let_def)

lemma outcome_guarded: "outcome f (guarded N m) = outcome f m"
  by (cases m) (auto simp: guarded_def HandshakeGuard_new_def HandshakeGuard_complete_def
      HandshakeGuard_drop_def Let_def outcome_def map_ok_cases split: res.split)

end
