(* ===== verification/Quion_Accept.thy ===== *)
theory Quion_Accept
  imports Quion_Handshake Session_Accept
begin

section \<open>Accepting streams of a session over Quion\<close>

text \<open>
  \<^verbatim>\<open>SessionAccept\<close> of \<^verbatim>\<open>webtrans-quion/src/session.rs\<close>, the second copy of the accepting machine. The
  lemmas show that it simulates the machine of the Quinn backend step by step through the
  abstraction \<open>quinn_accept_of\<close>; the contract \<open>stream_acceptor\<close> follows, and with it that every
  stream of the session is delivered exactly once.
\<close>

subsection \<open>Definitions\<close>

record ('s, 'r, 'c) quion_SessionAccept =
  n_accept_session_id :: VarInt
  n_qpack_encoder :: "'r option"
  n_qpack_decoder :: "'r option"
  n_accept_uni :: "('c quion_ConnectionError + 'r) list"
  n_accept_bi :: "('c quion_ConnectionError + ('s \<times> 'r)) list"
  n_pending_uni :: "'r list"
  n_pending_bi :: "('s \<times> 'r) list"

definition quion_SessionAccept_new :: "VarInt \<Rightarrow> ('s, 'r, 'c) quion_SessionAccept" where
  "quion_SessionAccept_new sid = \<lparr>n_accept_session_id = sid, n_qpack_encoder = None, n_qpack_decoder = None,
     n_accept_uni = [], n_accept_bi = [], n_pending_uni = [], n_pending_bi = []\<rparr>"

definition quion_decode_uni :: "'r reader \<Rightarrow> 'r \<Rightarrow> VarInt \<Rightarrow> (UniStream \<times> 'r, ('c, 'x, 'd) quion_SessionError) res" where
  "quion_decode_uni rd recv expected_session =
     and_then (map_err (\<lambda>_. NSE_WebTransportError NWT_UnknownSession) (VarInt_read rd recv)) (\<lambda>(typ, recv).
       let typ = UniStream typ in
       if typ = UniStream_WEBTRANSPORT then
         and_then (map_err (\<lambda>_. NSE_WebTransportError NWT_UnknownSession) (VarInt_read rd recv)) (\<lambda>(session, recv).
           if session \<noteq> expected_session then Err (NSE_WebTransportError NWT_UnknownSession)
           else Ok (typ, recv))
       else Ok (typ, recv))"

definition quion_decode_bi :: "'r reader \<Rightarrow> 's \<Rightarrow> 'r \<Rightarrow> VarInt \<Rightarrow>
    (('s \<times> 'r) option, ('c, 'x, 'd) quion_SessionError) res" where
  "quion_decode_bi rd send recv expected_session =
     and_then (map_err (\<lambda>_. NSE_WebTransportError NWT_UnknownSession) (VarInt_read rd recv)) (\<lambda>(typ, recv).
       if Frame typ \<noteq> Frame_WEBTRANSPORT then Ok None
       else
         and_then (map_err (\<lambda>_. NSE_WebTransportError NWT_UnknownSession) (VarInt_read rd recv)) (\<lambda>(session, recv).
           if session \<noteq> expected_session then Err (NSE_WebTransportError NWT_UnknownSession)
           else Ok (Some (send, recv))))"

text \<open>As over Quinn, \<open>ready\<close> says which of the pending futures completes next.\<close>

function quion_poll_accept_uni :: "'r reader \<Rightarrow> ('r list \<Rightarrow> nat option) \<Rightarrow> ('s, 'r, 'c) quion_SessionAccept \<Rightarrow>
    (('r, 'v) quion_RecvStream, ('c, 'x, 'd) quion_SessionError) res poll \<times> ('s, 'r, 'c) quion_SessionAccept" where
  "quion_poll_accept_uni rd ready st =
     (case n_accept_uni st of
        Inl e # rest \<Rightarrow> (Poll_Ready (Err (quion_SessionError_from e)), st\<lparr>n_accept_uni := rest\<rparr>)
      | Inr recv # rest \<Rightarrow>
          quion_poll_accept_uni rd ready (st\<lparr>n_accept_uni := rest, n_pending_uni := recv # n_pending_uni st\<rparr>)
      | [] \<Rightarrow>
          (case next_ready ready (n_pending_uni st) of
             None \<Rightarrow> (Poll_Pending, st)
           | Some (f, fs) \<Rightarrow>
               let st = st\<lparr>n_pending_uni := fs\<rparr> in
               case quion_decode_uni rd f (n_accept_session_id st) ::
                   (UniStream \<times> 'r, ('c, 'x, 'd) quion_SessionError) res of
                 Err _ \<Rightarrow> quion_poll_accept_uni rd ready st
               | Panic \<Rightarrow> (Poll_Ready Panic, st)
               | Ok (typ, recv) \<Rightarrow>
                   if typ = UniStream_WEBTRANSPORT then (Poll_Ready (Ok (quion_RecvStream_new recv)), st)
                   else if typ = UniStream_QPACK_DECODER then
                     quion_poll_accept_uni rd ready (st\<lparr>n_qpack_decoder := Some recv\<rparr>)
                   else if typ = UniStream_QPACK_ENCODER then
                     quion_poll_accept_uni rd ready (st\<lparr>n_qpack_encoder := Some recv\<rparr>)
                   else quion_poll_accept_uni rd ready st))"
  by pat_completeness auto
termination
  by (relation "measure (\<lambda>(_, _, st). 2 * length (n_accept_uni st) + length (n_pending_uni st))")
    (auto dest: next_ready_Some)

function quion_poll_accept_bi :: "'r reader \<Rightarrow> (('s \<times> 'r) list \<Rightarrow> nat option) \<Rightarrow> ('s, 'r, 'c) quion_SessionAccept \<Rightarrow>
    (('s, 'v) quion_SendStream \<times> ('r, 'v) quion_RecvStream, ('c, 'x, 'd) quion_SessionError) res poll \<times>
      ('s, 'r, 'c) quion_SessionAccept" where
  "quion_poll_accept_bi rd ready st =
     (case n_accept_bi st of
        Inl e # rest \<Rightarrow> (Poll_Ready (Err (quion_SessionError_from e)), st\<lparr>n_accept_bi := rest\<rparr>)
      | Inr sr # rest \<Rightarrow>
          quion_poll_accept_bi rd ready (st\<lparr>n_accept_bi := rest, n_pending_bi := sr # n_pending_bi st\<rparr>)
      | [] \<Rightarrow>
          (case next_ready ready (n_pending_bi st) of
             None \<Rightarrow> (Poll_Pending, st)
           | Some (f, fs) \<Rightarrow>
               let st = st\<lparr>n_pending_bi := fs\<rparr> in
               case quion_decode_bi rd (fst f) (snd f) (n_accept_session_id st) ::
                   (('s \<times> 'r) option, ('c, 'x, 'd) quion_SessionError) res of
                 Err _ \<Rightarrow> quion_poll_accept_bi rd ready st
               | Panic \<Rightarrow> (Poll_Ready Panic, st)
               | Ok (Some (send, recv)) \<Rightarrow>
                   (Poll_Ready (Ok (quion_SendStream_new send, quion_RecvStream_new recv)), st)
               | Ok None \<Rightarrow> quion_poll_accept_bi rd ready st))"
  by pat_completeness auto
termination
  by (relation "measure (\<lambda>(_, _, st). 2 * length (n_accept_bi st) + length (n_pending_bi st))")
    (auto dest: next_ready_Some)

declare quion_poll_accept_uni.simps [simp del] quion_poll_accept_bi.simps [simp del]

subsection \<open>The simulation\<close>

definition quinn_accept_of :: "('s, 'r, 'c) quion_SessionAccept \<Rightarrow> ('s, 'r, 'c) SessionAccept" where
  "quinn_accept_of st = \<lparr>accept_session_id = n_accept_session_id st,
     qpack_encoder = n_qpack_encoder st, qpack_decoder = n_qpack_decoder st,
     accept_uni = map (map_sum quinn_error_of id) (n_accept_uni st),
     accept_bi = map (map_sum quinn_error_of id) (n_accept_bi st),
     pending_uni = n_pending_uni st, pending_bi = n_pending_bi st\<rparr>"

lemma quinn_accept_of_sel [simp]:
  "accept_session_id (quinn_accept_of st) = n_accept_session_id st"
  "accept_uni (quinn_accept_of st) = map (map_sum quinn_error_of id) (n_accept_uni st)"
  "accept_bi (quinn_accept_of st) = map (map_sum quinn_error_of id) (n_accept_bi st)"
  "pending_uni (quinn_accept_of st) = n_pending_uni st"
  "pending_bi (quinn_accept_of st) = n_pending_bi st"
  by (simp_all add: quinn_accept_of_def)

lemma quinn_accept_of_update:
  "quinn_accept_of (st\<lparr>n_accept_uni := us, n_pending_uni := ps\<rparr>) =
    (quinn_accept_of st)\<lparr>accept_uni := map (map_sum quinn_error_of id) us, pending_uni := ps\<rparr>"
  "quinn_accept_of (st\<lparr>n_accept_bi := bs, n_pending_bi := qs\<rparr>) =
    (quinn_accept_of st)\<lparr>accept_bi := map (map_sum quinn_error_of id) bs, pending_bi := qs\<rparr>"
  "quinn_accept_of (st\<lparr>n_accept_uni := us\<rparr>) =
    (quinn_accept_of st)\<lparr>accept_uni := map (map_sum quinn_error_of id) us\<rparr>"
  "quinn_accept_of (st\<lparr>n_accept_bi := bs\<rparr>) =
    (quinn_accept_of st)\<lparr>accept_bi := map (map_sum quinn_error_of id) bs\<rparr>"
  "quinn_accept_of (st\<lparr>n_pending_uni := ps\<rparr>) = (quinn_accept_of st)\<lparr>pending_uni := ps\<rparr>"
  "quinn_accept_of (st\<lparr>n_pending_bi := qs\<rparr>) = (quinn_accept_of st)\<lparr>pending_bi := qs\<rparr>"
  "quinn_accept_of (st\<lparr>n_pending_uni := ps, n_qpack_decoder := d\<rparr>) =
    (quinn_accept_of st)\<lparr>pending_uni := ps, qpack_decoder := d\<rparr>"
  "quinn_accept_of (st\<lparr>n_pending_uni := ps, n_qpack_encoder := d\<rparr>) =
    (quinn_accept_of st)\<lparr>pending_uni := ps, qpack_encoder := d\<rparr>"
  by (simp_all add: quinn_accept_of_def)

text \<open>What both backends have in common of a poll: the streams, seen through \<open>f\<close>, or an error.\<close>

definition poll_outcome :: "('a \<Rightarrow> 'b) \<Rightarrow> ('a, 'e) res poll \<Rightarrow> ('b, unit) res poll" where
  "poll_outcome f p = (case p of
      Poll_Pending \<Rightarrow> Poll_Pending | Poll_Ready r \<Rightarrow> Poll_Ready (forget (map_ok f r)))"

lemma poll_outcome_simps [simp]:
  "poll_outcome f Poll_Pending = Poll_Pending" "poll_outcome f (Poll_Ready (Ok x)) = Poll_Ready (Ok (f x))"
  "poll_outcome f (Poll_Ready (Err e)) = Poll_Ready (Err ())" "poll_outcome f (Poll_Ready Panic) = Poll_Ready Panic"
  by (simp_all add: poll_outcome_def)

text \<open>The streams of this backend that wrap the same streams as Quinn's, without a driver yet.\<close>

definition of_recv :: "'r RecvStream \<Rightarrow> ('r, 'v) quion_RecvStream" where
  "of_recv r = quion_RecvStream_new (recv_inner r)"

definition of_pair :: "'s SendStream \<times> 'r RecvStream \<Rightarrow> ('s, 'v) quion_SendStream \<times> ('r, 'v) quion_RecvStream" where
  "of_pair p = (quion_SendStream_new (send_stream (fst p)), quion_RecvStream_new (recv_inner (snd p)))"

lemma new_of [simp]: "of_recv (RecvStream_new r) = quion_RecvStream_new r"
  "of_pair (SendStream_new s, RecvStream_new r) = (quion_SendStream_new s, quion_RecvStream_new r)"
  by (simp_all add: of_recv_def of_pair_def RecvStream_new_def SendStream_new_def)

lemma decode_uni_agrees: "forget (quion_decode_uni rd r sid) = forget (decode_uni rd r sid)"
  by (simp add: quion_decode_uni_def decode_uni_def Let_def forget_and_then split_def if_distrib [of forget] cong: if_cong)

lemma decode_bi_agrees: "forget (quion_decode_bi rd s r sid) = forget (decode_bi rd s r sid)"
  by (simp add: quion_decode_bi_def decode_bi_def Let_def forget_and_then split_def if_distrib [of forget] cong: if_cong)

lemma forget_cases:
  assumes "forget r = forget r'"
  obtains (Ok) x where "r = Ok x" and "r' = Ok x" | (Err) e e' where "r = Err e" and "r' = Err e'"
    | (Panic) "r = Panic" and "r' = Panic"
  using assms by (cases r; cases r') auto

lemma poll_uni_simulates:
  fixes st :: "('s, 'r, 'c) quion_SessionAccept"
  assumes "quion_poll_accept_uni rd ready st =
      (p :: (('r, 'v) quion_RecvStream, ('c, 'x, 'd) quion_SessionError) res poll, st')"
  shows "\<exists>p' :: ('r RecvStream, ('c, 'd) SessionError) res poll.
    poll_accept_uni rd ready (quinn_accept_of st) = (p', quinn_accept_of st') \<and>
    poll_outcome of_recv p' = poll_outcome (\<lambda>x. x) p"
  using assms
proof (induction "2 * length (n_accept_uni st) + length (n_pending_uni st)" arbitrary: st rule: less_induct)
  case less
  note q = less.prems [unfolded quion_poll_accept_uni.simps [of rd ready st]]
    and u = poll_accept_uni.simps [of rd ready "quinn_accept_of st"]
  show ?case
  proof (cases "n_accept_uni st")
    case (Cons y rest)
    show ?thesis
    proof (cases y)
      case (Inl e)
      then show ?thesis using q Cons by (subst u) (auto simp: quinn_accept_of_update)
    next
      case (Inr r)
      then show ?thesis
        using q Cons less.hyps [of "st\<lparr>n_accept_uni := rest, n_pending_uni := r # n_pending_uni st\<rparr>"]
        by (subst u) (simp add: quinn_accept_of_update)
    qed
  next
    case Nil
    show ?thesis
    proof (cases "next_ready ready (n_pending_uni st)")
      case None
      then show ?thesis using q Nil by (subst u) auto
    next
      case (Some ffs)
      then obtain f fs where n: "next_ready ready (n_pending_uni st) = Some (f, fs)" by (cases ffs) simp
      note le = next_ready_Some [OF n]
      have ih: "\<exists>p' :: ('r RecvStream, ('c, 'd) SessionError) res poll.
          poll_accept_uni rd ready (quinn_accept_of st1) = (p', quinn_accept_of st') \<and>
          poll_outcome of_recv p' = poll_outcome (\<lambda>x. x) p"
        if "quion_poll_accept_uni rd ready st1 = (p, st')" "n_accept_uni st1 = []" "n_pending_uni st1 = fs" for st1
        using less.hyps [OF _ that(1)] le Nil that(2,3) by simp
      have d: "forget (quion_decode_uni rd f (n_accept_session_id st) :: (_, ('c, 'x, 'd) quion_SessionError) res) =
          forget (decode_uni rd f (n_accept_session_id st) :: (_, ('c, 'd) SessionError) res)"
        by (rule decode_uni_agrees)
      then show ?thesis
      proof (cases rule: forget_cases)
        case (Ok tr)
        then show ?thesis
          using q Nil n ih [of "st\<lparr>n_pending_uni := fs\<rparr>"]
            ih [of "st\<lparr>n_pending_uni := fs, n_qpack_decoder := Some (snd tr)\<rparr>"]
            ih [of "st\<lparr>n_pending_uni := fs, n_qpack_encoder := Some (snd tr)\<rparr>"]
          by (subst u) (auto simp: quinn_accept_of_update split_def Let_def split: if_splits)
      next
        case (Err e e')
        then show ?thesis
          using q Nil n ih [of "st\<lparr>n_pending_uni := fs\<rparr>"] by (subst u) (simp add: quinn_accept_of_update Let_def)
      next
        case Panic
        then show ?thesis using q Nil n by (subst u) (auto simp: quinn_accept_of_update Let_def)
      qed
    qed
  qed
qed

lemma poll_bi_simulates:
  fixes st :: "('s, 'r, 'c) quion_SessionAccept"
  assumes "quion_poll_accept_bi rd ready st =
      (p :: (('s, 'v) quion_SendStream \<times> ('r, 'v) quion_RecvStream, ('c, 'x, 'd) quion_SessionError) res poll, st')"
  shows "\<exists>p' :: ('s SendStream \<times> 'r RecvStream, ('c, 'd) SessionError) res poll.
    poll_accept_bi rd ready (quinn_accept_of st) = (p', quinn_accept_of st') \<and>
    poll_outcome of_pair p' = poll_outcome (\<lambda>x. x) p"
  using assms
proof (induction "2 * length (n_accept_bi st) + length (n_pending_bi st)" arbitrary: st rule: less_induct)
  case less
  note q = less.prems [unfolded quion_poll_accept_bi.simps [of rd ready st]]
    and u = poll_accept_bi.simps [of rd ready "quinn_accept_of st"]
  show ?case
  proof (cases "n_accept_bi st")
    case (Cons y rest)
    show ?thesis
    proof (cases y)
      case (Inl e)
      then show ?thesis using q Cons by (subst u) (auto simp: quinn_accept_of_update)
    next
      case (Inr r)
      then show ?thesis
        using q Cons less.hyps [of "st\<lparr>n_accept_bi := rest, n_pending_bi := r # n_pending_bi st\<rparr>"]
        by (subst u) (simp add: quinn_accept_of_update)
    qed
  next
    case Nil
    show ?thesis
    proof (cases "next_ready ready (n_pending_bi st)")
      case None
      then show ?thesis using q Nil by (subst u) auto
    next
      case (Some ffs)
      then obtain f fs where n: "next_ready ready (n_pending_bi st) = Some (f, fs)" by (cases ffs) simp
      note le = next_ready_Some [OF n]
      have ih: "\<exists>p' :: ('s SendStream \<times> 'r RecvStream, ('c, 'd) SessionError) res poll.
          poll_accept_bi rd ready (quinn_accept_of st1) = (p', quinn_accept_of st') \<and>
          poll_outcome of_pair p' = poll_outcome (\<lambda>x. x) p"
        if "quion_poll_accept_bi rd ready st1 = (p, st')" "n_accept_bi st1 = []" "n_pending_bi st1 = fs" for st1
        using less.hyps [OF _ that(1)] le Nil that(2,3) by simp
      have d: "forget (quion_decode_bi rd (fst f) (snd f) (n_accept_session_id st) :: (_, ('c, 'x, 'd) quion_SessionError) res) =
          forget (decode_bi rd (fst f) (snd f) (n_accept_session_id st) :: (_, ('c, 'd) SessionError) res)"
        by (rule decode_bi_agrees)
      then show ?thesis
      proof (cases rule: forget_cases)
        case (Ok x)
        then show ?thesis
          using q Nil n ih [of "st\<lparr>n_pending_bi := fs\<rparr>"]
          by (cases x) (subst u, auto simp: quinn_accept_of_update split_def Let_def)+
      next
        case (Err e e')
        then show ?thesis
          using q Nil n ih [of "st\<lparr>n_pending_bi := fs\<rparr>"] by (subst u) (simp add: quinn_accept_of_update Let_def)
      next
        case Panic
        then show ?thesis using q Nil n by (subst u) (auto simp: quinn_accept_of_update Let_def)
      qed
    qed
  qed
qed

subsection \<open>The contract of the accepting machines\<close>

definition quion_arrive_uni :: "'r \<Rightarrow> ('s, 'r, 'c) quion_SessionAccept \<Rightarrow> ('s, 'r, 'c) quion_SessionAccept" where
  "quion_arrive_uni r st = st\<lparr>n_accept_uni := n_accept_uni st @ [Inr r]\<rparr>"

definition quion_arrive_bi :: "'s \<times> 'r \<Rightarrow> ('s, 'r, 'c) quion_SessionAccept \<Rightarrow> ('s, 'r, 'c) quion_SessionAccept" where
  "quion_arrive_bi sr st = st\<lparr>n_accept_bi := n_accept_bi st @ [Inr sr]\<rparr>"

datatype ('p, 'c) quion_accept_move = N_Accept_fails "'c quion_ConnectionError" | N_Other_arrives 'p
  | N_Other_fails "'c quion_ConnectionError" | N_Other_polled "'p list \<Rightarrow> nat option"

definition quion_move_uni :: "'r reader \<Rightarrow> ('s \<times> 'r, 'c) quion_accept_move \<Rightarrow>
    ('s, 'r, 'c) quion_SessionAccept \<Rightarrow> ('s, 'r, 'c) quion_SessionAccept" where
  "quion_move_uni rd m st =
     (case m of
        N_Accept_fails e \<Rightarrow> st\<lparr>n_accept_uni := n_accept_uni st @ [Inl e]\<rparr>
      | N_Other_arrives sr \<Rightarrow> quion_arrive_bi sr st
      | N_Other_fails e \<Rightarrow> st\<lparr>n_accept_bi := n_accept_bi st @ [Inl e]\<rparr>
      | N_Other_polled ready \<Rightarrow> snd (quion_poll_accept_bi rd ready st ::
          ((_, unit) quion_SendStream \<times> _, ('c, unit, unit) quion_SessionError) res poll \<times> _))"

definition quion_move_bi :: "'r reader \<Rightarrow> ('r, 'c) quion_accept_move \<Rightarrow>
    ('s, 'r, 'c) quion_SessionAccept \<Rightarrow> ('s, 'r, 'c) quion_SessionAccept" where
  "quion_move_bi rd m st =
     (case m of
        N_Accept_fails e \<Rightarrow> st\<lparr>n_accept_bi := n_accept_bi st @ [Inl e]\<rparr>
      | N_Other_arrives r \<Rightarrow> quion_arrive_uni r st
      | N_Other_fails e \<Rightarrow> st\<lparr>n_accept_uni := n_accept_uni st @ [Inl e]\<rparr>
      | N_Other_polled ready \<Rightarrow> snd (quion_poll_accept_uni rd ready st ::
          ((_, unit) quion_RecvStream, ('c, unit, unit) quion_SessionError) res poll \<times> _))"

definition quion_waiting_uni :: "('s, 'r, 'c) quion_SessionAccept \<Rightarrow> 'r list" where
  "quion_waiting_uni st = waiting_uni (quinn_accept_of st)"

definition quion_waiting_bi :: "('s, 'r, 'c) quion_SessionAccept \<Rightarrow> ('s \<times> 'r) list" where
  "quion_waiting_bi st = waiting_bi (quinn_accept_of st)"

definition quion_accepts_uni :: "'r reader \<Rightarrow> VarInt \<Rightarrow> 'r \<Rightarrow> ('r, 'v) quion_RecvStream option" where
  "quion_accepts_uni rd sid r = map_option of_recv (accepts_uni rd sid r)"

definition quion_accepts_bi :: "'r reader \<Rightarrow> VarInt \<Rightarrow> 's \<times> 'r \<Rightarrow>
    (('s, 'v) quion_SendStream \<times> ('r, 'v) quion_RecvStream) option" where
  "quion_accepts_bi rd sid sr = map_option of_pair (accepts_bi rd sid sr)"

lemma accepted_map_option: "accepted (\<lambda>p. map_option f (g p)) ps = image_mset f (accepted g ps)"
  by (induction ps) (auto split: option.split)

lemma delivered_by_outcome: "poll_outcome f p' = poll_outcome (\<lambda>x. x) p \<Longrightarrow> delivered_by p = image_mset f (delivered_by p')"
  by (cases p; cases p') (auto simp: poll_outcome_def delivered_by_def map_ok_cases split: res.splits)

lemma poll_outcome_pending: "poll_outcome f p = Poll_Pending \<longleftrightarrow> p = Poll_Pending"
  by (cases p) (auto simp: poll_outcome_def)

lemma quion_poll_uni_conserves:
  fixes st :: "('s, 'r, 'c) quion_SessionAccept"
  assumes "quion_poll_accept_uni rd ready st =
      (p :: (('r, 'v) quion_RecvStream, ('c, 'x, 'd) quion_SessionError) res poll, st')"
  shows "n_accept_session_id st' = n_accept_session_id st" and "quion_waiting_bi st' = quion_waiting_bi st"
    and "accepted (quion_accepts_uni rd (n_accept_session_id st)) (quion_waiting_uni st) =
      accepted (quion_accepts_uni rd (n_accept_session_id st)) (quion_waiting_uni st') + delivered_by p"
    and "p = Poll_Pending \<Longrightarrow> next_ready ready (quion_waiting_uni st') = None"
proof -
  obtain p' :: "('r RecvStream, ('c, 'd) SessionError) res poll" where
      sim: "poll_accept_uni rd ready (quinn_accept_of st) = (p', quinn_accept_of st')"
      "poll_outcome of_recv p' = poll_outcome (\<lambda>x. x) p"
    using poll_uni_simulates [OF assms] by blast
  note c = poll_accept_uni_conserves [OF sim(1)]
  show "n_accept_session_id st' = n_accept_session_id st" using c(1) by simp
  show "quion_waiting_bi st' = quion_waiting_bi st"
    unfolding quion_waiting_bi_def waiting_bi_def using c(2,3) by simp
  show "accepted (quion_accepts_uni rd (n_accept_session_id st)) (quion_waiting_uni st) =
      accepted (quion_accepts_uni rd (n_accept_session_id st)) (quion_waiting_uni st') + delivered_by p"
    using arg_cong [OF c(4), of "image_mset of_recv"]
    by (simp add: quion_accepts_uni_def [abs_def] accepted_map_option quion_waiting_uni_def
        delivered_by_outcome [OF sim(2)])
  show "next_ready ready (quion_waiting_uni st') = None" if "p = Poll_Pending"
    using c(5) sim(2) that by (simp add: quion_waiting_uni_def poll_outcome_pending)
qed

lemma quion_poll_bi_conserves:
  fixes st :: "('s, 'r, 'c) quion_SessionAccept"
  assumes "quion_poll_accept_bi rd ready st =
      (p :: (('s, 'v) quion_SendStream \<times> ('r, 'v) quion_RecvStream, ('c, 'x, 'd) quion_SessionError) res poll, st')"
  shows "n_accept_session_id st' = n_accept_session_id st" and "quion_waiting_uni st' = quion_waiting_uni st"
    and "accepted (quion_accepts_bi rd (n_accept_session_id st)) (quion_waiting_bi st) =
      accepted (quion_accepts_bi rd (n_accept_session_id st)) (quion_waiting_bi st') + delivered_by p"
    and "p = Poll_Pending \<Longrightarrow> next_ready ready (quion_waiting_bi st') = None"
proof -
  obtain p' :: "('s SendStream \<times> 'r RecvStream, ('c, 'd) SessionError) res poll" where
      sim: "poll_accept_bi rd ready (quinn_accept_of st) = (p', quinn_accept_of st')"
      "poll_outcome of_pair p' = poll_outcome (\<lambda>x. x) p"
    using poll_bi_simulates [OF assms] by blast
  note c = poll_accept_bi_conserves [OF sim(1)]
  show "n_accept_session_id st' = n_accept_session_id st" using c(1) by simp
  show "quion_waiting_uni st' = quion_waiting_uni st"
    unfolding quion_waiting_uni_def waiting_uni_def using c(2,3) by simp
  show "accepted (quion_accepts_bi rd (n_accept_session_id st)) (quion_waiting_bi st) =
      accepted (quion_accepts_bi rd (n_accept_session_id st)) (quion_waiting_bi st') + delivered_by p"
    using arg_cong [OF c(4), of "image_mset of_pair"]
    by (simp add: quion_accepts_bi_def [abs_def] accepted_map_option quion_waiting_bi_def
        delivered_by_outcome [OF sim(2)])
  show "next_ready ready (quion_waiting_bi st') = None" if "p = Poll_Pending"
    using c(5) sim(2) that by (simp add: quion_waiting_bi_def poll_outcome_pending)
qed

lemma quion_poll_keeps:
  "n_accept_session_id (snd (quion_poll_accept_uni rd ready st)) = n_accept_session_id st"
  "n_accept_session_id (snd (quion_poll_accept_bi rd ready' st)) = n_accept_session_id st"
  "quion_waiting_bi (snd (quion_poll_accept_uni rd ready st)) = quion_waiting_bi st"
  "quion_waiting_uni (snd (quion_poll_accept_bi rd ready' st)) = quion_waiting_uni st"
  using quion_poll_uni_conserves(1,2) [OF prod.collapse [symmetric], of rd ready st]
    quion_poll_bi_conserves(1,2) [OF prod.collapse [symmetric], of rd ready' st] by simp_all

lemma quion_waiting_update [simp]:
  "quion_waiting_uni (st\<lparr>n_accept_uni := n_accept_uni st @ [Inl e]\<rparr>) = quion_waiting_uni st"
  "quion_waiting_uni (st\<lparr>n_accept_bi := bs\<rparr>) = quion_waiting_uni st"
  "quion_waiting_bi (st\<lparr>n_accept_bi := n_accept_bi st @ [Inl e]\<rparr>) = quion_waiting_bi st"
  "quion_waiting_bi (st\<lparr>n_accept_uni := us\<rparr>) = quion_waiting_bi st"
  "mset (quion_waiting_uni (st\<lparr>n_accept_uni := n_accept_uni st @ [Inr r]\<rparr>)) = add_mset r (mset (quion_waiting_uni st))"
  "mset (quion_waiting_bi (st\<lparr>n_accept_bi := n_accept_bi st @ [Inr sr]\<rparr>)) = add_mset sr (mset (quion_waiting_bi st))"
  by (simp_all add: quion_waiting_uni_def quion_waiting_bi_def quinn_accept_of_update waiting_uni_def waiting_bi_def
      List.map_filter_def)

interpretation quion_acceptor_uni: stream_acceptor "quion_poll_accept_uni rd" quion_arrive_uni "quion_move_uni rd"
    quion_waiting_uni "quion_accepts_uni rd" n_accept_session_id for rd
  by unfold_locales
    (auto simp: quion_poll_keeps quion_arrive_uni_def quion_arrive_bi_def quion_move_uni_def quion_poll_uni_conserves(3)
      quion_poll_uni_conserves(4) [OF _ refl] split: quion_accept_move.split)

interpretation quion_acceptor_bi: stream_acceptor "quion_poll_accept_bi rd" quion_arrive_bi "quion_move_bi rd"
    quion_waiting_bi "quion_accepts_bi rd" n_accept_session_id for rd
  by unfold_locales
    (auto simp: quion_poll_keeps quion_arrive_uni_def quion_arrive_bi_def quion_move_bi_def quion_poll_bi_conserves(3)
      quion_poll_bi_conserves(4) [OF _ refl] split: quion_accept_move.split)

lemma quion_SessionAccept_new_waiting [simp]:
  "quion_waiting_uni (quion_SessionAccept_new sid) = []" "quion_waiting_bi (quion_SessionAccept_new sid) = []"
  "n_accept_session_id (quion_SessionAccept_new sid) = sid"
  by (simp_all add: quion_waiting_uni_def quion_waiting_bi_def waiting_uni_def waiting_bi_def
      quion_SessionAccept_new_def quinn_accept_of_def List.map_filter_def)

subsection \<open>Properties\<close>

text \<open>
  C23. The accepting machine over Quion refines the one over Quinn: every poll, in every state and under
  every schedule, takes the abstract state where Quinn's poll takes it and returns the same stream,
  or an error, or nothing, as Quinn's does. In any run, with any arrivals, errors and polls of the
  other direction, the streams delivered and those still waiting with the session's header are
  together the streams that arrived with it: none is lost, duplicated or invented.
\<close>

theorem quion_accept_refines_quinn:
  fixes st0 :: "('s, 'r, 'c) quion_SessionAccept" and rd :: "'r reader"
  defines "uni \<equiv> quion_poll_accept_uni rd :: _ \<Rightarrow> ('s, 'r, 'c) quion_SessionAccept \<Rightarrow>
      (('r, 'v) quion_RecvStream, ('c, 'x, 'd) quion_SessionError) res poll \<times> _"
    and "bi \<equiv> quion_poll_accept_bi rd :: _ \<Rightarrow> ('s, 'r, 'c) quion_SessionAccept \<Rightarrow>
      (('s, 'v) quion_SendStream \<times> ('r, 'v) quion_RecvStream, ('c, 'x, 'd) quion_SessionError) res poll \<times> _"
  assumes "acceptor_run uni quion_arrive_uni (quion_move_uni rd) (quion_SessionAccept_new sid) arrived delivered st"
    and "acceptor_run bi quion_arrive_bi (quion_move_bi rd) (quion_SessionAccept_new sid) arrived' delivered' st'"
  shows "(\<exists>p :: ('r RecvStream, ('c, 'd) SessionError) res poll.
       poll_accept_uni rd ready (quinn_accept_of st0) = (p, quinn_accept_of (snd (uni ready st0))) \<and>
       poll_outcome of_recv p = poll_outcome (\<lambda>x. x) (fst (uni ready st0))) \<and>
    (\<exists>p :: ('s SendStream \<times> 'r RecvStream, ('c, 'd) SessionError) res poll.
       poll_accept_bi rd ready' (quinn_accept_of st0) = (p, quinn_accept_of (snd (bi ready' st0))) \<and>
       poll_outcome of_pair p = poll_outcome (\<lambda>x. x) (fst (bi ready' st0))) \<and>
    mset delivered + accepted (quion_accepts_uni rd sid) (quion_waiting_uni st) =
      accepted (quion_accepts_uni rd sid) arrived \<and>
    mset delivered' + accepted (quion_accepts_bi rd sid) (quion_waiting_bi st') =
      accepted (quion_accepts_bi rd sid) arrived'"
proof (intro conjI)
  show "\<exists>p :: ('r RecvStream, ('c, 'd) SessionError) res poll.
       poll_accept_uni rd ready (quinn_accept_of st0) = (p, quinn_accept_of (snd (uni ready st0))) \<and>
       poll_outcome of_recv p = poll_outcome (\<lambda>x. x) (fst (uni ready st0))"
    by (rule poll_uni_simulates) (simp add: uni_def)
  show "\<exists>p :: ('s SendStream \<times> 'r RecvStream, ('c, 'd) SessionError) res poll.
       poll_accept_bi rd ready' (quinn_accept_of st0) = (p, quinn_accept_of (snd (bi ready' st0))) \<and>
       poll_outcome of_pair p = poll_outcome (\<lambda>x. x) (fst (bi ready' st0))"
    by (rule poll_bi_simulates) (simp add: bi_def)
  show "mset delivered + accepted (quion_accepts_uni rd sid) (quion_waiting_uni st) =
      accepted (quion_accepts_uni rd sid) arrived"
    using quion_acceptor_uni.run_exactly_once [OF assms(3) [unfolded uni_def]] by simp
  show "mset delivered' + accepted (quion_accepts_bi rd sid) (quion_waiting_bi st') =
      accepted (quion_accepts_bi rd sid) arrived'"
    using quion_acceptor_bi.run_exactly_once [OF assms(4) [unfolded bi_def]] by simp
qed

lemma example_quion_poll:
  "(quion_poll_accept_uni slice_read (first_complete (\<lambda>f. 3 \<le> length f))
      (quion_arrive_uni [0x40, 0x54, 0x00, 7] (quion_arrive_uni [0x40] (quion_SessionAccept_new (VarInt 0))) ::
        (bytes, bytes, unit) quion_SessionAccept) ::
      ((bytes, unit) quion_RecvStream, (unit, unit, unit) quion_SessionError) res poll \<times> _) =
    (Poll_Ready (Ok (quion_RecvStream_new [7])), (quion_SessionAccept_new (VarInt 0))\<lparr>n_pending_uni := [[0x40]]\<rparr>)"
  by code_simp

theorem quion_accept_refines_quinn_witness:
  "mset [quion_RecvStream_new [7] :: (bytes, unit) quion_RecvStream] +
     accepted (quion_accepts_uni slice_read (VarInt 0)) [[0x40]] =
     accepted (quion_accepts_uni slice_read (VarInt 0)) [[0x40], [0x40, 0x54, 0x00, 7]]"
proof -
  let ?uni = "quion_poll_accept_uni slice_read :: _ \<Rightarrow> (bytes, bytes, unit) quion_SessionAccept \<Rightarrow>
      ((bytes, unit) quion_RecvStream, (unit, unit, unit) quion_SessionError) res poll \<times> _"
    and ?st1 = "quion_arrive_uni [0x40, 0x54, 0x00, 7] (quion_arrive_uni [0x40] (quion_SessionAccept_new (VarInt 0))) ::
        (bytes, bytes, unit) quion_SessionAccept"
    and ?st2 = "(quion_SessionAccept_new (VarInt 0))\<lparr>n_pending_uni := [[0x40]]\<rparr> :: (bytes, bytes, unit) quion_SessionAccept"
  have "acceptor_run ?uni quion_arrive_uni (quion_move_uni slice_read) (quion_SessionAccept_new (VarInt 0))
      (([] @ [[0x40]]) @ [[0x40, 0x54, 0x00, 7]]) [] ?st1"
    by (intro acceptor_run.arrive acceptor_run.start)
  from acceptor_run.poll_ok [OF this example_quion_poll]
  have run: "acceptor_run ?uni quion_arrive_uni (quion_move_uni slice_read) (quion_SessionAccept_new (VarInt 0))
      [[0x40], [0x40, 0x54, 0x00, 7]] [quion_RecvStream_new [7]] ?st2" by simp
  have "quion_waiting_uni ?st2 = [[0x40]]"
    by (simp add: quion_waiting_uni_def quinn_accept_of_def waiting_uni_def quion_SessionAccept_new_def List.map_filter_def)
  then show ?thesis
    using quion_accept_refines_quinn [OF run acceptor_run.start] by simp
qed

end
