(* ===== verification/Quion_Session.thy ===== *)
theory Quion_Session
  imports Session Quion_Accept
begin

section \<open>Sessions over Quion\<close>

text \<open>
  \<^verbatim>\<open>Session\<close> of \<^verbatim>\<open>webtrans-quion/src/session.rs\<close>. Its capsule functions and its task on the CONNECT
  stream are copies of the Quinn backend's, and the lemmas show that the copies agree. Beyond those
  a session here remembers why it closed, its task closes the connection however the CONNECT stream
  ends, streams carry the length of their preface for reliable resets, and a raw session has a task
  of its own. The properties are about these, and about a session over one backend whose peer runs
  the other.
\<close>

subsection \<open>Capsules on the CONNECT stream\<close>

definition quion_MAX_CAPSULE_FRAME_SIZE :: nat where "quion_MAX_CAPSULE_FRAME_SIZE = 2 * 1024"

record quion_CloseCommand =
  n_code :: u32
  n_reason :: bytes

definition quion_is_graceful_close :: "CapsuleError \<Rightarrow> bool" where
  "quion_is_graceful_close e =
     (case e of
        CapsuleError_Io ioe \<Rightarrow>
          kind ioe \<in> {UnexpectedEof, BrokenPipe, ConnectionReset, ConnectionAborted, NotConnected} \<or>
          sublist (str ''connection lost'') (to_ascii_lowercase (message ioe))
      | CapsuleError_UnexpectedEnd \<Rightarrow> True
      | _ \<Rightarrow> False)"

definition quion_decode_buffered_capsule :: "bytes \<Rightarrow> (Capsule option \<times> bytes, CapsuleError) res" where
  "quion_decode_buffered_capsule pending =
     (case VarInt_decode pending of
        Err _ \<Rightarrow> Ok (None, pending)
      | Panic \<Rightarrow> Panic
      | Ok (_, cursor) \<Rightarrow>
          (case VarInt_decode cursor of
             Err _ \<Rightarrow> Ok (None, pending)
           | Panic \<Rightarrow> Panic
           | Ok (len, cursor) \<Rightarrow>
               and_then (ok_or CapsuleError_MessageTooLong (usize_try_from (into_inner len))) (\<lambda>len.
                 if len > 1028 then Err CapsuleError_MessageTooLong
                 else
                   let total = (length pending - length cursor) + len in
                   if length pending < total then Ok (None, pending)
                   else and_then (Capsule_decode (take total pending)) (\<lambda>(c, _).
                     Ok (Some c, drop total pending)))))"

fun quion_read_capsule_frame :: "nat \<Rightarrow> 's reader \<Rightarrow> 's \<Rightarrow> bytes \<Rightarrow> (Capsule \<times> 's \<times> bytes, CapsuleError) res option" where
  "quion_read_capsule_frame 0 rd recv pending = None"
| "quion_read_capsule_frame (Suc fuel) rd recv pending =
     (case quion_decode_buffered_capsule pending of
        Err e \<Rightarrow> Some (Err e)
      | Panic \<Rightarrow> Some Panic
      | Ok (Some capsule, pending) \<Rightarrow> Some (Ok (capsule, recv, pending))
      | Ok (None, pending) \<Rightarrow>
          (case read_tlv CapsuleError_UnexpectedEnd CapsuleError_MessageTooLong CapsuleError_Io
              quion_MAX_CAPSULE_FRAME_SIZE rd recv of
             Err e \<Rightarrow> Some (Err e)
           | Panic \<Rightarrow> Some Panic
           | Ok ((typ, payload), recv) \<Rightarrow>
               if Frame_is_grease (Frame typ) then quion_read_capsule_frame fuel rd recv pending
               else if Frame typ \<noteq> Frame_DATA then quion_read_capsule_frame fuel rd recv pending
               else quion_read_capsule_frame fuel rd recv (pending @ payload)))"

definition quion_write_capsule_frame :: "(bytes \<Rightarrow> 's \<Rightarrow> (unit, io_error) res \<times> 's) \<Rightarrow> Capsule \<Rightarrow> 's \<Rightarrow>
    (unit, CapsuleError) res \<times> 's" where
  "quion_write_capsule_frame wr capsule send =
     (case and_then (Capsule_encode capsule []) (\<lambda>payload.
           and_then (Frame_encode Frame_DATA []) (\<lambda>frame.
           and_then (map_err (\<lambda>_. CapsuleError_MessageTooLong) (VarInt_try_from_usize (length payload))) (\<lambda>len.
           and_then (VarInt_encode len frame) (\<lambda>frame. Ok (frame @ payload))))) of
        Err e \<Rightarrow> (Err e, send)
      | Panic \<Rightarrow> (Panic, send)
      | Ok frame \<Rightarrow> (case wr frame send of (r, send) \<Rightarrow> (map_err CapsuleError_Io r, send)))"

function quion_capsule_reason_loop :: "bytes \<Rightarrow> bytes" where
  "quion_capsule_reason_loop r = (if length r > 1024 then quion_capsule_reason_loop (String_pop r) else r)"
  by pat_completeness auto
termination
  by (relation "measure length") (auto intro: String_pop_shorter)

declare quion_capsule_reason_loop.simps [simp del]

definition quion_capsule_reason :: "bytes \<Rightarrow> bytes" where
  "quion_capsule_reason r = quion_capsule_reason_loop (from_utf8_lossy r)"

text \<open>The second copies are the first.\<close>

named_theorems copies \<open>functions of the Quion backend that agree with the Quinn backend's\<close>

lemma quion_graceful [copies]: "quion_is_graceful_close = is_graceful_close"
  by (simp add: fun_eq_iff quion_is_graceful_close_def is_graceful_close_def)

lemma quion_decode_buffered [copies]: "quion_decode_buffered_capsule = decode_buffered_capsule"
  by (simp add: fun_eq_iff quion_decode_buffered_capsule_def decode_buffered_capsule_def)

lemma quion_read_frame [copies]: "quion_read_capsule_frame fuel rd recv p = read_capsule_frame fuel rd recv p"
  by (induction fuel arbitrary: recv p)
    (simp_all add: quion_decode_buffered quion_MAX_CAPSULE_FRAME_SIZE_def MAX_CAPSULE_FRAME_SIZE_def
      split: res.split option.split prod.split)

lemma quion_write_frame [copies]: "quion_write_capsule_frame = write_capsule_frame"
  by (simp add: fun_eq_iff quion_write_capsule_frame_def write_capsule_frame_def)

lemma quion_reason_loop: "quion_capsule_reason_loop r = capsule_reason_loop r"
  by (induction r rule: capsule_reason_loop.induct)
    (subst quion_capsule_reason_loop.simps, subst capsule_reason_loop.simps, simp)

lemma quion_reason [copies]: "quion_capsule_reason = capsule_reason"
  by (simp add: fun_eq_iff quion_capsule_reason_def capsule_reason_def quion_reason_loop)

subsection \<open>The session\<close>

text \<open>
  \<open>n_identity\<close> is the address of the \<^verbatim>\<open>Arc\<close> that identifies the session. The error is behind a mutex
  that all clones share; a poisoned mutex is read all the same.
\<close>

record ('id, 'u, 's, 'r, 'c, 'x, 'd, 'v, 'ch) quion_Session =
  n_identity :: 'id
  n_close_error :: "('c, 'x, 'd) quion_SessionError option"
  n_session_driver :: "'v option"
  n_session_id :: "VarInt option"
  n_accept :: "('s, 'r, 'c) quion_SessionAccept option"
  n_header_uni :: bytes
  n_header_bi :: bytes
  n_header_datagram :: bytes
  n_settings :: "('s, 'r) quion_Settings option"
  n_url :: 'u
  n_close_tx :: "'ch option"

definition quion_Session_with_driver :: "('q, 's, 'r, 'c, 'd) quion_connection \<Rightarrow>
    ('ch, quion_CloseCommand) mpsc \<Rightarrow> 'id \<Rightarrow> ('s, 'r) quion_Settings \<Rightarrow> ('u, 's, 'r) quion_Connect \<Rightarrow> 'v option \<Rightarrow>
    (('id, 'u, 's, 'r, 'c, 'x, 'd, 'v, 'ch) quion_Session \<times> ('s, 'r) closed_task, 'e) res" where
  "quion_Session_with_driver N Ch ident settings connect driver =
     and_then (quion_Connect_session_id N connect) (\<lambda>sid.
     and_then (UniStream_encode UniStream_WEBTRANSPORT []) (\<lambda>header_uni.
     and_then (VarInt_encode sid header_uni) (\<lambda>header_uni.
     and_then (Frame_encode Frame_WEBTRANSPORT []) (\<lambda>header_bi.
     and_then (VarInt_encode sid header_bi) (\<lambda>header_bi.
     and_then (VarInt_encode sid []) (\<lambda>header_datagram.
       Ok (\<lparr>n_identity = ident, n_close_error = None, n_session_driver = driver, n_session_id = Some sid,
            n_accept = Some (quion_SessionAccept_new sid), n_header_uni = header_uni, n_header_bi = header_bi,
            n_header_datagram = header_datagram, n_settings = Some settings, n_url = quion_Connect_url connect,
            n_close_tx = Some (Ch_channel Ch 1)\<rparr>,
           \<lparr>task_send = fst (quion_Connect_into_inner connect),
            task_recv = snd (quion_Connect_into_inner connect), pending_capsules = []\<rparr>)))))))"

definition quion_Session_new :: "('q, 's, 'r, 'c, 'd) quion_connection \<Rightarrow>
    ('ch, quion_CloseCommand) mpsc \<Rightarrow> 'id \<Rightarrow> ('s, 'r) quion_Settings \<Rightarrow> ('u, 's, 'r) quion_Connect \<Rightarrow>
    (('id, 'u, 's, 'r, 'c, 'x, 'd, 'v, 'ch) quion_Session \<times> ('s, 'r) closed_task, 'e) res" where
  "quion_Session_new N Ch ident settings connect = quion_Session_with_driver N Ch ident settings connect None"

definition quion_Session_raw :: "('ch, quion_CloseCommand) mpsc \<Rightarrow> 'id \<Rightarrow> 'u \<Rightarrow>
    ('id, 'u, 's, 'r, 'c, 'x, 'd, 'v, 'ch) quion_Session" where
  "quion_Session_raw Ch ident url =
     \<lparr>n_identity = ident, n_close_error = None, n_session_driver = None, n_session_id = None, n_accept = None,
      n_header_uni = [], n_header_bi = [], n_header_datagram = [], n_settings = None, n_url = url,
      n_close_tx = Some (Ch_channel Ch 1)\<rparr>"

definition quion_Session_eq :: "('id, 'u, 's, 'r, 'c, 'x, 'd, 'v, 'ch) quion_Session \<Rightarrow>
    ('id, 'u, 's, 'r, 'c, 'x, 'd, 'v, 'ch) quion_Session \<Rightarrow> bool" where
  "quion_Session_eq self other \<longleftrightarrow> n_identity self = n_identity other"

subsection \<open>The task on the CONNECT stream\<close>

definition connection_close_reason :: "('q, 's, 'r, 'c, 'd) quion_connection \<Rightarrow> 'q \<Rightarrow>
    'c quion_ConnectionError option" where
  "connection_close_reason N q = (if NC_is_closed N q then NC_closed_now N q else None)"

definition quion_close_connection :: "('q, 's, 'r, 'c, 'd) quion_connection \<Rightarrow> u32 \<Rightarrow> bytes \<Rightarrow> 'q \<Rightarrow> 'q" where
  "quion_close_connection N code why q =
     (let mapped = error_to_http3 code;
          code = (case NC_VarInt_new N mapped of Ok c \<Rightarrow> c | _ \<Rightarrow> 1)
      in NC_close N code why q)"

definition quion_run_closed_capsule :: "(Capsule \<times> 'r \<times> bytes, CapsuleError) res \<Rightarrow> ('s, 'r) closed_task \<Rightarrow>
    ('s, 'r) loop_control" where
  "quion_run_closed_capsule r task =
     (case r of
        Ok (CloseWebTransportSession code why, recv, pending) \<Rightarrow>
          Loop_return (Ok (Some (code, why))) (task\<lparr>task_recv := recv, pending_capsules := pending\<rparr>)
      | Ok (Unknown _ _, recv, pending) \<Rightarrow>
          Loop_continue (task\<lparr>task_recv := recv, pending_capsules := pending\<rparr>)
      | Err e \<Rightarrow>
          if quion_is_graceful_close e then Loop_return (Ok None) task else Loop_return (Err e) task
      | Panic \<Rightarrow> Loop_return Panic task)"

text \<open>The block under the deadline of five seconds.\<close>

definition quion_submit_close :: "('q, 's, 'r, 'c, 'd) quion_connection \<Rightarrow> ('s, 'c, 'x, 'i) quion_send \<Rightarrow>
    Capsule \<Rightarrow> 's \<Rightarrow> (unit, CapsuleError) res \<times> 's" where
  "quion_submit_close N S capsule send =
     (case quion_write_capsule_frame (NC_write_all N) capsule send of
        (Err e, send) \<Rightarrow> (Err e, send)
      | (Panic, send) \<Rightarrow> (Panic, send)
      | (Ok _, send) \<Rightarrow>
          (case N_finish S send of
             (Panic, send) \<Rightarrow> (Panic, send)
           | (_, send) \<Rightarrow> (case N_stopped S send of (r, send) \<Rightarrow> (ok r, send))))"

definition quion_run_closed_close :: "('q, 's, 'r, 'c, 'd) quion_connection \<Rightarrow> ('s, 'c, 'x, 'i) quion_send \<Rightarrow>
    quion_CloseCommand option \<Rightarrow> 's option \<Rightarrow> ('s, 'r) closed_task \<Rightarrow> ('s, 'r) loop_control" where
  "quion_run_closed_close N S close elapsed task =
     (case close of
        None \<Rightarrow> Loop_return (Ok (Some (0, str ''last session handle dropped''))) task
      | Some close \<Rightarrow>
          let capsule = CloseWebTransportSession (n_code close) (quion_capsule_reason (n_reason close));
              finished = Ok (Some (n_code close, quion_capsule_reason (n_reason close)))
          in case elapsed of
               Some send \<Rightarrow> Loop_return finished (task\<lparr>task_send := send\<rparr>)
             | None \<Rightarrow>
                 (case quion_submit_close N S capsule (task_send task) of
                    (Panic, send) \<Rightarrow> Loop_return Panic (task\<lparr>task_send := send\<rparr>)
                  | (_, send) \<Rightarrow> Loop_return finished (task\<lparr>task_send := send\<rparr>)))"

text \<open>\<^verbatim>\<open>run_closed\<close> along the arms that \<^verbatim>\<open>select!\<close> takes; \<^const>\<open>None\<close> while it has not returned.\<close>

datatype 's quion_select_arm = N_Arm_capsule | N_Arm_close "quion_CloseCommand option" "'s option"

fun quion_run_closed :: "('q, 's, 'r, 'c, 'd) quion_connection \<Rightarrow> ('s, 'c, 'x, 'i) quion_send \<Rightarrow> nat \<Rightarrow>
    's quion_select_arm list \<Rightarrow> ('s, 'r) closed_task \<Rightarrow>
    (((u32 \<times> bytes) option, CapsuleError) res \<times> ('s, 'r) closed_task) option" where
  "quion_run_closed N S fuel [] task = None"
| "quion_run_closed N S fuel (arm # arms) task =
     (case (case arm of
              N_Arm_capsule \<Rightarrow> map_option (\<lambda>r. quion_run_closed_capsule r task)
                (quion_read_capsule_frame fuel (NC_read_exact N) (task_recv task) (pending_capsules task))
            | N_Arm_close close elapsed \<Rightarrow> Some (quion_run_closed_close N S close elapsed task)) of
        None \<Rightarrow> None
      | Some (Loop_return result task) \<Rightarrow> Some (result, task)
      | Some (Loop_continue task) \<Rightarrow> quion_run_closed N S fuel arms task)"

text \<open>
  The rest of the spawned task: the error it records and the connection it leaves. The waiters of
  \<^verbatim>\<open>closed\<close> are notified after it. A panic of \<^verbatim>\<open>run_closed\<close> ends the task.
\<close>

definition quion_task_finish :: "('q, 's, 'r, 'c, 'd) quion_connection \<Rightarrow>
    ((u32 \<times> bytes) option, CapsuleError) res \<Rightarrow> ('c, 'x, 'd) quion_SessionError option \<times> 'q \<Rightarrow>
    ('c, 'x, 'd) quion_SessionError option \<times> 'q" where
  "quion_task_finish N result st =
     (if result = Panic then st
      else
        let (close_error, q) =
              (case result of
                 Ok (Some (code, why)) \<Rightarrow>
                   (Some (NSE_WebTransportError (NWT_Closed code why)),
                    if connection_close_reason N (snd st) = None
                    then quion_close_connection N code why (snd st) else snd st)
               | Ok None \<Rightarrow> st
               | Err e \<Rightarrow>
                   if quion_is_graceful_close e then st
                   else (fst st,
                     if connection_close_reason N (snd st) = None
                     then quion_close_connection N 1 (str ''capsule error'') (snd st) else snd st)
               | Panic \<Rightarrow> st);
            q = (if \<not> NC_is_closed N q then quion_close_connection N 0 (str ''CONNECT stream ended'') q else q)
        in (case close_error of
              None \<Rightarrow> map_option quion_SessionError_from (connection_close_reason N q)
            | Some e \<Rightarrow> Some e, q))"

text \<open>The task of a raw session, on either arm of its \<^verbatim>\<open>select!\<close>.\<close>

datatype raw_arm = Raw_closed | Raw_command "quion_CloseCommand option"

definition quion_raw_task :: "('q, 's, 'r, 'c, 'd) quion_connection \<Rightarrow> raw_arm \<Rightarrow> 'q \<Rightarrow>
    ('c, 'x, 'd) quion_SessionError option \<times> 'q" where
  "quion_raw_task N arm q =
     (case (case arm of
              Raw_closed \<Rightarrow> NC_closed N q
            | Raw_command command \<Rightarrow>
                let command = (case command of
                      Some c \<Rightarrow> c
                    | None \<Rightarrow> \<lparr>n_code = 0, n_reason = str ''last session handle dropped''\<rparr>)
                in NC_closed N (NC_close N (ucast (n_code command)) (n_reason command) q)) of
        (why, q) \<Rightarrow> (Some (quion_SessionError_from why), q))"

subsection \<open>Operations\<close>

definition quion_Session_accept_uni :: "('q, 's, 'r, 'c, 'd) quion_connection \<Rightarrow> ('r list \<Rightarrow> nat option) \<Rightarrow>
    ('id, 'u, 's, 'r, 'c, 'x, 'd, 'v, 'ch) quion_Session \<Rightarrow> 'q \<Rightarrow>
    (('r, 'v) quion_RecvStream, ('c, 'x, 'd) quion_SessionError) res poll \<times>
      ('id, 'u, 's, 'r, 'c, 'x, 'd, 'v, 'ch) quion_Session \<times> 'q" where
  "quion_Session_accept_uni N ready self q =
     (case n_accept self of
        Some acc \<Rightarrow>
          (case quion_poll_accept_uni (NC_read_exact N) ready acc of
             (Poll_Ready r, acc) \<Rightarrow>
               (Poll_Ready (map_ok (\<lambda>recv. quion_RecvStream_with_driver recv (n_session_driver self)) r),
                self\<lparr>n_accept := Some acc\<rparr>, q)
           | (Poll_Pending, acc) \<Rightarrow> (Poll_Pending, self\<lparr>n_accept := Some acc\<rparr>, q))
      | None \<Rightarrow>
          (case NC_accept_uni N q of
             (r, q) \<Rightarrow> (Poll_Ready (map_err quion_SessionError_from (map_ok quion_RecvStream_new r)), self, q)))"

definition quion_Session_accept_bi :: "('q, 's, 'r, 'c, 'd) quion_connection \<Rightarrow> (('s \<times> 'r) list \<Rightarrow> nat option) \<Rightarrow>
    ('id, 'u, 's, 'r, 'c, 'x, 'd, 'v, 'ch) quion_Session \<Rightarrow> 'q \<Rightarrow>
    (('s, 'v) quion_SendStream \<times> ('r, 'v) quion_RecvStream, ('c, 'x, 'd) quion_SessionError) res poll \<times>
      ('id, 'u, 's, 'r, 'c, 'x, 'd, 'v, 'ch) quion_Session \<times> 'q" where
  "quion_Session_accept_bi N ready self q =
     (case n_accept self of
        Some acc \<Rightarrow>
          (case quion_poll_accept_bi (NC_read_exact N) ready acc of
             (Poll_Ready r, acc) \<Rightarrow>
               (Poll_Ready (map_ok (\<lambda>(send, recv). (quion_SendStream_with_driver send (n_session_driver self),
                  quion_RecvStream_with_driver recv (n_session_driver self))) r),
                self\<lparr>n_accept := Some acc\<rparr>, q)
           | (Poll_Pending, acc) \<Rightarrow> (Poll_Pending, self\<lparr>n_accept := Some acc\<rparr>, q))
      | None \<Rightarrow>
          (case NC_accept_bi N q of
             (r, q) \<Rightarrow> (Poll_Ready (map_err quion_SessionError_from
               (map_ok (\<lambda>(send, recv). (quion_SendStream_new send, quion_RecvStream_new recv)) r)), self, q)))"

definition quion_write_full :: "('s, 'c, 'x, 'i) quion_send \<Rightarrow> 's \<Rightarrow> bytes \<Rightarrow>
    ('s, ('c, 'x, 'd) quion_SessionError) res" where
  "quion_write_full S send buf =
     (case N_write_all S buf send of
        (Ok _, send) \<Rightarrow> Ok send
      | (Err (NW_ConnectionLost err), _) \<Rightarrow> Err (quion_SessionError_from err)
      | (Err err, _) \<Rightarrow> Err (NSE_WebTransportError (NWT_WriteError err))
      | (Panic, _) \<Rightarrow> Panic)"

definition reset_stream_at_negotiated :: "('q, 's, 'r, 'c, 'd) quion_connection \<Rightarrow> 'q \<Rightarrow> bool" where
  "reset_stream_at_negotiated N q = (case NC_negotiated N q of Some transport \<Rightarrow> transport | None \<Rightarrow> False)"

definition quion_Session_open_uni :: "('q, 's, 'r, 'c, 'd) quion_connection \<Rightarrow> ('s, 'c, 'x, 'i) quion_send \<Rightarrow>
    ('id, 'u, 's, 'r, 'c, 'x, 'd, 'v, 'ch) quion_Session \<Rightarrow> 'q \<Rightarrow>
    (('s, 'v) quion_SendStream, ('c, 'x, 'd) quion_SessionError) res \<times> 'q" where
  "quion_Session_open_uni N S self q =
     (case NC_open_uni N q of
        (r, q) \<Rightarrow> (and_then (map_err quion_SessionError_from r) (\<lambda>send.
          and_then (quion_write_full S send (n_header_uni self)) (\<lambda>send.
            Ok (quion_SendStream_with_driver (with_reliable_prefix send (length (n_header_uni self))
              (reset_stream_at_negotiated N q)) (n_session_driver self)))), q))"

definition quion_Session_open_bi :: "('q, 's, 'r, 'c, 'd) quion_connection \<Rightarrow> ('s, 'c, 'x, 'i) quion_send \<Rightarrow>
    ('id, 'u, 's, 'r, 'c, 'x, 'd, 'v, 'ch) quion_Session \<Rightarrow> 'q \<Rightarrow>
    (('s, 'v) quion_SendStream \<times> ('r, 'v) quion_RecvStream, ('c, 'x, 'd) quion_SessionError) res \<times> 'q" where
  "quion_Session_open_bi N S self q =
     (case NC_open_bi N q of
        (r, q) \<Rightarrow> (and_then (map_err quion_SessionError_from r) (\<lambda>(send, recv).
          and_then (quion_write_full S send (n_header_bi self)) (\<lambda>send.
            Ok (quion_SendStream_with_driver (with_reliable_prefix send (length (n_header_bi self))
                  (reset_stream_at_negotiated N q)) (n_session_driver self),
                quion_RecvStream_with_driver (quion_RecvStream_new recv) (n_session_driver self)))), q))"

definition quion_Session_read_datagram :: "('q, 's, 'r, 'c, 'd) quion_connection \<Rightarrow>
    ('id, 'u, 's, 'r, 'c, 'x, 'd, 'v, 'ch) quion_Session \<Rightarrow> 'q \<Rightarrow>
    (bytes, ('c, 'x, 'd) quion_SessionError) res \<times> 'q" where
  "quion_Session_read_datagram N self q =
     (case NC_read_datagram_bytes N q of
        (r, q) \<Rightarrow> (and_then (map_err quion_SessionError_from r) (\<lambda>datagram.
          and_then
            (case n_session_id self of
               Some sid \<Rightarrow>
                 and_then (map_err (\<lambda>_. NSE_WebTransportError NWT_UnknownSession) (VarInt_decode datagram))
                   (\<lambda>(actual_id, rest).
                      if actual_id \<noteq> sid then Err (NSE_WebTransportError NWT_UnknownSession)
                      else Ok (length datagram - length rest))
             | None \<Rightarrow> Ok 0)
            (\<lambda>position. Ok (drop position datagram))), q))"

definition quion_Session_send_datagram :: "('q, 's, 'r, 'c, 'd) quion_connection \<Rightarrow>
    ('id, 'u, 's, 'r, 'c, 'x, 'd, 'v, 'ch) quion_Session \<Rightarrow> bytes \<Rightarrow> 'q \<Rightarrow>
    (unit, ('c, 'x, 'd) quion_SessionError) res \<times> 'q" where
  "quion_Session_send_datagram N self payload q =
     (if n_header_datagram self \<noteq> [] then
        (case NC_send_datagram_bytes N (n_header_datagram self @ payload) q of
           (r, q) \<Rightarrow> (map_err NSE_SendDatagramError r, q))
      else
        (case NC_send_datagram_bytes N payload q of (r, q) \<Rightarrow> (map_err NSE_SendDatagramError r, q)))"

definition quion_Session_max_datagram_size :: "('q, 's, 'r, 'c, 'd) quion_connection \<Rightarrow>
    ('id, 'u, 's, 'r, 'c, 'x, 'd, 'v, 'ch) quion_Session \<Rightarrow> 'q \<Rightarrow> nat" where
  "quion_Session_max_datagram_size N self q =
     (let mtu = (case NC_max_datagram_size N q of Some m \<Rightarrow> m | None \<Rightarrow> 0)
      in mtu - length (n_header_datagram self))"

definition quion_Session_close :: "('q, 's, 'r, 'c, 'd) quion_connection \<Rightarrow> ('ch, quion_CloseCommand) mpsc \<Rightarrow>
    ('id, 'u, 's, 'r, 'c, 'x, 'd, 'v, 'ch) quion_Session \<Rightarrow> u32 \<Rightarrow> bytes \<Rightarrow> 'q \<Rightarrow>
    ('id, 'u, 's, 'r, 'c, 'x, 'd, 'v, 'ch) quion_Session \<times> 'q" where
  "quion_Session_close N Ch self code why q =
     (if n_session_id self = None then (self, NC_close N (ucast code) why q)
      else
        let direct = (if n_session_id self \<noteq> None then quion_close_connection N code why q
                      else NC_close N (ucast code) why q)
        in case n_close_tx self of
             None \<Rightarrow> (self, direct)
           | Some ch \<Rightarrow>
               let r = quion_capsule_reason (take (min (length why) 1024) why) in
               case Ch_try_send Ch \<lparr>n_code = code, n_reason = r\<rparr> ch of
                 (Err (TrySend_Closed _), ch) \<Rightarrow> (self\<lparr>n_close_tx := Some ch\<rparr>, direct)
               | (_, ch) \<Rightarrow> (self\<lparr>n_close_tx := Some ch\<rparr>, q))"

definition quion_Session_close_reason :: "('q, 's, 'r, 'c, 'd) quion_connection \<Rightarrow>
    ('id, 'u, 's, 'r, 'c, 'x, 'd, 'v, 'ch) quion_Session \<Rightarrow> 'q \<Rightarrow> ('c, 'x, 'd) quion_SessionError option" where
  "quion_Session_close_reason N self q =
     (case n_close_error self of
        Some e \<Rightarrow> Some e
      | None \<Rightarrow> map_option quion_SessionError_from (connection_close_reason N q))"

text \<open>
  \<^verbatim>\<open>closed\<close> looks at the session when it is called and after every notification: the list holds what
  it finds there.
\<close>

fun quion_Session_closed :: "('q, 's, 'r, 'c, 'd) quion_connection \<Rightarrow>
    (('id, 'u, 's, 'r, 'c, 'x, 'd, 'v, 'ch) quion_Session \<times> 'q) list \<Rightarrow> ('c, 'x, 'd) quion_SessionError option" where
  "quion_Session_closed N [] = None"
| "quion_Session_closed N ((self, q) # wakeups) =
     (case quion_Session_close_reason N self q of
        Some e \<Rightarrow> Some e
      | None \<Rightarrow> quion_Session_closed N wakeups)"

subsection \<open>What the code relies on in Quion\<close>

text \<open>
  Reading, writing and identifiers are as over Quinn, and the streams that the code asks have an
  identifier. A connection that was closed stays closed and reports why.
\<close>

definition quion_connection_laws :: "('q, 's, 'r, 'c, 'd) quion_connection \<Rightarrow> ('s \<Rightarrow> bytes) \<Rightarrow> ('r \<Rightarrow> bytes) \<Rightarrow> bool" where
  "quion_connection_laws N sent content \<longleftrightarrow>
     quinn_connection_laws (quinn_of N) sent content \<and> (\<forall>s. NC_stream_id N s \<noteq> None)"

definition quion_lifetime_laws :: "('q, 's, 'r, 'c, 'd) quion_connection \<Rightarrow> bool" where
  "quion_lifetime_laws N \<longleftrightarrow>
     (\<forall>c why q. NC_is_closed N (NC_close N c why q)) \<and>
     (\<forall>q. NC_is_closed N q \<longrightarrow> NC_closed_now N q \<noteq> None) \<and>
     (\<forall>q. NC_closed_now N (snd (NC_closed N q)) = Some (fst (NC_closed N q)) \<and> NC_is_closed N (snd (NC_closed N q)))"

lemma quion_laws_quinn: "quion_connection_laws N sent content \<Longrightarrow> quinn_connection_laws (quinn_of N) sent content"
  by (simp add: quion_connection_laws_def)

lemma quion_reads: "quion_connection_laws N sent content \<Longrightarrow> reads_exactly (NC_read_exact N) content"
  using quinn_reads [OF quion_laws_quinn] by fastforce

lemma quion_session_id_ok:
  assumes "quion_connection_laws N sent content" and "NC_stream_id N (n_connect_send connect) = Some i"
  shows "quion_Connect_session_id N connect = Ok (VarInt i)" and "varint_ok (VarInt i)"
proof -
  have "unat (QC_stream_id (quinn_of N) (n_connect_send connect)) < 2 ^ 62"
    using quion_laws_quinn [OF assms(1)] unfolding quinn_connection_laws_def by blast
  then have b: "unat i < 2 ^ 62" using assms(2) by simp
  then show "varint_ok (VarInt i)" by (simp add: varint_ok_def)
  show "quion_Connect_session_id N connect = Ok (VarInt i)"
    using b assms(2) by (simp add: quion_Connect_session_id_def VarInt_from_u64_def VarInt_MAX_def word_le_nat_alt)
qed

subsection \<open>The session that the handshake yields\<close>

lemma quion_Session_with_driver_ok:
  assumes "quion_connection_laws N sent content" and "NC_stream_id N (n_connect_send connect) = Some i"
  shows "quion_Session_with_driver N Ch ident settings connect driver =
    Ok (\<lparr>n_identity = ident, n_close_error = None, n_session_driver = driver, n_session_id = Some (VarInt i),
         n_accept = Some (quion_SessionAccept_new (VarInt i)),
         n_header_uni = varint_wire (stream_type UniStream_WEBTRANSPORT) @ varint_wire (VarInt i),
         n_header_bi = varint_wire (frame_type Frame_WEBTRANSPORT) @ varint_wire (VarInt i),
         n_header_datagram = varint_wire (VarInt i), n_settings = Some settings,
         n_url = quion_Connect_url connect, n_close_tx = Some (Ch_channel Ch 1)\<rparr>,
        \<lparr>task_send = n_connect_send connect, task_recv = n_connect_recv connect, pending_capsules = []\<rparr>)"
  using quion_session_id_ok [OF assms]
  by (simp add: quion_Session_with_driver_def UniStream_encode_def Frame_encode_def varint.enc_wire
      quion_Connect_into_inner_def)

text \<open>
  The representation of a session: the three headers, the accepting machine and the identifier
  belong together, and a raw session has none of them.
\<close>

definition quion_session_ok :: "('id, 'u, 's, 'r, 'c, 'x, 'd, 'v, 'ch) quion_Session \<Rightarrow> bool" where
  "quion_session_ok self \<longleftrightarrow> n_close_tx self \<noteq> None \<and>
     (case n_session_id self of
        Some sid \<Rightarrow> varint_ok sid \<and>
          n_header_uni self = varint_wire (stream_type UniStream_WEBTRANSPORT) @ varint_wire sid \<and>
          n_header_bi self = varint_wire (frame_type Frame_WEBTRANSPORT) @ varint_wire sid \<and>
          n_header_datagram self = varint_wire sid \<and> n_settings self \<noteq> None \<and>
          (\<exists>acc. n_accept self = Some acc \<and> n_accept_session_id acc = sid)
      | None \<Rightarrow> n_header_uni self = [] \<and> n_header_bi self = [] \<and> n_header_datagram self = [] \<and>
          n_settings self = None \<and> n_accept self = None \<and> n_session_driver self = None)"

lemma quion_session_ok_update [simp]:
  "quion_session_ok (self\<lparr>n_close_error := e\<rparr>) = quion_session_ok self"
  "quion_session_ok self \<Longrightarrow> quion_session_ok (self\<lparr>n_close_tx := Some ch\<rparr>)"
  by (cases "n_session_id self"; simp add: quion_session_ok_def)+

lemma quion_session_ok_accept:
  assumes "quion_session_ok self" and "n_accept self = Some acc" and "n_accept_session_id acc' = n_accept_session_id acc"
  shows "quion_session_ok (self\<lparr>n_accept := Some acc'\<rparr>)"
  using assms by (auto simp: quion_session_ok_def split: option.splits)

lemma quion_accept_ok:
  fixes self :: "('id, 'u, 's, 'r, 'c, 'x, 'd, 'v, 'ch) quion_Session"
  assumes "quion_session_ok self"
  shows "quion_session_ok (fst (snd (quion_Session_accept_uni N ready self q)))"
    and "quion_session_ok (fst (snd (quion_Session_accept_bi N ready' self q)))"
proof -
  show "quion_session_ok (fst (snd (quion_Session_accept_uni N ready self q)))"
  proof (cases "n_accept self")
    case None
    then show ?thesis using assms by (simp add: quion_Session_accept_uni_def split_def)
  next
    case (Some acc)
    obtain p :: "(('r, 'v) quion_RecvStream, ('c, 'x, 'd) quion_SessionError) res poll" and acc' where
        p: "quion_poll_accept_uni (NC_read_exact N) ready acc = (p, acc')" by (metis prod.exhaust)
    show ?thesis
      using quion_session_ok_accept [OF assms Some quion_poll_uni_conserves(1) [OF p]] Some p
      by (cases p) (simp_all add: quion_Session_accept_uni_def)
  qed
  show "quion_session_ok (fst (snd (quion_Session_accept_bi N ready' self q)))"
  proof (cases "n_accept self")
    case None
    then show ?thesis using assms by (simp add: quion_Session_accept_bi_def split_def)
  next
    case (Some acc)
    obtain p :: "(('s, 'v) quion_SendStream \<times> ('r, 'v) quion_RecvStream, ('c, 'x, 'd) quion_SessionError) res poll"
      and acc' where p: "quion_poll_accept_bi (NC_read_exact N) ready' acc = (p, acc')" by (metis prod.exhaust)
    show ?thesis
      using quion_session_ok_accept [OF assms Some quion_poll_bi_conserves(1) [OF p]] Some p
      by (cases p) (simp_all add: quion_Session_accept_bi_def)
  qed
qed

lemma quion_close_ok: "quion_session_ok self \<Longrightarrow> quion_session_ok (fst (quion_Session_close N Ch self code why q))"
  by (auto simp: quion_Session_close_def Let_def split: option.split res.split TrySendError.split prod.split)

text \<open>Every stream that a session hands out keeps the driver of the session alive.\<close>

lemma with_driver_sel [simp]:
  "n_driver (quion_SendStream_with_driver s v) = v" "n_stream (quion_SendStream_with_driver s v) = n_stream s"
  "reliable_prefix (quion_SendStream_with_driver s v) = reliable_prefix s"
  "n_recv_driver (quion_RecvStream_with_driver r v) = v" "n_inner (quion_RecvStream_with_driver r v) = n_inner r"
  "n_driver (quion_SendStream_new u) = None" "n_recv_driver (quion_RecvStream_new w) = None"
  by (simp_all add: quion_SendStream_with_driver_def quion_RecvStream_with_driver_def quion_SendStream_new_def
      quion_RecvStream_new_def)

lemma quion_accepted_driver:
  assumes "quion_session_ok self"
  shows "fst (quion_Session_accept_uni N ready self q) = Poll_Ready (Ok r) \<Longrightarrow> n_recv_driver r = n_session_driver self"
    and "fst (quion_Session_accept_bi N ready' self q) = Poll_Ready (Ok (s, r')) \<Longrightarrow>
      n_driver s = n_session_driver self \<and> n_recv_driver r' = n_session_driver self"
proof -
  have raw: "n_session_driver self = None" if "n_accept self = None"
    using assms that by (auto simp: quion_session_ok_def split: option.splits)
  show "n_recv_driver r = n_session_driver self"
    if "fst (quion_Session_accept_uni N ready self q) = Poll_Ready (Ok r)"
    using that raw
    by (cases "n_accept self") (auto simp: quion_Session_accept_uni_def split: prod.splits poll.splits)
  show "n_driver s = n_session_driver self \<and> n_recv_driver r' = n_session_driver self"
    if "fst (quion_Session_accept_bi N ready' self q) = Poll_Ready (Ok (s, r'))"
    using that raw
    by (cases "n_accept self") (auto simp: quion_Session_accept_bi_def split: prod.splits poll.splits)
qed

lemma quion_opened_driver:
  "fst (quion_Session_open_uni N S self q) = Ok s \<Longrightarrow> n_driver s = n_session_driver self"
  "fst (quion_Session_open_bi N S self q) = Ok (s, r) \<Longrightarrow> n_driver s = n_session_driver self \<and> n_recv_driver r = n_session_driver self"
  by (auto simp: quion_Session_open_uni_def quion_Session_open_bi_def and_then_Ok_iff split: prod.splits)

text \<open>What changes a session during its life: accepting, closing, and the end of the task, which records the error.\<close>

inductive quion_session_use :: "('q, 's, 'r, 'c, 'd) quion_connection \<Rightarrow> ('ch, quion_CloseCommand) mpsc \<Rightarrow>
    ('id, 'u, 's, 'r, 'c, 'x, 'd, 'v, 'ch) quion_Session \<Rightarrow> ('id, 'u, 's, 'r, 'c, 'x, 'd, 'v, 'ch) quion_Session \<Rightarrow> bool"
  for N Ch where
  accept_uni: "quion_session_use N Ch self (fst (snd (quion_Session_accept_uni N ready self q)))"
| accept_bi: "quion_session_use N Ch self (fst (snd (quion_Session_accept_bi N ready' self q)))"
| close: "quion_session_use N Ch self (fst (quion_Session_close N Ch self code why q))"
| task_end: "quion_task_finish N result (n_close_error self, q) = (err, q') \<Longrightarrow>
    quion_session_use N Ch self (self\<lparr>n_close_error := err\<rparr>)"

lemma quion_accept_keeps:
  "n_session_id (fst (snd (quion_Session_accept_uni N ready self q))) = n_session_id self"
  "n_session_driver (fst (snd (quion_Session_accept_uni N ready self q))) = n_session_driver self"
  "n_session_id (fst (snd (quion_Session_accept_bi N ready' self q))) = n_session_id self"
  "n_session_driver (fst (snd (quion_Session_accept_bi N ready' self q))) = n_session_driver self"
  by (cases "n_accept self"; simp add: quion_Session_accept_uni_def quion_Session_accept_bi_def split_def split: poll.split)+

lemma quion_close_same:
  "n_session_id (fst (quion_Session_close N Ch self code why q)) = n_session_id self"
  "n_session_driver (fst (quion_Session_close N Ch self code why q)) = n_session_driver self"
  by (auto simp: quion_Session_close_def Let_def split: option.split res.split TrySendError.split prod.split)

lemma quion_session_uses:
  assumes "rtranclp (quion_session_use N Ch) new self" and "quion_session_ok new"
  shows "quion_session_ok self \<and> n_session_id self = n_session_id new \<and> n_session_driver self = n_session_driver new"
  using assms(1)
proof induction
  case (step s1 s2)
  from step.hyps(2) step.IH show ?case
    by cases (simp_all add: quion_accept_ok quion_close_ok quion_accept_keeps quion_close_same)
qed (simp add: assms(2))

subsection \<open>Headers and reliable resets\<close>

lemma quion_write_full_Ok:
  assumes "quion_send_laws S sent kept"
    and "quion_write_full S s bs = (Ok s' :: (_, ('c, 'x, 'd) quion_SessionError) res)"
  shows "sent s' = sent s @ bs"
proof -
  have "case N_write_all S bs s of
         (Ok _, s') \<Rightarrow> sent s' = sent s @ bs | (Err _, s') \<Rightarrow> (\<exists>n. sent s' = sent s @ take n bs) | (Panic, _) \<Rightarrow> False"
    using assms(1) by (simp add: quion_send_laws_def)
  then show ?thesis
    using assms(2) by (auto simp: quion_write_full_def split: prod.splits res.splits quion_WriteError.splits)
qed

lemma quion_open_uni_header:
  fixes N :: "('q, 's, 'r, 'c, 'd) quion_connection" and S :: "('s, 'c, 'x, 'i) quion_send"
  assumes "quion_send_laws S sent kept" and "quion_Session_open_uni N S self q = (Ok s, q')"
    and "NC_open_uni N q = (Ok s0, q1)" and "sent s0 = []"
  shows "sent (n_stream s) = n_header_uni self" and "q' = q1" and "n_driver s = n_session_driver self"
    and "reliable_prefix s = (if reset_stream_at_negotiated N q1
      then Some (ucast (of_nat (length (n_header_uni self)) :: u32)) else None)"
proof -
  have q: "q' = q1" using assms(2,3) by (simp add: quion_Session_open_uni_def)
  have "and_then (quion_write_full S s0 (n_header_uni self) :: (_, ('c, 'x, 'd) quion_SessionError) res)
      (\<lambda>send. Ok (quion_SendStream_with_driver (with_reliable_prefix send (length (n_header_uni self))
         (reset_stream_at_negotiated N q1)) (n_session_driver self))) = Ok s"
    using assms(2) unfolding q quion_Session_open_uni_def assms(3) by simp
  then obtain s1 where s1: "quion_write_full S s0 (n_header_uni self) = (Ok s1 :: (_, ('c, 'x, 'd) quion_SessionError) res)"
      "s = quion_SendStream_with_driver (with_reliable_prefix s1 (length (n_header_uni self))
        (reset_stream_at_negotiated N q1)) (n_session_driver self)"
    by (cases "quion_write_full S s0 (n_header_uni self) :: (_, ('c, 'x, 'd) quion_SessionError) res") simp_all
  show "sent (n_stream s) = n_header_uni self"
    using quion_write_full_Ok [OF assms(1) s1(1)] assms(4) s1(2) by (simp add: with_reliable_prefix_def)
  show "q' = q1" "n_driver s = n_session_driver self" "reliable_prefix s = (if reset_stream_at_negotiated N q1
      then Some (ucast (of_nat (length (n_header_uni self)) :: u32)) else None)"
    using q s1(2) by (simp_all add: with_reliable_prefix_def)
qed

lemma quion_open_bi_header:
  fixes N :: "('q, 's, 'r, 'c, 'd) quion_connection" and S :: "('s, 'c, 'x, 'i) quion_send"
  assumes "quion_send_laws S sent kept" and "quion_Session_open_bi N S self q = (Ok (s, r), q')"
    and "NC_open_bi N q = (Ok (s0, r0), q1)" and "sent s0 = []"
  shows "sent (n_stream s) = n_header_bi self" and "q' = q1" and "n_driver s = n_session_driver self"
    and "n_inner r = r0" and "n_recv_driver r = n_session_driver self"
    and "reliable_prefix s = (if reset_stream_at_negotiated N q1
      then Some (ucast (of_nat (length (n_header_bi self)) :: u32)) else None)"
proof -
  have q: "q' = q1" using assms(2,3) by (simp add: quion_Session_open_bi_def)
  have "and_then (quion_write_full S s0 (n_header_bi self) :: (_, ('c, 'x, 'd) quion_SessionError) res)
      (\<lambda>send. Ok (quion_SendStream_with_driver (with_reliable_prefix send (length (n_header_bi self))
         (reset_stream_at_negotiated N q1)) (n_session_driver self),
                quion_RecvStream_with_driver (quion_RecvStream_new r0) (n_session_driver self))) = Ok (s, r)"
    using assms(2) unfolding q quion_Session_open_bi_def assms(3) by simp
  then obtain s1 where s1: "quion_write_full S s0 (n_header_bi self) = (Ok s1 :: (_, ('c, 'x, 'd) quion_SessionError) res)"
      "s = quion_SendStream_with_driver (with_reliable_prefix s1 (length (n_header_bi self))
        (reset_stream_at_negotiated N q1)) (n_session_driver self)"
      "r = quion_RecvStream_with_driver (quion_RecvStream_new r0) (n_session_driver self)"
    by (cases "quion_write_full S s0 (n_header_bi self) :: (_, ('c, 'x, 'd) quion_SessionError) res") simp_all
  show "sent (n_stream s) = n_header_bi self"
    using quion_write_full_Ok [OF assms(1) s1(1)] assms(4) s1(2) by (simp add: with_reliable_prefix_def)
  show "q' = q1" "n_driver s = n_session_driver self" "n_inner r = r0" "n_recv_driver r = n_session_driver self"
    "reliable_prefix s = (if reset_stream_at_negotiated N q1
      then Some (ucast (of_nat (length (n_header_bi self)) :: u32)) else None)"
    using q s1(2,3) by (simp_all add: with_reliable_prefix_def quion_RecvStream_new_def)
qed

lemma header_lengths:
  "length (varint_wire (stream_type UniStream_WEBTRANSPORT) @ varint_wire sid) \<le> 16"
  "length (varint_wire (frame_type Frame_WEBTRANSPORT) @ varint_wire sid) \<le> 16"
  using length_varint_wire_le [of sid] length_varint_wire_le [of "stream_type UniStream_WEBTRANSPORT"]
    length_varint_wire_le [of "frame_type Frame_WEBTRANSPORT"] by simp_all

lemma prefix_length_fits: "n \<le> 16 \<Longrightarrow> unat (ucast (of_nat n :: u32) :: u64) = n"
  by (simp add: unat_ucast_small unat_of_nat take_bit_nat_eq_self)

text \<open>What a reset keeps of a stream whose preface is its first bytes.\<close>

lemma quion_reset_keeps:
  fixes S :: "('s, 'c, 'x, 'i) quion_send"
  assumes laws: "quion_send_laws S sent kept" and n: "n \<le> 16"
    and pre: "reliable_prefix s = (if neg then Some (ucast (of_nat n :: u32)) else None)"
    and reset: "quion_SendStream_reset S code s = (Ok () :: (_, ('c, 'x, 'd) StreamWriteError) res, s')"
  shows "kept (n_stream s') = Some (if neg then n else 0)" and "sent (n_stream s') = sent (n_stream s)"
proof -
  have at: "case N_reset_at S c k u of
         (Ok _, s') \<Rightarrow> sent s' = sent u \<and> kept s' = Some (unat k) | (Err _, _) \<Rightarrow> True | (Panic, _) \<Rightarrow> False"
    and plain: "case N_reset S c u of
         (Ok _, s') \<Rightarrow> sent s' = sent u \<and> kept s' = Some 0 | (Err _, _) \<Rightarrow> True | (Panic, _) \<Rightarrow> False" for c k :: u64 and u
    using laws by (simp_all add: quion_send_laws_def)
  note r = reset [unfolded quion_reset_code [OF laws] pre on_stream_def]
  show "kept (n_stream s') = Some (if neg then n else 0)" "sent (n_stream s') = sent (n_stream s)"
    using r at [where c = "error_to_http3 code" and k = "ucast (of_nat n :: u32)" and u = "n_stream s"]
      plain [where c = "error_to_http3 code" and u = "n_stream s"] prefix_length_fits [OF n]
    by (cases neg; auto split: prod.splits res.splits)+
qed

subsection \<open>The end of a session\<close>

lemma quion_close_connection_code:
  assumes "quion_connection_laws N sent content"
  shows "quion_close_connection N code why q = NC_close N (error_to_http3 code) why q"
proof -
  have "QC_VarInt_from_u64 (quinn_of N) (error_to_http3 code) = Ok (error_to_http3 code)"
    using quion_laws_quinn [OF assms] error_code_fits [of code] unfolding quinn_connection_laws_def by blast
  then show ?thesis by (simp add: quion_close_connection_def)
qed

lemma connection_close_reason_iff:
  "quion_lifetime_laws N \<Longrightarrow> connection_close_reason N q = None \<longleftrightarrow> \<not> NC_is_closed N q"
  by (auto simp: connection_close_reason_def quion_lifetime_laws_def)

text \<open>With which code and reason the task closes a connection that is still open.\<close>

definition end_close :: "((u32 \<times> bytes) option, CapsuleError) res \<Rightarrow> u32 \<times> bytes" where
  "end_close result =
     (case result of
        Ok (Some c) \<Rightarrow> c
      | Err e \<Rightarrow> if is_graceful_close e then (0, str ''CONNECT stream ended'') else (1, str ''capsule error'')
      | _ \<Rightarrow> (0, str ''CONNECT stream ended''))"

lemma quion_task_finish_cases:
  assumes laws: "quion_connection_laws N sent content" "quion_lifetime_laws N" and "result \<noteq> Panic"
    and f: "quion_task_finish N result (err, q) = (err', q')"
  shows "q' = (if NC_is_closed N q then q
      else NC_close N (error_to_http3 (fst (end_close result))) (snd (end_close result)) q)"
    and "NC_is_closed N q'"
    and "err' = (case result of Ok (Some (code, why)) \<Rightarrow> Some (NSE_WebTransportError (NWT_Closed code why))
      | _ \<Rightarrow> (case err of Some e \<Rightarrow> Some e | None \<Rightarrow> map_option quion_SessionError_from (connection_close_reason N q')))"
proof -
  have closes: "NC_is_closed N (NC_close N c why u)" for c why u
    using laws(2) unfolding quion_lifetime_laws_def by blast
  note code = quion_close_connection_code [OF laws(1)]
  note d = f [unfolded quion_task_finish_def Let_def connection_close_reason_iff [OF laws(2)] code copies fst_conv snd_conv]
  show q': "q' = (if NC_is_closed N q then q
      else NC_close N (error_to_http3 (fst (end_close result))) (snd (end_close result)) q)"
    using d \<open>result \<noteq> Panic\<close> closes
    by (cases "NC_is_closed N q") (auto simp: end_close_def split: res.splits option.splits if_splits prod.splits)
  then show "NC_is_closed N q'" using closes by simp
  show "err' = (case result of Ok (Some (code, why)) \<Rightarrow> Some (NSE_WebTransportError (NWT_Closed code why))
      | _ \<Rightarrow> (case err of Some e \<Rightarrow> Some e | None \<Rightarrow> map_option quion_SessionError_from (connection_close_reason N q')))"
    using d \<open>result \<noteq> Panic\<close> by (auto split: res.splits option.splits prod.splits if_splits)
qed

subsection \<open>An instance of Quion\<close>

text \<open>
  A connection whose state holds what the next unidirectional stream and the next bidirectional
  stream deliver, the first also being the next datagram, and why it was closed. Reliable resets
  are negotiated.
\<close>

definition example_quion_connection ::
  "((bytes \<times> bytes) \<times> unit quion_ConnectionError option, bytes \<times> nat option, bytes, unit, unit) quion_connection" where
  "example_quion_connection =
     \<lparr>NC_open_uni = (\<lambda>q. (Ok ([], None), q)), NC_open_bi = (\<lambda>q. (Ok (([], None), snd (fst q)), q)),
      NC_accept_uni = (\<lambda>q. (Ok (fst (fst q)), q)), NC_accept_bi = (\<lambda>q. (Ok (([], None), snd (fst q)), q)),
      NC_read_datagram_bytes = (\<lambda>q. (Ok (fst (fst q)), q)), NC_send_datagram_bytes = (\<lambda>bs q. (Ok (), q)),
      NC_max_datagram_size = (\<lambda>_. Some 1200), NC_negotiated = (\<lambda>_. Some True),
      NC_close = (\<lambda>code why q. (fst q, case snd q of None \<Rightarrow> Some (N_OtherConnectionError ()) | Some e \<Rightarrow> Some e)),
      NC_is_closed = (\<lambda>q. snd q \<noteq> None), NC_closed_now = snd,
      NC_closed = (\<lambda>q. (case snd q of None \<Rightarrow> N_OtherConnectionError () | Some e \<Rightarrow> e,
        (fst q, Some (case snd q of None \<Rightarrow> N_OtherConnectionError () | Some e \<Rightarrow> e)))),
      NC_VarInt_new = (\<lambda>x. if unat x < 2 ^ 62 then Ok x else Err ()), NC_stream_id = (\<lambda>_. Some 0),
      NC_read_exact = slice_read, NC_write_all = (\<lambda>bs (s, k). (Ok (), (s @ bs, k)))\<rparr>"

lemma example_quion_connection_laws:
  "quion_connection_laws example_quion_connection fst (\<lambda>r. r)" "quion_lifetime_laws example_quion_connection"
  by (auto simp: quion_connection_laws_def quinn_connection_laws_def quion_lifetime_laws_def
      example_quion_connection_def quinn_of_def slice_reads_exactly split: option.split)

subsection \<open>Properties\<close>

text \<open>
  C28. A session is well formed for all of its life. The handshake always yields one, with the
  identifier of the CONNECT stream and the driver it was given; a raw connection yields one with neither.
  After any number of polls of both accepting methods, calls of \<^verbatim>\<open>close\<close> and ends of the task, in any
  order, its identifier, headers and accepting machine still belong together, and identifier and
  driver are those it began with. Every stream that it then hands out, accepted or opened, in
  one direction or in both, keeps that driver alive.
\<close>

theorem quion_session_typed:
  fixes N :: "('q, 's, 'r, 'c, 'd) quion_connection" and S :: "('s, 'c, 'x, 'i) quion_send"
    and Ch :: "('ch, quion_CloseCommand) mpsc" and new self :: "('id, 'u, 's, 'r, 'c, 'x, 'd, 'v, 'ch) quion_Session"
  assumes laws: "quion_connection_laws N sent content" and id: "NC_stream_id N (n_connect_send connect) = Some i"
    and new: "(\<exists>task. quion_Session_with_driver N Ch ident settings connect driver = (Ok (new, task) :: (_, 'e) res)) \<and>
        sid = Some (VarInt i) \<or>
      new = quion_Session_raw Ch ident url \<and> driver = None \<and> sid = None"
    and life: "rtranclp (quion_session_use N Ch) new self"
  shows "(\<exists>st. quion_Session_with_driver N Ch ident settings connect driver =
        (Ok st :: (('id, 'u, 's, 'r, 'c, 'x, 'd, 'v, 'ch) quion_Session \<times> _, 'e) res)) \<and>
    quion_session_ok self \<and> n_session_id self = sid \<and> n_session_driver self = driver \<and>
    (\<forall>ready q r. fst (quion_Session_accept_uni N ready self q) = Poll_Ready (Ok r) \<longrightarrow> n_recv_driver r = driver) \<and>
    (\<forall>ready q s r. fst (quion_Session_accept_bi N ready self q) = Poll_Ready (Ok (s, r)) \<longrightarrow>
       n_driver s = driver \<and> n_recv_driver r = driver) \<and>
    (\<forall>q s. fst (quion_Session_open_uni N S self q) = Ok s \<longrightarrow> n_driver s = driver) \<and>
    (\<forall>q s r. fst (quion_Session_open_bi N S self q) = Ok (s, r) \<longrightarrow> n_driver s = driver \<and> n_recv_driver r = driver)"
proof -
  note ok = quion_Session_with_driver_ok [OF laws id]
  have "quion_session_ok new \<and> n_session_id new = sid \<and> n_session_driver new = driver"
    using new quion_session_id_ok(2) [OF laws id] by (auto simp: ok quion_session_ok_def quion_Session_raw_def)
  then have inv: "quion_session_ok self \<and> n_session_id self = sid \<and> n_session_driver self = driver"
    using quion_session_uses [OF life] by simp
  then show ?thesis
    using quion_accepted_driver [where self = self and N = N] quion_opened_driver [of N S self] by (simp add: ok)
qed

theorem quion_session_typed_witness:
  "\<exists>(new :: (unit, unit, bytes \<times> nat option, bytes, unit, unit, unit, nat, quion_CloseCommand channel_view) quion_Session) task self s r.
    quion_Session_with_driver example_quion_connection example_mpsc () \<lparr>n_settings_send = ([], None), n_settings_recv = []\<rparr>
      \<lparr>n_connect_request = \<lparr>request_url = ()\<rparr>, n_connect_send = ([], None), n_connect_recv = []\<rparr> (Some 7) =
        (Ok (new, task) :: (_, unit) res) \<and>
    self = fst (quion_Session_close example_quion_connection example_mpsc new 3 [] (([], []), None)) \<and>
    fst (quion_Session_open_bi example_quion_connection example_quion_send self (([], []), None)) = Ok (s, r) \<and>
    n_driver s = Some 7 \<and> n_recv_driver r = Some 7"
proof -
  let ?N = example_quion_connection
  let ?connect = "\<lparr>n_connect_request = \<lparr>request_url = ()\<rparr>, n_connect_send = ([] :: bytes, None :: nat option), n_connect_recv = [] :: bytes\<rparr>"
  let ?settings = "\<lparr>n_settings_send = ([] :: bytes, None :: nat option), n_settings_recv = [] :: bytes\<rparr>"
  have id: "NC_stream_id ?N (n_connect_send ?connect) = Some 0" by (simp add: example_quion_connection_def)
  obtain new :: "(unit, unit, bytes \<times> nat option, bytes, unit, unit, unit, nat, quion_CloseCommand channel_view) quion_Session"
    and task where new: "quion_Session_with_driver ?N example_mpsc () ?settings ?connect (Some 7) = (Ok (new, task) :: (_, unit) res)"
    by (simp add: quion_Session_with_driver_ok [OF example_quion_connection_laws(1) id])
  define self where "self = fst (quion_Session_close ?N example_mpsc new 3 [] (([], []), None))"
  have use: "rtranclp (quion_session_use ?N example_mpsc) new self"
    unfolding self_def by (rule r_into_rtranclp, rule quion_session_use.close)
  obtain s r where o: "fst (quion_Session_open_bi ?N example_quion_send self (([], []), None)) = Ok (s, r)"
    by (simp add: quion_Session_open_bi_def quion_write_full_def example_quion_connection_def example_quion_send_def)
  have "n_driver s = Some 7 \<and> n_recv_driver r = Some 7"
    using quion_session_typed [OF example_quion_connection_laws(1) id disjI1 use, of "()" ?settings "Some 7"
        "Some (VarInt 0)", where S = example_quion_send and 'e = unit] new o by blast
  then show ?thesis using new o self_def by blast
qed

text \<open>
  What \<open>reset\<close> makes of a stream opened with a preface: the preface is all that was sent, and a reset
  after any further bytes keeps the preface where reliable resets are negotiated, and nothing elsewhere.
\<close>

definition opened_with :: "(u32 \<Rightarrow> ('s, 'v) quion_SendStream \<Rightarrow> (unit, 'e) res \<times> ('s, 'v) quion_SendStream) \<Rightarrow>
    ('s \<Rightarrow> bytes) \<Rightarrow> ('s \<Rightarrow> nat option) \<Rightarrow> bool \<Rightarrow> bytes \<Rightarrow> ('s, 'v) quion_SendStream \<Rightarrow> bool" where
  "opened_with reset sent kept negotiated preface s \<longleftrightarrow> sent (n_stream s) = preface \<and>
     (\<forall>u payload code s'. sent u = preface @ payload \<and> reset code (s\<lparr>n_stream := u\<rparr>) = (Ok (), s') \<longrightarrow>
        sent (n_stream s') = preface @ payload \<and>
        kept (n_stream s') = Some (if negotiated then length preface else 0))"

lemma opened_with_preface:
  fixes S :: "('s, 'c, 'x, 'i) quion_send" and s :: "('s, 'v) quion_SendStream"
  assumes laws: "quion_send_laws S sent kept" and h: "sent (n_stream s) = h" "length h \<le> 16"
    and pre: "reliable_prefix s = (if neg then Some (ucast (of_nat (length h) :: u32)) else None)"
  shows "opened_with (quion_SendStream_reset S :: _ \<Rightarrow> _ \<Rightarrow> (unit, ('c, 'x, 'd) StreamWriteError) res \<times> _) sent kept neg h s"
  unfolding opened_with_def
proof (intro conjI allI impI h(1))
  fix u payload code and s' :: "('s, 'v) quion_SendStream"
  assume u: "sent u = h @ payload \<and>
    quion_SendStream_reset S code (s\<lparr>n_stream := u\<rparr>) = (Ok () :: (unit, ('c, 'x, 'd) StreamWriteError) res, s')"
  have "reliable_prefix (s\<lparr>n_stream := u\<rparr>) = (if neg then Some (ucast (of_nat (length h) :: u32)) else None)"
    using pre by simp
  note k = quion_reset_keeps [OF laws h(2) this conjunct2 [OF u]]
  show "sent (n_stream s') = h @ payload" using k(2) u by simp
  show "kept (n_stream s') = Some (if neg then length h else 0)" by (rule k(1))
qed

text \<open>
  C16. A reset stream can still be routed. On a session with an identifier, a stream opened in one
  direction has sent exactly the header of a unidirectional stream of this session, one opened in both
  directions exactly that of a bidirectional stream, and nothing else, whether or not reliable resets
  are negotiated. Where they are, resetting the stream, after any writes or none, keeps exactly this
  header; otherwise the reset keeps nothing. A peer that receives only the header accepts the stream
  for the session, as the kind of stream that was opened and with no application byte left.
\<close>

theorem reliable_reset_keeps_header:
  fixes N :: "('q, 's, 'r, 'c, 'd) quion_connection" and S :: "('s, 'c, 'x, 'i) quion_send"
    and self :: "('id, 'u, 's, 'r, 'c, 'x, 'd, 'v, 'ch) quion_Session" and q q1 :: 'q and send :: 'p
  assumes laws: "quion_send_laws S sent kept" and rd: "reads_exactly rd content"
    and ok: "quion_session_ok self" "n_session_id self = Some sid"
  shows "(\<forall>s0 s q'. NC_open_uni N q = (Ok s0, q1) \<and> sent s0 = [] \<and> quion_Session_open_uni N S self q = (Ok s, q') \<longrightarrow>
      opened_with (quion_SendStream_reset S :: _ \<Rightarrow> _ \<Rightarrow> (unit, ('c, 'x, 'd) StreamWriteError) res \<times> _) sent kept
        (reset_stream_at_negotiated N q1) (varint_wire (stream_type UniStream_WEBTRANSPORT) @ varint_wire sid) s) \<and>
    (\<forall>s0 r0 s recv q'. NC_open_bi N q = (Ok (s0, r0), q1) \<and> sent s0 = [] \<and>
        quion_Session_open_bi N S self q = (Ok (s, recv), q') \<longrightarrow>
      opened_with (quion_SendStream_reset S :: _ \<Rightarrow> _ \<Rightarrow> (unit, ('c, 'x, 'd) StreamWriteError) res \<times> _) sent kept
        (reset_stream_at_negotiated N q1) (varint_wire (frame_type Frame_WEBTRANSPORT) @ varint_wire sid) s \<and>
      n_inner recv = r0) \<and>
    (\<forall>p. content p = varint_wire (stream_type UniStream_WEBTRANSPORT) @ varint_wire sid \<longrightarrow>
      (\<exists>p'. accepts_uni rd sid p = Some (RecvStream_new p') \<and> content p' = [])) \<and>
    (\<forall>p. content p = varint_wire (frame_type Frame_WEBTRANSPORT) @ varint_wire sid \<longrightarrow>
      (\<exists>p'. accepts_bi rd sid (send, p) = Some (SendStream_new send, RecvStream_new p') \<and> content p' = []))"
proof -
  have sid: "varint_ok sid"
    and hu: "n_header_uni self = varint_wire (stream_type UniStream_WEBTRANSPORT) @ varint_wire sid"
    and hb: "n_header_bi self = varint_wire (frame_type Frame_WEBTRANSPORT) @ varint_wire sid"
    using ok by (simp_all add: quion_session_ok_def)
  note len = header_lengths [of sid, folded hu hb]
  show ?thesis
    unfolding hu [symmetric] hb [symmetric]
  proof (intro conjI allI impI)
    fix s0 s q'
    assume o: "NC_open_uni N q = (Ok s0, q1) \<and> sent s0 = [] \<and> quion_Session_open_uni N S self q = (Ok s, q')"
    note uni = quion_open_uni_header [OF laws o [THEN conjunct2, THEN conjunct2] o [THEN conjunct1] o [THEN conjunct2, THEN conjunct1]]
    show "opened_with (quion_SendStream_reset S :: _ \<Rightarrow> _ \<Rightarrow> (unit, ('c, 'x, 'd) StreamWriteError) res \<times> _) sent kept
        (reset_stream_at_negotiated N q1) (n_header_uni self) s"
      by (rule opened_with_preface [OF laws uni(1) len(1) uni(4)])
  next
    fix s0 r0 s recv q'
    assume o: "NC_open_bi N q = (Ok (s0, r0), q1) \<and> sent s0 = [] \<and> quion_Session_open_bi N S self q = (Ok (s, recv), q')"
    note bi = quion_open_bi_header [OF laws o [THEN conjunct2, THEN conjunct2] o [THEN conjunct1] o [THEN conjunct2, THEN conjunct1]]
    show "opened_with (quion_SendStream_reset S :: _ \<Rightarrow> _ \<Rightarrow> (unit, ('c, 'x, 'd) StreamWriteError) res \<times> _) sent kept
        (reset_stream_at_negotiated N q1) (n_header_bi self) s"
      by (rule opened_with_preface [OF laws bi(1) len(2) bi(6)])
    show "n_inner recv = r0" by (rule bi(4))
  next
    show "\<exists>p'. accepts_uni rd sid p = Some (RecvStream_new p') \<and> content p' = []" if "content p = n_header_uni self" for p
      by (rule accepts_uni_wire [OF rd sid]) (simp add: that hu)
    show "\<exists>p'. accepts_bi rd sid (send, p) = Some (SendStream_new send, RecvStream_new p') \<and> content p' = []"
      if "content p = n_header_bi self" for p
      by (rule accepts_bi_wire [OF rd sid]) (simp add: that hb)
  qed
qed

theorem reliable_reset_keeps_header_witness:
  "\<exists>(self :: (unit, unit, bytes \<times> nat option, bytes, unit, unit, unit, nat, unit) quion_Session) s recv s'.
    n_session_id self = Some (VarInt 0) \<and>
    fst (quion_Session_open_bi example_quion_connection example_quion_send self (([], []), None)) = Ok (s, recv) \<and>
    quion_SendStream_reset example_quion_send 7
      (s\<lparr>n_stream := (varint_wire (frame_type Frame_WEBTRANSPORT) @ varint_wire (VarInt 0) @ [1, 2], None)\<rparr>) =
        (Ok () :: (unit, (unit, unit, unit) StreamWriteError) res, s') \<and>
    snd (n_stream s') = Some (length (varint_wire (frame_type Frame_WEBTRANSPORT) @ varint_wire (VarInt 0)))"
proof -
  let ?h = "varint_wire (frame_type Frame_WEBTRANSPORT) @ varint_wire (VarInt 0)"
  define self :: "(unit, unit, bytes \<times> nat option, bytes, unit, unit, unit, nat, unit) quion_Session" where
    "self = \<lparr>n_identity = (), n_close_error = None, n_session_driver = None, n_session_id = Some (VarInt 0),
      n_accept = Some (quion_SessionAccept_new (VarInt 0)),
      n_header_uni = varint_wire (stream_type UniStream_WEBTRANSPORT) @ varint_wire (VarInt 0), n_header_bi = ?h,
      n_header_datagram = varint_wire (VarInt 0),
      n_settings = Some \<lparr>n_settings_send = ([], None), n_settings_recv = []\<rparr>, n_url = (), n_close_tx = Some ()\<rparr>"
  have ok: "quion_session_ok self" "n_session_id self = Some (VarInt 0)"
    by (simp_all add: self_def quion_session_ok_def varint_ok_def)
  let ?q = "(([], []), None) :: (bytes \<times> bytes) \<times> unit quion_ConnectionError option"
  have o: "NC_open_bi example_quion_connection ?q = (Ok (([], None), []), ?q)"
    by (simp add: example_quion_connection_def)
  obtain s recv where s: "quion_Session_open_bi example_quion_connection example_quion_send self ?q = (Ok (s, recv), ?q)"
    by (simp add: quion_Session_open_bi_def quion_write_full_def o) (simp add: example_quion_send_def)
  obtain s' where r: "quion_SendStream_reset example_quion_send 7 (s\<lparr>n_stream := (?h @ [1, 2], None)\<rparr>) =
      (Ok () :: (unit, (unit, unit, unit) StreamWriteError) res, s')"
    unfolding quion_reset_code [OF example_quion_laws(1)]
    by (cases "reliable_prefix s") (simp_all add: on_stream_def example_quion_send_def)
  have neg: "reset_stream_at_negotiated example_quion_connection ?q"
    by (simp add: reset_stream_at_negotiated_def example_quion_connection_def)
  have "opened_with (quion_SendStream_reset example_quion_send :: _ \<Rightarrow> _ \<Rightarrow> (unit, (unit, unit, unit) StreamWriteError) res \<times> _)
      fst snd (reset_stream_at_negotiated example_quion_connection ?q) ?h s"
    by (rule reliable_reset_keeps_header [OF example_quion_laws(1) slice_reads_exactly ok, THEN conjunct2, THEN conjunct1,
          rule_format, THEN conjunct1, OF conjI [OF o conjI [OF fst_conv s]]])
  then have "snd (n_stream s') = Some (length ?h)"
    using r neg unfolding opened_with_def by fastforce
  then show ?thesis using ok(2) s r by (metis append_assoc fst_conv)
qed

text \<open>
  C3. However a session ends, it is closed and knows why. When the task on the CONNECT stream is over,
  the connection is closed and the session reports an error: the code and reason of a close that was
  received or sent, and otherwise the first error there was; \<^verbatim>\<open>closed\<close> returns it at once. A
  connection already closed is left alone; an open one is closed once, with the close's code in the
  HTTP/3 range, with 1 after a broken capsule, and with 0 when the stream just ended.
\<close>

theorem quion_session_end:
  assumes "quion_connection_laws N sent content" and "quion_lifetime_laws N" and "result \<noteq> Panic"
    and "quion_task_finish N result (err, q) = (err', q')"
  shows "NC_is_closed N q' \<and>
    (\<exists>e. err' = Some e \<and> quion_Session_closed N ((self\<lparr>n_close_error := err'\<rparr>, q2) # wakeups) = Some e) \<and>
    (case result of
       Ok (Some (code, why)) \<Rightarrow>
         map_option quion_SessionError_session_error err' = Some (Some (code, why))
     | _ \<Rightarrow> (if err = None then err' = map_option quion_SessionError_from (connection_close_reason N q') else err' = err)) \<and>
    q' = (if NC_is_closed N q then q
          else NC_close N (error_to_http3 (fst (end_close result))) (snd (end_close result)) q)"
proof -
  note f = quion_task_finish_cases [OF assms]
  have r: "connection_close_reason N q' \<noteq> None"
    using f(2) by (simp add: connection_close_reason_iff [OF assms(2)])
  have e: "err' \<noteq> None"
    unfolding f(3) using r by (auto split: res.split option.split)
  have "case result of
       Ok (Some (code, why)) \<Rightarrow> map_option quion_SessionError_session_error err' = Some (Some (code, why))
     | _ \<Rightarrow> (if err = None then err' = map_option quion_SessionError_from (connection_close_reason N q') else err' = err)"
    unfolding f(3) by (auto simp: quion_SessionError_session_error_def split: res.split option.split)
  then show ?thesis using f(1,2) e by (auto simp: quion_Session_close_reason_def)
qed

theorem quion_session_end_witness:
  "NC_is_closed example_quion_connection (snd (quion_task_finish example_quion_connection (Ok (Some (7, [0x62])))
     (None :: (unit, unit, unit) quion_SessionError option, (([], []), None))))"
proof -
  obtain err' :: "(unit, unit, unit) quion_SessionError option" and q' where
      f: "quion_task_finish example_quion_connection (Ok (Some (7, [0x62]))) (None, (([], []), None)) = (err', q')"
    by (metis prod.exhaust)
  show ?thesis
    using quion_session_end [OF example_quion_connection_laws _ f, THEN conjunct1] by (simp add: f)
qed

end
