(* ===== verification/Quion_Endpoints.thy ===== *)
theory Quion_Endpoints
  imports Quinn_Endpoints Quion_Session
begin

section \<open>Clients and servers over Quion\<close>

text \<open>
  \<^verbatim>\<open>Session::connect\<close> of \<^verbatim>\<open>webtrans-quion/src/session.rs\<close>, \<^verbatim>\<open>Client\<close> of \<^verbatim>\<open>client.rs\<close>, \<^verbatim>\<open>Request\<close> and \<^verbatim>\<open>Server\<close>
  of \<^verbatim>\<open>server.rs\<close>. A handshake over Quion runs under a guard that closes the connection when the
  handshake fails or its deadline passes; the client picks an endpoint by the family of the
  address; a server's requests, and the sessions made of them, share its UDP driver. The lemmas show that both sides
  of the handshake refine the Quinn backend's, that no failed handshake leaves its connection open,
  and that a server loses no handshake and hands its driver to every session.
\<close>

subsection \<open>The client\<close>

datatype ('c, 'x, 'p, 'm, 'st, 'ee, 'te) quion_ClientError = NCLE_UnexpectedEnd
  | NCLE_Connection "'c quion_ConnectionError" | NCLE_WriteError "('c, 'x) quion_WriteError"
  | NCLE_ReadError "('c, 'x) quion_ReadError" | NCLE_SettingsError "('c, 'x) quion_SettingsError"
  | NCLE_HttpError "('c, 'x, 'p, 'm, 'st) quion_ConnectError" | NCLE_Endpoint 'ee
  | NCLE_InvalidDnsName bytes | NCLE_InvalidUrl bytes | NCLE_DnsTimeout | NCLE_HandshakeTimeout
  | NCLE_Io io_error | NCLE_InvalidCryptoConfiguration | NCLE_Rustls 'te

definition quion_Session_connect :: "bool \<Rightarrow> ('q, 's, 'r, 'c, 'd) quion_connection \<Rightarrow>
    ('ch, quion_CloseCommand) mpsc \<Rightarrow> 'id \<Rightarrow> ('u, 'p) url_api \<Rightarrow> ('m, 'st) http_api \<Rightarrow> 'st status_codes \<Rightarrow>
    (Settings \<Rightarrow> Settings) \<Rightarrow> (Headers \<Rightarrow> Headers) \<Rightarrow> nat \<Rightarrow> 'u \<Rightarrow> 'q \<Rightarrow>
    (('id, 'u, 's, 'r, 'c, 'x, 'd, 'v, 'ch) quion_Session \<times> ('s, 'r) closed_task,
      ('c, 'x, 'p, 'm, 'st, 'ee, 'te) quion_ClientError, 'q) run" where
  "quion_Session_connect open_first N Ch ident U H S ho ho' fuel url q =
     guarded N
       (run_bind (run_err NCLE_SettingsError (quion_Settings_connect open_first N ho fuel True q)) (\<lambda>settings q.
        run_bind (run_err NCLE_HttpError (quion_Connect_open N U H S ho' fuel url q)) (\<lambda>connect q.
          run_at q (Some (quion_Session_new N Ch ident settings connect)))))"

definition quion_validate_url :: "('u, 'p) url_api \<Rightarrow> ('u, 'ip4, 'ip6) url_target \<Rightarrow> 'u \<Rightarrow>
    (unit, ('c, 'x, 'p, 'm, 'st, 'ee, 'te) quion_ClientError) res" where
  "quion_validate_url U T url =
     (if Url_scheme U url \<noteq> str ''https'' then
        Err (NCLE_InvalidUrl (str ''WebTransport requires an https URL''))
      else if Url_username U url \<noteq> [] \<or> Url_password U url \<noteq> None then
        Err (NCLE_InvalidUrl (str ''userinfo is not supported in the authority''))
      else if Url_fragment U url \<noteq> None then
        Err (NCLE_InvalidUrl (str ''URL fragments are not sent in HTTP request targets''))
      else if Url_cannot_be_a_base T url \<or> Url_host T url = None then
        Err (NCLE_InvalidUrl (str ''URL must contain a valid authority and path''))
      else Ok ())"

text \<open>
  What the client uses of the system. \<open>NN_dns_expires\<close> says whether a deadline passes before the
  name is resolved. \<open>NN_establish_expires\<close> says whether one passes before the session is
  established, and then where: before there is a connection, or with the connection in some state.
\<close>

record ('ip4, 'ip6, 'addr, 'cfg, 'ep, 'ee, 'h, 'q, 'c) quion_net =
  NN_lookup_host :: "bytes \<Rightarrow> u16 \<Rightarrow> 'addr list option"
  NN_ip4 :: "'ip4 \<Rightarrow> u16 \<Rightarrow> bytes \<times> 'addr"
  NN_ip6 :: "'ip6 \<Rightarrow> u16 \<Rightarrow> bytes \<times> 'addr"
  NN_is_ipv6 :: "'addr \<Rightarrow> bool"
  NN_set_default_client_config :: "'cfg \<Rightarrow> 'ep \<Rightarrow> 'ep"
  NN_connect :: "'ep \<Rightarrow> 'addr \<Rightarrow> bytes \<Rightarrow> ('h, 'ee) res"
  NN_connecting :: "'h \<Rightarrow> ('q, 'c quion_ConnectionError) res"
  NN_dns_expires :: "bytes \<Rightarrow> bool"
  NN_establish_expires :: "'h \<Rightarrow> 'q option option"

record 'ep quion_Client =
  n_endpoint :: 'ep
  n_ipv6 :: "'ep option"
  n_dns_timeout :: "nat option"
  n_client_handshake_timeout :: "nat option"

definition quion_Client_new :: "('ip4, 'ip6, 'addr, 'cfg, 'ep, 'ee, 'h, 'q, 'c) quion_net \<Rightarrow> 'ep \<Rightarrow> 'cfg \<Rightarrow>
    'ep quion_Client" where
  "quion_Client_new W endpoint config =
     (let endpoint = NN_set_default_client_config W config endpoint
      in \<lparr>n_endpoint = endpoint, n_ipv6 = None, n_dns_timeout = None, n_client_handshake_timeout = None\<rparr>)"

definition quion_resolve_target :: "('ip4, 'ip6, 'addr, 'cfg, 'ep, 'ee, 'h, 'q, 'c) quion_net \<Rightarrow>
    'ep quion_Client \<Rightarrow> ('ip4, 'ip6) url_host \<Rightarrow> u16 \<Rightarrow>
    (bytes \<times> 'addr, ('c, 'x, 'p, 'm, 'st, 'ee, 'te) quion_ClientError) res" where
  "quion_resolve_target W self host port =
     (case host of
        Domain domain \<Rightarrow>
          if n_dns_timeout self \<noteq> None \<and> NN_dns_expires W domain then Err NCLE_DnsTimeout
          else (case NN_lookup_host W domain port of
                  None \<Rightarrow> Err (NCLE_InvalidDnsName domain)
                | Some [] \<Rightarrow> Err (NCLE_InvalidDnsName domain)
                | Some (remote # _) \<Rightarrow> Ok (domain, remote))
      | Ipv4 ip \<Rightarrow> Ok (NN_ip4 W ip port)
      | Ipv6 ip \<Rightarrow> Ok (NN_ip6 W ip port))"

definition choose_endpoint :: "('ip4, 'ip6, 'addr, 'cfg, 'ep, 'ee, 'h, 'q, 'c) quion_net \<Rightarrow>
    'ep quion_Client \<Rightarrow> 'addr \<Rightarrow> 'ep" where
  "choose_endpoint W self remote =
     (if NN_is_ipv6 W remote then (case n_ipv6 self of Some endpoint \<Rightarrow> endpoint | None \<Rightarrow> n_endpoint self)
      else n_endpoint self)"

text \<open>Up to the start of the QUIC handshake.\<close>

definition quion_Client_start :: "('ip4, 'ip6, 'addr, 'cfg, 'ep, 'ee, 'h, 'q, 'c) quion_net \<Rightarrow>
    ('u, 'ip4, 'ip6) url_target \<Rightarrow> ('u, 'p) url_api \<Rightarrow> 'ep quion_Client \<Rightarrow> 'u \<Rightarrow>
    ('h, ('c, 'x, 'p, 'm, 'st, 'ee, 'te) quion_ClientError) res" where
  "quion_Client_start W T U self url =
     and_then (quion_validate_url U T url) (\<lambda>_.
     let port = (case Url_port T url of Some port \<Rightarrow> port | None \<Rightarrow> 443) in
     and_then (ok_or (NCLE_InvalidDnsName []) (Url_host T url)) (\<lambda>host.
     and_then (quion_resolve_target W self host port) (\<lambda>(host, remote).
     let endpoint = choose_endpoint W self remote in
     map_err NCLE_Endpoint (NN_connect W endpoint remote host))))"

text \<open>
  The result comes with the state of the connection, if there is one. A deadline that passes drops
  the future of the handshake, and with it the guard of \<^verbatim>\<open>Session::connect\<close> when that has begun.
\<close>

definition quion_Client_connect :: "('ip4, 'ip6, 'addr, 'cfg, 'ep, 'ee, 'h, 'q, 'c) quion_net \<Rightarrow>
    ('u, 'ip4, 'ip6) url_target \<Rightarrow> bool \<Rightarrow> ('q, 's, 'r, 'c, 'd) quion_connection \<Rightarrow>
    ('ch, quion_CloseCommand) mpsc \<Rightarrow> 'id \<Rightarrow> ('u, 'p) url_api \<Rightarrow> ('m, 'st) http_api \<Rightarrow> 'st status_codes \<Rightarrow>
    (Settings \<Rightarrow> Settings) \<Rightarrow> (Headers \<Rightarrow> Headers) \<Rightarrow> nat \<Rightarrow> 'ep quion_Client \<Rightarrow> 'u \<Rightarrow>
    (('id, 'u, 's, 'r, 'c, 'x, 'd, 'v, 'ch) quion_Session \<times> ('s, 'r) closed_task,
      ('c, 'x, 'p, 'm, 'st, 'ee, 'te) quion_ClientError, 'q option) run" where
  "quion_Client_connect W T open_first N Ch ident U H S ho ho' fuel self url =
     (case quion_Client_start W T U self url of
        Err e \<Rightarrow> Some (Err e, None)
      | Panic \<Rightarrow> Some (Panic, None)
      | Ok connecting \<Rightarrow>
          (case (case n_client_handshake_timeout self of
                   Some _ \<Rightarrow> NN_establish_expires W connecting
                 | None \<Rightarrow> None) of
             Some cancelled \<Rightarrow>
               Some (Err NCLE_HandshakeTimeout, map_option (HandshakeGuard_drop N HandshakeGuard_new) cancelled)
           | None \<Rightarrow>
               (case NN_connecting W connecting of
                  Err e \<Rightarrow> Some (Err (NCLE_Connection e), None)
                | Panic \<Rightarrow> Some (Panic, None)
                | Ok conn \<Rightarrow>
                    map_option (\<lambda>(r, q). (r, Some q))
                      (quion_Session_connect open_first N Ch ident U H S ho ho' fuel url conn))))"

text \<open>\<open>sha256\<close> is the digest of the provider.\<close>

definition quion_verify_server_cert :: "(bytes \<Rightarrow> bytes) \<Rightarrow> bytes list \<Rightarrow> bytes \<Rightarrow> (unit, cert_error) res" where
  "quion_verify_server_cert sha256 fingerprints end_entity =
     (let cert_hash = sha256 end_entity in
      if list_ex (\<lambda>fingerprint. fingerprint = cert_hash) fingerprints then Ok () else Err UnknownIssuer)"

subsection \<open>Requests on the server\<close>

datatype ('c, 'x, 'p, 'm, 'st, 'ee, 'ge, 'te) quion_ServerError = NSRV_Endpoint 'ee | NSRV_Configuration 'ge
  | NSRV_RequestAlreadyCompleted | NSRV_UnexpectedEnd | NSRV_Connection "'c quion_ConnectionError"
  | NSRV_HandshakeTimeout | NSRV_WriteError "('c, 'x) quion_WriteError"
  | NSRV_ReadError "('c, 'x) quion_ReadError" | NSRV_SettingsError "('c, 'x) quion_SettingsError"
  | NSRV_ConnectError "('c, 'x, 'p, 'm, 'st) quion_ConnectError" | NSRV_IoError io_error
  | NSRV_InvalidCryptoConfiguration | NSRV_Rustls 'te

record ('q, 'u, 's, 'r, 'v) quion_Request =
  n_request_driver :: "'v option"
  n_request_conn :: "'q option"
  n_request_settings :: "('s, 'r) quion_Settings option"
  n_request_connect :: "('u, 's, 'r) quion_Connect option"
  n_request_url :: 'u

definition quion_Request_accept :: "bool \<Rightarrow> ('q, 's, 'r, 'c, 'd) quion_connection \<Rightarrow> ('u, 'p) url_api \<Rightarrow>
    ('m, 'st) http_api \<Rightarrow> (Settings \<Rightarrow> Settings) \<Rightarrow> (Headers \<Rightarrow> Headers) \<Rightarrow> nat \<Rightarrow> 'q \<Rightarrow>
    (('q, 'u, 's, 'r, 'v) quion_Request, ('c, 'x, 'p, 'm, 'st, 'ee, 'ge, 'te) quion_ServerError, 'q) run" where
  "quion_Request_accept open_first N U H ho ho' fuel conn =
     guarded N
       (run_bind (run_err NSRV_SettingsError (quion_Settings_connect open_first N ho fuel False conn)) (\<lambda>settings conn.
        run_bind (run_err NSRV_ConnectError (quion_Connect_accept N U H ho' fuel conn)) (\<lambda>connect conn.
          let url = quion_Connect_url connect in
          Some (Ok \<lparr>n_request_driver = None, n_request_conn = Some conn, n_request_settings = Some settings,
            n_request_connect = Some connect, n_request_url = url\<rparr>, conn))))"

definition quion_Request_ok :: "('q, 's, 'r, 'c, 'd) quion_connection \<Rightarrow> ('ch, quion_CloseCommand) mpsc \<Rightarrow> 'id \<Rightarrow>
    ('m, 'st) http_api \<Rightarrow> 'st status_codes \<Rightarrow> (Headers \<Rightarrow> Headers) \<Rightarrow> ('q, 'u, 's, 'r, 'v) quion_Request \<Rightarrow>
    ((('id, 'u, 's, 'r, 'c, 'x, 'd, 'v, 'ch) quion_Session \<times> ('s, 'r) closed_task) \<times> 'q,
      ('c, 'x, 'p, 'm, 'st, 'ee, 'ge, 'te) quion_ServerError) res" where
  "quion_Request_ok N Ch ident H S ho self =
     and_then (ok_or NSRV_RequestAlreadyCompleted (n_request_connect self)) (\<lambda>connect.
     and_then (map_err NSRV_ConnectError (quion_Connect_respond N H ho (StatusCode_OK S) connect)) (\<lambda>connect.
     and_then (ok_or NSRV_RequestAlreadyCompleted (n_request_conn self)) (\<lambda>conn.
     and_then (ok_or NSRV_RequestAlreadyCompleted (n_request_settings self)) (\<lambda>settings.
       map_ok (\<lambda>s. (s, conn)) (quion_Session_with_driver N Ch ident settings connect (n_request_driver self))))))"

definition quion_Request_close :: "('q, 's, 'r, 'c, 'd) quion_connection \<Rightarrow> ('s, 'c, 'x, 'i) quion_send \<Rightarrow>
    ('m, 'st) http_api \<Rightarrow> (Headers \<Rightarrow> Headers) \<Rightarrow> 'st \<Rightarrow> ('q, 'u, 's, 'r, 'v) quion_Request \<Rightarrow>
    (('u, 's, 'r) quion_Connect, ('c, 'x, 'p, 'm, 'st, 'ee, 'ge, 'te) quion_ServerError) res" where
  "quion_Request_close N Q H ho status self =
     and_then (ok_or NSRV_RequestAlreadyCompleted (n_request_connect self)) (\<lambda>connect.
       map_err NSRV_ConnectError (quion_Connect_reject N Q H ho status connect))"

text \<open>
  A request dropped without an answer: the rejection that is sent, if there is a runtime to send it.
\<close>

definition quion_Request_drop :: "('q, 's, 'r, 'c, 'd) quion_connection \<Rightarrow> ('s, 'c, 'x, 'i) quion_send \<Rightarrow>
    ('m, 'st) http_api \<Rightarrow> 'st status_codes \<Rightarrow> (Headers \<Rightarrow> Headers) \<Rightarrow> bool \<Rightarrow> ('q, 'u, 's, 'r, 'v) quion_Request \<Rightarrow>
    (('u, 's, 'r) quion_Connect, ('c, 'x, 'p, 'm, 'st) quion_ConnectError) res option" where
  "quion_Request_drop N Q H S ho in_runtime self =
     (case n_request_connect self of
        None \<Rightarrow> None
      | Some connect \<Rightarrow>
          if \<not> in_runtime then None
          else Some (quion_Connect_reject N Q H ho (StatusCode_INTERNAL_SERVER_ERROR S) connect))"

subsection \<open>Admitting handshakes\<close>

record ('inc, 'v) quion_Server =
  n_server_driver :: "'v option"
  n_pending_handshakes :: "'inc list"
  n_handshake_timeout :: "nat option"
  n_max_pending_handshakes :: nat

text \<open>The limit of a new server is \<^verbatim>\<open>NonZeroUsize::MAX\<close>.\<close>

definition quion_Server_new :: "('inc, 'v) quion_Server" where
  "quion_Server_new = \<lparr>n_server_driver = None, n_pending_handshakes = [], n_handshake_timeout = None,
     n_max_pending_handshakes = 2 ^ 64 - 1\<rparr>"

definition quion_Server_with_accept_limits :: "'v \<Rightarrow> nat option \<Rightarrow> nat \<Rightarrow> ('inc, 'v) quion_Server" where
  "quion_Server_with_accept_limits driver timeout limit =
     \<lparr>n_server_driver = Some driver, n_pending_handshakes = [], n_handshake_timeout = timeout,
      n_max_pending_handshakes = limit\<rparr>"

text \<open>
  The future of an admitted handshake: \<open>connecting\<close> is the QUIC handshake of an incoming connection,
  \<open>request\<close> is \<^verbatim>\<open>Request::accept\<close>, and \<open>expires\<close> says whether the handshake outlives its deadline.
\<close>

definition quion_handshake :: "('inc \<Rightarrow> ('q, 'c quion_ConnectionError) res) \<Rightarrow>
    ('q \<Rightarrow> (('q, 'u, 's, 'r, 'v) quion_Request, ('c, 'x, 'p, 'm, 'st, 'ee, 'ge, 'te) quion_ServerError) res) \<Rightarrow>
    ('inc \<Rightarrow> bool) \<Rightarrow> 'v option \<Rightarrow> nat option \<Rightarrow> 'inc \<Rightarrow>
    (('q, 'u, 's, 'r, 'v) quion_Request, ('c, 'x, 'p, 'm, 'st, 'ee, 'ge, 'te) quion_ServerError) res" where
  "quion_handshake connecting request expires driver timeout inc =
     (let handshake =
            and_then (map_err NSRV_Connection (connecting inc)) (\<lambda>conn.
            and_then (request conn) (\<lambda>req.
              Ok (req\<lparr>n_request_driver := driver\<rparr>)))
      in case timeout of
           Some _ \<Rightarrow> if expires inc then Err NSRV_HandshakeTimeout else handshake
         | None \<Rightarrow> handshake)"

fun quion_Server_accept :: "('inc \<Rightarrow> ('q, 'c quion_ConnectionError) res) \<Rightarrow>
    ('q \<Rightarrow> (('q, 'u, 's, 'r, 'v) quion_Request, ('c, 'x, 'p, 'm, 'st, 'ee, 'ge, 'te) quion_ServerError) res) \<Rightarrow>
    ('inc \<Rightarrow> bool) \<Rightarrow> 'inc server_arm list \<Rightarrow> ('inc, 'v) quion_Server \<Rightarrow>
    ((('q, 'u, 's, 'r, 'v) quion_Request, ('c, 'x, 'p, 'm, 'st, 'ee, 'ge, 'te) quion_ServerError) res option \<times>
      ('inc, 'v) quion_Server) option" where
  "quion_Server_accept connecting request expires [] self = None"
| "quion_Server_accept connecting request expires (Arm_incoming inc # arms) self =
     (if length (n_pending_handshakes self) < n_max_pending_handshakes self then
        (case inc of
           None \<Rightarrow> Some (None, self)
         | Some conn \<Rightarrow>
             quion_Server_accept connecting request expires arms
               (self\<lparr>n_pending_handshakes := n_pending_handshakes self @ [conn]\<rparr>))
      else quion_Server_accept connecting request expires arms self)"
| "quion_Server_accept connecting request expires (Arm_completes i # arms) self =
     (if i < length (n_pending_handshakes self) then
        Some (Some (quion_handshake connecting request expires (n_server_driver self) (n_handshake_timeout self)
            (n_pending_handshakes self ! i)),
          self\<lparr>n_pending_handshakes := remove_at i (n_pending_handshakes self)\<rparr>)
      else quion_Server_accept connecting request expires arms self)"


subsection \<open>The handshake refines the handshake over Quinn\<close>

text \<open>What the sessions of the backends, and the tasks that start with them, have in common.\<close>

type_synonym ('u, 's, 'r, 'c) session_view =
  "(VarInt option \<times> ('s, 'r, 'c) SessionAccept option \<times> bytes \<times> bytes \<times> bytes \<times> ('s, 'r) quinn_Settings option \<times> 'u) \<times>
    ('s, 'r) closed_task"

definition quinn_session_view :: "('u, 's, 'r, 'c, 'ch) Session \<times> ('s, 'r) closed_task \<Rightarrow> ('u, 's, 'r, 'c) session_view" where
  "quinn_session_view = (\<lambda>(self, task). ((session_id self, accept self, header_uni self, header_bi self,
     header_datagram self, session_settings self, session_url self), task))"

definition quion_session_view :: "('id, 'u, 's, 'r, 'c, 'x, 'd, 'v, 'ch) quion_Session \<times> ('s, 'r) closed_task \<Rightarrow>
    ('u, 's, 'r, 'c) session_view" where
  "quion_session_view = (\<lambda>(self, task). ((n_session_id self, map_option quinn_accept_of (n_accept self),
     n_header_uni self, n_header_bi self, n_header_datagram self, map_option quinn_settings_of (n_settings self),
     n_url self), task))"

definition quinn_request_of :: "('q, 'u, 's, 'r, 'v) quion_Request \<Rightarrow> ('q, 'u, 's, 'r) Request" where
  "quinn_request_of req = \<lparr>request_conn = n_request_conn req,
     request_settings = map_option quinn_settings_of (n_request_settings req),
     request_connect = map_option quinn_connect_of (n_request_connect req), request_target = n_request_url req\<rparr>"

lemma quinn_accept_of_new [simp]: "quinn_accept_of (quion_SessionAccept_new sid) = SessionAccept_new sid"
  by (simp add: quinn_accept_of_def quion_SessionAccept_new_def SessionAccept_new_def)

lemma quinn_connect_of_sel [simp]:
  "quinn_Connect_url (quinn_connect_of c) = quion_Connect_url c"
  "quinn_Connect_into_inner (quinn_connect_of c) = quion_Connect_into_inner c"
  by (simp_all add: quinn_connect_of_def quinn_Connect_url_def quion_Connect_url_def
      quinn_Connect_into_inner_def quion_Connect_into_inner_def)

lemma map_ok_map_ok: "map_ok g (map_ok f r) = map_ok (\<lambda>x. g (f x)) r"
  by (cases r) simp_all

lemma Session_new_value:
  fixes connect :: "('u, 's, 'r) quinn_Connect" and Ch :: "('ch, CloseCommand) mpsc"
  obtains "(Session_new C Ch settings connect :: (_, 'e) res) = Panic"
    "(Session_new C Ch settings connect :: (_, 'f) res) = Panic"
  | s where "(Session_new C Ch settings connect :: (_, 'e) res) = Ok s"
    "(Session_new C Ch settings connect :: (_, 'f) res) = Ok s"
proof (cases "VarInt_from_u64 (QC_stream_id C (connect_send connect))")
  case (Ok sid)
  then have "varint_ok sid" by (rule VarInt_from_u64_ok)
  with Ok show ?thesis
    by (intro that(2)) (simp_all add: Session_new_def quinn_Connect_session_id_def UniStream_encode_def
        Frame_encode_def varint.enc_wire)
qed (rule that(1); simp add: Session_new_def quinn_Connect_session_id_def)+

lemma quion_Session_with_driver_refines:
  fixes N :: "('q, 's, 'r, 'c, 'd) quion_connection" and Ch' :: "('ch2, CloseCommand) mpsc"
  assumes "NC_stream_id N (n_connect_send connect) \<noteq> None"
  shows "forget (map_ok quion_session_view (quion_Session_with_driver N Ch ident settings connect driver ::
      (('id, 'u, 's, 'r, 'c, 'x, 'd, 'v, 'ch) quion_Session \<times> _, 'e) res)) =
    forget (map_ok quinn_session_view (Session_new (quinn_of N) Ch' (quinn_settings_of settings) (quinn_connect_of connect) ::
      (_, 'f) res))"
proof -
  have "map_ok quion_session_view (quion_Session_with_driver N Ch ident settings connect driver ::
      (('id, 'u, 's, 'r, 'c, 'x, 'd, 'v, 'ch) quion_Session \<times> _, 'e) res) =
    map_ok quinn_session_view (Session_new (quinn_of N) Ch' (quinn_settings_of settings) (quinn_connect_of connect) :: (_, 'e) res)"
    by (simp add: quion_Session_with_driver_def Session_new_def map_ok_and_then quinn_session_view_def
        quion_session_view_def quion_Connect_session_id_refines [OF assms])
  also have "forget \<dots> = forget (map_ok quinn_session_view
      (Session_new (quinn_of N) Ch' (quinn_settings_of settings) (quinn_connect_of connect) :: (_, 'f) res))"
    by (rule Session_new_value [of "quinn_of N" Ch' "quinn_settings_of settings" "quinn_connect_of connect",
          where 'e = 'e and 'f = 'f]) simp_all
  finally show ?thesis .
qed

lemma outcome_bind_view:
  assumes "\<And>x q. outcome f (k x q) = l (h x, q)"
  shows "outcome f (run_bind (run_err g m) k) = fuel_bind (outcome h m) l"
  using assms by (cases m) (auto simp: run_bind_def run_err_def outcome_def split: res.split)

lemma map_option_fuel_bind:
  "map_option (\<lambda>r. forget (map_ok v r)) (fuel_bind (map_option (map_err e) m) k) =
    fuel_bind (map_option forget m) (\<lambda>x. map_option (\<lambda>r. forget (map_ok v r)) (k x))"
  "map_option (\<lambda>r. map_ok v (forget r)) (fuel_bind (map_option (map_err e) m) k) =
    fuel_bind (map_option forget m) (\<lambda>x. map_option (\<lambda>r. map_ok v (forget r)) (k x))"
  by (cases m; cases "the m"; simp)+

lemma quion_Session_connect_refines:
  fixes N :: "('q, 's, 'r, 'c, 'd) quion_connection" and U :: "('u, 'p) url_api" and H :: "('m, 'st) http_api"
  assumes ids: "\<And>s. NC_stream_id N s \<noteq> None"
  shows "outcome quion_session_view (quion_Session_connect open_first N Ch ident U H S ho ho' fuel url q ::
        (('id, 'u, 's, 'r, 'c, 'x, 'd, 'v, 'ch) quion_Session \<times> _, ('c, 'x, 'p, 'm, 'st, 'ee, 'te) quion_ClientError, _) run) =
      map_option (\<lambda>r. forget (map_ok (apfst quinn_session_view) r))
        (Session_connect open_first (quinn_of N) Ch' U H S ho ho' fuel url q ::
          (_, ('c, 'p, 'm, 'st, 'qe, 'te) ClientError) res option)"
proof -
  let ?new = "\<lambda>settings. \<lambda>(connect, q). map_option (\<lambda>r. forget (map_ok (apfst quinn_session_view) r))
      (Some (map_ok (\<lambda>s. (s, q)) (Session_new (quinn_of N) Ch' settings connect ::
        (_, ('c, 'p, 'm, 'st, 'qe, 'te) ClientError) res)))"
  have new: "outcome quion_session_view (run_at q (Some (quion_Session_new N Ch ident settings connect ::
        (('id, 'u, 's, 'r, 'c, 'x, 'd, 'v, 'ch) quion_Session \<times> _, ('c, 'x, 'p, 'm, 'st, 'ee, 'te) quion_ClientError) res))) =
      ?new (quinn_settings_of settings) (quinn_connect_of connect, q)" for settings connect q
  proof -
    note r = quion_Session_with_driver_refines [OF ids, where Ch = Ch and ident = ident and driver = None and Ch' = Ch' and settings = settings and connect = connect
        and 'e = "('c, 'x, 'p, 'm, 'st, 'ee, 'te) quion_ClientError" and 'f = "('c, 'p, 'm, 'st, 'qe, 'te) ClientError"]
    show ?thesis
      using arg_cong [OF r, of "map_ok (\<lambda>v. (v, q))"] by (simp add: quion_Session_new_def map_ok_map_ok)
  qed
  let ?rest = "\<lambda>(settings, q). fuel_bind (map_option forget (quinn_Connect_open (quinn_of N) U H S ho' fuel url q ::
      (_, ('c, 'p, 'm, 'st) quinn_ConnectError) res option)) (?new settings)"
  have connect: "outcome quion_session_view (run_bind (run_err NCLE_HttpError (quion_Connect_open N U H S ho' fuel url q))
        (\<lambda>connect q. run_at q (Some (quion_Session_new N Ch ident settings connect ::
        (('id, 'u, 's, 'r, 'c, 'x, 'd, 'v, 'ch) quion_Session \<times> _, ('c, 'x, 'p, 'm, 'st, 'ee, 'te) quion_ClientError) res)))) =
      ?rest (quinn_settings_of settings, q)"
    for settings q
    by (subst outcome_bind_view [where h = quinn_connect_of and l = "?new (quinn_settings_of settings)", OF new])
      (simp add: quion_Connect_open_refines)
  show ?thesis
    unfolding quion_Session_connect_def outcome_guarded Session_connect_def map_option_fuel_bind(1)
    by (subst outcome_bind_view [where h = quinn_settings_of and l = ?rest, OF connect])
      (simp add: quion_Settings_connect_refines map_option_fuel_bind split_def)
qed

lemma quion_Request_accept_refines:
  fixes N :: "('q, 's, 'r, 'c, 'd) quion_connection" and U :: "('u, 'p) url_api" and H :: "('m, 'st) http_api"
  shows "map_option (map_ok fst) (outcome quinn_request_of (quion_Request_accept open_first N U H ho ho' fuel q ::
        ((_, 'u, 's, 'r, 'v) quion_Request, ('c, 'x, 'p, 'm, 'st, 'ee, 'ge, 'te) quion_ServerError, _) run)) =
      map_option forget (Request_accept open_first (quinn_of N) U H ho ho' fuel q ::
          (_, ('c, 'p, 'm, 'st, 'te) ServerError) res option)"
proof -
  let ?req = "\<lambda>settings. \<lambda>(connect, q). Some (Ok (\<lparr>request_conn = Some q, request_settings = Some settings,
      request_connect = Some connect, request_target = quinn_Connect_url connect\<rparr>, q) :: (_, unit) res)"
  let ?rest = "\<lambda>(settings, q). fuel_bind (map_option forget (quinn_Connect_accept (quinn_of N) U H ho' fuel q ::
      (_, ('c, 'p, 'm, 'st) quinn_ConnectError) res option)) (?req settings)"
  have req: "outcome quinn_request_of (Some (Ok \<lparr>n_request_driver = None, n_request_conn = Some q,
        n_request_settings = Some settings, n_request_connect = Some connect,
        n_request_url = quion_Connect_url connect\<rparr> :: (_, ('c, 'x, 'p, 'm, 'st, 'ee, 'ge, 'te) quion_ServerError) res, q)) =
      ?req (quinn_settings_of settings) (quinn_connect_of connect, q)"
    for settings connect and q :: 'q
    by (simp add: quinn_request_of_def)
  have connect: "outcome quinn_request_of (run_bind (run_err NSRV_ConnectError (quion_Connect_accept N U H ho' fuel q))
        (\<lambda>connect q. Some (Ok \<lparr>n_request_driver = None, n_request_conn = Some q, n_request_settings = Some settings,
          n_request_connect = Some connect, n_request_url = quion_Connect_url connect\<rparr> ::
          (_, ('c, 'x, 'p, 'm, 'st, 'ee, 'ge, 'te) quion_ServerError) res, q))) = ?rest (quinn_settings_of settings, q)"
    for settings q
    by (subst outcome_bind_view [where h = quinn_connect_of and l = "?req (quinn_settings_of settings)", OF req])
      (simp add: quion_Connect_accept_refines)
  have fst_bind: "map_option (map_ok fst) (fuel_bind m k) = fuel_bind m (\<lambda>x. map_option (map_ok fst) (k x))"
    for m :: "('y, unit) res option" and k :: "'y \<Rightarrow> ('z \<times> 'w, unit) res option"
    by (cases m; cases "the m") simp_all
  show ?thesis
    unfolding quion_Request_accept_def outcome_guarded Request_accept_def Let_def
    by (subst outcome_bind_view [where h = quinn_settings_of and l = ?rest, OF connect])
      (simp add: quion_Settings_connect_refines fst_bind split_def forget_bind option.map_comp comp_def)
qed

lemma quion_Request_ok_refines:
  fixes N :: "('q, 's, 'r, 'c, 'd) quion_connection" and H :: "('m, 'st) http_api"
  assumes ids: "\<And>s. NC_stream_id N s \<noteq> None"
  shows "forget (map_ok (apfst quion_session_view) (quion_Request_ok N Ch ident H S ho req ::
        ((('id, 'u, 's, 'r, 'c, 'x, 'd, 'v, 'ch) quion_Session \<times> _) \<times> _, ('c, 'x, 'p, 'm, 'st, 'ee, 'ge, 'te) quion_ServerError) res)) =
      forget (map_ok (apfst quinn_session_view) (Request_ok (quinn_of N) Ch' H S ho (quinn_request_of req) ::
          (_, ('c, 'p, 'm, 'st, 'te) ServerError) res))"
proof (cases "n_request_connect req")
  case None
  then show ?thesis by (simp add: quion_Request_ok_def Request_ok_def quinn_request_of_def)
next
  case (Some connect)
  let ?n = "quion_Connect_respond N H ho (StatusCode_OK S) connect :: (_, ('c, 'x, 'p, 'm, 'st) quion_ConnectError) res"
  let ?q = "quinn_Connect_respond (quinn_of N) H ho (StatusCode_OK S) (quinn_connect_of connect) ::
    (_, ('c, 'p, 'm, 'st) quinn_ConnectError) res"
  have respond: "map_ok quinn_connect_of (forget ?n) = forget ?q" by (rule quion_Connect_respond_refines)
  show ?thesis
  proof (cases ?n)
    case (Ok answered)
    then have q: "?q = Ok (quinn_connect_of answered)" using respond by (cases ?q) simp_all
    show ?thesis
    proof (cases "n_request_conn req")
      case None
      then show ?thesis using Some Ok q by (simp add: quion_Request_ok_def Request_ok_def quinn_request_of_def)
    next
      case conn: (Some conn)
      show ?thesis
      proof (cases "n_request_settings req")
        case None
        then show ?thesis using Some Ok q conn by (simp add: quion_Request_ok_def Request_ok_def quinn_request_of_def)
      next
        case (Some settings)
        note r = quion_Session_with_driver_refines [OF ids, where Ch = Ch and ident = ident and settings = settings
            and connect = answered and driver = "n_request_driver req" and Ch' = Ch'
            and 'e = "('c, 'x, 'p, 'm, 'st, 'ee, 'ge, 'te) quion_ServerError" and 'f = "('c, 'p, 'm, 'st, 'te) ServerError"]
        show ?thesis
          using arg_cong [OF r, of "map_ok (\<lambda>v. (v, conn))"] \<open>n_request_connect req = Some connect\<close> Ok q conn Some
          by (simp add: quion_Request_ok_def Request_ok_def quinn_request_of_def map_ok_map_ok)
      qed
    qed
  next
    case (Err e)
    then show ?thesis using respond Some
      by (cases ?q) (simp_all add: quion_Request_ok_def Request_ok_def quinn_request_of_def)
  next
    case Panic
    then show ?thesis using respond Some
      by (cases ?q) (simp_all add: quion_Request_ok_def Request_ok_def quinn_request_of_def)
  qed
qed

lemma quion_validate_url_refines:
  "forget (quion_validate_url U T url :: (_, ('c, 'x, 'p, 'm, 'st, 'ee, 'te) quion_ClientError) res) =
    forget (validate_url U T url :: (_, ('c, 'p, 'm, 'st, 'qe, 'te) ClientError) res)"
  by (simp add: quion_validate_url_def validate_url_def)

subsection \<open>Failed handshakes\<close>

text \<open>A connection as the guard of a failed handshake leaves it.\<close>

definition handshake_aborted :: "('q, 's, 'r, 'c, 'd) quion_connection \<Rightarrow> 'q \<Rightarrow> bool" where
  "handshake_aborted N q \<longleftrightarrow>
     NC_is_closed N q \<and> (\<exists>q'. q = NC_close N 0x102 (str ''WebTransport handshake aborted'') q')"

lemma drop_guard_aborts:
  assumes "\<And>code why q. NC_is_closed N (NC_close N code why q)"
  shows "handshake_aborted N (HandshakeGuard_drop N HandshakeGuard_new q)"
  using assms by (auto simp: handshake_aborted_def HandshakeGuard_drop_def HandshakeGuard_new_def)

lemma guarded_aborts:
  assumes "\<And>code why q. NC_is_closed N (NC_close N code why q)" and "guarded N m = Some (r, q)"
  shows "(\<exists>x. r = Ok x) \<or> handshake_aborted N q"
  using assms by (cases r) (auto simp: guarded_cases handshake_aborted_def)

subsection \<open>Admission\<close>

text \<open>
  The loop over Quion is the loop over Quinn on handshakes that merely name their connection: what
  that one returns tells which handshake this one completes.
\<close>

lemma quion_Server_accept_traces:
  "quion_Server_accept connecting request expires arms self =
    map_option (\<lambda>(r, server). (map_option (\<lambda>i. quion_handshake connecting request expires (n_server_driver self)
        (n_handshake_timeout self) (case i of Ok inc \<Rightarrow> inc)) r, self\<lparr>n_pending_handshakes := pending_handshakes server\<rparr>))
      (Server_accept (\<lambda>_. False) (\<lambda>inc. Ok inc :: ('inc, (unit, unit, unit, unit, unit) ServerError) res) arms
        \<lparr>pending_handshakes = n_pending_handshakes self, handshake_timeout = n_handshake_timeout self,
         max_pending_handshakes = n_max_pending_handshakes self\<rparr>)"
  for self :: "('inc, 'v) quion_Server"
proof (induction connecting request expires arms self rule: quion_Server_accept.induct)
  case (2 connecting request expires inc arms self)
  then show ?case by (cases inc) (auto split: option.split)
qed (auto simp: handshake_result_def split: option.split)

lemma quion_handshake_driver:
  "quion_handshake connecting request expires driver timeout inc = Ok req \<Longrightarrow> n_request_driver req = driver"
  by (auto simp: quion_handshake_def Let_def split: option.splits if_splits)

lemma quion_Request_ok_driver:
  "quion_Request_ok N Ch ident H S ho req = Ok ((session, task), conn) \<Longrightarrow> n_session_driver session = n_request_driver req"
  by (auto simp: quion_Request_ok_def quion_Session_with_driver_def)

lemma quion_Server_accept_answers:
  fixes self :: "('inc, 'v) quion_Server"
  shows "accept_answer (quion_handshake connecting request expires (n_server_driver self) (n_handshake_timeout self))
      (n_max_pending_handshakes self) (n_pending_handshakes self) arms
      (map_option (\<lambda>(r, self'). (r, n_pending_handshakes self')) (quion_Server_accept connecting request expires arms self))"
    and "quion_Server_accept connecting request expires arms self = Some (r, self') \<Longrightarrow>
      self' = self\<lparr>n_pending_handshakes := n_pending_handshakes self'\<rparr>"
proof -
  let ?server = "\<lparr>pending_handshakes = n_pending_handshakes self, handshake_timeout = n_handshake_timeout self,
      max_pending_handshakes = n_max_pending_handshakes self\<rparr>"
  let ?run = "quion_handshake connecting request expires (n_server_driver self) (n_handshake_timeout self)"
  let ?ok = "\<lambda>inc. Ok inc :: ('inc, (unit, unit, unit, unit, unit) ServerError) res"
  let ?g = "\<lambda>i. ?run (case i of Ok inc \<Rightarrow> inc)"
  have run: "(\<lambda>inc. ?g (handshake_result (\<lambda>_. False) ?ok (handshake_timeout ?server) inc)) = ?run"
    by (auto simp: handshake_result_def fun_eq_iff split: option.split)
  show "accept_answer ?run (n_max_pending_handshakes self) (n_pending_handshakes self) arms
      (map_option (\<lambda>(r, self'). (r, n_pending_handshakes self')) (quion_Server_accept connecting request expires arms self))"
    using accept_answer_map [OF Server_accept_answers [of "\<lambda>_. False" ?ok ?server arms, THEN conjunct1], of ?g]
    unfolding run by (simp add: quion_Server_accept_traces option.map_comp comp_def split_def)
  show "self' = self\<lparr>n_pending_handshakes := n_pending_handshakes self'\<rparr>"
    if "quion_Server_accept connecting request expires arms self = Some (r, self')"
    using that by (auto simp: quion_Server_accept_traces)
qed

lemma quion_accepted_request:
  "quion_Server_accept connecting request expires arms self = Some (Some (Ok req), self') \<Longrightarrow>
    n_request_driver req = n_server_driver self"
  by (auto simp: quion_Server_accept_traces intro: quion_handshake_driver)

subsection \<open>Properties\<close>

text \<open>
  C24. Both sides of the handshake over Quion refine the handshake over Quinn. On every connection
  whose streams have identifiers, with the same URL, orders and fuel: the client accepts the same
  URLs, and connecting either fails on both backends or yields sessions with the same identifier,
  headers, SETTINGS streams, URL and CONNECT task; a server's requests are equal, and answering one
  yields the same sessions. Whether it returns is the same too, and so is the state of a connection
  whose handshake succeeds.
\<close>

theorem quion_handshake_refines_quinn:
  fixes N :: "('q, 's, 'r, 'c, 'd) quion_connection" and U :: "('u, 'p) url_api" and H :: "('m, 'st) http_api"
  assumes ids: "\<And>s. NC_stream_id N s \<noteq> None"
  shows "forget (quion_validate_url U T url :: (_, ('c, 'x, 'p, 'm, 'st, 'ee, 'te) quion_ClientError) res) =
      forget (validate_url U T url :: (_, ('c, 'p, 'm, 'st, 'qe, 'te) ClientError) res) \<and>
    outcome quion_session_view (quion_Session_connect open_first N Ch ident U H S ho ho' fuel url q ::
        (('id, 'u, 's, 'r, 'c, 'x, 'd, 'v, 'ch) quion_Session \<times> _, ('c, 'x, 'p, 'm, 'st, 'ee, 'te) quion_ClientError, _) run) =
      map_option (\<lambda>r. forget (map_ok (apfst quinn_session_view) r))
        (Session_connect open_first (quinn_of N) Ch' U H S ho ho' fuel url q ::
          (_, ('c, 'p, 'm, 'st, 'qe, 'te) ClientError) res option) \<and>
    map_option (map_ok fst) (outcome quinn_request_of (quion_Request_accept open_first N U H ho ho' fuel q ::
        ((_, 'u, 's, 'r, 'v) quion_Request, ('c, 'x, 'p, 'm, 'st, 'ee, 'ge, 'te) quion_ServerError, _) run)) =
      map_option forget (Request_accept open_first (quinn_of N) U H ho ho' fuel q ::
          (_, ('c, 'p, 'm, 'st, 'te) ServerError) res option) \<and>
    forget (map_ok (apfst quion_session_view) (quion_Request_ok N Ch ident H S ho' req ::
        ((('id, 'u, 's, 'r, 'c, 'x, 'd, 'v, 'ch) quion_Session \<times> _) \<times> _, ('c, 'x, 'p, 'm, 'st, 'ee, 'ge, 'te) quion_ServerError) res)) =
      forget (map_ok (apfst quinn_session_view) (Request_ok (quinn_of N) Ch' H S ho' (quinn_request_of req) ::
          (_, ('c, 'p, 'm, 'st, 'te) ServerError) res))"
  by (intro conjI, rule quion_validate_url_refines, rule quion_Session_connect_refines [OF ids],
      rule quion_Request_accept_refines, rule quion_Request_ok_refines [OF ids])

theorem quion_handshake_refines_quinn_witness:
  "map_option (map_ok fst) (outcome quinn_request_of (quion_Request_accept True example_quion_connection
        example_url_api example_http_api (\<lambda>s. s) (\<lambda>h. h) 9 (([4], []), None) ::
        ((_, _, _, _, nat) quion_Request, (unit, unit, unit, unit, bool, unit, unit, unit) quion_ServerError, _) run)) =
      map_option forget (Request_accept True (quinn_of example_quion_connection) example_url_api example_http_api
        (\<lambda>s. s) (\<lambda>h. h) 9 (([4], []), None) :: (_, (unit, unit, unit, bool, unit) ServerError) res option)"
proof -
  have ids: "\<And>s. NC_stream_id example_quion_connection s \<noteq> None" by (simp add: example_quion_connection_def)
  show ?thesis by (rule quion_handshake_refines_quinn [OF ids, THEN conjunct2, THEN conjunct2, THEN conjunct1])
qed

text \<open>
  C13. A handshake that does not succeed leaves no connection open. Where closing a connection closes
  it, whenever connecting or accepting a request returns an error, or panics, the connection is
  closed, with the code 0x102; so is the connection of a client whose deadline passes anywhere in
  the handshake after the QUIC handshake is done.
\<close>

theorem failed_handshake_closes:
  fixes N :: "('q, 's, 'r, 'c, 'd) quion_connection" and U :: "('u, 'p) url_api" and H :: "('m, 'st) http_api"
  assumes closes: "\<And>code why q. NC_is_closed N (NC_close N code why q)"
  shows "(\<forall>r q'. quion_Session_connect open_first N Ch ident U H S ho ho' fuel url q = Some
        (r :: (('id, 'u, 's, 'r, 'c, 'x, 'd, 'v, 'ch) quion_Session \<times> _, ('c, 'x, 'p, 'm, 'st, 'ee, 'te) quion_ClientError) res, q') \<longrightarrow>
      (\<exists>session. r = Ok session) \<or> handshake_aborted N q') \<and>
    (\<forall>r q'. quion_Request_accept open_first N U H ho ho' fuel q = Some
        (r :: (('q, 'u, 's, 'r, 'v) quion_Request, ('c, 'x, 'p, 'm, 'st, 'ee, 'ge, 'te) quion_ServerError) res, q') \<longrightarrow>
      (\<exists>req. r = Ok req) \<or> handshake_aborted N q') \<and>
    (\<forall>r q'. quion_Client_connect W T open_first N Ch ident U H S ho ho' fuel self url = Some
        (r :: (('id, 'u, 's, 'r, 'c, 'x, 'd, 'v, 'ch) quion_Session \<times> _, ('c, 'x, 'p, 'm, 'st, 'ee, 'te) quion_ClientError) res, Some q') \<longrightarrow>
      (\<exists>session. r = Ok session) \<or> handshake_aborted N q')"
proof (intro conjI allI impI)
  note guarded = guarded_aborts [OF closes]
  show "(\<exists>session. r = Ok session) \<or> handshake_aborted N q'"
    if "quion_Session_connect open_first N Ch ident U H S ho ho' fuel url q = Some
        (r :: (('id, 'u, 's, 'r, 'c, 'x, 'd, 'v, 'ch) quion_Session \<times> _, ('c, 'x, 'p, 'm, 'st, 'ee, 'te) quion_ClientError) res, q')" for r q'
    by (rule guarded) (rule that [unfolded quion_Session_connect_def])
  show "(\<exists>req. r = Ok req) \<or> handshake_aborted N q'"
    if "quion_Request_accept open_first N U H ho ho' fuel q = Some
        (r :: (('q, 'u, 's, 'r, 'v) quion_Request, ('c, 'x, 'p, 'm, 'st, 'ee, 'ge, 'te) quion_ServerError) res, q')" for r q'
    by (rule guarded) (rule that [unfolded quion_Request_accept_def])
  show "(\<exists>session. r = Ok session) \<or> handshake_aborted N q'"
    if c: "quion_Client_connect W T open_first N Ch ident U H S ho ho' fuel self url = Some
        (r :: (('id, 'u, 's, 'r, 'c, 'x, 'd, 'v, 'ch) quion_Session \<times> _, ('c, 'x, 'p, 'm, 'st, 'ee, 'te) quion_ClientError) res, Some q')" for r q'
  proof -
    from c have "(\<exists>q1. q' = HandshakeGuard_drop N HandshakeGuard_new q1) \<or>
        (\<exists>conn. quion_Session_connect open_first N Ch ident U H S ho ho' fuel url conn = Some (r, q'))"
      by (auto simp: quion_Client_connect_def split: res.splits option.splits)
    then show ?thesis
    proof (elim disjE exE)
      fix q1 assume "q' = HandshakeGuard_drop N HandshakeGuard_new q1"
      then show ?thesis using drop_guard_aborts [OF closes] by simp
    next
      fix conn assume "quion_Session_connect open_first N Ch ident U H S ho ho' fuel url conn = Some (r, q')"
      then show ?thesis unfolding quion_Session_connect_def by (rule guarded)
    qed
  qed
qed

theorem failed_handshake_closes_witness:
  "\<exists>e q'. quion_Request_accept False example_quion_connection example_url_api example_http_api (\<lambda>s. s) (\<lambda>h. h) 9
      (([], []), None) = Some (Err e :: ((_, _, _, _, nat) quion_Request,
        (unit, unit, unit, unit, bool, unit, unit, unit) quion_ServerError) res, q') \<and>
    handshake_aborted example_quion_connection q'"
proof -
  have closes: "\<And>code why q. NC_is_closed example_quion_connection (NC_close example_quion_connection code why q)"
    by (simp add: example_quion_connection_def split: option.split)
  have ended: "Settings_read 9 slice_read [] = Some (Err SettingsError_UnexpectedEnd)" by code_simp
  obtain e q' where r: "quion_Request_accept False example_quion_connection example_url_api example_http_api
      (\<lambda>s. s) (\<lambda>h. h) 9 (([], []), None) = Some (Err e :: ((_, _, _, _, nat) quion_Request,
        (unit, unit, unit, unit, bool, unit, unit, unit) quion_ServerError) res, q')"
  proof (rule that)
    show "quion_Request_accept False example_quion_connection example_url_api example_http_api
      (\<lambda>s. s) (\<lambda>h. h) 9 (([], []), None) = Some (Err (NSRV_SettingsError (NSS_ProtoError SettingsError_UnexpectedEnd)) ::
        ((_, _, _, _, nat) quion_Request, (unit, unit, unit, unit, bool, unit, unit, unit) quion_ServerError) res,
        (([], []), Some (N_OtherConnectionError ())))"
      using ended by (simp add: quion_Request_accept_def quion_Settings_connect_def quion_Settings_accept_def
          run_bind_def run_err_def run_at_def guarded_def HandshakeGuard_new_def HandshakeGuard_drop_def
          example_quion_connection_def)
  qed
  have "\<forall>r q'. quion_Request_accept False example_quion_connection example_url_api example_http_api (\<lambda>s. s) (\<lambda>h. h) 9
      (([], []), None) = Some (r :: ((_, _, _, _, nat) quion_Request,
        (unit, unit, unit, unit, bool, unit, unit, unit) quion_ServerError) res, q') \<longrightarrow>
      (\<exists>req. r = Ok req) \<or> handshake_aborted example_quion_connection q'"
    by (rule failed_handshake_closes [OF closes, THEN conjunct2, THEN conjunct1])
  with r show ?thesis by blast
qed

text \<open>
  C17. A server over Quion loses no handshake, and its driver reaches every session. Take any sequence
  of what \<^verbatim>\<open>select!\<close> yields. While it passes over arms, \<^verbatim>\<open>accept\<close> has in flight the handshakes it had before
  and behind them the first connections that arrived, as many as the limit leaves room for. It
  returns on the first arm it can and not otherwise: on the end of the endpoint where there is
  room, leaving all of these in flight, and on the completion of one of them, with the result of just this
  one, leaving all others. So no more are in flight afterwards than the limit, and nothing
  else of the server has changed. A handshake that outlives a deadline fails with the timeout error. A
  request it returns, and every session made of that request, holds the server's driver.
\<close>

theorem quion_server_admission:
  fixes connecting :: "'inc \<Rightarrow> ('q, 'c quion_ConnectionError) res" and self :: "('inc, 'v) quion_Server"
    and request :: "'q \<Rightarrow> (('q, 'u, 's, 'r, 'v) quion_Request, ('c, 'x, 'p, 'm, 'st, 'ee, 'ge, 'te) quion_ServerError) res"
  assumes limit: "length (n_pending_handshakes self) \<le> n_max_pending_handshakes self"
  shows "accept_answer (quion_handshake connecting request expires (n_server_driver self) (n_handshake_timeout self))
      (n_max_pending_handshakes self) (n_pending_handshakes self) arms
      (map_option (\<lambda>(r, self'). (r, n_pending_handshakes self')) (quion_Server_accept connecting request expires arms self)) \<and>
    (\<forall>inc. n_handshake_timeout self \<noteq> None \<and> expires inc \<longrightarrow>
      quion_handshake connecting request expires (n_server_driver self) (n_handshake_timeout self) inc = Err NSRV_HandshakeTimeout) \<and>
    (\<forall>r self'. quion_Server_accept connecting request expires arms self = Some (r, self') \<longrightarrow>
      self' = self\<lparr>n_pending_handshakes := n_pending_handshakes self'\<rparr> \<and>
      length (n_pending_handshakes self') \<le> n_max_pending_handshakes self \<and>
      (\<forall>req. r = Some (Ok req) \<longrightarrow> n_request_driver req = n_server_driver self \<and>
        (\<forall>(N :: ('q, 's, 'r, 'c, 'd) quion_connection) Ch ident (H :: ('m, 'st) http_api) S ho session task conn.
          quion_Request_ok N Ch ident H S ho req = (Ok (((session :: ('id, 'u, 's, 'r, 'c, 'x, 'd, 'v, 'ch) quion_Session), task), conn) ::
            (_, ('c, 'x, 'p, 'm, 'st, 'ee, 'ge, 'te) quion_ServerError) res) \<longrightarrow>
          n_session_driver session = n_server_driver self)))"
proof (intro conjI)
  show answers: "accept_answer (quion_handshake connecting request expires (n_server_driver self) (n_handshake_timeout self))
      (n_max_pending_handshakes self) (n_pending_handshakes self) arms
      (map_option (\<lambda>(r, self'). (r, n_pending_handshakes self')) (quion_Server_accept connecting request expires arms self))"
    by (rule quion_Server_accept_answers(1))
  show "\<forall>inc. n_handshake_timeout self \<noteq> None \<and> expires inc \<longrightarrow>
      quion_handshake connecting request expires (n_server_driver self) (n_handshake_timeout self) inc = Err NSRV_HandshakeTimeout"
    by (auto simp: quion_handshake_def Let_def)
  show "\<forall>r self'. quion_Server_accept connecting request expires arms self = Some (r, self') \<longrightarrow>
      self' = self\<lparr>n_pending_handshakes := n_pending_handshakes self'\<rparr> \<and>
      length (n_pending_handshakes self') \<le> n_max_pending_handshakes self \<and>
      (\<forall>req. r = Some (Ok req) \<longrightarrow> n_request_driver req = n_server_driver self \<and>
        (\<forall>(N :: ('q, 's, 'r, 'c, 'd) quion_connection) Ch ident (H :: ('m, 'st) http_api) S ho session task conn.
          quion_Request_ok N Ch ident H S ho req = (Ok (((session :: ('id, 'u, 's, 'r, 'c, 'x, 'd, 'v, 'ch) quion_Session), task), conn) ::
            (_, ('c, 'x, 'p, 'm, 'st, 'ee, 'ge, 'te) quion_ServerError) res) \<longrightarrow>
          n_session_driver session = n_server_driver self))"
  proof (intro allI impI)
    fix r self'
    assume a: "quion_Server_accept connecting request expires arms self = Some (r, self')"
    have "length (n_pending_handshakes self') \<le> n_max_pending_handshakes self"
      using accept_answer_bound [OF _ limit] answers by (simp add: a)
    moreover have "n_request_driver req = n_server_driver self" if "r = Some (Ok req)" for req
      using quion_accepted_request a that by blast
    ultimately show "self' = self\<lparr>n_pending_handshakes := n_pending_handshakes self'\<rparr> \<and>
      length (n_pending_handshakes self') \<le> n_max_pending_handshakes self \<and>
      (\<forall>req. r = Some (Ok req) \<longrightarrow> n_request_driver req = n_server_driver self \<and>
        (\<forall>(N :: ('q, 's, 'r, 'c, 'd) quion_connection) Ch ident (H :: ('m, 'st) http_api) S ho session task conn.
          quion_Request_ok N Ch ident H S ho req = (Ok (((session :: ('id, 'u, 's, 'r, 'c, 'x, 'd, 'v, 'ch) quion_Session), task), conn) ::
            (_, ('c, 'x, 'p, 'm, 'st, 'ee, 'ge, 'te) quion_ServerError) res) \<longrightarrow>
          n_session_driver session = n_server_driver self))"
      using quion_Server_accept_answers(2) [OF a] by (auto dest: quion_Request_ok_driver)
  qed
qed

theorem quion_server_admission_witness:
  "accept_answer (\<lambda>conn. Ok \<lparr>n_request_driver = Some 7, n_request_conn = Some conn, n_request_settings = None,
        n_request_connect = None, n_request_url = ()\<rparr> ::
      ((nat, unit, unit, unit, nat) quion_Request, (unit, unit, unit, unit, bool, unit, unit, unit) quion_ServerError) res)
    1 [] [Arm_incoming (Some 4), Arm_incoming (Some 5), Arm_completes 0]
    (Some (Some (Ok \<lparr>n_request_driver = Some 7, n_request_conn = Some 4, n_request_settings = None,
        n_request_connect = None, n_request_url = ()\<rparr>), []))"
proof -
  let ?request = "\<lambda>conn. Ok \<lparr>n_request_driver = None, n_request_conn = Some conn, n_request_settings = None,
      n_request_connect = None, n_request_url = ()\<rparr> ::
      ((nat, unit, unit, unit, nat) quion_Request, (unit, unit, unit, unit, bool, unit, unit, unit) quion_ServerError) res"
  let ?self = "quion_Server_with_accept_limits 7 (Some 5) 1"
  let ?arms = "[Arm_incoming (Some 4), Arm_incoming (Some 5), Arm_completes 0]"
  have self: "?self = \<lparr>n_server_driver = Some 7, n_pending_handshakes = [], n_handshake_timeout = Some 5, n_max_pending_handshakes = 1\<rparr>"
    by (simp add: quion_Server_with_accept_limits_def)
  have a: "quion_Server_accept Ok ?request (\<lambda>_. False) ?arms ?self =
      Some (Some (Ok \<lparr>n_request_driver = Some 7, n_request_conn = Some 4, n_request_settings = None,
        n_request_connect = None, n_request_url = ()\<rparr>), ?self)"
    unfolding self by (simp add: quion_handshake_def remove_at_def)
  have limit: "length (n_pending_handshakes ?self) \<le> n_max_pending_handshakes ?self" unfolding self by simp
  have run: "quion_handshake Ok ?request (\<lambda>_. False) (Some 7) (Some 5) =
      (\<lambda>conn. Ok \<lparr>n_request_driver = Some 7, n_request_conn = Some conn, n_request_settings = None,
        n_request_connect = None, n_request_url = ()\<rparr>)"
    by (simp add: quion_handshake_def fun_eq_iff)
  from quion_server_admission [OF limit, of Ok ?request "\<lambda>_. False" ?arms, THEN conjunct1]
  show ?thesis unfolding a self by (simp add: run remove_at_def)
qed

end
