(* ===== verification/Backends.thy ===== *)
theory Backends
  imports Quion_Session
begin

section \<open>A session whose ends run different backends\<close>

text \<open>
  The two backends are separate copies of the protocol. The lemmas close a session over Quion, and
  the property puts a Quion session and a Quinn session at the two ends of one CONNECT stream.
\<close>

subsection \<open>Closing over Quion\<close>

text \<open>\<^verbatim>\<open>finish\<close> adds no bytes; neither it nor \<^verbatim>\<open>stopped\<close> panics.\<close>

definition quion_close_laws :: "('s, 'c, 'x, 'i) quion_send \<Rightarrow> ('s \<Rightarrow> bytes) \<Rightarrow> bool" where
  "quion_close_laws S sent \<longleftrightarrow>
     (\<forall>s. case N_finish S s of (r, s') \<Rightarrow> r \<noteq> Panic \<and> sent s' = sent s) \<and>
     (\<forall>s. case N_stopped S s of (r, s') \<Rightarrow> r \<noteq> Panic \<and> sent s' = sent s)"

lemma quion_write_law:
  assumes "quion_connection_laws N sent content"
  shows "case NC_write_all N bs s of (Ok _, s') \<Rightarrow> sent s' = sent s @ bs | (Err _, _) \<Rightarrow> True | (Panic, _) \<Rightarrow> False"
proof -
  note w = quion_laws_quinn [OF assms, unfolded quinn_connection_laws_def, THEN conjunct2, THEN conjunct1,
      THEN spec [of _ bs], THEN spec [of _ s], unfolded quinn_of_sel]
  obtain r s1 where "NC_write_all N bs s = (r, s1)" by (metis prod.exhaust)
  then show ?thesis using w by (cases r) simp_all
qed

lemma quion_submit_close_sends:
  assumes laws: "quion_connection_laws N sent content" "quion_close_laws S sent" and ok: "capsule_ok c"
  obtains r s' where "quion_submit_close N S c s = (r, s')" and "r \<noteq> Panic"
    and "\<And>s1. NC_write_all N (frame_wire (Frame_DATA, capsule_wire c)) s = (Ok (), s1) \<Longrightarrow>
      sent s' = sent s @ frame_wire (Frame_DATA, capsule_wire c)"
proof -
  let ?w = "frame_wire (Frame_DATA, capsule_wire c)"
  obtain r1 s1 where w: "NC_write_all N ?w s = (r1, s1)" by (metis prod.exhaust)
  have "case (r1, s1) of (Ok _, s') \<Rightarrow> sent s' = sent s @ ?w | (Err _, s') \<Rightarrow> True | (Panic, _) \<Rightarrow> False"
    using quion_write_law [OF laws(1), where bs = ?w and s = s] unfolding w .
  then have wl: "r1 \<noteq> Panic" "r1 = Ok () \<Longrightarrow> sent s1 = sent s @ ?w" by (cases r1; simp)+
  obtain r2 s2 where f: "N_finish S s1 = (r2, s2)" by (metis prod.exhaust)
  obtain r3 s3 where st: "N_stopped S s2 = (r3, s3)" by (metis prod.exhaust)
  have "case N_finish S s1 of (r, s') \<Rightarrow> r \<noteq> Panic \<and> sent s' = sent s1"
    "case N_stopped S s2 of (r, s') \<Rightarrow> r \<noteq> Panic \<and> sent s' = sent s2"
    using laws(2) by (simp_all add: quion_close_laws_def)
  then have fl: "r2 \<noteq> Panic" "sent s2 = sent s1" "r3 \<noteq> Panic" "sent s3 = sent s2" using f st by simp_all
  have eq: "quion_submit_close N S c s = (case r1 of
      Err e \<Rightarrow> (Err (CapsuleError_Io e), s1) | Panic \<Rightarrow> (Panic, s1) | Ok _ \<Rightarrow> (ok r3, s3))"
    using fl(1) by (cases r1; cases r2)
      (simp_all add: quion_submit_close_def copies write_capsule_frame_wire(1) [OF ok] w f st)
  show thesis
  proof (rule that [of "fst (quion_submit_close N S c s)" "snd (quion_submit_close N S c s)"])
    show "fst (quion_submit_close N S c s) \<noteq> Panic"
      using wl(1) fl(3) unfolding eq by (cases r1) simp_all
    show "sent (snd (quion_submit_close N S c s)) = sent s @ ?w" if "NC_write_all N ?w s = (Ok (), s4)" for s4
      using wl(2) fl that w unfolding eq by simp
  qed simp
qed

lemma quion_run_closed_close_returns:
  assumes laws: "quion_connection_laws N sent content" "quion_close_laws S sent"
    and r: "utf8_valid r" "length r \<le> 1024"
  obtains task' where
    "quion_run_closed_close N S (Some \<lparr>n_code = code, n_reason = r\<rparr>) elapsed task = Loop_return (Ok (Some (code, r))) task'"
    and "\<And>s1. elapsed = None \<Longrightarrow>
      NC_write_all N (frame_wire (Frame_DATA, capsule_wire (CloseWebTransportSession code r))) (task_send task) = (Ok (), s1) \<Longrightarrow>
      sent (task_send task') = sent (task_send task) @ frame_wire (Frame_DATA, capsule_wire (CloseWebTransportSession code r))"
proof -
  let ?c = "CloseWebTransportSession code r"
  have id: "capsule_reason r = r" by (rule capsule_reason_props(4) [OF r])
  have ok: "capsule_ok ?c" using capsule_reason_ok [of code r] by (simp only: id)
  obtain x s' where s: "quion_submit_close N S ?c (task_send task) = (x, s')" "x \<noteq> Panic"
    and sent: "\<And>s1. NC_write_all N (frame_wire (Frame_DATA, capsule_wire ?c)) (task_send task) = (Ok (), s1) \<Longrightarrow>
      sent s' = sent (task_send task) @ frame_wire (Frame_DATA, capsule_wire ?c)"
    using quion_submit_close_sends [OF laws ok] by blast
  show thesis
  proof (cases elapsed)
    case None
    then show thesis
      using s sent by (intro that [of "task\<lparr>task_send := s'\<rparr>"])
        (auto simp: quion_run_closed_close_def copies id Let_def split: res.split)
  next
    case (Some s2)
    then show thesis
      by (intro that [of "task\<lparr>task_send := s2\<rparr>"]) (simp_all add: quion_run_closed_close_def copies id Let_def)
  qed
qed

lemma quion_run_closed_reads_close:
  assumes laws: "quion_connection_laws N sent content"
    and ok: "capsule_ok (CloseWebTransportSession code r)" and p: "pending_capsules task = []"
    and c: "content (task_recv task) = frame_wire (Frame_DATA, capsule_wire (CloseWebTransportSession code r)) @ rest"
  shows "\<exists>task'. quion_run_closed N S (Suc (Suc fuel)) (N_Arm_capsule # arms) task = Some (Ok (Some (code, r)), task')"
proof -
  obtain recv' where "read_capsule_frame (Suc (Suc fuel)) (NC_read_exact N) (task_recv task) [] =
      Some (Ok (CloseWebTransportSession code r, recv', []))"
    using read_capsule_frame_one [OF quion_reads [OF laws] ok c] by blast
  then show ?thesis by (simp add: p quion_run_closed_capsule_def quion_read_frame del: quion_read_capsule_frame.simps)
qed

lemma quion_accepts_wire:
  assumes rd: "reads_exactly rd content" and sid: "varint_ok sid"
  shows "content r = varint_wire (stream_type UniStream_WEBTRANSPORT) @ varint_wire sid @ payload \<Longrightarrow>
      \<exists>r'. quion_accepts_uni rd sid r = Some (quion_RecvStream_new r') \<and> content r' = payload"
    and "content r = varint_wire (frame_type Frame_WEBTRANSPORT) @ varint_wire sid @ payload \<Longrightarrow>
      \<exists>r'. quion_accepts_bi rd sid (send, r) = Some (quion_SendStream_new send, quion_RecvStream_new r') \<and>
        content r' = payload"
  using accepts_uni_wire [OF rd sid, of r payload] accepts_bi_wire [OF rd sid, of r payload send]
  by (auto simp: quion_accepts_uni_def quion_accepts_bi_def)

subsection \<open>Each way across\<close>

text \<open>
  \<open>names\<close> and \<open>peer_names\<close> say that the headers of a session are those of the identifier.
\<close>

definition names :: "VarInt \<Rightarrow> ('id, 'u, 's, 'r, 'c, 'x, 'd, 'v, 'ch) quion_Session \<Rightarrow> bool" where
  "names sid self \<longleftrightarrow> varint_ok sid \<and> n_session_id self = Some sid \<and>
     n_header_uni self = varint_wire (stream_type UniStream_WEBTRANSPORT) @ varint_wire sid \<and>
     n_header_bi self = varint_wire (frame_type Frame_WEBTRANSPORT) @ varint_wire sid \<and>
     n_header_datagram self = varint_wire sid"

definition peer_names :: "VarInt \<Rightarrow> ('u, 's, 'r, 'c, 'ch) Session \<Rightarrow> bool" where
  "peer_names sid peer \<longleftrightarrow> varint_ok sid \<and> session_id peer = Some sid \<and>
     header_uni peer = varint_wire (stream_type UniStream_WEBTRANSPORT) @ varint_wire sid \<and>
     header_bi peer = varint_wire (frame_type Frame_WEBTRANSPORT) @ varint_wire sid \<and>
     header_datagram peer = varint_wire sid"

lemma quion_uni_reaches_quinn:
  fixes N :: "('q, 's, 'r, 'c, 'd) quion_connection" and S :: "('s, 'c, 'x, 'i) quion_send"
  assumes "names sid self" and "quion_send_laws S sent kept" and "reads_exactly rd content'"
    and "NC_open_uni N q = (Ok s0, q1)" and "sent s0 = []" and "quion_Session_open_uni N S self q = (Ok s, q')"
    and "content' r = sent (n_stream s) @ payload"
  shows "\<exists>r'. accepts_uni rd sid r = Some (RecvStream_new r') \<and> content' r' = payload"
proof (rule accepts_uni_wire [OF assms(3)])
  show "content' r = varint_wire (stream_type UniStream_WEBTRANSPORT) @ varint_wire sid @ payload"
    using assms(1,7) quion_open_uni_header(1) [OF assms(2,6,4,5)] by (simp add: names_def)
qed (use assms(1) in \<open>simp add: names_def\<close>)

lemma quion_bi_reaches_quinn:
  fixes N :: "('q, 's, 'r, 'c, 'd) quion_connection" and S :: "('s, 'c, 'x, 'i) quion_send"
  assumes "names sid self" and "quion_send_laws S sent kept" and "reads_exactly rd content'"
    and "NC_open_bi N q = (Ok (s0, r0), q1)" and "sent s0 = []" and "quion_Session_open_bi N S self q = (Ok (s, u), q')"
    and "content' r = sent (n_stream s) @ payload"
  shows "\<exists>r'. accepts_bi rd sid (send, r) = Some (SendStream_new send, RecvStream_new r') \<and> content' r' = payload"
proof (rule accepts_bi_wire [OF assms(3)])
  show "content' r = varint_wire (frame_type Frame_WEBTRANSPORT) @ varint_wire sid @ payload"
    using assms(1,7) quion_open_bi_header(1) [OF assms(2,6,4,5)] by (simp add: names_def)
qed (use assms(1) in \<open>simp add: names_def\<close>)

lemma quinn_uni_reaches_quion:
  fixes C :: "('q, 's, 'r, 'c, 'd) quinn_connection"
  assumes "peer_names sid peer" and "quinn_write_all_laws Q sent'" and "reads_exactly rd content"
    and "QC_open_uni C q = (Ok s0, q1)" and "sent' s0 = []"
    and "Session_open_uni C Q peer q = (Ok s :: (_, ('c, 'd) SessionError) res, q')"
    and "content r = sent' (send_stream s) @ payload"
  shows "\<exists>r'. quion_accepts_uni rd sid r = Some (quion_RecvStream_new r') \<and> content r' = payload"
proof (rule quion_accepts_wire(1) [OF assms(3)])
  show "content r = varint_wire (stream_type UniStream_WEBTRANSPORT) @ varint_wire sid @ payload"
    using assms(1,7) Session_open_uni_header(1) [OF assms(2,6,4,5)] by (simp add: peer_names_def)
qed (use assms(1) in \<open>simp add: peer_names_def\<close>)

lemma quinn_bi_reaches_quion:
  fixes C :: "('q, 's, 'r, 'c, 'd) quinn_connection"
  assumes "peer_names sid peer" and "quinn_write_all_laws Q sent'" and "reads_exactly rd content"
    and "QC_open_bi C q = (Ok (s0, r0), q1)" and "sent' s0 = []"
    and "Session_open_bi C Q peer q = (Ok (s, u) :: (_, ('c, 'd) SessionError) res, q')"
    and "content r = sent' (send_stream s) @ payload"
  shows "\<exists>r'. quion_accepts_bi rd sid (send, r) = Some (quion_SendStream_new send, quion_RecvStream_new r') \<and>
    content r' = payload"
proof (rule quion_accepts_wire(2) [OF assms(3)])
  show "content r = varint_wire (frame_type Frame_WEBTRANSPORT) @ varint_wire sid @ payload"
    using assms(1,7) Session_open_bi_header(1) [OF assms(2,6,4,5)] by (simp add: peer_names_def)
qed (use assms(1) in \<open>simp add: peer_names_def\<close>)

lemma datagrams_reach:
  assumes "names sid self" and "peer_names sid peer"
  shows "QC_read_datagram C q = (Ok (n_header_datagram self @ payload), q') \<Longrightarrow>
      Session_read_datagram C peer q = (Ok payload, q')"
    and "NC_read_datagram_bytes N q2 = (Ok (header_datagram peer @ payload), q2') \<Longrightarrow>
      quion_Session_read_datagram N self q2 = (Ok payload, q2')"
proof -
  have dec: "VarInt_decode (varint_wire sid @ payload) = Ok (sid, payload)"
    by (rule varint.dec_wire) (use assms(1) in \<open>simp add: names_def\<close>)
  show "Session_read_datagram C peer q = (Ok payload, q')"
    if "QC_read_datagram C q = (Ok (n_header_datagram self @ payload), q')"
    using that assms dec by (simp add: Session_read_datagram_def names_def peer_names_def)
  show "quion_Session_read_datagram N self q2 = (Ok payload, q2')"
    if "NC_read_datagram_bytes N q2 = (Ok (header_datagram peer @ payload), q2')"
    using that assms dec by (simp add: quion_Session_read_datagram_def names_def peer_names_def)
qed

lemma close_reason_capsule_ok: "utf8_valid r \<Longrightarrow> length r \<le> 1024 \<Longrightarrow> capsule_ok (CloseWebTransportSession code r)"
  using capsule_reason_ok [of code r] capsule_reason_props(4) [of r] by simp

subsection \<open>Properties\<close>

text \<open>
  C18. The backends interoperate. A Quion session and a Quinn session over the two ends of one CONNECT
  stream have the same identifier. A stream that either opens, in one direction or both, is accepted
  by the other with exactly the application's bytes left to read, and a datagram of either arrives
  with its payload. The close request that either submits makes its own task return its code and
  reason, and the bytes it puts on the CONNECT stream make the other's task return the same.
\<close>

theorem backends_interoperate:
  fixes N :: "('q, 's, 'r, 'c, 'd) quion_connection" and C :: "('q2, 's2, 'r2, 'c2, 'd2) quinn_connection"
    and S :: "('s, 'c, 'x, 'i) quion_send" and Q :: "('s2, 'c2, 'w, 'j) quinn_send"
    and self :: "('id, 'u, 's, 'r, 'c, 'x, 'd, 'v, 'ch) quion_Session"
    and own :: "('s, 'r) closed_task" and other :: "('s2, 'r2) closed_task"
  assumes laws: "quion_connection_laws N sent content" "quinn_connection_laws C sent' content'"
      "quion_send_laws S sent kept" "quinn_write_all_laws Q sent'"
    and closing: "quion_close_laws S sent" "quinn_close_laws Q sent'"
    and new: "quion_Session_with_driver N Ch ident settings connect driver = (Ok (self, task) :: (_, 'e) res)"
      "Session_new C Ch' settings' connect' = (Ok (peer, task') :: (_, 'e2) res)"
    and same: "NC_stream_id N (n_connect_send connect) = Some (QC_stream_id C (connect_send connect'))"
    and why: "utf8_valid why" "length why \<le> 1024"
    and credit: "NC_write_all N (frame_wire (Frame_DATA, capsule_wire (CloseWebTransportSession code why))) (task_send own) = (Ok (), own1)"
      "QC_write_all C (frame_wire (Frame_DATA, capsule_wire (CloseWebTransportSession code why))) (task_send other) = (Ok (), other1)"
    and idle: "pending_capsules own = []" "pending_capsules other = []"
  shows "\<exists>sid own' other'. n_session_id self = Some sid \<and> session_id peer = Some sid \<and>
    (\<forall>q q1 q' s0 s r payload. NC_open_uni N q = (Ok s0, q1) \<and> sent s0 = [] \<and>
       quion_Session_open_uni N S self q = (Ok s, q') \<and> content' r = sent (n_stream s) @ payload \<longrightarrow>
       (\<exists>r'. accepts_uni (QC_read_exact C) sid r = Some (RecvStream_new r') \<and> content' r' = payload)) \<and>
    (\<forall>q q1 q' s0 s r payload. QC_open_uni C q = (Ok s0, q1) \<and> sent' s0 = [] \<and>
       Session_open_uni C Q peer q = (Ok s :: (_, ('c2, 'd2) SessionError) res, q') \<and>
       content r = sent' (send_stream s) @ payload \<longrightarrow>
       (\<exists>r'. quion_accepts_uni (NC_read_exact N) sid r = Some (quion_RecvStream_new r' :: (_, 'v) quion_RecvStream) \<and>
          content r' = payload)) \<and>
    (\<forall>q q1 q' s0 r0 s u r send payload. NC_open_bi N q = (Ok (s0, r0), q1) \<and> sent s0 = [] \<and>
       quion_Session_open_bi N S self q = (Ok (s, u), q') \<and> content' r = sent (n_stream s) @ payload \<longrightarrow>
       (\<exists>r'. accepts_bi (QC_read_exact C) sid (send :: 's2, r) = Some (SendStream_new send, RecvStream_new r') \<and>
          content' r' = payload)) \<and>
    (\<forall>q q1 q' s0 r0 s u r send payload. QC_open_bi C q = (Ok (s0, r0), q1) \<and> sent' s0 = [] \<and>
       Session_open_bi C Q peer q = (Ok (s, u) :: (_, ('c2, 'd2) SessionError) res, q') \<and>
       content r = sent' (send_stream s) @ payload \<longrightarrow>
       (\<exists>r'. quion_accepts_bi (NC_read_exact N) sid (send :: 's, r) =
          Some (quion_SendStream_new send :: (_, 'v) quion_SendStream, quion_RecvStream_new r') \<and> content r' = payload)) \<and>
    (\<forall>q q' payload. QC_read_datagram C q = (Ok (n_header_datagram self @ payload), q') \<longrightarrow>
       Session_read_datagram C peer q = (Ok payload, q')) \<and>
    (\<forall>q q' payload. NC_read_datagram_bytes N q = (Ok (header_datagram peer @ payload), q') \<longrightarrow>
       quion_Session_read_datagram N self q = (Ok payload, q')) \<and>
    quion_run_closed_close N S (Some \<lparr>n_code = code, n_reason = why\<rparr>) None own = Loop_return (Ok (Some (code, why))) own' \<and>
    run_closed_close C Q (Some \<lparr>close_code = code, close_reason = why\<rparr>) None other = Loop_return (Ok (Some (code, why))) other' \<and>
    (sent (task_send own') = sent (task_send own) @ content' (task_recv other) \<longrightarrow>
       (\<exists>t. run_closed C Q (Suc (Suc fuel)) (Arm_capsule # arms) other = Some (Ok (Some (code, why)), t))) \<and>
    (sent' (task_send other') = sent' (task_send other) @ content (task_recv own) \<longrightarrow>
       (\<exists>t. quion_run_closed N S (Suc (Suc fuel)) (N_Arm_capsule # arms2) own = Some (Ok (Some (code, why)), t)))"
proof -
  define sid where "sid = VarInt (QC_stream_id C (connect_send connect'))"
  note you = Session_new_ok [OF laws(2) sid_def]
  have n: "names sid self" "peer_names sid peer"
    using new you(2) by (auto simp: names_def peer_names_def quion_Session_with_driver_ok [OF laws(1) same] you(1) sid_def)
  note rd = quion_reads [OF laws(1)] and rd' = quinn_reads [OF laws(2)]
  note ok = close_reason_capsule_ok [OF why, of code]
  obtain own' where o: "quion_run_closed_close N S (Some \<lparr>n_code = code, n_reason = why\<rparr>) None own =
        Loop_return (Ok (Some (code, why))) own'"
      "sent (task_send own') = sent (task_send own) @ frame_wire (Frame_DATA, capsule_wire (CloseWebTransportSession code why))"
    using quion_run_closed_close_returns [OF laws(1) closing(1) why, of code None own] credit(1) by metis
  obtain other' where t: "run_closed_close C Q (Some \<lparr>close_code = code, close_reason = why\<rparr>) None other =
        Loop_return (Ok (Some (code, why))) other'"
      "sent' (task_send other') = sent' (task_send other) @ frame_wire (Frame_DATA, capsule_wire (CloseWebTransportSession code why))"
    using run_closed_close_returns [OF laws(2) closing(2) why, of code None other] credit(2) by metis
  show ?thesis
  proof (rule exI [of _ sid], rule exI [of _ own'], rule exI [of _ other'], intro conjI allI impI o(1) t(1))
    show "n_session_id self = Some sid" "session_id peer = Some sid" using n by (simp_all add: names_def peer_names_def)
    show "\<exists>t. run_closed C Q (Suc (Suc fuel)) (Arm_capsule # arms) other = Some (Ok (Some (code, why)), t)"
      if "sent (task_send own') = sent (task_send own) @ content' (task_recv other)"
      using that o(2) by (intro run_closed_reads_close [OF laws(2) ok idle(2), where rest = "[]"]) simp
    show "\<exists>t. quion_run_closed N S (Suc (Suc fuel)) (N_Arm_capsule # arms2) own = Some (Ok (Some (code, why)), t)"
      if "sent' (task_send other') = sent' (task_send other) @ content (task_recv own)"
      using that t(2) by (intro quion_run_closed_reads_close [OF laws(1) ok idle(1), where rest = "[]"]) simp
  qed (erule conjE | rule quion_uni_reaches_quinn [OF n(1) laws(3) rd'] quinn_uni_reaches_quion [OF n(2) laws(4) rd]
      quion_bi_reaches_quinn [OF n(1) laws(3) rd'] quinn_bi_reaches_quion [OF n(2) laws(4) rd]
      datagrams_reach [OF n] | assumption)+
qed

lemma example_close_laws: "quion_close_laws example_quion_send fst" "quinn_close_laws example_quinn_send (\<lambda>s. s)"
    "quinn_write_all_laws example_quinn_send (\<lambda>s. s)"
  by (simp_all add: quion_close_laws_def quinn_close_laws_def quinn_write_all_laws_def example_quion_send_def
      example_quinn_send_def)

theorem backends_interoperate_witness:
  "\<exists>(self :: (unit, unit, bytes \<times> nat option, bytes, unit, unit, unit, unit, quion_CloseCommand channel_view) quion_Session) task
      (peer :: (unit, bytes, bytes, unit, CloseCommand channel_view) Session) task'.
    quion_Session_with_driver example_quion_connection example_mpsc ()
      \<lparr>n_settings_send = ([], None), n_settings_recv = []\<rparr>
      \<lparr>n_connect_request = \<lparr>request_url = ()\<rparr>, n_connect_send = ([], None), n_connect_recv = []\<rparr> None =
      (Ok (self, task) :: (_, unit) res) \<and>
    Session_new example_connection example_mpsc \<lparr>settings_send = [], settings_recv = []\<rparr>
      \<lparr>connect_request = \<lparr>request_url = ()\<rparr>, connect_send = [], connect_recv = []\<rparr> = (Ok (peer, task') :: (_, unit) res) \<and>
    n_session_id self = session_id peer"
proof -
  let ?qc = "\<lparr>n_connect_request = \<lparr>request_url = ()\<rparr>, n_connect_send = ([], None) :: bytes \<times> nat option, n_connect_recv = [] :: bytes\<rparr>"
    and ?qs = "\<lparr>n_settings_send = ([], None) :: bytes \<times> nat option, n_settings_recv = [] :: bytes\<rparr>"
    and ?connect = "\<lparr>connect_request = \<lparr>request_url = ()\<rparr>, connect_send = [] :: bytes, connect_recv = [] :: bytes\<rparr>"
    and ?settings = "\<lparr>settings_send = [] :: bytes, settings_recv = [] :: bytes\<rparr>"
    and ?w = "frame_wire (Frame_DATA, capsule_wire (CloseWebTransportSession 7 [0x62]))"
    and ?own = "\<lparr>task_send = ([], None), task_recv = [], pending_capsules = []\<rparr> :: (bytes \<times> nat option, bytes) closed_task"
    and ?other = "\<lparr>task_send = [], task_recv = [], pending_capsules = []\<rparr> :: (bytes, bytes) closed_task"
  have same: "NC_stream_id example_quion_connection (n_connect_send ?qc) =
      Some (QC_stream_id example_connection (connect_send ?connect))"
    by (simp add: example_quion_connection_def example_connection_def)
  have id: "VarInt 0 = VarInt (QC_stream_id example_connection (connect_send ?connect))"
    by (simp add: example_connection_def)
  obtain self :: "(unit, unit, bytes \<times> nat option, bytes, unit, unit, unit, unit, quion_CloseCommand channel_view) quion_Session"
      and task where new: "quion_Session_with_driver example_quion_connection example_mpsc () ?qs ?qc None =
        (Ok (self, task) :: (_, unit) res)"
    by (simp add: quion_Session_with_driver_ok [OF example_quion_connection_laws(1) same])
  obtain peer :: "(unit, bytes, bytes, unit, CloseCommand channel_view) Session" and task' where
      new': "Session_new example_connection example_mpsc ?settings ?connect = (Ok (peer, task') :: (_, unit) res)"
    by (simp add: Session_new_ok(1) [OF example_connection_laws id])
  have credit: "NC_write_all example_quion_connection ?w (task_send ?own) = (Ok (), (?w, None))"
    "QC_write_all example_connection ?w (task_send ?other) = (Ok (), ?w)"
    by (simp_all add: example_quion_connection_def example_connection_def)
  have why: "utf8_valid [0x62]" "length [0x62 :: u8] \<le> 1024" by (simp_all add: utf8_valid_ascii)
  have idle: "pending_capsules ?own = []" "pending_capsules ?other = []" by simp_all
  show ?thesis
    using backends_interoperate [OF example_quion_connection_laws(1) example_connection_laws example_quion_laws(1)
        example_close_laws(3,1,2) new new' same why credit idle] new new' by fastforce
qed

end
