(* ===== verification/Quion_Lifecycle.thy ===== *)
theory Quion_Lifecycle
  imports Backends
begin

section \<open>The life of a session over Quion\<close>

text \<open>
  The handles of a session, the queue of close requests, the error that all clones share and the
  spawned task of \<^verbatim>\<open>webtrans-quion/src/session.rs\<close> as one machine. Its steps are the calls of \<^verbatim>\<open>close\<close>
  and of the accepting methods, cloned and dropped handles, the arms of \<^verbatim>\<open>select!\<close> in \<^verbatim>\<open>run_closed\<close>, the
  end of the task, the task of a raw session, and what the network and the other methods do to the
  connection. The lemmas show an invariant of every reachable state, and that the end of a session
  is reached by every close request, recorded once and never changed.
\<close>

subsection \<open>States and steps\<close>

text \<open>
  The task of a session runs, has returned from \<^verbatim>\<open>run_closed\<close> and dropped the receiver, or is done; the
  task of a raw session waits in its \<^verbatim>\<open>select!\<close> or is done.
\<close>

datatype ('s, 'r) quion_phase = NP_running "('s, 'r) closed_task"
  | NP_ending "((u32 \<times> bytes) option, CapsuleError) res" | NP_raw | NP_done

record ('q, 'z, 's, 'r) quion_world =
  n_world_conn :: 'q
  n_world_session :: 'z
  n_world_phase :: "('s, 'r) quion_phase"

definition quion_session_return :: "('ch, quion_CloseCommand) mpsc \<Rightarrow> ((u32 \<times> bytes) option, CapsuleError) res \<Rightarrow>
    ('q, ('id, 'u, 's, 'r, 'c, 'x, 'd, 'v, 'ch) quion_Session, 's, 'r) quion_world \<Rightarrow>
    ('q, ('id, 'u, 's, 'r, 'c, 'x, 'd, 'v, 'ch) quion_Session, 's, 'r) quion_world" where
  "quion_session_return Ch result w =
     w\<lparr>n_world_phase := NP_ending result,
       n_world_session := (n_world_session w)\<lparr>n_close_tx :=
         map_option (Ch_drop_receiver Ch) (n_close_tx (n_world_session w))\<rparr>\<rparr>"

text \<open>The end of the spawned tasks: the shared error is set and the receiver, if still there, dropped.\<close>

definition quion_session_done :: "('ch, quion_CloseCommand) mpsc \<Rightarrow> ('c, 'x, 'd) quion_SessionError option \<times> 'q \<Rightarrow>
    ('q, ('id, 'u, 's, 'r, 'c, 'x, 'd, 'v, 'ch) quion_Session, 's, 'r) quion_world \<Rightarrow>
    ('q, ('id, 'u, 's, 'r, 'c, 'x, 'd, 'v, 'ch) quion_Session, 's, 'r) quion_world" where
  "quion_session_done Ch st w =
     w\<lparr>n_world_conn := snd st, n_world_phase := NP_done,
       n_world_session := (n_world_session w)\<lparr>n_close_error := fst st,
         n_close_tx := map_option (Ch_drop_receiver Ch) (n_close_tx (n_world_session w))\<rparr>\<rparr>"

text \<open>
  A connection that is closed stays closed. \<open>Cl\<close> is \<^verbatim>\<open>Sender::clone\<close>. Opening streams, datagrams and the
  peer change the connection in the step \<open>network\<close>; streams that arrive wait in the accepting machine.
\<close>

inductive quion_session_step :: "('q, 's, 'r, 'c, 'd) quion_connection \<Rightarrow> ('s, 'c, 'x, 'i) quion_send \<Rightarrow>
    ('ch, quion_CloseCommand) mpsc \<Rightarrow> ('ch \<Rightarrow> 'ch) \<Rightarrow>
    ('q, ('id, 'u, 's, 'r, 'c, 'x, 'd, 'v, 'ch) quion_Session, 's, 'r) quion_world \<Rightarrow>
    ('q, ('id, 'u, 's, 'r, 'c, 'x, 'd, 'v, 'ch) quion_Session, 's, 'r) quion_world \<Rightarrow> bool"
  for N S Ch Cl where
  close: "quion_Session_close N Ch (n_world_session w) code why (n_world_conn w) = (self, q) \<Longrightarrow>
    quion_session_step N S Ch Cl w (w\<lparr>n_world_session := self, n_world_conn := q\<rparr>)"
| clone_handle: "n_close_tx (n_world_session w) = Some ch \<Longrightarrow>
    quion_session_step N S Ch Cl w (w\<lparr>n_world_session := (n_world_session w)\<lparr>n_close_tx := Some (Cl ch)\<rparr>\<rparr>)"
| drop_handle: "n_close_tx (n_world_session w) = Some ch \<Longrightarrow>
    quion_session_step N S Ch Cl w (w\<lparr>n_world_session := (n_world_session w)\<lparr>n_close_tx := Some (Ch_drop_sender Ch ch)\<rparr>\<rparr>)"
| accept_uni: "quion_Session_accept_uni N ready (n_world_session w) (n_world_conn w) = (r, self, q) \<Longrightarrow>
    (NC_is_closed N (n_world_conn w) \<Longrightarrow> NC_is_closed N q) \<Longrightarrow>
    quion_session_step N S Ch Cl w (w\<lparr>n_world_session := self, n_world_conn := q\<rparr>)"
| accept_bi: "quion_Session_accept_bi N ready' (n_world_session w) (n_world_conn w) = (r', self, q) \<Longrightarrow>
    (NC_is_closed N (n_world_conn w) \<Longrightarrow> NC_is_closed N q) \<Longrightarrow>
    quion_session_step N S Ch Cl w (w\<lparr>n_world_session := self, n_world_conn := q\<rparr>)"
| streams: "n_accept (n_world_session w) = Some acc \<Longrightarrow> n_accept_session_id acc' = n_accept_session_id acc \<Longrightarrow>
    quion_session_step N S Ch Cl w (w\<lparr>n_world_session := (n_world_session w)\<lparr>n_accept := Some acc'\<rparr>\<rparr>)"
| capsule: "n_world_phase w = NP_running task \<Longrightarrow>
    quion_read_capsule_frame fuel (NC_read_exact N) (task_recv task) (pending_capsules task) = Some res \<Longrightarrow>
    quion_run_closed_capsule res task = Loop_continue task' \<Longrightarrow>
    quion_session_step N S Ch Cl w (w\<lparr>n_world_phase := NP_running task'\<rparr>)"
| capsule_end: "n_world_phase w = NP_running task \<Longrightarrow>
    quion_read_capsule_frame fuel (NC_read_exact N) (task_recv task) (pending_capsules task) = Some res \<Longrightarrow>
    quion_run_closed_capsule res task = Loop_return result task' \<Longrightarrow>
    quion_session_step N S Ch Cl w (quion_session_return Ch result w)"
| close_request: "n_world_phase w = NP_running task \<Longrightarrow> n_close_tx (n_world_session w) = Some ch \<Longrightarrow>
    Ch_recv Ch ch = (Poll_Ready cmd, ch') \<Longrightarrow> quion_run_closed_close N S cmd elapsed task = Loop_return result task' \<Longrightarrow>
    quion_session_step N S Ch Cl w
      (quion_session_return Ch result (w\<lparr>n_world_session := (n_world_session w)\<lparr>n_close_tx := Some ch'\<rparr>\<rparr>))"
| finish: "n_world_phase w = NP_ending result \<Longrightarrow> result \<noteq> Panic \<Longrightarrow>
    quion_session_step N S Ch Cl w
      (quion_session_done Ch (quion_task_finish N result (n_close_error (n_world_session w), n_world_conn w)) w)"
| raw_closed: "n_world_phase w = NP_raw \<Longrightarrow>
    quion_session_step N S Ch Cl w (quion_session_done Ch (quion_raw_task N Raw_closed (n_world_conn w)) w)"
| raw_command: "n_world_phase w = NP_raw \<Longrightarrow> n_close_tx (n_world_session w) = Some ch \<Longrightarrow>
    Ch_recv Ch ch = (Poll_Ready cmd, ch') \<Longrightarrow>
    quion_session_step N S Ch Cl w (quion_session_done Ch (quion_raw_task N (Raw_command cmd) (n_world_conn w))
      (w\<lparr>n_world_session := (n_world_session w)\<lparr>n_close_tx := Some ch'\<rparr>\<rparr>))"
| network: "(NC_is_closed N (n_world_conn w) \<Longrightarrow> NC_is_closed N q) \<Longrightarrow>
    quion_session_step N S Ch Cl w (w\<lparr>n_world_conn := q\<rparr>)"
| arrives: "n_world_phase w = NP_running task \<Longrightarrow>
    quion_session_step N S Ch Cl w (w\<lparr>n_world_phase := NP_running (task\<lparr>task_recv := rv\<rparr>)\<rparr>)"

text \<open>The states in which \<^verbatim>\<open>Session::with_driver\<close> and \<^verbatim>\<open>Session::raw\<close> leave session and task.\<close>

definition quion_session_start :: "'q \<Rightarrow> 'z \<times> ('s, 'r) closed_task \<Rightarrow> ('q, 'z, 's, 'r) quion_world" where
  "quion_session_start q st =
     \<lparr>n_world_conn = q, n_world_session = fst st, n_world_phase = NP_running (snd st)\<rparr>"

definition quion_raw_start :: "'q \<Rightarrow> 'z \<Rightarrow> ('q, 'z, 's, 'r) quion_world" where
  "quion_raw_start q self = \<lparr>n_world_conn = q, n_world_session = self, n_world_phase = NP_raw\<rparr>"

subsection \<open>The invariant\<close>

definition awake :: "('s, 'r) quion_phase \<Rightarrow> bool" where
  "awake ph \<longleftrightarrow> (case ph of NP_running _ \<Rightarrow> True | NP_raw \<Rightarrow> True | _ \<Rightarrow> False)"

definition quion_queue_ok :: "quion_CloseCommand channel_view \<Rightarrow> bool" where
  "quion_queue_ok v \<longleftrightarrow> capacity v = 1 \<and> length (queued v) \<le> 1 \<and>
     (\<forall>c \<in> set (queued v). length (n_reason c) \<le> 1024 \<and> utf8_valid (n_reason c))"

definition quion_result_ok :: "((u32 \<times> bytes) option, CapsuleError) res \<Rightarrow> bool" where
  "quion_result_ok result \<longleftrightarrow>
     (case result of Ok (Some (code, r)) \<Rightarrow> length r \<le> 1024 \<and> utf8_valid r | Panic \<Rightarrow> False | _ \<Rightarrow> True)"

definition quion_phase_ok :: "('q, 's, 'r, 'c, 'd) quion_connection \<Rightarrow>
    ('q, ('id, 'u, 's, 'r, 'c, 'x, 'd, 'v, 'ch) quion_Session, 's, 'r) quion_world \<Rightarrow> bool" where
  "quion_phase_ok N w \<longleftrightarrow>
     (case n_world_phase w of
        NP_running task \<Rightarrow> n_session_id (n_world_session w) \<noteq> None \<and> n_close_error (n_world_session w) = None \<and>
          length (pending_capsules task) \<le> 3091
      | NP_ending result \<Rightarrow> n_session_id (n_world_session w) \<noteq> None \<and> n_close_error (n_world_session w) = None \<and>
          quion_result_ok result
      | NP_raw \<Rightarrow> n_session_id (n_world_session w) = None \<and> n_close_error (n_world_session w) = None
      | NP_done \<Rightarrow> n_close_error (n_world_session w) \<noteq> None \<and> NC_is_closed N (n_world_conn w))"

definition quion_inv :: "('q, 's, 'r, 'c, 'd) quion_connection \<Rightarrow> ('ch \<Rightarrow> quion_CloseCommand channel_view) \<Rightarrow>
    ('q, ('id, 'u, 's, 'r, 'c, 'x, 'd, 'v, 'ch) quion_Session, 's, 'r) quion_world \<Rightarrow> bool" where
  "quion_inv N view w \<longleftrightarrow> quion_session_ok (n_world_session w) \<and>
     (\<exists>ch. n_close_tx (n_world_session w) = Some ch \<and> quion_queue_ok (view ch) \<and>
        (receiver (view ch) \<longleftrightarrow> awake (n_world_phase w))) \<and>
     quion_phase_ok N w"

lemma awake_simps [simp]:
  "awake (NP_running t)" "awake NP_raw" "\<not> awake (NP_ending r)" "\<not> awake NP_done"
  by (simp_all add: awake_def)

lemma quion_result_ok_simps [simp]:
  "quion_result_ok (Ok (Some (code, r))) \<longleftrightarrow> length r \<le> 1024 \<and> utf8_valid r"
  "quion_result_ok (Ok None)" "quion_result_ok (Err e)" "\<not> quion_result_ok Panic"
  by (simp_all add: quion_result_ok_def)

definition clone_laws :: "('ch \<Rightarrow> 'ch) \<Rightarrow> ('ch \<Rightarrow> quion_CloseCommand channel_view) \<Rightarrow> bool" where
  "clone_laws Cl view \<longleftrightarrow> (\<forall>ch. view (Cl ch) = (view ch)\<lparr>senders := senders (view ch) + 1\<rparr>)"

lemma mpsc_ends:
  assumes "mpsc_laws Ch view"
  shows "view (Ch_channel Ch (Suc 0)) = \<lparr>queued = [], capacity = 1, senders = 1, receiver = True\<rparr>"
    and "view (Ch_drop_receiver Ch ch) = (view ch)\<lparr>queued := [], receiver := False\<rparr>"
    and "view (Ch_drop_sender Ch ch) = (view ch)\<lparr>senders := senders (view ch) - 1\<rparr>"
  using assms unfolding mpsc_laws_def One_nat_def by blast+

lemma quion_inv_start:
  assumes "quion_connection_laws N sent content" and "mpsc_laws Ch view"
    and "NC_stream_id N (n_connect_send connect) = Some i"
    and "quion_Session_with_driver N Ch ident settings connect driver = (Ok st :: (_, 'e) res)"
  shows "quion_inv N view (quion_session_start q st)"
  using assms(4) quion_session_id_ok(2) [OF assms(1,3)]
  by (auto simp: quion_Session_with_driver_ok [OF assms(1,3)] quion_inv_def quion_session_start_def
      quion_phase_ok_def quion_queue_ok_def quion_session_ok_def mpsc_ends(1) [OF assms(2)])

lemma quion_inv_raw_start:
  assumes "mpsc_laws Ch view"
  shows "quion_inv N view (quion_raw_start q (quion_Session_raw Ch ident url))"
  by (simp add: quion_inv_def quion_raw_start_def quion_Session_raw_def quion_phase_ok_def quion_queue_ok_def
      quion_session_ok_def mpsc_ends(1) [OF assms])

text \<open>What a close request does in a state of the invariant.\<close>

lemma quion_inv_close:
  assumes laws: "mpsc_laws Ch view" and inv: "quion_inv N view w"
    and c: "quion_Session_close N Ch (n_world_session w) code why (n_world_conn w) = (self, q)"
  obtains (raw) "n_session_id (n_world_session w) = None" and "self = n_world_session w"
      and "q = NC_close N (ucast code) why (n_world_conn w)"
  | (queued) ch ch' where "n_session_id (n_world_session w) \<noteq> None" and "awake (n_world_phase w)"
      and "n_close_tx (n_world_session w) = Some ch" and "q = n_world_conn w"
      and "self = (n_world_session w)\<lparr>n_close_tx := Some ch'\<rparr>" and "quion_queue_ok (view ch')" and "receiver (view ch')"
      and "queued (view ch') = (if queued (view ch) = [] then [\<lparr>n_code = code, n_reason = capsule_reason (take 1024 why)\<rparr>]
        else queued (view ch))"
  | (direct) ch' where "n_session_id (n_world_session w) \<noteq> None" and "\<not> awake (n_world_phase w)"
      and "q = quion_close_connection N code why (n_world_conn w)"
      and "self = (n_world_session w)\<lparr>n_close_tx := Some ch'\<rparr>" and "quion_queue_ok (view ch')" and "\<not> receiver (view ch')"
proof (cases "n_session_id (n_world_session w)")
  case None
  then show thesis using c by (intro raw) (simp_all add: quion_Session_close_def)
next
  case (Some sid)
  from inv obtain ch where ch: "n_close_tx (n_world_session w) = Some ch" "quion_queue_ok (view ch)"
      "receiver (view ch) \<longleftrightarrow> awake (n_world_phase w)"
    by (auto simp: quion_inv_def)
  have t: "take (min (length why) 1024) why = take 1024 why" by (metis min.commute take_take take_all le_refl)
  let ?m = "\<lparr>n_code = code, n_reason = capsule_reason (take 1024 why)\<rparr>"
  note d = c [unfolded quion_Session_close_def Let_def copies t, simplified Some ch(1), simplified]
  show thesis
  proof (cases rule: mpsc_try_send [OF laws, of ?m ch])
    case (1 ch')
    then have "queued (view ch) = []" using ch(2) by (simp add: quion_queue_ok_def)
    then show thesis
      using queued [of ch ch'] 1 d Some ch by (simp add: quion_queue_ok_def capsule_reason_props)
  next
    case (2 m' ch')
    then have "queued (view ch) \<noteq> []" using ch(2) by (auto simp: quion_queue_ok_def)
    then show thesis using queued [of ch ch'] 2 d Some ch by simp
  next
    case (3 m' ch')
    then show thesis using direct [of ch'] d Some ch by simp
  qed
qed

lemma quion_close_result:
  assumes "quion_connection_laws N sent content" and "quion_close_laws S sent"
    and "quion_run_closed_close N S cmd elapsed task = Loop_return result task'"
    and "\<And>c. cmd = Some c \<Longrightarrow> length (n_reason c) \<le> 1024 \<and> utf8_valid (n_reason c)"
  shows "result = Ok (Some (case cmd of Some c \<Rightarrow> (n_code c, n_reason c) | None \<Rightarrow> (0, str ''last session handle dropped'')))"
    and "quion_result_ok result"
proof -
  have r: "result = Ok (Some (case cmd of Some c \<Rightarrow> (n_code c, n_reason c) | None \<Rightarrow> (0, str ''last session handle dropped'')))"
  proof (cases cmd)
    case None
    then show ?thesis using assms(3) by (simp add: quion_run_closed_close_def)
  next
    case (Some c)
    have cc: "\<lparr>n_code = n_code c, n_reason = n_reason c\<rparr> = c" by simp
    obtain t where "quion_run_closed_close N S (Some c) elapsed task = Loop_return (Ok (Some (n_code c, n_reason c))) t"
      using quion_run_closed_close_returns [OF assms(1,2), of "n_reason c" "n_code c" elapsed task] assms(4) [OF Some] cc
      by metis
    then show ?thesis using assms(3) Some by simp
  qed
  have "utf8_valid (str ''last session handle dropped'')" by (rule str_ascii) (simp add: str_def)
  then show "quion_result_ok result"
    using assms(4) unfolding r by (cases cmd) (simp_all add: str_def)
  show "result = Ok (Some (case cmd of Some c \<Rightarrow> (n_code c, n_reason c) | None \<Rightarrow> (0, str ''last session handle dropped'')))"
    by (rule r)
qed

lemma quion_capsule_result:
  assumes "quion_connection_laws N sent content" and "length (pending_capsules task) \<le> 3091"
    and "quion_read_capsule_frame fuel (NC_read_exact N) (task_recv task) (pending_capsules task) = Some res"
  shows "quion_run_closed_capsule res task = Loop_continue task' \<Longrightarrow> length (pending_capsules task') \<le> 3091"
    and "quion_run_closed_capsule res task = Loop_return result task' \<Longrightarrow> quion_result_ok result"
proof -
  note ret = read_capsule_frame_returns(2,3) [OF quion_reads [OF assms(1)], where fuel = fuel and s = "task_recv task"
      and pending = "pending_capsules task"]
  show "length (pending_capsules task') \<le> 3091" if "quion_run_closed_capsule res task = Loop_continue task'"
    using that ret(2) assms(2) assms(3) [unfolded copies]
    by (auto simp: quion_run_closed_capsule_def split: res.split_asm prod.split_asm Capsule.split_asm if_splits)
  show "quion_result_ok result" if "quion_run_closed_capsule res task = Loop_return result task'"
    using that ret assms(2) assms(3) [unfolded copies]
    by (auto simp: quion_run_closed_capsule_def MAX_MESSAGE_SIZE_def
        split: res.split_asm prod.split_asm Capsule.split_asm if_splits)
qed

lemma quion_inv_return:
  assumes "mpsc_laws Ch view" and "quion_session_ok (n_world_session w)"
    and "n_close_tx (n_world_session w) = Some ch" and "quion_queue_ok (view ch)"
    and "n_session_id (n_world_session w) \<noteq> None" and "n_close_error (n_world_session w) = None"
    and "quion_result_ok result"
  shows "quion_inv N view (quion_session_return Ch result w)"
  using assms(2-)
  by (simp add: quion_inv_def quion_session_return_def quion_queue_ok_def quion_phase_ok_def mpsc_ends(2) [OF assms(1)])

lemma quion_inv_done:
  assumes "mpsc_laws Ch view" and "quion_session_ok (n_world_session w)"
    and "n_close_tx (n_world_session w) = Some ch" and "quion_queue_ok (view ch)"
    and "fst st \<noteq> None" and "NC_is_closed N (snd st)"
  shows "quion_inv N view (quion_session_done Ch st w)"
  using assms(2-)
  by (simp add: quion_inv_def quion_session_done_def quion_queue_ok_def quion_phase_ok_def mpsc_ends(2) [OF assms(1)])

lemma quion_raw_task_ends:
  assumes "quion_lifetime_laws N"
  shows "fst (quion_raw_task N arm q) \<noteq> None" and "NC_is_closed N (snd (quion_raw_task N arm q))"
proof -
  have "NC_is_closed N (snd (NC_closed N u))" for u using assms unfolding quion_lifetime_laws_def by blast
  then show "fst (quion_raw_task N arm q) \<noteq> None" "NC_is_closed N (snd (quion_raw_task N arm q))"
    by (cases arm; simp add: quion_raw_task_def Let_def split_def)+
qed

text \<open>A step that leaves the phase, the identifier and the shared error as they are.\<close>

lemma quion_inv_same:
  assumes "quion_inv N view w" and "quion_session_ok self" and "n_session_id self = n_session_id (n_world_session w)"
    and "n_close_error self = n_close_error (n_world_session w)"
    and "n_close_tx self = Some ch" and "quion_queue_ok (view ch)" and "receiver (view ch) \<longleftrightarrow> awake (n_world_phase w)"
    and "NC_is_closed N (n_world_conn w) \<Longrightarrow> NC_is_closed N q"
  shows "quion_inv N view (w\<lparr>n_world_session := self, n_world_conn := q\<rparr>)"
  using assms by (auto simp: quion_inv_def quion_phase_ok_def split: quion_phase.splits)

lemma quion_accept_same:
  "n_session_id (fst (snd (quion_Session_accept_uni N ready self q))) = n_session_id self"
  "n_close_error (fst (snd (quion_Session_accept_uni N ready self q))) = n_close_error self"
  "n_close_tx (fst (snd (quion_Session_accept_uni N ready self q))) = n_close_tx self"
  "n_session_id (fst (snd (quion_Session_accept_bi N ready' self q))) = n_session_id self"
  "n_close_error (fst (snd (quion_Session_accept_bi N ready' self q))) = n_close_error self"
  "n_close_tx (fst (snd (quion_Session_accept_bi N ready' self q))) = n_close_tx self"
  by (auto simp: quion_Session_accept_uni_def quion_Session_accept_bi_def split: option.splits prod.splits poll.splits)

lemma quion_inv_step:
  assumes conn: "quion_connection_laws N sent content" "quion_lifetime_laws N" "quion_close_laws S sent"
    and laws: "mpsc_laws Ch view" "clone_laws Cl view"
    and step: "quion_session_step N S Ch Cl w w'" and inv: "quion_inv N view w"
  shows "quion_inv N view w'"
proof -
  from inv obtain ch where ch: "n_close_tx (n_world_session w) = Some ch" "quion_queue_ok (view ch)"
      "receiver (view ch) \<longleftrightarrow> awake (n_world_phase w)" and ok: "quion_session_ok (n_world_session w)"
      and ph: "quion_phase_ok N w"
    by (auto simp: quion_inv_def)
  note same = quion_inv_same [OF inv]
  have closes: "NC_is_closed N (NC_close N c why u)" for c why u
    using conn(2) unfolding quion_lifetime_laws_def by blast
  show ?thesis
    using step
  proof (cases rule: quion_session_step.cases)
    case (close code why self q)
    have "quion_session_ok self" using quion_close_ok [OF ok, of N Ch code why "n_world_conn w"] close(2) by simp
    then have "quion_inv N view (w\<lparr>n_world_session := self, n_world_conn := q\<rparr>)"
    proof (cases rule: quion_inv_close [OF laws(1) inv close(2)])
      case 1
      then show ?thesis using ok ch closes by (intro same [where ch = ch]) simp_all
    next
      case (2 ch1 ch')
      then show ?thesis using ok by (intro same [where ch = ch']) simp_all
    next
      case (3 ch')
      then show ?thesis using ok closes by (intro same [where ch = ch']) (simp_all add: quion_close_connection_code [OF conn(1)])
    qed
    then show ?thesis unfolding close(1) .
  next
    case (clone_handle ch1)
    have "view (Cl ch) = (view ch)\<lparr>senders := senders (view ch) + 1\<rparr>" using laws(2) by (simp add: clone_laws_def)
    then show ?thesis
      using clone_handle ch ok same [of "(n_world_session w)\<lparr>n_close_tx := Some (Cl ch)\<rparr>" "Cl ch" "n_world_conn w"]
      by (simp add: quion_queue_ok_def)
  next
    case (drop_handle ch1)
    then show ?thesis
      using ch ok same [of "(n_world_session w)\<lparr>n_close_tx := Some (Ch_drop_sender Ch ch)\<rparr>" "Ch_drop_sender Ch ch" "n_world_conn w"]
      by (simp add: quion_queue_ok_def mpsc_ends(3) [OF laws(1)])
  next
    case (accept_uni ready r self q)
    have "quion_session_ok self" "n_session_id self = n_session_id (n_world_session w)"
      "n_close_error self = n_close_error (n_world_session w)" "n_close_tx self = n_close_tx (n_world_session w)"
      using quion_accept_ok(1) [OF ok, of N ready "n_world_conn w"] quion_accept_same(1-3) [of N ready "n_world_session w" "n_world_conn w"]
        accept_uni(2) by simp_all
    then show ?thesis using ch accept_uni(3) unfolding accept_uni(1) by (intro same) simp_all
  next
    case (accept_bi ready r self q)
    have "quion_session_ok self" "n_session_id self = n_session_id (n_world_session w)"
      "n_close_error self = n_close_error (n_world_session w)" "n_close_tx self = n_close_tx (n_world_session w)"
      using quion_accept_ok(2) [OF ok, of N ready "n_world_conn w"] quion_accept_same(4-6) [of N ready "n_world_session w" "n_world_conn w"]
        accept_bi(2) by simp_all
    then show ?thesis using ch accept_bi(3) unfolding accept_bi(1) by (intro same) simp_all
  next
    case (streams acc acc')
    then show ?thesis
      using ch quion_session_ok_accept [OF ok streams(2,3)]
        same [of "(n_world_session w)\<lparr>n_accept := Some acc'\<rparr>" ch "n_world_conn w"] by simp
  next
    case (capsule task fuel res task')
    have "length (pending_capsules task') \<le> 3091"
      by (rule quion_capsule_result(1) [OF conn(1) _ capsule(3,4)]) (use ph capsule(2) in \<open>simp add: quion_phase_ok_def\<close>)
    then show ?thesis using capsule ch ok ph by (simp add: quion_inv_def quion_phase_ok_def)
  next
    case (capsule_end task fuel res result task')
    have "quion_result_ok result"
      by (rule quion_capsule_result(2) [OF conn(1) _ capsule_end(3,4)]) (use ph capsule_end(2) in \<open>simp add: quion_phase_ok_def\<close>)
    then show ?thesis
      using capsule_end(2) ph unfolding capsule_end(1)
      by (intro quion_inv_return [OF laws(1) ok ch(1,2)]) (simp_all add: quion_phase_ok_def)
  next
    case (close_request task ch1 cmd ch' elapsed result task')
    then have rx: "receiver (view ch)" using ch(3) by simp
    have recv: "Ch_recv Ch ch = (Poll_Ready cmd, ch')" using close_request ch(1) by simp
    have v: "quion_queue_ok (view ch') \<and> (\<forall>c. cmd = Some c \<longrightarrow> length (n_reason c) \<le> 1024 \<and> utf8_valid (n_reason c))"
      by (rule mpsc_recv [OF laws(1) rx]) (use recv ch(2) in \<open>auto simp: quion_queue_ok_def\<close>)
    then have r: "quion_result_ok result" by (intro quion_close_result(2) [OF conn(1,3) close_request(5)]) blast
    have p: "n_session_id (n_world_session w) \<noteq> None" "n_close_error (n_world_session w) = None"
      using ph close_request(2) by (simp_all add: quion_phase_ok_def)
    show ?thesis
      unfolding close_request(1)
      by (rule quion_inv_return [OF laws(1), where ch = ch']) (use v r p ok in \<open>simp_all\<close>)
  next
    case (finish result)
    obtain err' q' where f: "quion_task_finish N result (n_close_error (n_world_session w), n_world_conn w) = (err', q')"
      by (metis prod.exhaust)
    note e = quion_task_finish_cases [OF conn(1,2) finish(3) f]
    have "connection_close_reason N q' \<noteq> None" using e(2) by (simp add: connection_close_reason_iff [OF conn(2)])
    then have "err' \<noteq> None" unfolding e(3) by (auto split: res.split option.split)
    then show ?thesis
      using e(2) unfolding finish(1) f by (intro quion_inv_done [OF laws(1) ok ch(1,2)]) simp_all
  next
    case raw_closed
    show ?thesis
      unfolding raw_closed(1) by (rule quion_inv_done [OF laws(1) ok ch(1,2) quion_raw_task_ends [OF conn(2)]])
  next
    case (raw_command ch1 cmd ch')
    then have rx: "receiver (view ch)" using ch(3) by simp
    have recv: "Ch_recv Ch ch = (Poll_Ready cmd, ch')" using raw_command ch(1) by simp
    have v: "quion_queue_ok (view ch')"
      by (rule mpsc_recv [OF laws(1) rx]) (use recv ch(2) in \<open>auto simp: quion_queue_ok_def\<close>)
    show ?thesis
      unfolding raw_command(1)
      by (rule quion_inv_done [OF laws(1) _ _ v quion_raw_task_ends [OF conn(2)]]) (use ok in simp_all)
  next
    case (network q)
    then show ?thesis using same [OF ok refl refl ch, of q] by simp
  next
    case (arrives task rv)
    then show ?thesis using ch ok ph by (simp add: quion_inv_def quion_phase_ok_def)
  qed
qed

subsection \<open>The end is final\<close>

lemma quion_done_step:
  assumes conn: "quion_connection_laws N sent content" "quion_lifetime_laws N"
    and step: "quion_session_step N S Ch Cl w w'"
    and ended: "n_world_phase w = NP_done" "n_close_error (n_world_session w) = Some e" "NC_is_closed N (n_world_conn w)"
  shows "n_world_phase w' = NP_done \<and> n_close_error (n_world_session w') = Some e \<and> NC_is_closed N (n_world_conn w')"
proof -
  have closes: "NC_is_closed N (NC_close N c why u)" for c why u
    using conn(2) unfolding quion_lifetime_laws_def by blast
  show ?thesis
    using step
  proof (cases rule: quion_session_step.cases)
    case (close code why self q)
    have "n_close_error self = Some e" and "NC_is_closed N q"
      using close(2) ended(2,3) closes
      by (auto simp: quion_Session_close_def Let_def quion_close_connection_code [OF conn(1)]
          split: option.split_asm res.split_asm TrySendError.split_asm prod.split_asm if_splits)
    then show ?thesis using close(1) ended(1) by simp
  next
    case (accept_uni ready r self q)
    then show ?thesis
      using ended quion_accept_same(2) [of N ready "n_world_session w" "n_world_conn w"] by simp
  next
    case (accept_bi ready r self q)
    then show ?thesis
      using ended quion_accept_same(5) [of N ready "n_world_session w" "n_world_conn w"] by simp
  qed (use ended in simp_all)
qed

lemma quion_done_final:
  assumes "quion_connection_laws N sent content" "quion_lifetime_laws N"
    and "rtranclp (quion_session_step N S Ch Cl) w w'"
    and "n_world_phase w = NP_done" "n_close_error (n_world_session w) = Some e" "NC_is_closed N (n_world_conn w)"
  shows "n_world_phase w' = NP_done \<and> n_close_error (n_world_session w') = Some e \<and> NC_is_closed N (n_world_conn w')"
  using assms(3)
proof induction
  case (step w1 w2)
  then show ?case using quion_done_step [OF assms(1,2) step.hyps(2)] by blast
qed (use assms(4-6) in blast)

text \<open>A session of either kind, before anything has happened to it.\<close>

definition quion_session_begins :: "('q, 's, 'r, 'c, 'd) quion_connection \<Rightarrow> ('ch, quion_CloseCommand) mpsc \<Rightarrow>
    ('q, ('id, 'u, 's, 'r, 'c, 'x, 'd, 'v, 'ch) quion_Session, 's, 'r) quion_world \<Rightarrow> bool" where
  "quion_session_begins N Ch w \<longleftrightarrow>
     (\<exists>q ident settings connect driver st i. NC_stream_id N (n_connect_send connect) = Some i \<and>
        quion_Session_with_driver N Ch ident settings connect driver = (Ok st :: (_, unit) res) \<and>
        w = quion_session_start q st) \<or>
     (\<exists>q ident url. w = quion_raw_start q (quion_Session_raw Ch ident url))"

lemma quion_inv_reachable:
  assumes conn: "quion_connection_laws N sent content" "quion_lifetime_laws N" "quion_close_laws S sent"
    and laws: "mpsc_laws Ch view" "clone_laws Cl view"
    and "quion_session_begins N Ch w0" and "rtranclp (quion_session_step N S Ch Cl) w0 w"
  shows "quion_inv N view w"
  using assms(7)
proof induction
  case base
  show ?case
    using assms(6) quion_inv_start [OF conn(1) laws(1)] quion_inv_raw_start [OF laws(1)]
    by (auto simp: quion_session_begins_def)
next
  case (step w1 w2)
  show ?case by (rule quion_inv_step [OF conn laws step.hyps(2) step.IH])
qed

subsection \<open>A close request completes\<close>

lemma quion_ending_finishes:
  assumes conn: "quion_connection_laws N sent content" "quion_lifetime_laws N"
    and "n_world_phase w = NP_ending result" and "result \<noteq> Panic"
  obtains w2 where "quion_session_step N S Ch Cl w w2" and "n_world_phase w2 = NP_done"
    and "NC_is_closed N (n_world_conn w2)"
    and "\<And>code r. result = Ok (Some (code, r)) \<Longrightarrow>
      n_close_error (n_world_session w2) = Some (NSE_WebTransportError (NWT_Closed code r))"
proof -
  obtain err' q' where f: "quion_task_finish N result (n_close_error (n_world_session w), n_world_conn w) = (err', q')"
    by (metis prod.exhaust)
  note e = quion_task_finish_cases [OF conn assms(4) f]
  show thesis
    using e(2,3) f by (intro that [OF quion_session_step.finish [OF assms(3,4)]]) (auto simp: quion_session_done_def)
qed

lemma quion_request_taken:
  assumes conn: "quion_connection_laws N sent content" "quion_close_laws S sent" and laws: "mpsc_laws Ch view"
    and ph: "n_world_phase w = NP_running task" and tx: "n_close_tx (n_world_session w) = Some ch"
    and v: "quion_queue_ok (view ch)" "receiver (view ch)" "queued (view ch) = [c]"
  obtains w2 where "quion_session_step N S Ch Cl w w2" and "n_world_phase w2 = NP_ending (Ok (Some (n_code c, n_reason c)))"
proof -
  obtain ch' where r: "Ch_recv Ch ch = (Poll_Ready (Some c), ch')"
    by (rule mpsc_recv [OF laws v(2)]) (use v(3) in auto)
  have b: "utf8_valid (n_reason c)" "length (n_reason c) \<le> 1024" using v(1,3) by (simp_all add: quion_queue_ok_def)
  obtain task' where "quion_run_closed_close N S (Some \<lparr>n_code = n_code c, n_reason = n_reason c\<rparr>) None task =
      Loop_return (Ok (Some (n_code c, n_reason c))) task'"
    by (rule quion_run_closed_close_returns [OF conn b])
  then have "quion_run_closed_close N S (Some c) None task = Loop_return (Ok (Some (n_code c, n_reason c))) task'"
    by (cases c) simp
  from quion_session_step.close_request [OF ph tx r this] show thesis
    by (rule that) (simp add: quion_session_return_def)
qed

subsection \<open>Properties\<close>

text \<open>
  C7. In every state that a session over Quion can reach, from the handshake or a raw connection and
  whatever is called, arrives or fails in whatever order: the session is well formed; at most one
  close request is queued, with a reason of valid UTF-8 and at most 1,024 bytes, and requests can
  be queued exactly while a task waits for them; the reassembly buffer holds at most 3,091 bytes;
  the task has not panicked. An error is recorded exactly when the task is over. From then on the
  connection is closed, and \<^verbatim>\<open>closed\<close> returns this error at once, however the session goes on.
\<close>

theorem quion_lifecycle_invariant:
  fixes N :: "('q, 's, 'r, 'c, 'd) quion_connection"
    and w :: "('q, ('id, 'u, 's, 'r, 'c, 'x, 'd, 'v, 'ch) quion_Session, 's, 'r) quion_world"
  assumes conn: "quion_connection_laws N sent content" "quion_lifetime_laws N" "quion_close_laws S sent"
    and laws: "mpsc_laws Ch view" "clone_laws Cl view"
    and start: "quion_session_begins N Ch w0" "rtranclp (quion_session_step N S Ch Cl) w0 w"
  shows "quion_session_ok (n_world_session w) \<and>
    (\<exists>ch. n_close_tx (n_world_session w) = Some ch \<and> length (queued (view ch)) \<le> 1 \<and>
       (\<forall>c \<in> set (queued (view ch)). length (n_reason c) \<le> 1024 \<and> utf8_valid (n_reason c)) \<and>
       (receiver (view ch) \<longleftrightarrow> awake (n_world_phase w))) \<and>
    (\<forall>task. n_world_phase w = NP_running task \<longrightarrow> length (pending_capsules task) \<le> 3091) \<and>
    n_world_phase w \<noteq> NP_ending Panic \<and>
    (n_close_error (n_world_session w) \<noteq> None \<longleftrightarrow> n_world_phase w = NP_done) \<and>
    (\<forall>e w' wakeups. n_close_error (n_world_session w) = Some e \<and> rtranclp (quion_session_step N S Ch Cl) w w' \<longrightarrow>
       NC_is_closed N (n_world_conn w') \<and>
       quion_Session_closed N ((n_world_session w', n_world_conn w') # wakeups) = Some e)"
proof -
  note inv = quion_inv_reachable [OF conn laws start]
  have ph: "quion_phase_ok N w" using inv by (simp add: quion_inv_def)
  have iff: "n_close_error (n_world_session w) \<noteq> None \<longleftrightarrow> n_world_phase w = NP_done"
    using ph by (auto simp: quion_phase_ok_def split: quion_phase.splits)
  have closed: "NC_is_closed N (n_world_conn w') \<and>
      quion_Session_closed N ((n_world_session w', n_world_conn w') # wakeups) = Some e"
    if "n_close_error (n_world_session w) = Some e" "rtranclp (quion_session_step N S Ch Cl) w w'" for e w' wakeups
  proof -
    have d: "n_world_phase w = NP_done" using iff that(1) by simp
    then have "NC_is_closed N (n_world_conn w)" using ph by (simp add: quion_phase_ok_def)
    from quion_done_final [OF conn(1,2) that(2) d that(1) this] show ?thesis
      by (simp add: quion_Session_close_reason_def)
  qed
  have "\<exists>ch. n_close_tx (n_world_session w) = Some ch \<and> length (queued (view ch)) \<le> 1 \<and>
       (\<forall>c \<in> set (queued (view ch)). length (n_reason c) \<le> 1024 \<and> utf8_valid (n_reason c)) \<and>
       (receiver (view ch) \<longleftrightarrow> awake (n_world_phase w))"
    using inv by (auto simp: quion_inv_def quion_queue_ok_def)
  moreover have "quion_session_ok (n_world_session w)" using inv by (simp add: quion_inv_def)
  moreover have "n_world_phase w \<noteq> NP_ending Panic"
    "\<forall>task. n_world_phase w = NP_running task \<longrightarrow> length (pending_capsules task) \<le> 3091"
    using ph by (auto simp: quion_phase_ok_def)
  ultimately show ?thesis using iff closed by blast
qed

text \<open>
  C8. A close request always leads to the end of the session. In every reachable state, after a call
  of \<^verbatim>\<open>close\<close> there is a way on, without help of the peer, to a state in which the task is over, the
  connection is closed and an error is recorded. While the task runs, this error is the one of the
  first request that was queued, its code and reason, so a later request does not replace it; in
  all other states, raw sessions included, the connection is closed by the call itself.
\<close>

theorem quion_close_completes:
  fixes N :: "('q, 's, 'r, 'c, 'd) quion_connection"
    and w :: "('q, ('id, 'u, 's, 'r, 'c, 'x, 'd, 'v, 'ch) quion_Session, 's, 'r) quion_world"
  assumes conn: "quion_connection_laws N sent content" "quion_lifetime_laws N" "quion_close_laws S sent"
    and laws: "mpsc_laws Ch view" "clone_laws Cl view"
    and start: "quion_session_begins N Ch w0" "rtranclp (quion_session_step N S Ch Cl) w0 w"
    and call: "quion_Session_close N Ch (n_world_session w) code why (n_world_conn w) = (self, q)"
  shows "\<exists>w2. rtranclp (quion_session_step N S Ch Cl) (w\<lparr>n_world_session := self, n_world_conn := q\<rparr>) w2 \<and>
    n_world_phase w2 = NP_done \<and> NC_is_closed N (n_world_conn w2) \<and> n_close_error (n_world_session w2) \<noteq> None \<and>
    (\<forall>task ch. n_world_phase w = NP_running task \<and> n_close_tx (n_world_session w) = Some ch \<longrightarrow>
       n_close_error (n_world_session w2) = Some (NSE_WebTransportError
         (case queued (view ch) of
            [] \<Rightarrow> NWT_Closed code (capsule_reason (take 1024 why))
          | c # _ \<Rightarrow> NWT_Closed (n_code c) (n_reason c)))) \<and>
    ((\<forall>task. n_world_phase w \<noteq> NP_running task) \<longrightarrow> NC_is_closed N q)"
proof -
  let ?w1 = "w\<lparr>n_world_session := self, n_world_conn := q\<rparr>"
  note inv = quion_inv_reachable [OF conn laws start]
  have first: "quion_session_step N S Ch Cl w ?w1" by (rule quion_session_step.close [OF call])
  note inv1 = quion_inv_step [OF conn laws first inv]
  have over: "n_close_error (n_world_session w2) \<noteq> None" if "quion_inv N view w2" "n_world_phase w2 = NP_done" for w2
    using that by (simp add: quion_inv_def quion_phase_ok_def)
  have closes: "NC_is_closed N (NC_close N c r u)" for c r u
    using conn(2) unfolding quion_lifetime_laws_def by blast
  have now: "NC_is_closed N q" if "\<forall>task. n_world_phase w \<noteq> NP_running task"
    using that inv
    by (cases rule: quion_inv_close [OF laws(1) inv call])
      (auto simp: closes quion_close_connection_code [OF conn(1)] quion_inv_def quion_phase_ok_def awake_def
        split: quion_phase.splits)
  show ?thesis
  proof (cases "n_world_phase w")
    case (NP_running task)
    obtain ch ch' where c: "n_close_tx (n_world_session w) = Some ch" "n_close_tx (n_world_session ?w1) = Some ch'"
        "quion_queue_ok (view ch')" "receiver (view ch')"
        "queued (view ch') = (if queued (view ch) = [] then [\<lparr>n_code = code, n_reason = capsule_reason (take 1024 why)\<rparr>]
          else queued (view ch))"
      by (cases rule: quion_inv_close [OF laws(1) inv call])
        (use NP_running inv in \<open>auto simp: quion_inv_def quion_phase_ok_def\<close>)
    have "queued (view ch') \<noteq> []" using c(5) by (simp split: if_splits)
    moreover have "length (queued (view ch')) \<le> 1" using c(3) by (simp add: quion_queue_ok_def)
    ultimately obtain m where m: "queued (view ch') = [m]" by (cases "queued (view ch')") simp_all
    have ph1: "n_world_phase ?w1 = NP_running task" using NP_running by simp
    obtain w3 where w3: "quion_session_step N S Ch Cl ?w1 w3"
        "n_world_phase w3 = NP_ending (Ok (Some (n_code m, n_reason m)))"
      by (rule quion_request_taken [OF conn(1,3) laws(1) ph1 c(2-4) m])
    obtain w2 where w2: "quion_session_step N S Ch Cl w3 w2" "n_world_phase w2 = NP_done" "NC_is_closed N (n_world_conn w2)"
        "n_close_error (n_world_session w2) = Some (NSE_WebTransportError (NWT_Closed (n_code m) (n_reason m)))"
      by (rule quion_ending_finishes [OF conn(1,2) w3(2)]) simp_all
    have "case queued (view ch) of [] \<Rightarrow> m = \<lparr>n_code = code, n_reason = capsule_reason (take 1024 why)\<rparr> | c # _ \<Rightarrow> m = c"
      using c(5) m by (cases "queued (view ch)") auto
    then show ?thesis
      using w2 w3(1) c(1) NP_running
      by (intro exI [of _ w2]) (auto intro: rtranclp.rtrancl_into_rtrancl [OF r_into_rtranclp] split: list.splits)
  next
    case (NP_ending result)
    then have ph1: "n_world_phase ?w1 = NP_ending result" and "result \<noteq> Panic"
      using inv by (auto simp: quion_inv_def quion_phase_ok_def)
    then obtain w2 where w2: "quion_session_step N S Ch Cl ?w1 w2" "n_world_phase w2 = NP_done" "NC_is_closed N (n_world_conn w2)"
      by (rule quion_ending_finishes [OF conn(1,2)])
    show ?thesis
      using w2 over [OF quion_inv_step [OF conn laws w2(1) inv1] w2(2)] now NP_ending
      by (intro exI [of _ w2]) (simp add: r_into_rtranclp)
  next
    case NP_raw
    let ?w2 = "quion_session_done Ch (quion_raw_task N Raw_closed (n_world_conn ?w1)) ?w1"
    have s: "quion_session_step N S Ch Cl ?w1 ?w2" by (rule quion_session_step.raw_closed) (simp add: NP_raw)
    have d: "n_world_phase ?w2 = NP_done" by (simp add: quion_session_done_def)
    have "NC_is_closed N (n_world_conn ?w2)"
      using quion_raw_task_ends(2) [OF conn(2)] by (simp add: quion_session_done_def)
    moreover have "rtranclp (quion_session_step N S Ch Cl) ?w1 ?w2" using s by blast
    ultimately show ?thesis
      using d over [OF quion_inv_step [OF conn laws s inv1] d] now NP_raw
      by (intro exI [of _ ?w2] conjI) simp_all
  next
    case NP_done
    then have "n_world_phase ?w1 = NP_done" by simp
    moreover from this inv1 have "NC_is_closed N (n_world_conn ?w1)" by (simp add: quion_inv_def quion_phase_ok_def)
    ultimately show ?thesis
      using over [OF inv1] now NP_done by (intro exI [of _ ?w1]) simp
  qed
qed

theorem quion_lifecycle_invariant_witness:
  "quion_session_ok (quion_Session_raw example_mpsc () ()
     :: (unit, unit, bytes \<times> nat option, bytes, unit, unit, unit, unit, quion_CloseCommand channel_view) quion_Session)"
proof -
  let ?w = "quion_raw_start (([], []), None) (quion_Session_raw example_mpsc () ()
    :: (unit, unit, bytes \<times> nat option, bytes, unit, unit, unit, unit, quion_CloseCommand channel_view) quion_Session)
    :: ((bytes \<times> bytes) \<times> unit quion_ConnectionError option, _, bytes \<times> nat option, bytes) quion_world"
  have b: "quion_session_begins example_quion_connection example_mpsc ?w"
    unfolding quion_session_begins_def by blast
  have cl: "clone_laws (\<lambda>ch. ch\<lparr>senders := senders ch + 1\<rparr>) (\<lambda>ch. ch)" by (simp add: clone_laws_def)
  have run: "rtranclp (quion_session_step example_quion_connection example_quion_send example_mpsc
    (\<lambda>ch. ch\<lparr>senders := senders ch + 1\<rparr>)) ?w ?w" by simp
  have "quion_session_ok (n_world_session ?w)"
    by (rule quion_lifecycle_invariant [OF example_quion_connection_laws example_close_laws(1) example_mpsc_laws
        cl b run, THEN conjunct1])
  then show ?thesis by (simp add: quion_raw_start_def)
qed

theorem quion_close_completes_witness:
  "NC_is_closed example_quion_connection (snd (quion_Session_close example_quion_connection example_mpsc
     (quion_Session_raw example_mpsc () ()
       :: (unit, unit, bytes \<times> nat option, bytes, unit, unit, unit, unit, quion_CloseCommand channel_view) quion_Session)
     7 [] (([], []), None)))"
proof -
  let ?self = "quion_Session_raw example_mpsc () ()
    :: (unit, unit, bytes \<times> nat option, bytes, unit, unit, unit, unit, quion_CloseCommand channel_view) quion_Session"
  let ?w = "quion_raw_start (([], []), None) ?self :: ((bytes \<times> bytes) \<times> unit quion_ConnectionError option, _, bytes \<times> nat option, bytes) quion_world"
  have b: "quion_session_begins example_quion_connection example_mpsc ?w"
    unfolding quion_session_begins_def by blast
  have cl: "clone_laws (\<lambda>ch. ch\<lparr>senders := senders ch + 1\<rparr>) (\<lambda>ch. ch)" by (simp add: clone_laws_def)
  have run: "rtranclp (quion_session_step example_quion_connection example_quion_send example_mpsc
    (\<lambda>ch. ch\<lparr>senders := senders ch + 1\<rparr>)) ?w ?w" by simp
  obtain self q where c: "quion_Session_close example_quion_connection example_mpsc (n_world_session ?w) 7 []
      (n_world_conn ?w) = (self, q)"
    by (metis prod.exhaust)
  have "\<forall>task. n_world_phase ?w \<noteq> NP_running task" by (simp add: quion_raw_start_def)
  then have "NC_is_closed example_quion_connection q"
    using quion_close_completes [OF example_quion_connection_laws example_close_laws(1) example_mpsc_laws cl b run c]
    by blast
  then show ?thesis using c by (simp add: quion_raw_start_def)
qed

end
