(* ===== verification/Builders.thy ===== *)
theory Builders
  imports Quion_Endpoints
begin

section \<open>Builders of clients and servers\<close>

text \<open>
  \<^verbatim>\<open>ClientBuilder\<close>, \<^verbatim>\<open>DangerousClientBuilder\<close> and \<^verbatim>\<open>ServerBuilder\<close> of \<^verbatim>\<open>client.rs\<close> and \<^verbatim>\<open>server.rs\<close> in
  \<^verbatim>\<open>webtrans-quinn\<close> and \<^verbatim>\<open>webtrans-quion\<close>, the verifiers of certificates they install, and the digest and
  the default provider of \<^verbatim>\<open>crypto.rs\<close>, which the two crates share word for word. The configurations of
  rustls, Quinn and Quion are parameters. The lemmas show what a client that pins certificates
  accepts, and that the limits a builder was given are those of the client or server it makes.
\<close>

subsection \<open>Crypto providers\<close>

text \<open>
  \<open>CR_hash_provider\<close> is the hash of a TLS 1.3 cipher suite. \<open>CR_installed\<close> is the default of the process,
  \<open>CR_ring\<close> and \<open>CR_aws_lc_rs\<close> the providers of the features that are enabled.
\<close>

record ('prov, 'suite, 'hp) crypto_api =
  CR_cipher_suites :: "'prov \<Rightarrow> 'suite list"
  CR_hash_provider :: "'suite \<Rightarrow> 'hp option"
  CR_is_sha256 :: "'hp \<Rightarrow> bool"
  CR_hash :: "'hp \<Rightarrow> bytes \<Rightarrow> bytes"
  CR_installed :: "'prov option"
  CR_ring :: "'prov option"
  CR_aws_lc_rs :: "'prov option"

definition default_provider :: "('prov, 'suite, 'hp) crypto_api \<Rightarrow> ('prov, 'e) res" where
  "default_provider C =
     (case CR_installed C of
        Some provider \<Rightarrow> Ok provider
      | None \<Rightarrow>
          (case CR_ring C of
             Some provider \<Rightarrow> Ok provider
           | None \<Rightarrow> (case CR_aws_lc_rs C of Some provider \<Rightarrow> Ok provider | None \<Rightarrow> Panic)))"

fun find_sha256 :: "('prov, 'suite, 'hp) crypto_api \<Rightarrow> 'suite list \<Rightarrow> 'hp option" where
  "find_sha256 C [] = None"
| "find_sha256 C (suite # suites) =
     (case CR_hash_provider C suite of
        None \<Rightarrow> find_sha256 C suites
      | Some hash_provider \<Rightarrow>
          if CR_is_sha256 C hash_provider then Some hash_provider else find_sha256 C suites)"

definition crypto_sha256 :: "('prov, 'suite, 'hp) crypto_api \<Rightarrow> 'prov \<Rightarrow> bytes \<Rightarrow> (bytes, 'e) res" where
  "crypto_sha256 C provider cert =
     (case find_sha256 C (CR_cipher_suites C provider) of
        Some hash_provider \<Rightarrow> Ok (CR_hash C hash_provider cert)
      | None \<Rightarrow> Panic)"

fun sha256_all :: "('prov, 'suite, 'hp) crypto_api \<Rightarrow> 'prov \<Rightarrow> bytes list \<Rightarrow> (bytes list, 'e) res" where
  "sha256_all C provider [] = Ok []"
| "sha256_all C provider (cert # certs) =
     and_then (crypto_sha256 C provider cert) (\<lambda>hash.
     and_then (sha256_all C provider certs) (\<lambda>hashes. Ok (hash # hashes)))"

subsection \<open>Verifiers\<close>

datatype 'prov verifier = ServerFingerprints 'prov "bytes list" | NoCertificateVerification 'prov

definition verifier_verify_server_cert :: "('prov, 'suite, 'hp) crypto_api \<Rightarrow> 'prov verifier \<Rightarrow> bytes \<Rightarrow>
    (unit, cert_error) res" where
  "verifier_verify_server_cert C v end_entity =
     (case v of
        ServerFingerprints provider fingerprints \<Rightarrow>
          and_then (crypto_sha256 C provider end_entity) (\<lambda>cert_hash.
            if list_ex (\<lambda>fingerprint. fingerprint = cert_hash) fingerprints then Ok () else Err UnknownIssuer)
      | NoCertificateVerification _ \<Rightarrow> Ok ())"

subsection \<open>TLS configurations\<close>

text \<open>
  \<open>R_client_builder\<close> is \<^verbatim>\<open>builder_with_provider\<close> restricted to TLS 1.3, and \<open>R_server_builder\<close> that of
  a server without client authentication. \<open>R_native\<close> are the certificates of the platform.
\<close>

record ('prov, 'cb, 'roots, 'cert, 'tls, 'sb, 'chain, 'key, 'ck, 'sni, 'stls, 'te) rustls_api =
  R_client_builder :: "'prov \<Rightarrow> ('cb, 'te) res"
  R_roots_empty :: 'roots
  R_roots_add :: "'cert \<Rightarrow> 'roots \<Rightarrow> (unit, 'te) res \<times> 'roots"
  R_native :: "'cert list"
  R_root_certificates :: "'roots \<Rightarrow> 'cb \<Rightarrow> 'tls"
  R_custom_verifier :: "'prov verifier \<Rightarrow> 'cb \<Rightarrow> 'tls"
  R_client_alpn :: "bytes list \<Rightarrow> 'tls \<Rightarrow> 'tls"
  R_server_builder :: "'prov \<Rightarrow> ('sb, 'te) res"
  R_single_cert :: "'chain \<Rightarrow> 'key \<Rightarrow> 'sb \<Rightarrow> ('stls, 'te) res"
  R_certified :: "'chain \<Rightarrow> 'key \<Rightarrow> 'prov \<Rightarrow> ('ck, 'te) res"
  R_sni_new :: 'sni
  R_sni_add :: "bytes \<Rightarrow> 'ck \<Rightarrow> 'sni \<Rightarrow> ('sni, 'te) res"
  R_cert_resolver :: "'sni \<Rightarrow> 'sb \<Rightarrow> 'stls"
  R_server_alpn :: "bytes list \<Rightarrow> 'stls \<Rightarrow> 'stls"

definition ALPN :: bytes where "ALPN = str ''h3''"

text \<open>A certificate that cannot be added is logged and left out.\<close>

definition native_roots :: "('prov, 'cb, 'roots, 'cert, 'tls, 'sb, 'chain, 'key, 'ck, 'sni, 'stls, 'te) rustls_api \<Rightarrow> 'roots" where
  "native_roots R = fold (\<lambda>cert roots. snd (R_roots_add R cert roots)) (R_native R) (R_roots_empty R)"

fun sni_resolver :: "('prov, 'cb, 'roots, 'cert, 'tls, 'sb, 'chain, 'key, 'ck, 'sni, 'stls, 'te) rustls_api \<Rightarrow> 'prov \<Rightarrow>
    (bytes \<times> 'chain \<times> 'key) list \<Rightarrow> 'sni \<Rightarrow> ('sni, 'te) res" where
  "sni_resolver R provider [] resolver = Ok resolver"
| "sni_resolver R provider ((name, chain, key) # certificates) resolver =
     and_then (R_certified R chain key provider) (\<lambda>certified.
     and_then (R_sni_add R name certified resolver) (\<lambda>resolver.
       sni_resolver R provider certificates resolver))"

subsection \<open>Clients over Quinn\<close>

datatype CongestionControl = CC_Default | CC_Throughput | CC_LowLatency

datatype controller = NewReno | Cubic | Bbr

text \<open>
  \<open>QB_quic_client\<close> is \<^verbatim>\<open>QuicClientConfig::try_from\<close>, \<open>QB_endpoint_client\<close> an endpoint on any port of all
  addresses; \<open>QB_any_443\<close> is the address \<^verbatim>\<open>[::]:443\<close>.
\<close>

record ('tr, 'tls, 'qc, 'cfg, 'ep, 'stls, 'qs, 'scfg, 'addr) quinn_config =
  QB_default_transport :: 'tr
  QB_congestion :: "controller \<Rightarrow> 'tr \<Rightarrow> 'tr"
  QB_quic_client :: "'tls \<Rightarrow> ('qc, unit) res"
  QB_client_config :: "'qc \<Rightarrow> 'cfg"
  QB_client_transport :: "'tr \<Rightarrow> 'cfg \<Rightarrow> 'cfg"
  QB_endpoint_client :: "('ep, io_error) res"
  QB_quic_server :: "'stls \<Rightarrow> ('qs, unit) res"
  QB_server_config :: "'qs \<Rightarrow> 'scfg"
  QB_server_transport :: "'tr \<Rightarrow> 'scfg \<Rightarrow> 'scfg"
  QB_endpoint_server :: "'scfg \<Rightarrow> 'addr \<Rightarrow> ('ep, io_error) res"
  QB_any_443 :: 'addr

record ('prov, 'tr) ClientBuilder =
  cb_provider :: 'prov
  cb_transport :: 'tr
  cb_dns_timeout :: "nat option"
  cb_handshake_timeout :: "nat option"

definition ClientBuilder_new :: "('prov, 'suite, 'hp) crypto_api \<Rightarrow>
    ('tr, 'tls, 'qc, 'cfg, 'ep, 'stls, 'qs, 'scfg, 'addr) quinn_config \<Rightarrow> (('prov, 'tr) ClientBuilder, 'e) res" where
  "ClientBuilder_new C B =
     and_then (default_provider C) (\<lambda>provider.
       Ok \<lparr>cb_provider = provider, cb_transport = QB_default_transport B, cb_dns_timeout = None,
           cb_handshake_timeout = None\<rparr>)"

definition ClientBuilder_with_congestion_control ::
    "('tr, 'tls, 'qc, 'cfg, 'ep, 'stls, 'qs, 'scfg, 'addr) quinn_config \<Rightarrow> CongestionControl \<Rightarrow>
    ('prov, 'tr) ClientBuilder \<Rightarrow> ('prov, 'tr) ClientBuilder" where
  "ClientBuilder_with_congestion_control B algorithm self =
     self\<lparr>cb_transport := (case algorithm of
        CC_LowLatency \<Rightarrow> QB_congestion B NewReno (cb_transport self)
      | CC_Throughput \<Rightarrow> QB_congestion B Bbr (cb_transport self)
      | CC_Default \<Rightarrow> QB_congestion B Cubic (cb_transport self))\<rparr>"

definition ClientBuilder_with_transport_config :: "'tr \<Rightarrow> ('prov, 'tr) ClientBuilder \<Rightarrow> ('prov, 'tr) ClientBuilder" where
  "ClientBuilder_with_transport_config transport self = self\<lparr>cb_transport := transport\<rparr>"

definition ClientBuilder_with_dns_timeout :: "nat \<Rightarrow> ('prov, 'tr) ClientBuilder \<Rightarrow> ('prov, 'tr) ClientBuilder" where
  "ClientBuilder_with_dns_timeout timeout self = self\<lparr>cb_dns_timeout := Some timeout\<rparr>"

definition ClientBuilder_with_handshake_timeout :: "nat \<Rightarrow> ('prov, 'tr) ClientBuilder \<Rightarrow> ('prov, 'tr) ClientBuilder" where
  "ClientBuilder_with_handshake_timeout timeout self = self\<lparr>cb_handshake_timeout := Some timeout\<rparr>"

text \<open>A client comes with its endpoint.\<close>

definition ClientBuilder_build :: "('prov, 'cb, 'roots, 'cert, 'tls, 'sb, 'chain, 'key, 'ck, 'sni, 'stls, 'te) rustls_api \<Rightarrow>
    ('tr, 'tls, 'qc, 'cfg, 'ep, 'stls, 'qs, 'scfg, 'addr) quinn_config \<Rightarrow> 'tls \<Rightarrow> ('prov, 'tr) ClientBuilder \<Rightarrow>
    ('ep \<times> 'cfg Client, ('c, 'p, 'm, 'st, 'qe, 'te) ClientError) res" where
  "ClientBuilder_build R B crypto self =
     (let crypto = R_client_alpn R [ALPN] crypto in
      and_then (map_err (\<lambda>_. CE_InvalidCryptoConfiguration) (QB_quic_client B crypto)) (\<lambda>quic.
      let config = QB_client_transport B (cb_transport self) (QB_client_config B quic) in
      and_then (map_err CE_Io (QB_endpoint_client B)) (\<lambda>client.
        Ok (client, \<lparr>client_config = config, dns_timeout = cb_dns_timeout self,
          client_handshake_timeout = cb_handshake_timeout self\<rparr>))))"

definition ClientBuilder_with_system_roots ::
    "('prov, 'cb, 'roots, 'cert, 'tls, 'sb, 'chain, 'key, 'ck, 'sni, 'stls, 'te) rustls_api \<Rightarrow>
    ('tr, 'tls, 'qc, 'cfg, 'ep, 'stls, 'qs, 'scfg, 'addr) quinn_config \<Rightarrow> ('prov, 'tr) ClientBuilder \<Rightarrow>
    ('ep \<times> 'cfg Client, ('c, 'p, 'm, 'st, 'qe, 'te) ClientError) res" where
  "ClientBuilder_with_system_roots R B self =
     and_then (map_err CE_Rustls (R_client_builder R (cb_provider self))) (\<lambda>builder.
       ClientBuilder_build R B (R_root_certificates R (native_roots R) builder) self)"

definition ClientBuilder_with_server_certificate_hashes ::
    "('prov, 'cb, 'roots, 'cert, 'tls, 'sb, 'chain, 'key, 'ck, 'sni, 'stls, 'te) rustls_api \<Rightarrow>
    ('tr, 'tls, 'qc, 'cfg, 'ep, 'stls, 'qs, 'scfg, 'addr) quinn_config \<Rightarrow> bytes list \<Rightarrow> ('prov, 'tr) ClientBuilder \<Rightarrow>
    ('ep \<times> 'cfg Client, ('c, 'p, 'm, 'st, 'qe, 'te) ClientError) res" where
  "ClientBuilder_with_server_certificate_hashes R B hashes self =
     (let fingerprints = ServerFingerprints (cb_provider self) hashes in
      and_then (map_err CE_Rustls (R_client_builder R (cb_provider self))) (\<lambda>builder.
        ClientBuilder_build R B (R_custom_verifier R fingerprints builder) self))"

definition ClientBuilder_with_server_certificates :: "('prov, 'suite, 'hp) crypto_api \<Rightarrow>
    ('prov, 'cb, 'roots, 'cert, 'tls, 'sb, 'chain, 'key, 'ck, 'sni, 'stls, 'te) rustls_api \<Rightarrow>
    ('tr, 'tls, 'qc, 'cfg, 'ep, 'stls, 'qs, 'scfg, 'addr) quinn_config \<Rightarrow> bytes list \<Rightarrow> ('prov, 'tr) ClientBuilder \<Rightarrow>
    ('ep \<times> 'cfg Client, ('c, 'p, 'm, 'st, 'qe, 'te) ClientError) res" where
  "ClientBuilder_with_server_certificates C R B certs self =
     and_then (sha256_all C (cb_provider self) certs) (\<lambda>hashes.
       ClientBuilder_with_server_certificate_hashes R B hashes self)"

definition DangerousClientBuilder_with_no_certificate_verification ::
    "('prov, 'cb, 'roots, 'cert, 'tls, 'sb, 'chain, 'key, 'ck, 'sni, 'stls, 'te) rustls_api \<Rightarrow>
    ('tr, 'tls, 'qc, 'cfg, 'ep, 'stls, 'qs, 'scfg, 'addr) quinn_config \<Rightarrow> ('prov, 'tr) ClientBuilder \<Rightarrow>
    ('ep \<times> 'cfg Client, ('c, 'p, 'm, 'st, 'qe, 'te) ClientError) res" where
  "DangerousClientBuilder_with_no_certificate_verification R B inner =
     (let noop = NoCertificateVerification (cb_provider inner) in
      and_then (map_err CE_Rustls (R_client_builder R (cb_provider inner))) (\<lambda>builder.
        ClientBuilder_build R B (R_custom_verifier R noop builder) inner))"

subsection \<open>Servers over Quinn\<close>

record ('prov, 'tr, 'addr) ServerBuilder =
  sb_provider :: 'prov
  sb_addr :: 'addr
  sb_transport :: 'tr
  sb_handshake_timeout :: "nat option"
  sb_max_pending_handshakes :: nat

definition ServerBuilder_new :: "('prov, 'suite, 'hp) crypto_api \<Rightarrow>
    ('tr, 'tls, 'qc, 'cfg, 'ep, 'stls, 'qs, 'scfg, 'addr) quinn_config \<Rightarrow> (('prov, 'tr, 'addr) ServerBuilder, 'e) res" where
  "ServerBuilder_new C B =
     and_then (default_provider C) (\<lambda>provider.
       Ok \<lparr>sb_provider = provider, sb_addr = QB_any_443 B, sb_transport = QB_default_transport B,
           sb_handshake_timeout = None, sb_max_pending_handshakes = 2 ^ 64 - 1\<rparr>)"

definition ServerBuilder_with_addr :: "'addr \<Rightarrow> ('prov, 'tr, 'addr) ServerBuilder \<Rightarrow> ('prov, 'tr, 'addr) ServerBuilder" where
  "ServerBuilder_with_addr addr self = self\<lparr>sb_addr := addr\<rparr>"

definition ServerBuilder_with_congestion_control ::
    "('tr, 'tls, 'qc, 'cfg, 'ep, 'stls, 'qs, 'scfg, 'addr) quinn_config \<Rightarrow> CongestionControl \<Rightarrow>
    ('prov, 'tr, 'addr) ServerBuilder \<Rightarrow> ('prov, 'tr, 'addr) ServerBuilder" where
  "ServerBuilder_with_congestion_control B algorithm self =
     self\<lparr>sb_transport := (case algorithm of
        CC_LowLatency \<Rightarrow> QB_congestion B NewReno (sb_transport self)
      | CC_Throughput \<Rightarrow> QB_congestion B Bbr (sb_transport self)
      | CC_Default \<Rightarrow> QB_congestion B Cubic (sb_transport self))\<rparr>"

definition ServerBuilder_with_transport_config :: "'tr \<Rightarrow> ('prov, 'tr, 'addr) ServerBuilder \<Rightarrow>
    ('prov, 'tr, 'addr) ServerBuilder" where
  "ServerBuilder_with_transport_config transport self = self\<lparr>sb_transport := transport\<rparr>"

definition ServerBuilder_with_handshake_timeout :: "nat \<Rightarrow> ('prov, 'tr, 'addr) ServerBuilder \<Rightarrow>
    ('prov, 'tr, 'addr) ServerBuilder" where
  "ServerBuilder_with_handshake_timeout timeout self = self\<lparr>sb_handshake_timeout := Some timeout\<rparr>"

definition ServerBuilder_with_max_pending_handshakes :: "nat \<Rightarrow> ('prov, 'tr, 'addr) ServerBuilder \<Rightarrow>
    ('prov, 'tr, 'addr) ServerBuilder" where
  "ServerBuilder_with_max_pending_handshakes limit self = self\<lparr>sb_max_pending_handshakes := limit\<rparr>"

text \<open>The end of both methods below.\<close>

definition ServerBuilder_listen :: "('prov, 'cb, 'roots, 'cert, 'tls, 'sb, 'chain, 'key, 'ck, 'sni, 'stls, 'te) rustls_api \<Rightarrow>
    ('tr, 'tls, 'qc, 'cfg, 'ep, 'stls, 'qs, 'scfg, 'addr) quinn_config \<Rightarrow> 'stls \<Rightarrow> ('prov, 'tr, 'addr) ServerBuilder \<Rightarrow>
    ('ep \<times> 'inc Server, ('c, 'p, 'm, 'st, 'te) ServerError) res" where
  "ServerBuilder_listen R B config self =
     (let config = R_server_alpn R [ALPN] config in
      and_then (map_err (\<lambda>_. SRV_InvalidCryptoConfiguration) (QB_quic_server B config)) (\<lambda>config.
      let config = QB_server_transport B (sb_transport self) (QB_server_config B config) in
      and_then (map_err SRV_IoError (QB_endpoint_server B config (sb_addr self))) (\<lambda>server.
        Ok (server, Server_with_accept_limits (sb_handshake_timeout self) (sb_max_pending_handshakes self)))))"

definition ServerBuilder_with_certificate ::
    "('prov, 'cb, 'roots, 'cert, 'tls, 'sb, 'chain, 'key, 'ck, 'sni, 'stls, 'te) rustls_api \<Rightarrow>
    ('tr, 'tls, 'qc, 'cfg, 'ep, 'stls, 'qs, 'scfg, 'addr) quinn_config \<Rightarrow> 'chain \<Rightarrow> 'key \<Rightarrow>
    ('prov, 'tr, 'addr) ServerBuilder \<Rightarrow> ('ep \<times> 'inc Server, ('c, 'p, 'm, 'st, 'te) ServerError) res" where
  "ServerBuilder_with_certificate R B chain key self =
     and_then (map_err SRV_Rustls (R_server_builder R (sb_provider self))) (\<lambda>builder.
     and_then (map_err SRV_Rustls (R_single_cert R chain key builder)) (\<lambda>config.
       ServerBuilder_listen R B config self))"

definition ServerBuilder_with_certificates ::
    "('prov, 'cb, 'roots, 'cert, 'tls, 'sb, 'chain, 'key, 'ck, 'sni, 'stls, 'te) rustls_api \<Rightarrow>
    ('tr, 'tls, 'qc, 'cfg, 'ep, 'stls, 'qs, 'scfg, 'addr) quinn_config \<Rightarrow> (bytes \<times> 'chain \<times> 'key) list \<Rightarrow>
    ('prov, 'tr, 'addr) ServerBuilder \<Rightarrow> ('ep \<times> 'inc Server, ('c, 'p, 'm, 'st, 'te) ServerError) res" where
  "ServerBuilder_with_certificates R B certificates self =
     and_then (map_err SRV_Rustls (sni_resolver R (sb_provider self) certificates (R_sni_new R))) (\<lambda>resolver.
     and_then (map_err SRV_Rustls (R_server_builder R (sb_provider self))) (\<lambda>builder.
       ServerBuilder_listen R B (R_cert_resolver R resolver builder) self))"

definition Server_new :: "'inc Server" where
  "Server_new = \<lparr>pending_handshakes = [], handshake_timeout = None, max_pending_handshakes = 2 ^ 64 - 1\<rparr>"

subsection \<open>Clients over Quion\<close>

datatype quion_CongestionControl = NCC_Default | NCC_Throughput | NCC_LowLatency

text \<open>
  \<open>NB_endpoint_client\<close> is an endpoint on any port of all IPv6 or all IPv4 addresses. What the library
  returns from building a server is an error of its endpoint or of its configuration.
\<close>

record ('tr, 'tls, 'cfg, 'ep, 'ee, 'stls, 'scfg, 'ge, 'addr, 'v) quion_config =
  NB_default_transport :: 'tr
  NB_set_reset_stream_at :: "bool \<Rightarrow> 'tr \<Rightarrow> 'tr"
  NB_set_max_datagram_frame_size :: "nat option \<Rightarrow> 'tr \<Rightarrow> 'tr"
  NB_congestion :: "controller \<Rightarrow> 'tr \<Rightarrow> 'tr"
  NB_client_config :: "'tls \<Rightarrow> 'tr \<Rightarrow> 'cfg"
  NB_endpoint_client :: "bool \<Rightarrow> 'tr \<Rightarrow> ('ep, 'ee) res"
  NB_server_config :: "'stls \<Rightarrow> 'tr \<Rightarrow> ('scfg, 'ee + 'ge) res"
  NB_endpoint_server :: "'scfg \<Rightarrow> 'addr \<Rightarrow> ('ep, 'ee + 'ge) res"
  NB_spawn_driver :: "nat \<Rightarrow> 'ep \<Rightarrow> ('v, 'ee + 'ge) res"
  NB_any_443 :: 'addr

definition default_transport_config :: "('tr, 'tls, 'cfg, 'ep, 'ee, 'stls, 'scfg, 'ge, 'addr, 'v) quion_config \<Rightarrow> 'tr" where
  "default_transport_config B =
     NB_set_max_datagram_frame_size B (Some 65535) (NB_set_reset_stream_at B True (NB_default_transport B))"

record ('prov, 'tr) quion_ClientBuilder =
  ncb_provider :: 'prov
  ncb_transport :: 'tr
  ncb_dns_timeout :: "nat option"
  ncb_handshake_timeout :: "nat option"

definition quion_ClientBuilder_new :: "('prov, 'suite, 'hp) crypto_api \<Rightarrow>
    ('tr, 'tls, 'cfg, 'ep, 'ee, 'stls, 'scfg, 'ge, 'addr, 'v) quion_config \<Rightarrow> (('prov, 'tr) quion_ClientBuilder, 'e) res" where
  "quion_ClientBuilder_new C B =
     and_then (default_provider C) (\<lambda>provider.
       Ok \<lparr>ncb_provider = provider, ncb_transport = default_transport_config B, ncb_dns_timeout = None,
           ncb_handshake_timeout = None\<rparr>)"

definition quion_ClientBuilder_with_congestion_control ::
    "('tr, 'tls, 'cfg, 'ep, 'ee, 'stls, 'scfg, 'ge, 'addr, 'v) quion_config \<Rightarrow> quion_CongestionControl \<Rightarrow>
    ('prov, 'tr) quion_ClientBuilder \<Rightarrow> ('prov, 'tr) quion_ClientBuilder" where
  "quion_ClientBuilder_with_congestion_control B algorithm self =
     self\<lparr>ncb_transport := NB_congestion B (case algorithm of
        NCC_Default \<Rightarrow> NewReno
      | NCC_LowLatency \<Rightarrow> NewReno
      | NCC_Throughput \<Rightarrow> Cubic) (ncb_transport self)\<rparr>"

definition quion_ClientBuilder_with_transport_config :: "'tr \<Rightarrow> ('prov, 'tr) quion_ClientBuilder \<Rightarrow>
    ('prov, 'tr) quion_ClientBuilder" where
  "quion_ClientBuilder_with_transport_config transport self = self\<lparr>ncb_transport := transport\<rparr>"

definition quion_ClientBuilder_with_dns_timeout :: "nat \<Rightarrow> ('prov, 'tr) quion_ClientBuilder \<Rightarrow>
    ('prov, 'tr) quion_ClientBuilder" where
  "quion_ClientBuilder_with_dns_timeout timeout self = self\<lparr>ncb_dns_timeout := Some timeout\<rparr>"

definition quion_ClientBuilder_with_handshake_timeout :: "nat \<Rightarrow> ('prov, 'tr) quion_ClientBuilder \<Rightarrow>
    ('prov, 'tr) quion_ClientBuilder" where
  "quion_ClientBuilder_with_handshake_timeout timeout self = self\<lparr>ncb_handshake_timeout := Some timeout\<rparr>"

text \<open>\<^verbatim>\<open>Result::ok\<close>.\<close>

fun ok_option :: "('a, 'e) res \<Rightarrow> ('a option, 'f) res" where
  "ok_option (Ok x) = Ok (Some x)"
| "ok_option (Err e) = Ok None"
| "ok_option Panic = Panic"

definition quion_ClientBuilder_build ::
    "('prov, 'cb, 'roots, 'cert, 'tls, 'sb, 'chain, 'key, 'ck, 'sni, 'stls, 'te) rustls_api \<Rightarrow>
    ('tr, 'tls, 'cfg, 'ep, 'ee, 'stls, 'scfg, 'ge, 'addr, 'v) quion_config \<Rightarrow>
    ('ip4, 'ip6, 'addr, 'cfg, 'ep, 'ee, 'h, 'q, 'c) quion_net \<Rightarrow> 'tls \<Rightarrow> ('prov, 'tr) quion_ClientBuilder \<Rightarrow>
    ('ep quion_Client, ('c, 'x, 'p, 'm, 'st, 'ee, 'te) quion_ClientError) res" where
  "quion_ClientBuilder_build R B W crypto self =
     (let crypto = R_client_alpn R [ALPN] crypto;
          client_config = NB_client_config B crypto (ncb_transport self) in
      and_then (map_err NCLE_Endpoint (NB_endpoint_client B False (ncb_transport self))) (\<lambda>client.
      let client = NN_set_default_client_config W client_config client in
      map_ok (\<lambda>ipv6. \<lparr>n_endpoint = client, n_ipv6 = map_option (NN_set_default_client_config W client_config) ipv6,
          n_dns_timeout = ncb_dns_timeout self, n_client_handshake_timeout = ncb_handshake_timeout self\<rparr>)
        (ok_option (NB_endpoint_client B True (ncb_transport self)))))"

definition quion_ClientBuilder_with_system_roots ::
    "('prov, 'cb, 'roots, 'cert, 'tls, 'sb, 'chain, 'key, 'ck, 'sni, 'stls, 'te) rustls_api \<Rightarrow>
    ('tr, 'tls, 'cfg, 'ep, 'ee, 'stls, 'scfg, 'ge, 'addr, 'v) quion_config \<Rightarrow>
    ('ip4, 'ip6, 'addr, 'cfg, 'ep, 'ee, 'h, 'q, 'c) quion_net \<Rightarrow> ('prov, 'tr) quion_ClientBuilder \<Rightarrow>
    ('ep quion_Client, ('c, 'x, 'p, 'm, 'st, 'ee, 'te) quion_ClientError) res" where
  "quion_ClientBuilder_with_system_roots R B W self =
     and_then (map_err NCLE_Rustls (R_client_builder R (ncb_provider self))) (\<lambda>builder.
       quion_ClientBuilder_build R B W (R_root_certificates R (native_roots R) builder) self)"

definition quion_ClientBuilder_with_server_certificate_hashes ::
    "('prov, 'cb, 'roots, 'cert, 'tls, 'sb, 'chain, 'key, 'ck, 'sni, 'stls, 'te) rustls_api \<Rightarrow>
    ('tr, 'tls, 'cfg, 'ep, 'ee, 'stls, 'scfg, 'ge, 'addr, 'v) quion_config \<Rightarrow>
    ('ip4, 'ip6, 'addr, 'cfg, 'ep, 'ee, 'h, 'q, 'c) quion_net \<Rightarrow> bytes list \<Rightarrow> ('prov, 'tr) quion_ClientBuilder \<Rightarrow>
    ('ep quion_Client, ('c, 'x, 'p, 'm, 'st, 'ee, 'te) quion_ClientError) res" where
  "quion_ClientBuilder_with_server_certificate_hashes R B W hashes self =
     (let fingerprints = ServerFingerprints (ncb_provider self) hashes in
      and_then (map_err NCLE_Rustls (R_client_builder R (ncb_provider self))) (\<lambda>builder.
        quion_ClientBuilder_build R B W (R_custom_verifier R fingerprints builder) self))"

definition quion_ClientBuilder_with_server_certificates :: "('prov, 'suite, 'hp) crypto_api \<Rightarrow>
    ('prov, 'cb, 'roots, 'cert, 'tls, 'sb, 'chain, 'key, 'ck, 'sni, 'stls, 'te) rustls_api \<Rightarrow>
    ('tr, 'tls, 'cfg, 'ep, 'ee, 'stls, 'scfg, 'ge, 'addr, 'v) quion_config \<Rightarrow>
    ('ip4, 'ip6, 'addr, 'cfg, 'ep, 'ee, 'h, 'q, 'c) quion_net \<Rightarrow> bytes list \<Rightarrow> ('prov, 'tr) quion_ClientBuilder \<Rightarrow>
    ('ep quion_Client, ('c, 'x, 'p, 'm, 'st, 'ee, 'te) quion_ClientError) res" where
  "quion_ClientBuilder_with_server_certificates C R B W certs self =
     and_then (sha256_all C (ncb_provider self) certs) (\<lambda>hashes.
       quion_ClientBuilder_with_server_certificate_hashes R B W hashes self)"

definition quion_DangerousClientBuilder_with_no_certificate_verification ::
    "('prov, 'cb, 'roots, 'cert, 'tls, 'sb, 'chain, 'key, 'ck, 'sni, 'stls, 'te) rustls_api \<Rightarrow>
    ('tr, 'tls, 'cfg, 'ep, 'ee, 'stls, 'scfg, 'ge, 'addr, 'v) quion_config \<Rightarrow>
    ('ip4, 'ip6, 'addr, 'cfg, 'ep, 'ee, 'h, 'q, 'c) quion_net \<Rightarrow> ('prov, 'tr) quion_ClientBuilder \<Rightarrow>
    ('ep quion_Client, ('c, 'x, 'p, 'm, 'st, 'ee, 'te) quion_ClientError) res" where
  "quion_DangerousClientBuilder_with_no_certificate_verification R B W inner =
     (let noop = NoCertificateVerification (ncb_provider inner) in
      and_then (map_err NCLE_Rustls (R_client_builder R (ncb_provider inner))) (\<lambda>builder.
        quion_ClientBuilder_build R B W (R_custom_verifier R noop builder) inner))"

subsection \<open>Servers over Quion\<close>

record ('prov, 'tr, 'addr) quion_ServerBuilder =
  nsb_provider :: 'prov
  nsb_addr :: 'addr
  nsb_transport :: 'tr
  nsb_handshake_timeout :: "nat option"
  nsb_max_pending_handshakes :: nat

definition quion_ServerBuilder_new :: "('prov, 'suite, 'hp) crypto_api \<Rightarrow>
    ('tr, 'tls, 'cfg, 'ep, 'ee, 'stls, 'scfg, 'ge, 'addr, 'v) quion_config \<Rightarrow>
    (('prov, 'tr, 'addr) quion_ServerBuilder, 'e) res" where
  "quion_ServerBuilder_new C B =
     and_then (default_provider C) (\<lambda>provider.
       Ok \<lparr>nsb_provider = provider, nsb_addr = NB_any_443 B, nsb_transport = default_transport_config B,
           nsb_handshake_timeout = None, nsb_max_pending_handshakes = 2 ^ 64 - 1\<rparr>)"

definition quion_ServerBuilder_with_addr :: "'addr \<Rightarrow> ('prov, 'tr, 'addr) quion_ServerBuilder \<Rightarrow>
    ('prov, 'tr, 'addr) quion_ServerBuilder" where
  "quion_ServerBuilder_with_addr addr self = self\<lparr>nsb_addr := addr\<rparr>"

definition quion_ServerBuilder_with_congestion_control ::
    "('tr, 'tls, 'cfg, 'ep, 'ee, 'stls, 'scfg, 'ge, 'addr, 'v) quion_config \<Rightarrow> quion_CongestionControl \<Rightarrow>
    ('prov, 'tr, 'addr) quion_ServerBuilder \<Rightarrow> ('prov, 'tr, 'addr) quion_ServerBuilder" where
  "quion_ServerBuilder_with_congestion_control B algorithm self =
     self\<lparr>nsb_transport := NB_congestion B (case algorithm of
        NCC_Default \<Rightarrow> NewReno
      | NCC_LowLatency \<Rightarrow> NewReno
      | NCC_Throughput \<Rightarrow> Cubic) (nsb_transport self)\<rparr>"

definition quion_ServerBuilder_with_transport_config :: "'tr \<Rightarrow> ('prov, 'tr, 'addr) quion_ServerBuilder \<Rightarrow>
    ('prov, 'tr, 'addr) quion_ServerBuilder" where
  "quion_ServerBuilder_with_transport_config transport self = self\<lparr>nsb_transport := transport\<rparr>"

definition quion_ServerBuilder_with_handshake_timeout :: "nat \<Rightarrow> ('prov, 'tr, 'addr) quion_ServerBuilder \<Rightarrow>
    ('prov, 'tr, 'addr) quion_ServerBuilder" where
  "quion_ServerBuilder_with_handshake_timeout timeout self = self\<lparr>nsb_handshake_timeout := Some timeout\<rparr>"

definition quion_ServerBuilder_with_max_pending_handshakes :: "nat \<Rightarrow> ('prov, 'tr, 'addr) quion_ServerBuilder \<Rightarrow>
    ('prov, 'tr, 'addr) quion_ServerBuilder" where
  "quion_ServerBuilder_with_max_pending_handshakes limit self = self\<lparr>nsb_max_pending_handshakes := limit\<rparr>"

definition quion_config_error :: "'ee + 'ge \<Rightarrow> ('c, 'x, 'p, 'm, 'st, 'ee, 'ge, 'te) quion_ServerError" where
  "quion_config_error e = (case e of Inl e \<Rightarrow> NSRV_Endpoint e | Inr e \<Rightarrow> NSRV_Configuration e)"

text \<open>The end of both methods below; the server comes with its endpoint.\<close>

definition quion_ServerBuilder_listen ::
    "('prov, 'cb, 'roots, 'cert, 'tls, 'sb, 'chain, 'key, 'ck, 'sni, 'stls, 'te) rustls_api \<Rightarrow>
    ('tr, 'tls, 'cfg, 'ep, 'ee, 'stls, 'scfg, 'ge, 'addr, 'v) quion_config \<Rightarrow> 'stls \<Rightarrow>
    ('prov, 'tr, 'addr) quion_ServerBuilder \<Rightarrow>
    ('ep \<times> ('inc, 'v) quion_Server, ('c, 'x, 'p, 'm, 'st, 'ee, 'ge, 'te) quion_ServerError) res" where
  "quion_ServerBuilder_listen R B config self =
     (let config = R_server_alpn R [ALPN] config in
      and_then (map_err quion_config_error (NB_server_config B config (nsb_transport self))) (\<lambda>config.
      and_then (map_err quion_config_error (NB_endpoint_server B config (nsb_addr self))) (\<lambda>server.
      and_then (map_err quion_config_error (NB_spawn_driver B 65535 server)) (\<lambda>driver.
        Ok (server, quion_Server_with_accept_limits driver (nsb_handshake_timeout self)
          (nsb_max_pending_handshakes self))))))"

definition quion_ServerBuilder_with_certificate ::
    "('prov, 'cb, 'roots, 'cert, 'tls, 'sb, 'chain, 'key, 'ck, 'sni, 'stls, 'te) rustls_api \<Rightarrow>
    ('tr, 'tls, 'cfg, 'ep, 'ee, 'stls, 'scfg, 'ge, 'addr, 'v) quion_config \<Rightarrow> 'chain \<Rightarrow> 'key \<Rightarrow>
    ('prov, 'tr, 'addr) quion_ServerBuilder \<Rightarrow>
    ('ep \<times> ('inc, 'v) quion_Server, ('c, 'x, 'p, 'm, 'st, 'ee, 'ge, 'te) quion_ServerError) res" where
  "quion_ServerBuilder_with_certificate R B chain key self =
     and_then (map_err NSRV_Rustls (R_server_builder R (nsb_provider self))) (\<lambda>builder.
     and_then (map_err NSRV_Rustls (R_single_cert R chain key builder)) (\<lambda>config.
       quion_ServerBuilder_listen R B config self))"

definition quion_ServerBuilder_with_certificates ::
    "('prov, 'cb, 'roots, 'cert, 'tls, 'sb, 'chain, 'key, 'ck, 'sni, 'stls, 'te) rustls_api \<Rightarrow>
    ('tr, 'tls, 'cfg, 'ep, 'ee, 'stls, 'scfg, 'ge, 'addr, 'v) quion_config \<Rightarrow> (bytes \<times> 'chain \<times> 'key) list \<Rightarrow>
    ('prov, 'tr, 'addr) quion_ServerBuilder \<Rightarrow>
    ('ep \<times> ('inc, 'v) quion_Server, ('c, 'x, 'p, 'm, 'st, 'ee, 'ge, 'te) quion_ServerError) res" where
  "quion_ServerBuilder_with_certificates R B certificates self =
     and_then (map_err NSRV_Rustls (sni_resolver R (nsb_provider self) certificates (R_sni_new R))) (\<lambda>resolver.
     and_then (map_err NSRV_Rustls (R_server_builder R (nsb_provider self))) (\<lambda>builder.
       quion_ServerBuilder_listen R B (R_cert_resolver R resolver builder) self))"

subsection \<open>Pinned certificates\<close>

lemma sha256_all_Ok:
  assumes "\<And>cert. (crypto_sha256 C provider cert :: (bytes, 'e) res) = Ok (h cert)"
  shows "(sha256_all C provider certs :: (bytes list, 'e) res) = Ok (map h certs)"
  by (induction certs) (simp_all add: assms)

lemma without_sha256:
  "find_sha256 C (CR_cipher_suites C provider) = None \<Longrightarrow> certs \<noteq> [] \<Longrightarrow> sha256_all C provider certs = Panic"
  by (cases certs) (simp_all add: crypto_sha256_def)

lemma pinned_verifier:
  assumes "find_sha256 C (CR_cipher_suites C provider) = Some hp"
  shows "verifier_verify_server_cert C (ServerFingerprints provider (map (CR_hash C hp) certs)) end_entity =
    (if CR_hash C hp end_entity \<in> CR_hash C hp ` set certs then Ok () else Err UnknownIssuer)"
  using assms by (auto simp: verifier_verify_server_cert_def crypto_sha256_def list_ex_iff)

lemma sha256_digests:
  "find_sha256 C (CR_cipher_suites C provider) = Some hp \<Longrightarrow> sha256_all C provider certs = Ok (map (CR_hash C hp) certs)"
  by (rule sha256_all_Ok) (simp add: crypto_sha256_def)

lemma ClientBuilder_pins:
  fixes R :: "('prov, 'cb, 'roots, 'cert, 'tls, 'sb, 'chain, 'key, 'ck, 'sni, 'stls, 'te) rustls_api"
    and B :: "('tr, 'tls, 'qc, 'cfg, 'ep, 'stls, 'qs, 'scfg, 'addr) quinn_config"
  assumes sha256: "find_sha256 C (CR_cipher_suites C provider) = Some hp"
    and made: "cb_provider self = provider \<and> ClientBuilder_with_server_certificates C R B certs self =
      (Ok (endpoint, client) :: (_, ('c, 'p, 'm, 'st, 'qe, 'te) ClientError) res)"
  shows "(\<exists>builder quic. R_client_builder R provider = Ok builder \<and>
        QB_quic_client B (R_client_alpn R [ALPN] (R_custom_verifier R
          (ServerFingerprints provider (map (CR_hash C hp) certs)) builder)) = Ok quic \<and>
        client_config client = QB_client_transport B (cb_transport self) (QB_client_config B quic)) \<and>
      dns_timeout client = cb_dns_timeout self \<and> client_handshake_timeout client = cb_handshake_timeout self"
  using made [THEN conjunct2] by (auto simp: made [THEN conjunct1] ClientBuilder_with_server_certificates_def sha256_digests [OF sha256]
      ClientBuilder_with_server_certificate_hashes_def ClientBuilder_build_def Let_def and_then_Ok_iff)

lemma ok_option_Ok: "ok_option r = Ok y \<longleftrightarrow> (\<exists>x. r = Ok x \<and> y = Some x) \<or> (\<exists>e. r = Err e \<and> y = None)"
  by (cases r) auto

lemma quion_ClientBuilder_pins:
  fixes R :: "('prov, 'cb, 'roots, 'cert, 'tls, 'sb, 'chain, 'key, 'ck, 'sni, 'stls, 'te) rustls_api"
    and N :: "('tr, 'tls, 'cfg, 'ep, 'ee, 'stls, 'scfg, 'ge, 'addr, 'v) quion_config"
  assumes sha256: "find_sha256 C (CR_cipher_suites C provider) = Some hp"
    and made: "ncb_provider self = provider \<and> quion_ClientBuilder_with_server_certificates C R N W certs self =
      (Ok client :: (_, ('c, 'x, 'p, 'm, 'st, 'ee, 'te) quion_ClientError) res)"
  shows "(\<exists>builder config ep4. R_client_builder R provider = Ok builder \<and>
        config = NB_client_config N (R_client_alpn R [ALPN] (R_custom_verifier R
          (ServerFingerprints provider (map (CR_hash C hp) certs)) builder)) (ncb_transport self) \<and>
        NB_endpoint_client N False (ncb_transport self) = Ok ep4 \<and>
        n_endpoint client = NN_set_default_client_config W config ep4 \<and>
        (\<forall>ep6. n_ipv6 client = Some ep6 \<longrightarrow>
          (\<exists>ep. NB_endpoint_client N True (ncb_transport self) = Ok ep \<and> ep6 = NN_set_default_client_config W config ep))) \<and>
      n_dns_timeout client = ncb_dns_timeout self \<and>
      n_client_handshake_timeout client = ncb_handshake_timeout self"
  using made [THEN conjunct2] by (auto simp: made [THEN conjunct1] quion_ClientBuilder_with_server_certificates_def sha256_digests [OF sha256]
      quion_ClientBuilder_with_server_certificate_hashes_def quion_ClientBuilder_build_def Let_def and_then_Ok_iff ok_option_Ok)

text \<open>A provider with one suite, whose digest is the certificate.\<close>

definition example_crypto :: "(unit, unit, unit) crypto_api" where
  "example_crypto = \<lparr>CR_cipher_suites = (\<lambda>_. [()]), CR_hash_provider = Some, CR_is_sha256 = (\<lambda>_. True),
     CR_hash = (\<lambda>_ cert. cert), CR_installed = Some (), CR_ring = None, CR_aws_lc_rs = None\<rparr>"

subsection \<open>Property\<close>

text \<open>
  C39. A client that pins certificates trusts those and no others. Over both backends, with a provider
  that has SHA-256: the client made from given certificates has the TLS configuration with TLS 1.3,
  the protocol h3 and a verifier that accepts exactly the certificates whose digest is the digest of
  one given, each of those included; and its timeouts are those set on the builder. The endpoint for
  IPv6 of a Quion client, if there is one, has the same configuration.
\<close>

theorem pinned_certificates:
  fixes R :: "('prov, 'cb, 'roots, 'cert, 'tls, 'sb, 'chain, 'key, 'ck, 'sni, 'stls, 'te) rustls_api"
    and B :: "('tr, 'tls, 'qc, 'cfg, 'ep, 'stls, 'qs, 'scfg, 'addr) quinn_config"
    and N :: "('tr, 'tls, 'cfg, 'ep, 'ee, 'stls, 'scfg, 'ge, 'addr, 'v) quion_config"
  assumes sha256: "find_sha256 C (CR_cipher_suites C provider) = Some hp"
  shows "(\<forall>end_entity. verifier_verify_server_cert C (ServerFingerprints provider (map (CR_hash C hp) certs)) end_entity =
        (if CR_hash C hp end_entity \<in> CR_hash C hp ` set certs then Ok () else Err UnknownIssuer)) \<and>
    (\<forall>endpoint client self. cb_provider self = provider \<and>
        ClientBuilder_with_server_certificates C R B certs self =
          (Ok (endpoint, client) :: (_, ('c, 'p, 'm, 'st, 'qe, 'te) ClientError) res) \<longrightarrow>
      (\<exists>builder quic. R_client_builder R provider = Ok builder \<and>
        QB_quic_client B (R_client_alpn R [ALPN] (R_custom_verifier R
          (ServerFingerprints provider (map (CR_hash C hp) certs)) builder)) = Ok quic \<and>
        client_config client = QB_client_transport B (cb_transport self) (QB_client_config B quic)) \<and>
      dns_timeout client = cb_dns_timeout self \<and> client_handshake_timeout client = cb_handshake_timeout self) \<and>
    (\<forall>client self. ncb_provider self = provider \<and>
        quion_ClientBuilder_with_server_certificates C R N W certs self =
          (Ok client :: (_, ('c, 'x, 'p, 'm, 'st, 'ee, 'te) quion_ClientError) res) \<longrightarrow>
      (\<exists>builder config ep4. R_client_builder R provider = Ok builder \<and>
        config = NB_client_config N (R_client_alpn R [ALPN] (R_custom_verifier R
          (ServerFingerprints provider (map (CR_hash C hp) certs)) builder)) (ncb_transport self) \<and>
        NB_endpoint_client N False (ncb_transport self) = Ok ep4 \<and>
        n_endpoint client = NN_set_default_client_config W config ep4 \<and>
        (\<forall>ep6. n_ipv6 client = Some ep6 \<longrightarrow>
          (\<exists>ep. NB_endpoint_client N True (ncb_transport self) = Ok ep \<and> ep6 = NN_set_default_client_config W config ep))) \<and>
      n_dns_timeout client = ncb_dns_timeout self \<and>
      n_client_handshake_timeout client = ncb_handshake_timeout self)"
  by (intro conjI; intro allI impI; (rule pinned_verifier [OF sha256]
      | erule ClientBuilder_pins [OF sha256] | erule quion_ClientBuilder_pins [OF sha256]))

theorem pinned_certificates_witness:
  "verifier_verify_server_cert example_crypto (ServerFingerprints () (map (CR_hash example_crypto ()) [[1], [2]])) [2] = Ok ()"
proof -
  have "find_sha256 example_crypto (CR_cipher_suites example_crypto ()) = Some ()" by (simp add: example_crypto_def)
  from pinned_certificates [OF this, THEN conjunct1, THEN spec, of "[[1], [2]]" "[2]"] show ?thesis by simp
qed

end
