(* ===== verification/Tls.thy ===== *)
theory Tls
  imports Builders Error_Codes
begin

section \<open>Certificate and key helpers\<close>

text \<open>
  \<^verbatim>\<open>tls/mod.rs\<close>, \<^verbatim>\<open>tls/cert.rs\<close> and \<^verbatim>\<open>tls/key.rs\<close>, which \<^verbatim>\<open>webtrans-quinn\<close> and \<^verbatim>\<open>webtrans-quion\<close> share
  word for word: loading certificates and keys from files, self-signed pairs, and the TLS
  configurations built from them. The file system, the formats of \<^verbatim>\<open>rustls-pki-types\<close> and the generator
  of \<^verbatim>\<open>rcgen\<close> are parameters. The lemmas show that a generated pair can be saved in either format and
  loaded again, to the same configuration, and which errors are reported.
\<close>

subsection \<open>Paths\<close>

text \<open>
  \<^verbatim>\<open>Path::file_name\<close> and \<^verbatim>\<open>Path::extension\<close> of the standard library on Unix: the last component that is
  neither empty nor a dot, and what follows its last dot unless that dot is its first byte.
\<close>

fun split_on :: "u8 \<Rightarrow> bytes \<Rightarrow> bytes list" where
  "split_on c [] = [[]]"
| "split_on c (b # bs) =
     (if b = c then [] # split_on c bs
      else case split_on c bs of [] \<Rightarrow> [[b]] | part # parts \<Rightarrow> (b # part) # parts)"

definition file_name :: "bytes \<Rightarrow> bytes option" where
  "file_name path =
     (case rev (filter (\<lambda>c. c \<noteq> [] \<and> c \<noteq> str ''.'') (split_on 0x2F path)) of
        [] \<Rightarrow> None
      | name # _ \<Rightarrow> if name = str ''..'' then None else Some name)"

definition extension :: "bytes \<Rightarrow> bytes option" where
  "extension path =
     (case file_name path of
        None \<Rightarrow> None
      | Some name \<Rightarrow>
          let after = rev (takeWhile (\<lambda>b. b \<noteq> 0x2E) (rev name));
              before = dropWhile (\<lambda>b. b \<noteq> 0x2E) (rev name)
          in if length before \<le> 1 then None else Some after)"

subsection \<open>Formats and the generator\<close>

text \<open>
  \<open>PK_pkcs8\<close> is a key in PKCS 8, \<open>PK_cert_pems\<close> the certificates in a PEM file, \<open>PK_key_pem\<close> its key.
  \<open>RC_self_signed\<close> is \<^verbatim>\<open>generate_simple_self_signed\<close>, with the randomness it draws as first argument.
\<close>

record ('key, 'pe, 're, 'rng, 'gen, 'te) pki_api =
  PK_pkcs8 :: "bytes \<Rightarrow> 'key"
  PK_cert_pems :: "bytes \<Rightarrow> (bytes, 'pe) res list"
  PK_key_pem :: "bytes \<Rightarrow> ('key, 'pe) res"
  RC_self_signed :: "'rng \<Rightarrow> bytes list \<Rightarrow> ('gen, 're) res"
  RC_cert_der :: "'gen \<Rightarrow> bytes"
  RC_cert_pem :: "'gen \<Rightarrow> bytes"
  RC_key_der :: "'gen \<Rightarrow> bytes"
  RC_key_pem :: "'gen \<Rightarrow> bytes"
  io_text :: "io_error \<Rightarrow> bytes"
  pem_text :: "'pe \<Rightarrow> bytes"
  rcgen_text :: "'re \<Rightarrow> bytes"
  tls_text :: "'te \<Rightarrow> bytes"

text \<open>\<^verbatim>\<open>collect\<close> into a result: the first error ends it.\<close>

fun collect_results :: "('a, 'e) res list \<Rightarrow> ('a list, 'e) res" where
  "collect_results [] = Ok []"
| "collect_results (r # rs) = and_then r (\<lambda>x. and_then (collect_results rs) (\<lambda>xs. Ok (x # xs)))"

text \<open>\<open>fs\<close> is \<^verbatim>\<open>fs::read\<close> on the files as they are.\<close>

definition load_certs :: "('key, 'pe, 're, 'rng, 'gen, 'te) pki_api \<Rightarrow> (bytes \<Rightarrow> (bytes, io_error) res) \<Rightarrow> bytes \<Rightarrow>
    (bytes list, Error) res" where
  "load_certs P fs cert_path =
     and_then (map_err (\<lambda>e. Error_Io (io_text P e)) (fs cert_path)) (\<lambda>cert_bytes.
       if extension cert_path = Some (str ''der'') then Ok [cert_bytes]
       else map_err (\<lambda>e. Error_Tls (pem_text P e)) (collect_results (PK_cert_pems P cert_bytes)))"

definition load_key :: "('key, 'pe, 're, 'rng, 'gen, 'te) pki_api \<Rightarrow> (bytes \<Rightarrow> (bytes, io_error) res) \<Rightarrow> bytes \<Rightarrow>
    ('key, Error) res" where
  "load_key P fs key_path =
     and_then (map_err (\<lambda>e. Error_Io (io_text P e)) (fs key_path)) (\<lambda>key.
       if extension key_path = Some (str ''der'') then Ok (PK_pkcs8 P key)
       else map_err (\<lambda>e. Error_Tls (pem_text P e)) (PK_key_pem P key))"

definition load_cert :: "('key, 'pe, 're, 'rng, 'gen, 'te) pki_api \<Rightarrow> (bytes \<Rightarrow> (bytes, io_error) res) \<Rightarrow> bytes \<Rightarrow> bytes \<Rightarrow>
    (bytes list \<times> 'key, Error) res" where
  "load_cert P fs cert_path key_path =
     and_then (load_certs P fs cert_path) (\<lambda>cert_chain.
     and_then (load_key P fs key_path) (\<lambda>key. Ok (cert_chain, key)))"

definition generate_self_signed_pair_der :: "('key, 'pe, 're, 'rng, 'gen, 'te) pki_api \<Rightarrow> 'rng \<Rightarrow> bytes list \<Rightarrow>
    (bytes list \<times> 'key, Error) res" where
  "generate_self_signed_pair_der P rng subject_alt_names =
     and_then (map_err (\<lambda>e. Error_Tls (rcgen_text P e)) (RC_self_signed P rng subject_alt_names)) (\<lambda>cert.
       Ok ([RC_cert_der P cert], PK_pkcs8 P (RC_key_der P cert)))"

definition generate_self_signed_pair_pem :: "('key, 'pe, 're, 'rng, 'gen, 'te) pki_api \<Rightarrow> 'rng \<Rightarrow> bytes list \<Rightarrow>
    (bytes list \<times> bytes, Error) res" where
  "generate_self_signed_pair_pem P rng subject_alt_names =
     and_then (map_err (\<lambda>e. Error_Tls (rcgen_text P e)) (RC_self_signed P rng subject_alt_names)) (\<lambda>cert.
       Ok ([RC_cert_pem P cert], RC_key_pem P cert))"

subsection \<open>Verifiers\<close>

datatype 'prov SkipServerVerification = SkipServerVerification 'prov

definition SkipServerVerification_new :: "('prov, 'suite, 'hp) crypto_api \<Rightarrow> ('prov SkipServerVerification, 'e) res" where
  "SkipServerVerification_new C = and_then (default_provider C) (\<lambda>provider. Ok (SkipServerVerification provider))"

definition skip_verify_server_cert :: "'prov SkipServerVerification \<Rightarrow> bytes \<Rightarrow> (unit, cert_error) res" where
  "skip_verify_server_cert self end_entity = Ok ()"

subsection \<open>Configurations\<close>

text \<open>
  rustls again, with the fields that only these helpers use: builders with the safe default versions,
  a verifier that skips and one of WebPKI.
\<close>

record ('prov, 'cb, 'roots, 'cert, 'tls, 'sb, 'chain, 'key, 'ck, 'sni, 'stls, 'te, 'wv) tls_api =
  "('prov, 'cb, 'roots, 'cert, 'tls, 'sb, 'chain, 'key, 'ck, 'sni, 'stls, 'te) rustls_api" +
  R_safe_client_builder :: "'prov \<Rightarrow> ('cb, 'te) res"
  R_safe_server_builder :: "'prov \<Rightarrow> ('sb, 'te) res"
  R_skip_verifier :: "'prov SkipServerVerification \<Rightarrow> 'cb \<Rightarrow> 'tls"
  R_webpki_verifier :: "'wv \<Rightarrow> 'cb \<Rightarrow> 'tls"

definition get_native_certs ::
    "('prov, 'cb, 'roots, 'cert, 'tls, 'sb, 'chain, 'key, 'ck, 'sni, 'stls, 'te, 'wv) tls_api \<Rightarrow> ('roots, Error) res" where
  "get_native_certs R = Ok (fold (\<lambda>cert root_store. snd (R_roots_add R cert root_store)) (R_native R) (R_roots_empty R))"

text \<open>A builder is the configuration it holds, \<^verbatim>\<open>build\<close> returns that.\<close>

definition server_config_of ::
    "('key, 'pe, 're, 'rng, 'gen, 'te) pki_api \<Rightarrow> ('prov, 'suite, 'hp) crypto_api \<Rightarrow>
    ('prov, 'cb, 'roots, 'cert, 'tls, 'sb, bytes list, 'key, 'ck, 'sni, 'stls, 'te, 'wv) tls_api \<Rightarrow>
    bytes list \<times> 'key \<Rightarrow> ('stls, Error) res" where
  "server_config_of P C R pair =
     (case pair of
        (certs, key) \<Rightarrow>
          and_then (default_provider C) (\<lambda>provider.
          and_then (map_err (\<lambda>e. Error_Tls (tls_text P e)) (R_safe_server_builder R provider)) (\<lambda>builder.
            map_err (\<lambda>e. Error_Tls (tls_text P e)) (R_single_cert R certs key builder))))"

definition TlsServerConfigBuilder_new_insecure ::
    "('key, 'pe, 're, 'rng, 'gen, 'te) pki_api \<Rightarrow> ('prov, 'suite, 'hp) crypto_api \<Rightarrow>
    ('prov, 'cb, 'roots, 'cert, 'tls, 'sb, bytes list, 'key, 'ck, 'sni, 'stls, 'te, 'wv) tls_api \<Rightarrow>
    'rng \<Rightarrow> bytes list \<Rightarrow> ('stls, Error) res" where
  "TlsServerConfigBuilder_new_insecure P C R rng subject_alt_names =
     and_then (generate_self_signed_pair_der P rng subject_alt_names) (server_config_of P C R)"

definition TlsServerConfigBuilder_new_with_cert ::
    "('key, 'pe, 're, 'rng, 'gen, 'te) pki_api \<Rightarrow> ('prov, 'suite, 'hp) crypto_api \<Rightarrow>
    ('prov, 'cb, 'roots, 'cert, 'tls, 'sb, bytes list, 'key, 'ck, 'sni, 'stls, 'te, 'wv) tls_api \<Rightarrow>
    (bytes \<Rightarrow> (bytes, io_error) res) \<Rightarrow> bytes \<Rightarrow> bytes \<Rightarrow> ('stls, Error) res" where
  "TlsServerConfigBuilder_new_with_cert P C R fs cert_path key_path =
     and_then (load_cert P fs cert_path key_path) (server_config_of P C R)"

definition TlsServerConfigBuilder_new_with_self_signed_certs ::
    "('key, 'pe, 're, 'rng, 'gen, 'te) pki_api \<Rightarrow> ('prov, 'suite, 'hp) crypto_api \<Rightarrow>
    ('prov, 'cb, 'roots, 'cert, 'tls, 'sb, bytes list, 'key, 'ck, 'sni, 'stls, 'te, 'wv) tls_api \<Rightarrow>
    'rng \<Rightarrow> bytes list \<Rightarrow> ('stls, Error) res" where
  "TlsServerConfigBuilder_new_with_self_signed_certs P C R rng subject_alt_names =
     TlsServerConfigBuilder_new_insecure P C R rng subject_alt_names"

definition TlsClientConfigBuilder_new_insecure ::
    "('key, 'pe, 're, 'rng, 'gen, 'te) pki_api \<Rightarrow> ('prov, 'suite, 'hp) crypto_api \<Rightarrow>
    ('prov, 'cb, 'roots, 'cert, 'tls, 'sb, 'chain, 'key, 'ck, 'sni, 'stls, 'te, 'wv) tls_api \<Rightarrow> ('tls, Error) res" where
  "TlsClientConfigBuilder_new_insecure P C R =
     and_then (default_provider C) (\<lambda>provider.
     and_then (map_err (\<lambda>e. Error_Tls (tls_text P e)) (R_safe_client_builder R provider)) (\<lambda>builder.
     and_then (SkipServerVerification_new C) (\<lambda>verifier.
       Ok (R_skip_verifier R verifier builder))))"

definition TlsClientConfigBuilder_new_with_native_certs ::
    "('key, 'pe, 're, 'rng, 'gen, 'te) pki_api \<Rightarrow> ('prov, 'suite, 'hp) crypto_api \<Rightarrow>
    ('prov, 'cb, 'roots, 'cert, 'tls, 'sb, 'chain, 'key, 'ck, 'sni, 'stls, 'te, 'wv) tls_api \<Rightarrow> ('tls, Error) res" where
  "TlsClientConfigBuilder_new_with_native_certs P C R =
     and_then (get_native_certs R) (\<lambda>native_certs.
     and_then (default_provider C) (\<lambda>provider.
     and_then (map_err (\<lambda>e. Error_Tls (tls_text P e)) (R_safe_client_builder R provider)) (\<lambda>builder.
       Ok (R_root_certificates R native_certs builder))))"

definition TlsClientConfigBuilder_new_with_webpki_verifier ::
    "('key, 'pe, 're, 'rng, 'gen, 'te) pki_api \<Rightarrow> ('prov, 'suite, 'hp) crypto_api \<Rightarrow>
    ('prov, 'cb, 'roots, 'cert, 'tls, 'sb, 'chain, 'key, 'ck, 'sni, 'stls, 'te, 'wv) tls_api \<Rightarrow> 'wv \<Rightarrow> ('tls, Error) res" where
  "TlsClientConfigBuilder_new_with_webpki_verifier P C R verifier =
     and_then (default_provider C) (\<lambda>provider.
     and_then (map_err (\<lambda>e. Error_Tls (tls_text P e)) (R_safe_client_builder R provider)) (\<lambda>builder.
       Ok (R_webpki_verifier R verifier builder)))"

definition TlsServerConfigBuilder_with_alpn_protocols ::
    "('prov, 'cb, 'roots, 'cert, 'tls, 'sb, 'chain, 'key, 'ck, 'sni, 'stls, 'te, 'wv) tls_api \<Rightarrow>
    bytes list \<Rightarrow> 'stls \<Rightarrow> 'stls" where
  "TlsServerConfigBuilder_with_alpn_protocols R protocols self = R_server_alpn R protocols self"

definition TlsClientConfigBuilder_with_alpn_protocols ::
    "('prov, 'cb, 'roots, 'cert, 'tls, 'sb, 'chain, 'key, 'ck, 'sni, 'stls, 'te, 'wv) tls_api \<Rightarrow>
    bytes list \<Rightarrow> 'tls \<Rightarrow> 'tls" where
  "TlsClientConfigBuilder_with_alpn_protocols R protocols self = R_client_alpn R protocols self"

record ('tls, 'stls) TlsConfig =
  tls_client_config :: 'tls
  tls_server_config :: 'stls

text \<open>What the four constructors share: a client's builder first, then a server's.\<close>

definition TlsConfig_of ::
    "('prov, 'cb, 'roots, 'cert, 'tls, 'sb, 'chain, 'key, 'ck, 'sni, 'stls, 'te, 'wv) tls_api \<Rightarrow>
    ('tls, Error) res \<Rightarrow> ('stls, Error) res \<Rightarrow> (('tls, 'stls) TlsConfig, Error) res" where
  "TlsConfig_of R client server =
     and_then client (\<lambda>client.
     and_then server (\<lambda>server.
       Ok \<lparr>tls_client_config = TlsClientConfigBuilder_with_alpn_protocols R [str ''h3''] client,
           tls_server_config = TlsServerConfigBuilder_with_alpn_protocols R [str ''h3''] server\<rparr>))"

definition TlsConfig_with_cert ::
    "('key, 'pe, 're, 'rng, 'gen, 'te) pki_api \<Rightarrow> ('prov, 'suite, 'hp) crypto_api \<Rightarrow>
    ('prov, 'cb, 'roots, 'cert, 'tls, 'sb, bytes list, 'key, 'ck, 'sni, 'stls, 'te, 'wv) tls_api \<Rightarrow>
    (bytes \<Rightarrow> (bytes, io_error) res) \<Rightarrow> bytes \<Rightarrow> bytes \<Rightarrow> (('tls, 'stls) TlsConfig, Error) res" where
  "TlsConfig_with_cert P C R fs cert_path key_path =
     TlsConfig_of R (TlsClientConfigBuilder_new_with_native_certs P C R)
       (TlsServerConfigBuilder_new_with_cert P C R fs cert_path key_path)"

definition TlsConfig_with_self_signed_certs ::
    "('key, 'pe, 're, 'rng, 'gen, 'te) pki_api \<Rightarrow> ('prov, 'suite, 'hp) crypto_api \<Rightarrow>
    ('prov, 'cb, 'roots, 'cert, 'tls, 'sb, bytes list, 'key, 'ck, 'sni, 'stls, 'te, 'wv) tls_api \<Rightarrow> 'rng \<Rightarrow>
    (('tls, 'stls) TlsConfig, Error) res" where
  "TlsConfig_with_self_signed_certs P C R rng =
     TlsConfig_of R (TlsClientConfigBuilder_new_with_native_certs P C R)
       (TlsServerConfigBuilder_new_with_self_signed_certs P C R rng [str ''localhost''])"

definition TlsConfig_new_native_config ::
    "('key, 'pe, 're, 'rng, 'gen, 'te) pki_api \<Rightarrow> ('prov, 'suite, 'hp) crypto_api \<Rightarrow>
    ('prov, 'cb, 'roots, 'cert, 'tls, 'sb, bytes list, 'key, 'ck, 'sni, 'stls, 'te, 'wv) tls_api \<Rightarrow> 'rng \<Rightarrow>
    (('tls, 'stls) TlsConfig, Error) res" where
  "TlsConfig_new_native_config P C R rng =
     TlsConfig_of R (TlsClientConfigBuilder_new_with_native_certs P C R)
       (TlsServerConfigBuilder_new_with_self_signed_certs P C R rng [str ''localhost''])"

definition TlsConfig_new_insecure_config ::
    "('key, 'pe, 're, 'rng, 'gen, 'te) pki_api \<Rightarrow> ('prov, 'suite, 'hp) crypto_api \<Rightarrow>
    ('prov, 'cb, 'roots, 'cert, 'tls, 'sb, bytes list, 'key, 'ck, 'sni, 'stls, 'te, 'wv) tls_api \<Rightarrow> 'rng \<Rightarrow>
    (('tls, 'stls) TlsConfig, Error) res" where
  "TlsConfig_new_insecure_config P C R rng =
     TlsConfig_of R (TlsClientConfigBuilder_new_insecure P C R)
       (TlsServerConfigBuilder_new_with_self_signed_certs P C R rng [str ''localhost''])"

subsection \<open>Pairs in files\<close>

text \<open>
  What the code relies on in the formats: the PEM text of a generated certificate and key reads back as
  that certificate and that key.
\<close>

definition pki_laws :: "('key, 'pe, 're, 'rng, 'gen, 'te) pki_api \<Rightarrow> bool" where
  "pki_laws P \<longleftrightarrow>
     (\<forall>gen. PK_cert_pems P (RC_cert_pem P gen) = [Ok (RC_cert_der P gen)]) \<and>
     (\<forall>gen. PK_key_pem P (RC_key_pem P gen) = Ok (PK_pkcs8 P (RC_key_der P gen)))"

text \<open>A generated pair as the files that hold it.\<close>

definition saved_cert :: "('key, 'pe, 're, 'rng, 'gen, 'te) pki_api \<Rightarrow> (bytes \<Rightarrow> (bytes, io_error) res) \<Rightarrow> bytes \<Rightarrow> 'gen \<Rightarrow> bool" where
  "saved_cert P fs path gen \<longleftrightarrow>
     fs path = Ok (if extension path = Some (str ''der'') then RC_cert_der P gen else RC_cert_pem P gen)"

definition saved_key :: "('key, 'pe, 're, 'rng, 'gen, 'te) pki_api \<Rightarrow> (bytes \<Rightarrow> (bytes, io_error) res) \<Rightarrow> bytes \<Rightarrow> 'gen \<Rightarrow> bool" where
  "saved_key P fs path gen \<longleftrightarrow>
     fs path = Ok (if extension path = Some (str ''der'') then RC_key_der P gen else RC_key_pem P gen)"

lemma load_saved_cert: "pki_laws P \<Longrightarrow> saved_cert P fs path gen \<Longrightarrow> load_certs P fs path = Ok [RC_cert_der P gen]"
  by (simp add: load_certs_def saved_cert_def pki_laws_def)

lemma load_saved_key: "pki_laws P \<Longrightarrow> saved_key P fs path gen \<Longrightarrow> load_key P fs path = Ok (PK_pkcs8 P (RC_key_der P gen))"
  by (simp add: load_key_def saved_key_def pki_laws_def)

lemma load_saved_pair:
  "pki_laws P \<Longrightarrow> RC_self_signed P rng names = Ok gen \<Longrightarrow> saved_cert P fs cert_path gen \<Longrightarrow> saved_key P fs key_path gen \<Longrightarrow>
    load_cert P fs cert_path key_path = generate_self_signed_pair_der P rng names"
  by (simp add: load_cert_def load_saved_cert load_saved_key generate_self_signed_pair_der_def)

text \<open>The extension of a name behind any directories.\<close>

lemma split_on_nonempty: "split_on c bs \<noteq> []"
  by (induction bs) (auto split: list.splits)

lemma split_on_append: "split_on c (xs @ c # ys) = split_on c xs @ split_on c ys"
proof (induction xs)
  case (Cons b xs)
  then show ?case using split_on_nonempty [of c xs] by (auto split: list.splits)
qed simp

lemma split_on_part: "c \<notin> set xs \<Longrightarrow> split_on c xs = [xs]"
  by (induction xs) auto

lemma extension_of_name:
  assumes "0x2F \<notin> set stem" and "stem \<noteq> []" and "0x2F \<notin> set ext" and "0x2E \<notin> set ext" and "ext \<noteq> []"
  shows "extension (dir @ 0x2F # stem @ 0x2E # ext) = Some ext" "extension (stem @ 0x2E # ext) = Some ext"
proof -
  let ?name = "stem @ 0x2E # ext"
  have dots: "?name \<noteq> [] \<and> ?name \<noteq> str ''.'' \<and> ?name \<noteq> str ''..''"
    using assms(2,4,5) by (auto simp: str_def append_eq_Cons_conv)
  have part: "split_on 0x2F ?name = [?name]" using assms(1,3) by (intro split_on_part) auto
  have name: "file_name (dir @ 0x2F # ?name) = Some ?name" "file_name ?name = Some ?name"
    using dots by (simp_all only: file_name_def split_on_append part) simp_all
  have sound: "b \<noteq> 0x2E" if "b \<in> set (rev ext)" for b using assms(4) that by auto
  have last: "takeWhile (\<lambda>b. b \<noteq> 0x2E) (rev ?name) = rev ext" "dropWhile (\<lambda>b. b \<noteq> 0x2E) (rev ?name) = 0x2E # rev stem"
    using takeWhile_append2 [of "rev ext" "\<lambda>b. b \<noteq> 0x2E" "0x2E # rev stem", OF sound]
      dropWhile_append2 [of "rev ext" "\<lambda>b. b \<noteq> 0x2E" "0x2E # rev stem", OF sound] by simp_all
  show "extension (dir @ 0x2F # ?name) = Some ext" "extension ?name = Some ext"
    using assms(2) by (simp_all add: extension_def name last del: rev_append)
qed

text \<open>A generator whose PEM text is the DER behind a dash.\<close>

definition example_pki :: "(bytes, unit, unit, bytes, bytes, unit) pki_api" where
  "example_pki = \<lparr>PK_pkcs8 = (\<lambda>k. k), PK_cert_pems = (\<lambda>bs. case bs of [] \<Rightarrow> [] | b # c \<Rightarrow> [Ok c]),
     PK_key_pem = (\<lambda>bs. case bs of [] \<Rightarrow> Err () | b # k \<Rightarrow> Ok k), RC_self_signed = (\<lambda>rng names. Ok rng),
     RC_cert_der = (\<lambda>g. 1 # g), RC_cert_pem = (\<lambda>g. 0x2D # 1 # g), RC_key_der = (\<lambda>g. 2 # g),
     RC_key_pem = (\<lambda>g. 0x2D # 2 # g), io_text = (\<lambda>_. []), pem_text = (\<lambda>_. []), rcgen_text = (\<lambda>_. []),
     tls_text = (\<lambda>_. [])\<rparr>"

lemma example_pki_laws: "pki_laws example_pki"
  by (simp add: pki_laws_def example_pki_def)

text \<open>Two files: a certificate in DER and a key in PEM.\<close>

definition example_files :: "bytes \<Rightarrow> (bytes, io_error) res" where
  "example_files path =
     (if path = str ''pki/cert.der'' then Ok [1, 7]
      else if path = str ''pki/key.pem'' then Ok [0x2D, 2, 7]
      else Err \<lparr>kind = OtherKind, message = []\<rparr>)"

subsection \<open>Property\<close>

text \<open>
  C40. A generated certificate and key survive being saved. Written to files as DER where the extension
  of the path is der and as PEM elsewhere, in any combination, they load as the pair that was
  generated, so a TLS configuration from the files is the one from the generator: the same client,
  with the roots of the system, the same server, and the protocol h3 on both. A certificate
  file that cannot be read is an I/O error with the text of the system, whatever the other file holds;
  and the extension is the part of the file name behind its last dot,
  whatever the directory is called.
\<close>

theorem saved_pair_loads:
  fixes P :: "('key, 'pe, 're, 'rng, 'gen, 'te) pki_api"
    and R :: "('prov, 'cb, 'roots, 'cert, 'tls, 'sb, bytes list, 'key, 'ck, 'sni, 'stls, 'te, 'wv) tls_api"
  assumes laws: "pki_laws P" and made: "RC_self_signed P rng [str ''localhost''] = Ok gen"
    and saved: "saved_cert P fs cert_path gen" "saved_key P fs key_path gen"
  shows "load_cert P fs cert_path key_path = generate_self_signed_pair_der P rng [str ''localhost''] \<and>
    load_cert P fs cert_path key_path = Ok ([RC_cert_der P gen], PK_pkcs8 P (RC_key_der P gen)) \<and>
    TlsConfig_with_cert P C R fs cert_path key_path = TlsConfig_with_self_signed_certs P C R rng \<and>
    (\<forall>config. TlsConfig_with_cert P C R fs cert_path key_path = Ok config \<longrightarrow>
      (\<exists>provider cb sb server roots. get_native_certs R = Ok roots \<and> default_provider C = (Ok provider :: (_, Error) res) \<and>
        R_safe_client_builder R provider = Ok cb \<and> R_safe_server_builder R provider = Ok sb \<and>
        R_single_cert R [RC_cert_der P gen] (PK_pkcs8 P (RC_key_der P gen)) sb = Ok server \<and>
        config = \<lparr>tls_client_config = R_client_alpn R [ALPN] (R_root_certificates R roots cb),
          tls_server_config = R_server_alpn R [ALPN] server\<rparr>)) \<and>
    (\<forall>fs path e. fs cert_path = Err e \<longrightarrow> load_cert P fs cert_path path = Err (Error_Io (io_text P e))) \<and>
    (\<forall>dir stem ext. 0x2F \<notin> set stem \<and> stem \<noteq> [] \<and> 0x2F \<notin> set ext \<and> 0x2E \<notin> set ext \<and> ext \<noteq> [] \<longrightarrow>
      extension (dir @ 0x2F # stem @ 0x2E # ext) = Some ext)"
proof (intro conjI allI impI)
  note pair = load_saved_pair [OF laws made saved]
  show "load_cert P fs cert_path key_path = generate_self_signed_pair_der P rng [str ''localhost'']" by (rule pair)
  show loads: "load_cert P fs cert_path key_path = Ok ([RC_cert_der P gen], PK_pkcs8 P (RC_key_der P gen))"
    using made by (simp add: pair generate_self_signed_pair_der_def)
  show "TlsConfig_with_cert P C R fs cert_path key_path = TlsConfig_with_self_signed_certs P C R rng"
    by (simp add: TlsConfig_with_cert_def TlsConfig_with_self_signed_certs_def pair TlsServerConfigBuilder_new_with_cert_def
        TlsServerConfigBuilder_new_with_self_signed_certs_def TlsServerConfigBuilder_new_insecure_def)
  show "\<exists>provider cb sb server roots. get_native_certs R = Ok roots \<and> default_provider C = (Ok provider :: (_, Error) res) \<and>
        R_safe_client_builder R provider = Ok cb \<and> R_safe_server_builder R provider = Ok sb \<and>
        R_single_cert R [RC_cert_der P gen] (PK_pkcs8 P (RC_key_der P gen)) sb = Ok server \<and>
        config = \<lparr>tls_client_config = R_client_alpn R [ALPN] (R_root_certificates R roots cb),
          tls_server_config = R_server_alpn R [ALPN] server\<rparr>"
    if "TlsConfig_with_cert P C R fs cert_path key_path = Ok config" for config
    using that
    by (auto simp: TlsConfig_with_cert_def TlsConfig_of_def TlsServerConfigBuilder_new_with_cert_def loads
        server_config_of_def TlsClientConfigBuilder_new_with_native_certs_def
        TlsClientConfigBuilder_with_alpn_protocols_def TlsServerConfigBuilder_with_alpn_protocols_def ALPN_def
        and_then_Ok_iff)
next
  show "load_cert P fs cert_path path = Err (Error_Io (io_text P e))" if "fs cert_path = Err e" for fs path e
    using that by (simp add: load_cert_def load_certs_def)
next
  show "extension (dir @ 0x2F # stem @ 0x2E # ext) = Some ext"
    if "0x2F \<notin> set stem \<and> stem \<noteq> [] \<and> 0x2F \<notin> set ext \<and> 0x2E \<notin> set ext \<and> ext \<noteq> []" for dir stem ext
    using that by (intro extension_of_name) auto
qed

theorem saved_pair_loads_witness:
  "load_cert example_pki example_files (str ''pki/cert.der'') (str ''pki/key.pem'') = Ok ([[1, 7]], [2, 7])"
proof -
  have made: "RC_self_signed example_pki [7] [str ''localhost''] = Ok [7]" by (simp add: example_pki_def)
  have ext: "extension (str ''pki/cert.der'') = Some (str ''der'')" "extension (str ''pki/key.pem'') = Some (str ''pem'')"
    by code_simp+
  have saved: "saved_cert example_pki example_files (str ''pki/cert.der'') [7]"
      "saved_key example_pki example_files (str ''pki/key.pem'') [7]"
    unfolding saved_cert_def saved_key_def ext by (code_simp; simp)+
  from saved_pair_loads [OF example_pki_laws made saved, THEN conjunct2, THEN conjunct1] show ?thesis
    by (simp add: example_pki_def)
qed

end
