(* ===== verification/Wasm_Streams.thy ===== *)
theory Wasm_Streams
  imports Traits Session_Accept
begin

section \<open>Streams in the browser\<close>

text \<open>
  \<^verbatim>\<open>webtrans-wasm/src/error.rs\<close>, \<^verbatim>\<open>recv.rs\<close> and \<^verbatim>\<open>send.rs\<close>: the streams of a browser's WebTransport
  object. They are state machines over polls. A read or write of the browser that has begun stays in
  the stream when its caller is cancelled, and a write is accepted before the browser has taken it.
  The readers and writers of \<^verbatim>\<open>web_streams\<close>, JavaScript values and the error object of the browser are
  parameters. The lemmas show that no cancellation loses, repeats or reorders a byte, on either side,
  and when bytes that were accepted can still be lost.
\<close>

subsection \<open>Errors\<close>

text \<open>
  \<open>'t\<close> is the browser's \<^verbatim>\<open>WebTransportError\<close>, \<open>'ws\<close> the error of \<^verbatim>\<open>web_streams\<close>, \<open>'j\<close> a JavaScript
  value. \<open>JS_display\<close> is \<^verbatim>\<open>to_string\<close> of the crate's error, \<open>JS_debug\<close> the debug format of the
  browser's.
\<close>

datatype ('j, 't, 'ws) wasm_Error = WE_SessionClosed u32 bytes | WE_Session 't | WE_Stream 't
  | WE_Streams 'ws | WE_Unknown 'j

datatype error_source = Source_Stream | Source_Session | Source_Other

record ('j, 't, 'ws) js_errors =
  JS_string :: "bytes \<Rightarrow> 'j"
  JS_transport_error :: "'j \<Rightarrow> 't option"
  JS_source :: "'t \<Rightarrow> error_source"
  JS_stream_error_code :: "'t \<Rightarrow> u8 option"
  JS_debug :: "'t \<Rightarrow> bytes"
  JS_display :: "('j, 't, 'ws) wasm_Error \<Rightarrow> bytes"

definition wasm_Error_code :: "('j, 't, 'ws) js_errors \<Rightarrow> ('j, 't, 'ws) wasm_Error \<Rightarrow> u8 option" where
  "wasm_Error_code E self =
     (case self of
        WE_SessionClosed _ _ \<Rightarrow> None
      | WE_Session e \<Rightarrow> JS_stream_error_code E e
      | WE_Stream e \<Rightarrow> JS_stream_error_code E e
      | _ \<Rightarrow> None)"

definition wasm_Error_from_js :: "('j, 't, 'ws) js_errors \<Rightarrow> 'j \<Rightarrow> ('j, 't, 'ws) wasm_Error" where
  "wasm_Error_from_js E v =
     (case JS_transport_error E v of
        Some e \<Rightarrow>
          (case JS_source E e of
             Source_Stream \<Rightarrow> WE_Stream e
           | Source_Session \<Rightarrow> WE_Session e
           | _ \<Rightarrow> WE_Unknown v)
      | None \<Rightarrow> WE_Unknown v)"

definition wasm_Error_session_error :: "('j, 't, 'ws) js_errors \<Rightarrow> ('j, 't, 'ws) wasm_Error \<Rightarrow>
    (u32 \<times> bytes) option" where
  "wasm_Error_session_error E self =
     (case self of
        WE_SessionClosed code why \<Rightarrow> Some (code, why)
      | WE_Session err \<Rightarrow> map_option (\<lambda>code. (ucast code, JS_debug E err)) (JS_stream_error_code E err)
      | _ \<Rightarrow> None)"

definition wasm_Error_stream_error :: "('j, 't, 'ws) js_errors \<Rightarrow> ('j, 't, 'ws) wasm_Error \<Rightarrow> u32 option" where
  "wasm_Error_stream_error E self =
     (case self of
        WE_Stream err \<Rightarrow> map_option ucast (JS_stream_error_code E err)
      | _ \<Rightarrow> None)"

text \<open>\<^verbatim>\<open>to_string\<close> of an unsigned integer.\<close>

fun decimal :: "nat \<Rightarrow> bytes" where
  "decimal n = (if n < 10 then [0x30 + of_nat n] else decimal (n div 10) @ [0x30 + of_nat (n mod 10)])"

declare decimal.simps [simp del]

definition to_io_error :: "('j, 't, 'ws) js_errors \<Rightarrow> ('j, 't, 'ws) wasm_Error \<Rightarrow> io_error" where
  "to_io_error E error = \<lparr>kind = OtherKind, message = JS_display E error\<rparr>"

text \<open>The conversion that the streams apply to I/O errors; \<^verbatim>\<open>to_string\<close> of these is the message.\<close>

definition unknown_io :: "('j, 't, 'ws) js_errors \<Rightarrow> io_error \<Rightarrow> ('j, 't, 'ws) wasm_Error" where
  "unknown_io E error = WE_Unknown (JS_string E (message error))"

text \<open>
  Awaiting a future that is polled in place: \<open>fuel\<close> bounds the polls. A caller that is cancelled
  leaves the stream as the last poll left it.
\<close>

fun await_poll :: "nat \<Rightarrow> ('s \<Rightarrow> 'a poll \<times> 's) \<Rightarrow> 's \<Rightarrow> ('a \<times> 's) option" where
  "await_poll 0 poll s = None"
| "await_poll (Suc fuel) poll s =
     (case poll s of
        (Poll_Ready x, s) \<Rightarrow> Some (x, s)
      | (Poll_Pending, s) \<Rightarrow> await_poll fuel poll s)"

subsection \<open>Receiving\<close>

text \<open>
  A reader of \<^verbatim>\<open>web_streams\<close> over items \<open>'i\<close>. \<open>WR_poll_read\<close> polls the future of \<^verbatim>\<open>read\<close>, which holds the
  reader. The error of \<^verbatim>\<open>closed\<close> is one of the two that convert into the crate's. \<open>WR_cancel\<close> is
  \<^verbatim>\<open>cancel_with_reason\<close> of the browser's stream.
\<close>

record ('w, 'r, 'i, 'j, 'ws) web_reader =
  WR_new :: "'w \<Rightarrow> ('r, 'ws) res"
  WR_poll_read :: "'r \<Rightarrow> ('i option, 'ws) res poll \<times> 'r"
  WR_abort :: "bytes \<Rightarrow> 'r \<Rightarrow> 'r"
  WR_closed :: "'r \<Rightarrow> (unit, 'j + 'ws) res"
  WR_cancel :: "bytes \<Rightarrow> 'w \<Rightarrow> 'w"

datatype 'r ReadState = Read_Idle | Reading 'r

record ('w, 'r) wasm_RecvStream =
  wr_stream :: 'w
  wr_eof :: bool
  wr_reader :: "'r option"
  wr_buffer :: bytes
  wr_state :: "'r ReadState"

definition wasm_RecvStream_new :: "('w, 'r, bytes, 'j, 'ws) web_reader \<Rightarrow> 'w \<Rightarrow>
    (('w, 'r) wasm_RecvStream, ('j, 't, 'ws) wasm_Error) res" where
  "wasm_RecvStream_new R stream =
     and_then (map_err WE_Streams (WR_new R stream)) (\<lambda>reader.
       Ok \<lparr>wr_stream = stream, wr_eof = False, wr_reader = Some reader, wr_buffer = [], wr_state = Read_Idle\<rparr>)"

definition poll_inflight_read :: "('j, 't, 'ws) js_errors \<Rightarrow> ('w, 'r, bytes, 'j, 'ws) web_reader \<Rightarrow>
    ('w, 'r) wasm_RecvStream \<Rightarrow> (bytes option, io_error) res poll \<times> ('w, 'r) wasm_RecvStream" where
  "poll_inflight_read E R self =
     (case wr_state self of
        Read_Idle \<Rightarrow> (Poll_Ready (Ok None), self)
      | Reading fut \<Rightarrow>
          (case WR_poll_read R fut of
             (Poll_Pending, fut) \<Rightarrow> (Poll_Pending, self\<lparr>wr_state := Reading fut\<rparr>)
           | (Poll_Ready result, reader) \<Rightarrow>
               (Poll_Ready (map_err (\<lambda>err. to_io_error E (WE_Streams err)) result),
                self\<lparr>wr_reader := Some reader, wr_state := Read_Idle\<rparr>)))"

text \<open>The loop of \<^verbatim>\<open>poll_chunk\<close>; after its last round the task is woken again.\<close>

fun poll_chunk_loop :: "nat \<Rightarrow> ('j, 't, 'ws) js_errors \<Rightarrow> ('w, 'r, bytes, 'j, 'ws) web_reader \<Rightarrow> nat \<Rightarrow>
    ('w, 'r) wasm_RecvStream \<Rightarrow> (bytes option, io_error) res poll \<times> ('w, 'r) wasm_RecvStream" where
  "poll_chunk_loop 0 E R limit self = (Poll_Pending, self)"
| "poll_chunk_loop (Suc n) E R limit self =
     (if wr_buffer self \<noteq> [] then
        let sz = min limit (length (wr_buffer self))
        in (Poll_Ready (Ok (Some (take sz (wr_buffer self)))), self\<lparr>wr_buffer := drop sz (wr_buffer self)\<rparr>)
      else if wr_eof self then (Poll_Ready (Ok None), self)
      else
        (case (case wr_state self of
                 Reading _ \<Rightarrow> Some self
               | Read_Idle \<Rightarrow>
                   map_option (\<lambda>reader. self\<lparr>wr_reader := None, wr_state := Reading reader\<rparr>) (wr_reader self)) of
           None \<Rightarrow> (Poll_Ready (Err \<lparr>kind = OtherKind, message = str ''reader is unavailable''\<rparr>), self)
         | Some self \<Rightarrow>
             (case poll_inflight_read E R self of
                (Poll_Pending, self) \<Rightarrow> (Poll_Pending, self)
              | (Poll_Ready (Err err), self) \<Rightarrow> (Poll_Ready (Err err), self\<lparr>wr_eof := True\<rparr>)
              | (Poll_Ready Panic, self) \<Rightarrow> (Poll_Ready Panic, self)
              | (Poll_Ready (Ok None), self) \<Rightarrow> (Poll_Ready (Ok None), self\<lparr>wr_eof := True\<rparr>)
              | (Poll_Ready (Ok (Some chunk)), self) \<Rightarrow>
                  poll_chunk_loop n E R limit (self\<lparr>wr_buffer := chunk\<rparr>))))"

definition poll_chunk :: "('j, 't, 'ws) js_errors \<Rightarrow> ('w, 'r, bytes, 'j, 'ws) web_reader \<Rightarrow> nat \<Rightarrow>
    ('w, 'r) wasm_RecvStream \<Rightarrow> (bytes option, io_error) res poll \<times> ('w, 'r) wasm_RecvStream" where
  "poll_chunk E R limit self =
     (if limit = 0 then (Poll_Ready (Ok (Some [])), self) else poll_chunk_loop 16 E R limit self)"

definition wasm_RecvStream_read :: "('j, 't, 'ws) js_errors \<Rightarrow> ('w, 'r, bytes, 'j, 'ws) web_reader \<Rightarrow> nat \<Rightarrow> nat \<Rightarrow>
    ('w, 'r) wasm_RecvStream \<Rightarrow>
    ((bytes option, ('j, 't, 'ws) wasm_Error) res \<times> ('w, 'r) wasm_RecvStream) option" where
  "wasm_RecvStream_read E R fuel limit self =
     map_option (apfst (map_err (unknown_io E))) (await_poll fuel (poll_chunk E R limit) self)"

text \<open>\<^verbatim>\<open>BufMut::put\<close> panics when the chunk does not fit.\<close>

definition wasm_RecvStream_read_buf :: "('j, 't, 'ws) js_errors \<Rightarrow> ('w, 'r, bytes, 'j, 'ws) web_reader \<Rightarrow> nat \<Rightarrow>
    buf_mut \<Rightarrow> bytes \<Rightarrow> ('w, 'r) wasm_RecvStream \<Rightarrow>
    ((nat option, ('j, 't, 'ws) wasm_Error) res \<times> bytes \<times> ('w, 'r) wasm_RecvStream) option" where
  "wasm_RecvStream_read_buf E R fuel M buf self =
     map_option (\<lambda>(r, self).
       case r of
         Ok (Some chunk) \<Rightarrow>
           if remaining_mut M buf < length chunk then (Panic, buf, self)
           else (Ok (Some (length chunk)), buf @ chunk, self)
       | Ok None \<Rightarrow> (Ok None, buf, self)
       | Err e \<Rightarrow> (Err e, buf, self)
       | Panic \<Rightarrow> (Panic, buf, self)) (wasm_RecvStream_read E R fuel (remaining_mut M buf) self)"

definition wasm_RecvStream_stop :: "('w, 'r, bytes, 'j, 'ws) web_reader \<Rightarrow> bytes \<Rightarrow>
    ('w, 'r) wasm_RecvStream \<Rightarrow> ('w, 'r) wasm_RecvStream" where
  "wasm_RecvStream_stop R why self =
     (let self = self\<lparr>wr_eof := True, wr_buffer := [], wr_state := Read_Idle\<rparr> in
      case wr_reader self of
        Some reader \<Rightarrow> self\<lparr>wr_reader := Some (WR_abort R why reader)\<rparr>
      | None \<Rightarrow> self\<lparr>wr_stream := WR_cancel R why (wr_stream self)\<rparr>)"

definition wasm_RecvStream_drop :: "('w, 'r, bytes, 'j, 'ws) web_reader \<Rightarrow>
    ('w, 'r) wasm_RecvStream \<Rightarrow> ('w, 'r) wasm_RecvStream" where
  "wasm_RecvStream_drop R self = wasm_RecvStream_stop R (str ''dropped'') self"

text \<open>What both \<^verbatim>\<open>closed\<close> methods make of the outcome of \<^verbatim>\<open>web_streams\<close>.\<close>

definition close_code :: "('j, 't, 'ws) js_errors \<Rightarrow> (unit, 'j + 'ws) res \<Rightarrow>
    (u8 option, ('j, 't, 'ws) wasm_Error) res" where
  "close_code E r =
     (case r of
        Ok _ \<Rightarrow> Ok None
      | Panic \<Rightarrow> Panic
      | Err e \<Rightarrow>
          let err = (case e of Inl v \<Rightarrow> wasm_Error_from_js E v | Inr s \<Rightarrow> WE_Streams s) in
          (case err of
             WE_Stream t \<Rightarrow> (case JS_stream_error_code E t of Some code \<Rightarrow> Ok (Some code) | None \<Rightarrow> Err err)
           | _ \<Rightarrow> Err err))"

definition wasm_RecvStream_closed :: "('j, 't, 'ws) js_errors \<Rightarrow> ('w, 'r, bytes, 'j, 'ws) web_reader \<Rightarrow>
    ('w, 'r) wasm_RecvStream \<Rightarrow> (u8 option, ('j, 't, 'ws) wasm_Error) res" where
  "wasm_RecvStream_closed E R self =
     (case wr_reader self of
        None \<Rightarrow> Err (WE_Unknown (JS_string E (str ''reader is unavailable'')))
      | Some reader \<Rightarrow> close_code E (WR_closed R reader))"

text \<open>\<^verbatim>\<open>AsyncRead\<close> and the trait.\<close>

definition wasm_poll_read :: "('j, 't, 'ws) js_errors \<Rightarrow> ('w, 'r, bytes, 'j, 'ws) web_reader \<Rightarrow> bytes \<Rightarrow>
    ('w, 'r) wasm_RecvStream \<Rightarrow> (nat, io_error) res poll \<times> bytes \<times> ('w, 'r) wasm_RecvStream" where
  "wasm_poll_read E R buf self =
     (case poll_chunk E R (length buf) self of
        (Poll_Pending, self) \<Rightarrow> (Poll_Pending, buf, self)
      | (Poll_Ready (Err error), self) \<Rightarrow> (Poll_Ready (Err error), buf, self)
      | (Poll_Ready Panic, self) \<Rightarrow> (Poll_Ready Panic, buf, self)
      | (Poll_Ready (Ok None), self) \<Rightarrow> (Poll_Ready (Ok 0), buf, self)
      | (Poll_Ready (Ok (Some chunk)), self) \<Rightarrow>
          if length buf < length chunk then (Poll_Ready Panic, buf, self)
          else (Poll_Ready (Ok (length chunk)), chunk @ drop (length chunk) buf, self))"

definition wasm_Trait_read :: "('j, 't, 'ws) js_errors \<Rightarrow> ('w, 'r, bytes, 'j, 'ws) web_reader \<Rightarrow> nat \<Rightarrow> bytes \<Rightarrow>
    ('w, 'r) wasm_RecvStream \<Rightarrow>
    ((nat option, ('j, 't, 'ws) wasm_Error) res \<times> bytes \<times> ('w, 'r) wasm_RecvStream) option" where
  "wasm_Trait_read E R fuel dst self =
     map_option (\<lambda>(r, self).
       case r of
         Ok (Some chunk) \<Rightarrow>
           if length dst < length chunk then (Panic, dst, self)
           else (Ok (Some (length chunk)), chunk @ drop (length chunk) dst, self)
       | Ok None \<Rightarrow> (Ok None, dst, self)
       | Err e \<Rightarrow> (Err e, dst, self)
       | Panic \<Rightarrow> (Panic, dst, self)) (wasm_RecvStream_read E R fuel (length dst) self)"

definition wasm_Trait_stop :: "('w, 'r, bytes, 'j, 'ws) web_reader \<Rightarrow> u32 \<Rightarrow>
    ('w, 'r) wasm_RecvStream \<Rightarrow> ('w, 'r) wasm_RecvStream" where
  "wasm_Trait_stop R code self = wasm_RecvStream_stop R (decimal (unat code)) self"

definition closed_with_code :: "('j, 't, 'ws) js_errors \<Rightarrow> (u8 option, ('j, 't, 'ws) wasm_Error) res \<Rightarrow>
    (unit, ('j, 't, 'ws) wasm_Error) res" where
  "closed_with_code E r =
     and_then r (\<lambda>code. case code of
        Some code \<Rightarrow> Err (WE_Unknown (JS_string E (str ''stream closed with code '' @ decimal (unat code))))
      | None \<Rightarrow> Ok ())"

definition wasm_Trait_recv_closed :: "('j, 't, 'ws) js_errors \<Rightarrow> ('w, 'r, bytes, 'j, 'ws) web_reader \<Rightarrow>
    ('w, 'r) wasm_RecvStream \<Rightarrow> (unit, ('j, 't, 'ws) wasm_Error) res" where
  "wasm_Trait_recv_closed E R self = closed_with_code E (wasm_RecvStream_closed E R self)"

subsection \<open>Sending\<close>

text \<open>
  A writer of \<^verbatim>\<open>web_streams\<close>. \<open>WW_poll_write\<close> polls the future of \<^verbatim>\<open>write\<close>, which holds the writer and
  owns its payload. \<open>WW_abort_stream\<close> is \<^verbatim>\<open>abort_with_reason\<close> of the browser's stream, \<open>WW_set_order\<close>
  sets its \<^verbatim>\<open>sendOrder\<close>.
\<close>

record ('w, 'r, 'j, 'ws) web_writer =
  WW_new :: "'w \<Rightarrow> ('r, 'ws) res"
  WW_poll_write :: "bytes \<Rightarrow> 'r \<Rightarrow> (unit, 'ws) res poll \<times> 'r"
  WW_abort :: "bytes \<Rightarrow> 'r \<Rightarrow> 'r"
  WW_close :: "'r \<Rightarrow> 'r"
  WW_closed :: "'r \<Rightarrow> (unit, 'j + 'ws) res"
  WW_abort_stream :: "bytes \<Rightarrow> 'w \<Rightarrow> 'w"
  WW_set_order :: "32 word \<Rightarrow> 'w \<Rightarrow> ('w, 'j) res"

datatype 'r WriteState = Write_Idle | Writing bytes 'r

record ('w, 'r) wasm_SendStream =
  ws_stream :: 'w
  ws_writer :: "'r option"
  ws_state :: "'r WriteState"
  ws_closed :: bool

definition wasm_SendStream_new :: "('w, 'r, 'j, 'ws) web_writer \<Rightarrow> 'w \<Rightarrow>
    (('w, 'r) wasm_SendStream, ('j, 't, 'ws) wasm_Error) res" where
  "wasm_SendStream_new W stream =
     and_then (map_err WE_Streams (WW_new W stream)) (\<lambda>writer.
       Ok \<lparr>ws_stream = stream, ws_writer = Some writer, ws_state = Write_Idle, ws_closed = False\<rparr>)"

definition poll_inflight_write :: "('j, 't, 'ws) js_errors \<Rightarrow> ('w, 'r, 'j, 'ws) web_writer \<Rightarrow>
    ('w, 'r) wasm_SendStream \<Rightarrow> (nat, io_error) res poll \<times> ('w, 'r) wasm_SendStream" where
  "poll_inflight_write E W self =
     (case ws_state self of
        Write_Idle \<Rightarrow> (Poll_Ready (Ok 0), self)
      | Writing payload fut \<Rightarrow>
          (case WW_poll_write W payload fut of
             (Poll_Pending, fut) \<Rightarrow> (Poll_Pending, self\<lparr>ws_state := Writing payload fut\<rparr>)
           | (Poll_Ready result, writer) \<Rightarrow>
               (Poll_Ready (map_ok (\<lambda>_. length payload) (map_err (\<lambda>err. to_io_error E (WE_Streams err)) result)),
                self\<lparr>ws_writer := Some writer, ws_state := Write_Idle\<rparr>)))"

definition wasm_poll_write :: "('j, 't, 'ws) js_errors \<Rightarrow> ('w, 'r, 'j, 'ws) web_writer \<Rightarrow> bytes \<Rightarrow>
    ('w, 'r) wasm_SendStream \<Rightarrow> (nat, io_error) res poll \<times> ('w, 'r) wasm_SendStream" where
  "wasm_poll_write E W buf self =
     (if buf = [] then (Poll_Ready (Ok 0), self)
      else if ws_closed self then
        (Poll_Ready (Err \<lparr>kind = BrokenPipe, message = str ''stream is already closed''\<rparr>), self)
      else
        (case poll_inflight_write E W self of
           (Poll_Pending, self) \<Rightarrow> (Poll_Pending, self)
         | (Poll_Ready (Err error), self) \<Rightarrow> (Poll_Ready (Err error), self\<lparr>ws_closed := True\<rparr>)
         | (Poll_Ready Panic, self) \<Rightarrow> (Poll_Ready Panic, self)
         | (Poll_Ready (Ok _), self) \<Rightarrow>
             (case ws_state self of
                Write_Idle \<Rightarrow>
                  (case ws_writer self of
                     None \<Rightarrow> (Poll_Ready (Err \<lparr>kind = OtherKind, message = str ''writer is unavailable''\<rparr>), self)
                   | Some writer \<Rightarrow>
                       let payload = take (min (length buf) (64 * 1024)) buf;
                           sz = length payload
                       in (Poll_Ready (Ok sz), self\<lparr>ws_writer := None, ws_state := Writing payload writer\<rparr>))
              | Writing _ _ \<Rightarrow> (Poll_Ready Panic, self))))"

definition wasm_poll_flush :: "('j, 't, 'ws) js_errors \<Rightarrow> ('w, 'r, 'j, 'ws) web_writer \<Rightarrow>
    ('w, 'r) wasm_SendStream \<Rightarrow> (unit, io_error) res poll \<times> ('w, 'r) wasm_SendStream" where
  "wasm_poll_flush E W self =
     (case poll_inflight_write E W self of
        (Poll_Pending, self) \<Rightarrow> (Poll_Pending, self)
      | (Poll_Ready (Ok _), self) \<Rightarrow> (Poll_Ready (Ok ()), self)
      | (Poll_Ready Panic, self) \<Rightarrow> (Poll_Ready Panic, self)
      | (Poll_Ready (Err err), self) \<Rightarrow> (Poll_Ready (Err err), self\<lparr>ws_closed := True\<rparr>))"

definition wasm_poll_close :: "('j, 't, 'ws) js_errors \<Rightarrow> ('w, 'r, 'j, 'ws) web_writer \<Rightarrow>
    ('w, 'r) wasm_SendStream \<Rightarrow> (unit, io_error) res poll \<times> ('w, 'r) wasm_SendStream" where
  "wasm_poll_close E W self =
     (case wasm_poll_flush E W self of
        (Poll_Pending, self) \<Rightarrow> (Poll_Pending, self)
      | (Poll_Ready (Err err), self) \<Rightarrow> (Poll_Ready (Err err), self\<lparr>ws_closed := True\<rparr>)
      | (Poll_Ready Panic, self) \<Rightarrow> (Poll_Ready Panic, self)
      | (Poll_Ready (Ok _), self) \<Rightarrow>
          if \<not> ws_closed self then
            (case ws_writer self of
               None \<Rightarrow> (Poll_Ready (Err \<lparr>kind = OtherKind, message = str ''writer is unavailable''\<rparr>), self)
             | Some writer \<Rightarrow>
                 (Poll_Ready (Ok ()), self\<lparr>ws_writer := Some (WW_close W writer), ws_closed := True\<rparr>))
          else (Poll_Ready (Ok ()), self))"

text \<open>
  \<open>drive\<close> is \<^verbatim>\<open>AsyncWriteExt::write_all\<close> of the futures crate over a \<^verbatim>\<open>poll_write\<close>, with the polls it
  may take.
\<close>

type_synonym 's futures_write_all =
  "(bytes \<Rightarrow> 's \<Rightarrow> (nat, io_error) res poll \<times> 's) \<Rightarrow> nat \<Rightarrow> bytes \<Rightarrow> 's \<Rightarrow> ((unit, io_error) res \<times> 's) option"

definition wasm_SendStream_write :: "('j, 't, 'ws) js_errors \<Rightarrow> ('w, 'r, 'j, 'ws) web_writer \<Rightarrow>
    ('w, 'r) wasm_SendStream futures_write_all \<Rightarrow> nat \<Rightarrow> bytes \<Rightarrow> ('w, 'r) wasm_SendStream \<Rightarrow>
    ((unit, ('j, 't, 'ws) wasm_Error) res \<times> ('w, 'r) wasm_SendStream) option" where
  "wasm_SendStream_write E W drive fuel buf self =
     (case drive (wasm_poll_write E W) fuel buf self of
        None \<Rightarrow> None
      | Some (Err error, self) \<Rightarrow> Some (Err (unknown_io E error), self)
      | Some (Panic, self) \<Rightarrow> Some (Panic, self)
      | Some (Ok _, self) \<Rightarrow>
          map_option (apfst (map_err (unknown_io E))) (await_poll fuel (wasm_poll_flush E W) self))"

text \<open>A \<^verbatim>\<open>Buf\<close> is the list of its remaining bytes, \<open>chunk\<close> its contiguous part in front.\<close>

definition wasm_SendStream_write_buf :: "('j, 't, 'ws) js_errors \<Rightarrow> ('w, 'r, 'j, 'ws) web_writer \<Rightarrow>
    (bytes \<Rightarrow> bytes) \<Rightarrow> nat \<Rightarrow> bytes \<Rightarrow> ('w, 'r) wasm_SendStream \<Rightarrow>
    ((nat, ('j, 't, 'ws) wasm_Error) res \<times> bytes \<times> ('w, 'r) wasm_SendStream) option" where
  "wasm_SendStream_write_buf E W chunk fuel buf self =
     map_option (\<lambda>(r, self).
       case r of
         Ok sz \<Rightarrow> if length buf < sz then (Panic, buf, self) else (Ok sz, drop sz buf, self)
       | Err error \<Rightarrow> (Err (unknown_io E error), buf, self)
       | Panic \<Rightarrow> (Panic, buf, self)) (await_poll fuel (wasm_poll_write E W (chunk buf)) self)"

definition wasm_SendStream_reset :: "('w, 'r, 'j, 'ws) web_writer \<Rightarrow> bytes \<Rightarrow>
    ('w, 'r) wasm_SendStream \<Rightarrow> ('w, 'r) wasm_SendStream" where
  "wasm_SendStream_reset W why self =
     (let self = self\<lparr>ws_closed := True, ws_state := Write_Idle\<rparr> in
      case ws_writer self of
        Some writer \<Rightarrow> self\<lparr>ws_writer := Some (WW_abort W why writer)\<rparr>
      | None \<Rightarrow> self\<lparr>ws_stream := WW_abort_stream W why (ws_stream self)\<rparr>)"

definition wasm_SendStream_finish :: "('j, 't, 'ws) js_errors \<Rightarrow> ('w, 'r, 'j, 'ws) web_writer \<Rightarrow>
    ('w, 'r) wasm_SendStream \<Rightarrow> (unit, ('j, 't, 'ws) wasm_Error) res \<times> ('w, 'r) wasm_SendStream" where
  "wasm_SendStream_finish E W self =
     (case ws_state self of
        Writing _ _ \<Rightarrow> (Err (WE_Unknown (JS_string E (str ''flush pending writes before finish''))), self)
      | Write_Idle \<Rightarrow>
          (Ok (), self\<lparr>ws_writer := map_option (WW_close W) (ws_writer self), ws_closed := True\<rparr>))"

definition wasm_SendStream_set_priority :: "('j, 't, 'ws) js_errors \<Rightarrow> ('w, 'r, 'j, 'ws) web_writer \<Rightarrow>
    32 word \<Rightarrow> ('w, 'r) wasm_SendStream \<Rightarrow>
    (unit, ('j, 't, 'ws) wasm_Error) res \<times> ('w, 'r) wasm_SendStream" where
  "wasm_SendStream_set_priority E W priority self =
     (case WW_set_order W priority (ws_stream self) of
        Ok stream \<Rightarrow> (Ok (), self\<lparr>ws_stream := stream\<rparr>)
      | Err v \<Rightarrow> (Err (wasm_Error_from_js E v), self)
      | Panic \<Rightarrow> (Panic, self))"

definition wasm_SendStream_closed :: "('j, 't, 'ws) js_errors \<Rightarrow> ('w, 'r, 'j, 'ws) web_writer \<Rightarrow>
    ('w, 'r) wasm_SendStream \<Rightarrow> (u8 option, ('j, 't, 'ws) wasm_Error) res" where
  "wasm_SendStream_closed E W self =
     (case ws_writer self of
        None \<Rightarrow> Err (WE_Unknown (JS_string E (str ''writer is unavailable'')))
      | Some writer \<Rightarrow> close_code E (WW_closed W writer))"

definition wasm_SendStream_drop :: "('w, 'r, 'j, 'ws) web_writer \<Rightarrow> ('w, 'r) wasm_SendStream \<Rightarrow>
    ('w, 'r) wasm_SendStream" where
  "wasm_SendStream_drop W self =
     (case ws_state self of
        Writing _ _ \<Rightarrow> wasm_SendStream_reset W (str ''dropped with pending write'') self
      | Write_Idle \<Rightarrow> self\<lparr>ws_writer := map_option (WW_close W) (ws_writer self)\<rparr>)"

definition wasm_Trait_write :: "('j, 't, 'ws) js_errors \<Rightarrow> ('w, 'r, 'j, 'ws) web_writer \<Rightarrow>
    ('w, 'r) wasm_SendStream futures_write_all \<Rightarrow> nat \<Rightarrow> bytes \<Rightarrow> ('w, 'r) wasm_SendStream \<Rightarrow>
    ((nat, ('j, 't, 'ws) wasm_Error) res \<times> ('w, 'r) wasm_SendStream) option" where
  "wasm_Trait_write E W drive fuel buf self =
     map_option (apfst (map_ok (\<lambda>_. length buf))) (wasm_SendStream_write E W drive fuel buf self)"

definition wasm_Trait_set_priority :: "('j, 't, 'ws) js_errors \<Rightarrow> ('w, 'r, 'j, 'ws) web_writer \<Rightarrow> u8 \<Rightarrow>
    ('w, 'r) wasm_SendStream \<Rightarrow> ('w, 'r) wasm_SendStream" where
  "wasm_Trait_set_priority E W order self = snd (wasm_SendStream_set_priority E W (ucast order) self)"

definition wasm_Trait_finish :: "('j, 't, 'ws) js_errors \<Rightarrow> ('w, 'r, 'j, 'ws) web_writer \<Rightarrow>
    ('w, 'r) wasm_SendStream \<Rightarrow> (unit, ('j, 't, 'ws) wasm_Error) res \<times> ('w, 'r) wasm_SendStream" where
  "wasm_Trait_finish E W self = wasm_SendStream_finish E W self"

definition wasm_Trait_reset :: "('w, 'r, 'j, 'ws) web_writer \<Rightarrow> u32 \<Rightarrow> ('w, 'r) wasm_SendStream \<Rightarrow>
    ('w, 'r) wasm_SendStream" where
  "wasm_Trait_reset W code self = wasm_SendStream_reset W (decimal (unat code)) self"

definition wasm_Trait_send_closed :: "('j, 't, 'ws) js_errors \<Rightarrow> ('w, 'r, 'j, 'ws) web_writer \<Rightarrow>
    ('w, 'r) wasm_SendStream \<Rightarrow> (unit, ('j, 't, 'ws) wasm_Error) res" where
  "wasm_Trait_send_closed E W self = closed_with_code E (wasm_SendStream_closed E W self)"

subsection \<open>What the code relies on in readers and writers\<close>

text \<open>
  \<open>content r\<close> are the bytes the browser still delivers to a reader, \<open>sent r\<close> those it has taken from a
  writer. A read yields the next bytes, possibly none of them, or the end. A write that succeeds has
  taken the whole payload, one that fails nothing that counts.
\<close>

definition web_reader_laws :: "('w, 'r, bytes, 'j, 'ws) web_reader \<Rightarrow> ('r \<Rightarrow> bytes) \<Rightarrow> bool" where
  "web_reader_laws R content \<longleftrightarrow>
     (\<forall>r r'. WR_poll_read R r = (Poll_Pending, r') \<longrightarrow> content r' = content r) \<and>
     (\<forall>r bs r'. WR_poll_read R r = (Poll_Ready (Ok (Some bs)), r') \<longrightarrow> content r = bs @ content r') \<and>
     (\<forall>r r'. WR_poll_read R r = (Poll_Ready (Ok None), r') \<longrightarrow> content r = []) \<and>
     (\<forall>r r'. WR_poll_read R r \<noteq> (Poll_Ready Panic, r'))"

definition web_writer_laws :: "('w, 'r, 'j, 'ws) web_writer \<Rightarrow> ('r \<Rightarrow> bytes) \<Rightarrow> bool" where
  "web_writer_laws W sent \<longleftrightarrow>
     (\<forall>bs r r'. WW_poll_write W bs r = (Poll_Pending, r') \<longrightarrow> sent r' = sent r) \<and>
     (\<forall>bs r r'. WW_poll_write W bs r = (Poll_Ready (Ok ()), r') \<longrightarrow> sent r' = sent r @ bs) \<and>
     (\<forall>bs r e r'. WW_poll_write W bs r = (Poll_Ready (Err e), r') \<longrightarrow> sent r' = sent r) \<and>
     (\<forall>bs r r'. WW_poll_write W bs r \<noteq> (Poll_Ready Panic, r')) \<and>
     (\<forall>r. sent (WW_close W r) = sent r)"

text \<open>\<^verbatim>\<open>write_all\<close> writes the rest of the buffer until there is none.\<close>

definition drives_write_all :: "'s futures_write_all \<Rightarrow> bool" where
  "drives_write_all drive \<longleftrightarrow>
     (\<forall>poll buf s. drive poll 0 buf s = None) \<and>
     (\<forall>poll fuel s. drive poll (Suc fuel) [] s = Some (Ok (), s)) \<and>
     (\<forall>poll fuel buf s. buf \<noteq> [] \<longrightarrow> drive poll (Suc fuel) buf s =
        (case poll buf s of
           (Poll_Pending, s) \<Rightarrow> drive poll fuel buf s
         | (Poll_Ready (Ok n), s) \<Rightarrow>
             if n = 0 then Some (Err \<lparr>kind = OtherKind, message = str ''write zero''\<rparr>, s)
             else drive poll fuel (drop n buf) s
         | (Poll_Ready (Err e), s) \<Rightarrow> Some (Err e, s)
         | (Poll_Ready Panic, s) \<Rightarrow> Some (Panic, s)))"

subsection \<open>Reading loses nothing\<close>

text \<open>
  The reader is in the stream or in the read in flight, until the end. \<open>undelivered\<close> is what the
  stream still has to deliver.
\<close>

definition recv_ok :: "('w, 'r) wasm_RecvStream \<Rightarrow> bool" where
  "recv_ok self \<longleftrightarrow>
     (case wr_state self of Reading _ \<Rightarrow> wr_reader self = None | Read_Idle \<Rightarrow> wr_eof self \<or> wr_reader self \<noteq> None)"

definition undelivered :: "('r \<Rightarrow> bytes) \<Rightarrow> ('w, 'r) wasm_RecvStream \<Rightarrow> bytes" where
  "undelivered content self = wr_buffer self @
     (if wr_eof self then []
      else case wr_state self of
          Reading r \<Rightarrow> content r
        | Read_Idle \<Rightarrow> (case wr_reader self of Some r \<Rightarrow> content r | None \<Rightarrow> []))"

definition poll_delivers :: "('r \<Rightarrow> bytes) \<Rightarrow> nat \<Rightarrow> ('w, 'r) wasm_RecvStream \<Rightarrow>
    (bytes option, io_error) res poll \<Rightarrow> ('w, 'r) wasm_RecvStream \<Rightarrow> bool" where
  "poll_delivers content limit self p self' \<longleftrightarrow> recv_ok self' \<and>
     (case p of
        Poll_Pending \<Rightarrow> undelivered content self' = undelivered content self
      | Poll_Ready (Ok (Some bs)) \<Rightarrow> length bs \<le> limit \<and> (bs = [] \<longleftrightarrow> limit = 0) \<and>
          undelivered content self = bs @ undelivered content self'
      | Poll_Ready (Ok None) \<Rightarrow> undelivered content self = [] \<and> undelivered content self' = [] \<and> wr_eof self'
      | Poll_Ready (Err _) \<Rightarrow> undelivered content self' = [] \<and> wr_eof self'
      | Poll_Ready Panic \<Rightarrow> False)"

lemma poll_chunk_loop_delivers:
  assumes laws: "web_reader_laws R content" and "0 < limit" and "recv_ok self"
    and "poll_chunk_loop n E R limit self = (p, self')"
  shows "poll_delivers content limit self p self'"
  using assms(3,4)
proof (induction n arbitrary: self)
  case 0
  then show ?case by (simp add: poll_delivers_def)
next
  case (Suc n)
  show ?case
  proof (cases "wr_buffer self \<noteq> [] \<or> wr_eof self")
    case True
    then show ?thesis using Suc.prems assms(2)
      by (auto simp: poll_delivers_def undelivered_def recv_ok_def Let_def split: if_splits ReadState.splits)
  next
    case False
    then obtain r where r: "(case wr_state self of Reading r \<Rightarrow> Some r | Read_Idle \<Rightarrow> wr_reader self) = Some r"
      using Suc.prems(1) by (auto simp: recv_ok_def split: ReadState.splits)
    let ?self = "self\<lparr>wr_reader := None, wr_state := Reading r\<rparr>"
    have begun: "(case wr_state self of
                 Reading _ \<Rightarrow> Some self
               | Read_Idle \<Rightarrow> map_option (\<lambda>reader. self\<lparr>wr_reader := None, wr_state := Reading reader\<rparr>) (wr_reader self)) =
        Some ?self" and left: "undelivered content self = content r"
      using r False Suc.prems(1) by (cases self; auto simp: recv_ok_def undelivered_def split: ReadState.splits)+
    obtain x r' where x: "WR_poll_read R r = (x, r')" by fastforce
    note step = Suc.prems(2) [unfolded poll_chunk_loop.simps begun poll_inflight_read_def]
    show ?thesis
    proof (cases x)
      case Poll_Pending
      then show ?thesis using step x False left laws
        by (auto simp: poll_delivers_def undelivered_def recv_ok_def web_reader_laws_def)
    next
      case (Poll_Ready res)
      show ?thesis
      proof (cases res)
        case (Ok o')
        show ?thesis
        proof (cases o')
          case None
          then show ?thesis using step x False left laws Poll_Ready Ok
            by (auto simp: poll_delivers_def undelivered_def recv_ok_def web_reader_laws_def)
        next
          case (Some chunk)
          let ?self2 = "?self\<lparr>wr_reader := Some r', wr_state := Read_Idle, wr_buffer := chunk\<rparr>"
          have "poll_chunk_loop n E R limit ?self2 = (p, self')"
            using step x False Poll_Ready Ok Some by simp
          from Suc.IH [OF _ this] have d: "poll_delivers content limit ?self2 p self'" by (simp add: recv_ok_def)
          have "undelivered content ?self2 = undelivered content self"
            using x laws Poll_Ready Ok Some False left by (simp add: undelivered_def web_reader_laws_def)
          then show ?thesis using d by (simp only: poll_delivers_def)
        qed
      next
        case (Err e)
        then show ?thesis using step x False Poll_Ready
          by (auto simp: poll_delivers_def undelivered_def recv_ok_def)
      next
        case Panic
        then show ?thesis using x laws Poll_Ready by (simp add: web_reader_laws_def)
      qed
    qed
  qed
qed

lemma poll_chunk_delivers:
  assumes "web_reader_laws R content" and "recv_ok self" and "poll_chunk E R limit self = (p, self')"
  shows "poll_delivers content limit self p self'"
proof (cases "limit = 0")
  case True
  then show ?thesis using assms(2,3) by (auto simp: poll_chunk_def poll_delivers_def)
next
  case False
  then show ?thesis
    using poll_chunk_loop_delivers [OF assms(1) _ assms(2)] assms(3) by (simp add: poll_chunk_def)
qed

text \<open>
  Polls with any limits, whoever makes them: the bytes they deliver in order, and whether one fails.
\<close>

fun wasm_reads :: "('j, 't, 'ws) js_errors \<Rightarrow> ('w, 'r, bytes, 'j, 'ws) web_reader \<Rightarrow> nat list \<Rightarrow>
    ('w, 'r) wasm_RecvStream \<Rightarrow> bytes \<times> bool \<times> ('w, 'r) wasm_RecvStream" where
  "wasm_reads E R [] self = ([], False, self)"
| "wasm_reads E R (limit # limits) self =
     (case poll_chunk E R limit self of
        (Poll_Ready (Ok (Some bs)), self) \<Rightarrow> apfst (\<lambda>xs. bs @ xs) (wasm_reads E R limits self)
      | (Poll_Ready (Ok None), self) \<Rightarrow> wasm_reads E R limits self
      | (Poll_Pending, self) \<Rightarrow> wasm_reads E R limits self
      | (_, self) \<Rightarrow> apsnd (apfst (\<lambda>_. True)) (wasm_reads E R limits self))"

lemma wasm_reads_deliver:
  assumes "web_reader_laws R content" and "recv_ok self" and "wasm_reads E R limits self = (xs, failed, self')"
  shows "recv_ok self' \<and> (if failed then prefix xs (undelivered content self)
    else undelivered content self = xs @ undelivered content self')"
  using assms(2,3)
proof (induction limits arbitrary: self xs failed self')
  case (Cons limit limits)
  obtain p self1 where p: "poll_chunk E R limit self = (p, self1)" by fastforce
  obtain ys f self2 where rest: "wasm_reads E R limits self1 = (ys, f, self2)" by (cases "wasm_reads E R limits self1") auto
  note d = poll_chunk_delivers [OF assms(1) Cons.prems(1) p, unfolded poll_delivers_def]
  have ih: "recv_ok self2 \<and> (if f then prefix ys (undelivered content self1)
      else undelivered content self1 = ys @ undelivered content self2)"
    using Cons.IH [OF _ rest] d by blast
  show ?case
    using Cons.prems(2) p rest d ih
    by (auto split: poll.splits res.splits option.splits if_splits simp: prefix_def)
qed simp

lemma poll_chunk_ready:
  assumes "0 < limit" and "wr_buffer self = [] \<and> \<not> wr_eof self"
    and "(case wr_state self of Reading r \<Rightarrow> Some r | Read_Idle \<Rightarrow> wr_reader self) = Some r"
    and "WR_poll_read R r = (Poll_Ready (Ok (Some bs)), r')" and "bs \<noteq> []"
  shows "fst (poll_chunk E R limit self) = Poll_Ready (Ok (Some (take limit bs)))"
  using assms by (auto simp: poll_chunk_def poll_inflight_read_def numeral_eq_Suc Let_def min_def split: ReadState.splits)

subsection \<open>Writing loses nothing\<close>

text \<open>
  The writer is in the stream, or in a write in flight while the stream is open; this is so until a
  reset takes a write away. \<open>handed\<close> is what the stream has taken from its callers.
\<close>

definition send_ok :: "('w, 'r) wasm_SendStream \<Rightarrow> bool" where
  "send_ok self \<longleftrightarrow>
     (case ws_state self of
        Writing payload _ \<Rightarrow> ws_writer self = None \<and> payload \<noteq> [] \<and> \<not> ws_closed self
      | Write_Idle \<Rightarrow> ws_writer self \<noteq> None)"

definition handed :: "('r \<Rightarrow> bytes) \<Rightarrow> ('w, 'r) wasm_SendStream \<Rightarrow> bytes" where
  "handed sent self =
     (case ws_state self of
        Writing payload r \<Rightarrow> sent r @ payload
      | Write_Idle \<Rightarrow> (case ws_writer self of Some r \<Rightarrow> sent r | None \<Rightarrow> []))"

text \<open>The bytes in flight.\<close>

definition in_flight :: "('w, 'r) wasm_SendStream \<Rightarrow> bytes" where
  "in_flight self = (case ws_state self of Writing payload _ \<Rightarrow> payload | Write_Idle \<Rightarrow> [])"

datatype send_op = Op_write bytes | Op_flush | Op_close | Op_finish

text \<open>One operation, as a poll or a call: the bytes it accepts, and whether it reports an error.\<close>

definition wasm_send_op :: "('j, 't, 'ws) js_errors \<Rightarrow> ('w, 'r, 'j, 'ws) web_writer \<Rightarrow> send_op \<Rightarrow>
    ('w, 'r) wasm_SendStream \<Rightarrow> bytes \<times> bool \<times> ('w, 'r) wasm_SendStream" where
  "wasm_send_op E W action self =
     (case action of
        Op_write buf \<Rightarrow>
          (case wasm_poll_write E W buf self of
             (Poll_Ready (Ok n), self) \<Rightarrow> (take n buf, False, self)
           | (Poll_Pending, self) \<Rightarrow> ([], False, self)
           | (_, self) \<Rightarrow> ([], True, self))
      | Op_flush \<Rightarrow> (case wasm_poll_flush E W self of
             (Poll_Ready (Ok _), self) \<Rightarrow> ([], False, self)
           | (Poll_Pending, self) \<Rightarrow> ([], False, self)
           | (_, self) \<Rightarrow> ([], True, self))
      | Op_close \<Rightarrow> (case wasm_poll_close E W self of
             (Poll_Ready (Ok _), self) \<Rightarrow> ([], False, self)
           | (Poll_Pending, self) \<Rightarrow> ([], False, self)
           | (_, self) \<Rightarrow> ([], True, self))
      | Op_finish \<Rightarrow> (case wasm_SendStream_finish E W self of
             (Ok _, self) \<Rightarrow> ([], False, self)
           | (_, self) \<Rightarrow> ([], True, self)))"

fun wasm_sends :: "('j, 't, 'ws) js_errors \<Rightarrow> ('w, 'r, 'j, 'ws) web_writer \<Rightarrow> send_op list \<Rightarrow>
    ('w, 'r) wasm_SendStream \<Rightarrow> bytes \<times> bool \<times> ('w, 'r) wasm_SendStream" where
  "wasm_sends E W [] self = ([], False, self)"
| "wasm_sends E W (action # actions) self =
     (case wasm_send_op E W action self of
        (took, failed, self) \<Rightarrow>
          (case wasm_sends E W actions self of
             (took', failed', self) \<Rightarrow> (took @ took', failed \<or> failed', self)))"

text \<open>
  The poll of a write in flight: it goes on, or it is over and the writer is back, with the payload
  taken or lost.
\<close>

lemma poll_inflight_write_cases:
  assumes laws: "web_writer_laws W sent" and ok: "send_ok self"
    and poll: "poll_inflight_write E W self = (p, self')"
  obtains (waits) "p = Poll_Pending" "send_ok self'" "handed sent self' = handed sent self"
      "in_flight self' = in_flight self" "ws_closed self' = ws_closed self"
  | (drained) n writer where "p = Poll_Ready (Ok n)" "ws_state self' = Write_Idle" "ws_writer self' = Some writer"
      "sent writer = handed sent self" "ws_closed self' = ws_closed self"
  | (fails) e writer where "p = Poll_Ready (Err e)" "ws_state self' = Write_Idle" "ws_writer self' = Some writer"
      "handed sent self = sent writer @ in_flight self" "ws_closed self' = ws_closed self"
proof (cases "ws_state self")
  case Write_Idle
  then obtain writer where "ws_writer self = Some writer" using ok by (auto simp: send_ok_def)
  then show thesis using drained poll Write_Idle by (auto simp: poll_inflight_write_def handed_def)
next
  case (Writing payload fut)
  obtain x r where x: "WW_poll_write W payload fut = (x, r)" by fastforce
  show thesis
  proof (cases x)
    case Poll_Pending
    then have "sent r = sent fut" using laws x by (simp add: web_writer_laws_def)
    then show thesis using waits poll Writing x Poll_Pending ok
      by (auto simp: poll_inflight_write_def handed_def in_flight_def send_ok_def)
  next
    case (Poll_Ready res)
    show thesis
    proof (cases res)
      case (Ok u)
      then have "sent r = sent fut @ payload" using laws x Poll_Ready by (simp add: web_writer_laws_def)
      then show thesis using drained poll Writing x Poll_Ready Ok
        by (auto simp: poll_inflight_write_def handed_def)
    next
      case (Err e)
      then have "sent r = sent fut" using laws x Poll_Ready by (simp add: web_writer_laws_def)
      then show thesis using fails poll Writing x Poll_Ready Err
        by (auto simp: poll_inflight_write_def handed_def in_flight_def)
    next
      case Panic
      then show thesis using laws x Poll_Ready by (simp add: web_writer_laws_def)
    qed
  qed
qed

text \<open>What an operation does to the account: it keeps it, or it loses the write in flight and closes.\<close>

definition accounts :: "('r \<Rightarrow> bytes) \<Rightarrow> ('w, 'r) wasm_SendStream \<Rightarrow> bytes \<Rightarrow> bool \<Rightarrow>
    ('w, 'r) wasm_SendStream \<Rightarrow> bool" where
  "accounts sent self took failed self' \<longleftrightarrow> send_ok self' \<and>
     (handed sent self @ took = handed sent self' \<and> (took \<noteq> [] \<longrightarrow> \<not> failed) \<or>
      took = [] \<and> failed \<and> ws_closed self' \<and> handed sent self = handed sent self' @ in_flight self) \<and>
     (ws_closed self \<longrightarrow> ws_closed self' \<and> took = [])"

lemma wasm_poll_flush_cases:
  assumes "web_writer_laws W sent" and "send_ok self" and "wasm_poll_flush E W self = (p, self')"
  shows "accounts sent self [] (\<exists>e. p = Poll_Ready (Err e)) self' \<and> p \<noteq> Poll_Ready Panic \<and>
    (p = Poll_Ready (Ok ()) \<longrightarrow> ws_state self' = Write_Idle \<and> handed sent self' = handed sent self \<and>
      ws_closed self' = ws_closed self) \<and>
    ((\<exists>e. p = Poll_Ready (Err e)) \<longrightarrow> ws_state self' = Write_Idle \<and> ws_closed self')"
proof -
  obtain p1 self1 where q: "poll_inflight_write E W self = (p1, self1)" by fastforce
  show ?thesis
    using assms(3) q
    by (cases rule: poll_inflight_write_cases [OF assms(1,2) q])
      (auto simp: wasm_poll_flush_def accounts_def send_ok_def handed_def)
qed

lemma wasm_poll_write_cases:
  assumes "web_writer_laws W sent" and "send_ok self" and "wasm_poll_write E W buf self = (p, self')"
  shows "accounts sent self (case p of Poll_Ready (Ok n) \<Rightarrow> take n buf | _ \<Rightarrow> []) (\<exists>e. p = Poll_Ready (Err e)) self' \<and>
    p \<noteq> Poll_Ready Panic \<and> (\<forall>n. p = Poll_Ready (Ok n) \<longrightarrow> n = min (length buf) (64 * 1024))"
proof (cases "buf = [] \<or> ws_closed self")
  case True
  then show ?thesis using assms(2,3) by (auto simp: wasm_poll_write_def accounts_def split: if_splits)
next
  case False
  obtain p1 self1 where q: "poll_inflight_write E W self = (p1, self1)" by fastforce
  show ?thesis
    using assms(3) q False
    by (cases rule: poll_inflight_write_cases [OF assms(1,2) q])
      (auto simp: wasm_poll_write_def accounts_def send_ok_def handed_def Let_def)
qed

lemma wasm_poll_close_cases:
  assumes "web_writer_laws W sent" and "send_ok self" and "wasm_poll_close E W self = (p, self')"
  shows "accounts sent self [] (\<exists>e. p = Poll_Ready (Err e)) self' \<and> p \<noteq> Poll_Ready Panic \<and>
    (p = Poll_Ready (Ok ()) \<longrightarrow> ws_state self' = Write_Idle \<and> ws_closed self' \<and> handed sent self' = handed sent self)"
proof -
  obtain p1 self1 where f: "wasm_poll_flush E W self = (p1, self1)" by fastforce
  note c = wasm_poll_flush_cases [OF assms(1,2) f]
  have closes: "sent (WW_close W r) = sent r" for r using assms(1) by (simp add: web_writer_laws_def)
  show ?thesis
  proof (cases "\<exists>u. p1 = Poll_Ready (Ok u)")
    case False
    then show ?thesis using assms(3) f c
      by (cases p1; cases "case p1 of Poll_Ready r \<Rightarrow> r | Poll_Pending \<Rightarrow> Ok ()")
        (auto simp: wasm_poll_close_def accounts_def send_ok_def handed_def split: WriteState.split)
  next
    case True
    then have idle: "ws_state self1 = Write_Idle" "handed sent self1 = handed sent self" "p1 = Poll_Ready (Ok ())"
      and "accounts sent self [] False self1"
      using c by auto
    then obtain r where "ws_writer self1 = Some r" by (auto simp: accounts_def send_ok_def)
    then show ?thesis
      using assms(3) f idle closes \<open>accounts sent self [] False self1\<close>
      by (cases "ws_closed self1") (auto simp: wasm_poll_close_def accounts_def send_ok_def handed_def)
  qed
qed

lemma wasm_SendStream_finish_cases:
  assumes "web_writer_laws W sent" and "send_ok self" and "wasm_SendStream_finish E W self = (r, self')"
  shows "accounts sent self [] (\<exists>e. r = Err e) self' \<and> r \<noteq> Panic \<and>
    (r = Ok () \<longrightarrow> ws_state self' = Write_Idle \<and> ws_closed self' \<and> handed sent self' = handed sent self)"
proof -
  have closes: "sent (WW_close W r) = sent r" for r using assms(1) by (simp add: web_writer_laws_def)
  show ?thesis
    using assms(2,3) closes
    by (auto simp: wasm_SendStream_finish_def accounts_def send_ok_def handed_def split: WriteState.splits)
qed

lemma wasm_send_op_accounts:
  assumes "web_writer_laws W sent" and "send_ok self" and "wasm_send_op E W action self = (took, failed, self')"
  shows "accounts sent self took failed self'"
proof (cases action)
  case (Op_write buf)
  obtain p self1 where p: "wasm_poll_write E W buf self = (p, self1)" by fastforce
  show ?thesis using wasm_poll_write_cases [OF assms(1,2) p] assms(3) Op_write p
    by (auto simp: wasm_send_op_def split: poll.splits res.splits)
next
  case Op_flush
  obtain p self1 where p: "wasm_poll_flush E W self = (p, self1)" by fastforce
  show ?thesis using wasm_poll_flush_cases [OF assms(1,2) p] assms(3) Op_flush p
    by (auto simp: wasm_send_op_def split: poll.splits res.splits)
next
  case Op_close
  obtain p self1 where p: "wasm_poll_close E W self = (p, self1)" by fastforce
  show ?thesis using wasm_poll_close_cases [OF assms(1,2) p] assms(3) Op_close p
    by (auto simp: wasm_send_op_def split: poll.splits res.splits)
next
  case Op_finish
  obtain r self1 where p: "wasm_SendStream_finish E W self = (r, self1)" by fastforce
  show ?thesis using wasm_SendStream_finish_cases [OF assms(1,2) p] assms(3) Op_finish p
    by (auto simp: wasm_send_op_def split: res.splits)
qed

text \<open>Once a write is lost the stream is closed and idle, so at most one is.\<close>

lemma wasm_sends_account:
  assumes "web_writer_laws W sent" and "send_ok self" and "wasm_sends E W actions self = (took, failed, self')"
  shows "send_ok self' \<and> (\<exists>lost. handed sent self @ took = handed sent self' @ lost \<and>
      (lost = [] \<or> failed \<and> ws_closed self')) \<and> (ws_closed self \<longrightarrow> ws_closed self' \<and> took = [])"
  using assms(2,3)
proof (induction actions arbitrary: self took failed self')
  case (Cons action actions)
  obtain t1 f1 self1 where s: "wasm_send_op E W action self = (t1, f1, self1)" by (metis prod_cases3)
  obtain t2 f2 self2 where r: "wasm_sends E W actions self1 = (t2, f2, self2)" by (metis prod_cases3)
  have eqs: "took = t1 @ t2" "failed = (f1 \<or> f2)" "self' = self2" using Cons.prems(2) s r by auto
  note a = wasm_send_op_accounts [OF assms(1) Cons.prems(1) s, unfolded accounts_def]
  then obtain lost where ih: "send_ok self2" "handed sent self1 @ t2 = handed sent self2 @ lost"
      "lost = [] \<or> f2 \<and> ws_closed self2" "ws_closed self1 \<longrightarrow> ws_closed self2 \<and> t2 = []"
    using Cons.IH [OF _ r] by blast
  show ?case
  proof (cases "handed sent self @ t1 = handed sent self1")
    case True
    then have "handed sent self @ took = handed sent self' @ lost" using eqs ih(2) by (metis append.assoc)
    then show ?thesis using a ih eqs by blast
  next
    case False
    then have lost1: "t1 = []" "f1" "ws_closed self1" "handed sent self = handed sent self1 @ in_flight self"
      using a by blast+
    have "in_flight self1 = []"
      using lost1(3) a by (auto simp: send_ok_def in_flight_def split: WriteState.splits)
    have "t2 = []" using ih(4) lost1(3) by blast
    then have "handed sent self @ took = handed sent self' @ (lost @ in_flight self)"
      using eqs lost1 ih(2) by simp
    then show ?thesis using a ih eqs lost1 by blast
  qed
qed simp

subsection \<open>A whole write\<close>

text \<open>A writer that never keeps a poll waiting.\<close>

definition prompt_writer :: "('w, 'r, 'j, 'ws) web_writer \<Rightarrow> bool" where
  "prompt_writer W \<longleftrightarrow> (\<forall>bs r. fst (WW_poll_write W bs r) \<noteq> Poll_Pending)"

lemma drive_step:
  assumes "drives_write_all drive" and "buf \<noteq> []"
  shows "drive poll (Suc fuel) buf s =
        (case poll buf s of
           (Poll_Pending, s) \<Rightarrow> drive poll fuel buf s
         | (Poll_Ready (Ok n), s) \<Rightarrow>
             if n = 0 then Some (Err \<lparr>kind = OtherKind, message = str ''write zero''\<rparr>, s)
             else drive poll fuel (drop n buf) s
         | (Poll_Ready (Err e), s) \<Rightarrow> Some (Err e, s)
         | (Poll_Ready Panic, s) \<Rightarrow> Some (Panic, s))"
  by (rule assms(1) [unfolded drives_write_all_def, THEN conjunct2, THEN conjunct2, rule_format, OF assms(2)])

lemma drive_delivers:
  assumes drive: "drives_write_all drive" and laws: "web_writer_laws W sent"
    and "send_ok self" and "drive (wasm_poll_write E W) fuel buf self = Some (r, self')"
  shows "send_ok self' \<and> r \<noteq> Panic \<and> (r = Ok () \<longrightarrow> handed sent self' = handed sent self @ buf)"
  using assms(3,4)
proof (induction fuel arbitrary: buf self)
  case 0
  then show ?case using drive by (simp add: drives_write_all_def)
next
  case (Suc fuel)
  show ?case
  proof (cases "buf = []")
    case True
    then show ?thesis using Suc.prems drive by (auto simp: drives_write_all_def)
  next
    case False
    obtain p self1 where p: "wasm_poll_write E W buf self = (p, self1)" by fastforce
    note c = wasm_poll_write_cases [OF laws Suc.prems(1) p]
    note eq = Suc.prems(2) [unfolded drive_step [OF drive False] p]
    show ?thesis
    proof (cases p)
      case Poll_Pending
      have kept: "send_ok self1 \<and> handed sent self1 = handed sent self"
        using c Poll_Pending by (auto simp: accounts_def)
      have "drive (wasm_poll_write E W) fuel buf self1 = Some (r, self')" using eq Poll_Pending by simp
      from Suc.IH [OF _ this] show ?thesis using kept by simp
    next
      case (Poll_Ready res)
      show ?thesis
      proof (cases res)
        case (Ok n)
        then have n: "n = min (length buf) (64 * 1024)" and kept: "send_ok self1"
            "handed sent self1 = handed sent self @ take n buf"
          using c Poll_Ready False by (auto simp: accounts_def)
        have "n \<noteq> 0" using n False by simp
        then have "drive (wasm_poll_write E W) fuel (drop n buf) self1 = Some (r, self')"
          using eq Poll_Ready Ok by simp
        from Suc.IH [OF kept(1) this] show ?thesis using kept(2) by auto
      next
        case (Err e)
        then show ?thesis using c eq Poll_Ready by (auto simp: accounts_def)
      next
        case Panic
        then show ?thesis using c Poll_Ready by simp
      qed
    qed
  qed
qed

lemma prompt_inflight:
  assumes "prompt_writer W"
  obtains r self' where "poll_inflight_write E W self = (Poll_Ready r, self')"
proof (cases "ws_state self")
  case Write_Idle
  then show thesis using that by (simp add: poll_inflight_write_def)
next
  case (Writing payload fut)
  obtain x r where "WW_poll_write W payload fut = (x, r)" by fastforce
  moreover have "x \<noteq> Poll_Pending"
    using assms calculation unfolding prompt_writer_def by (metis fst_conv)
  ultimately show thesis using that Writing by (cases x) (simp_all add: poll_inflight_write_def)
qed

lemma prompt_polls:
  assumes "prompt_writer W"
  shows "fst (wasm_poll_write E W buf self) \<noteq> Poll_Pending" "fst (wasm_poll_flush E W self) \<noteq> Poll_Pending"
proof -
  obtain r self' where p: "poll_inflight_write E W self = (Poll_Ready r, self')" by (rule prompt_inflight [OF assms])
  show "fst (wasm_poll_write E W buf self) \<noteq> Poll_Pending"
    using p by (cases r; cases "ws_state self'"; cases "ws_writer self'") (simp_all add: wasm_poll_write_def Let_def)
  show "fst (wasm_poll_flush E W self) \<noteq> Poll_Pending"
    using p by (cases r) (simp_all add: wasm_poll_flush_def)
qed

lemma drive_returns:
  assumes drive: "drives_write_all drive" and laws: "web_writer_laws W sent" and prompt: "prompt_writer W"
    and "send_ok self" and "length buf < fuel"
  shows "\<exists>r self'. drive (wasm_poll_write E W) fuel buf self = Some (r, self')"
  using assms(4,5)
proof (induction fuel arbitrary: buf self)
  case (Suc fuel)
  show ?case
  proof (cases "buf = []")
    case True
    then show ?thesis using drive by (simp add: drives_write_all_def)
  next
    case False
    obtain p self1 where p: "wasm_poll_write E W buf self = (p, self1)" by fastforce
    note c = wasm_poll_write_cases [OF laws Suc.prems(1) p]
    have np: "p \<noteq> Poll_Pending" using prompt_polls(1) [OF prompt, of E buf self] p by simp
    note eq = drive_step [OF drive False, of "wasm_poll_write E W" fuel self, unfolded p]
    show ?thesis
    proof (cases "\<exists>n. p = Poll_Ready (Ok n)")
      case True
      then obtain n where "p = Poll_Ready (Ok n)" by blast
      with c have n: "p = Poll_Ready (Ok n)" "n = min (length buf) (64 * 1024)" by blast+
      have ok: "send_ok self1" using c unfolding accounts_def by blast
      have pos: "0 < length buf" using False by simp
      then have n0: "n \<noteq> 0" unfolding n(2) min_def by simp
      have "length (drop n buf) < fuel" unfolding length_drop using Suc.prems(2) n0 pos by linarith
      from Suc.IH [OF ok this] show ?thesis unfolding eq n(1) using n0 by simp
    next
      case False
      then show ?thesis using eq np by (cases p) (auto split: res.split)
    qed
  qed
qed simp

lemma wasm_write_delivers:
  assumes drive: "drives_write_all drive" and laws: "web_writer_laws W sent" and ok: "send_ok self"
    and w: "wasm_SendStream_write E W drive fuel buf self = Some (r, self')"
  shows "send_ok self' \<and> r \<noteq> Panic \<and> (r = Ok () \<longrightarrow> in_flight self' = [] \<and> handed sent self' = handed sent self @ buf)"
proof -
  obtain r1 self1 where d: "drive (wasm_poll_write E W) fuel buf self = Some (r1, self1)"
    using w by (auto simp: wasm_SendStream_write_def split: option.splits)
  note dd = drive_delivers [OF drive laws ok d]
  have flush: "send_ok self2 \<and> r2 \<noteq> Panic \<and> (r2 = Ok () \<longrightarrow> in_flight self2 = [] \<and> handed sent self2 = handed sent self1)"
    if "await_poll n (wasm_poll_flush E W) s = Some (r2, self2)" "send_ok s" "handed sent s = handed sent self1" for n s r2 self2
    using that
  proof (induction n arbitrary: s)
    case (Suc n)
    obtain p s1 where p: "wasm_poll_flush E W s = (p, s1)" by fastforce
    note c = wasm_poll_flush_cases [OF laws Suc.prems(2) p, unfolded accounts_def]
    show ?case
    proof (cases p)
      case Poll_Pending
      then have "await_poll n (wasm_poll_flush E W) s1 = Some (r2, self2)" "send_ok s1"
          "handed sent s1 = handed sent self1"
        using c p Suc.prems by simp_all
      then show ?thesis by (rule Suc.IH)
    next
      case (Poll_Ready x)
      then have "x = r2" "s1 = self2" using p Suc.prems(1) by simp_all
      then show ?thesis using c Poll_Ready Suc.prems(3) by (simp add: in_flight_def)
    qed
  qed simp
  show ?thesis
  proof (cases r1)
    case (Ok u)
    then obtain r2 where f: "await_poll fuel (wasm_poll_flush E W) self1 = Some (r2, self')"
      and r: "r = map_err (unknown_io E) r2"
      using w d by (auto simp: wasm_SendStream_write_def)
    show ?thesis using flush [OF f] dd Ok r by (cases r2) auto
  next
    case (Err e)
    then show ?thesis using w d dd by (auto simp: wasm_SendStream_write_def)
  next
    case Panic
    then show ?thesis using dd by simp
  qed
qed

text \<open>Streams over chunks that the browser has ready, and over a writer that takes everything.\<close>

definition example_reader :: "('i list, 'i list, 'i, unit, unit) web_reader" where
  "example_reader = \<lparr>WR_new = Ok,
     WR_poll_read = (\<lambda>r. case r of [] \<Rightarrow> (Poll_Ready (Ok None), []) | c # cs \<Rightarrow> (Poll_Ready (Ok (Some c)), cs)),
     WR_abort = (\<lambda>_ _. []), WR_closed = (\<lambda>_. Ok ()), WR_cancel = (\<lambda>_ w. w)\<rparr>"

definition example_writer :: "(bytes, bytes, unit, unit) web_writer" where
  "example_writer = \<lparr>WW_new = Ok, WW_poll_write = (\<lambda>bs r. (Poll_Ready (Ok ()), r @ bs)),
     WW_abort = (\<lambda>_ r. r), WW_close = (\<lambda>r. r), WW_closed = (\<lambda>_. Ok ()), WW_abort_stream = (\<lambda>_ w. w),
     WW_set_order = (\<lambda>_ w. Ok w)\<rparr>"

definition example_js :: "(unit, unit, unit) js_errors" where
  "example_js = \<lparr>JS_string = (\<lambda>_. ()), JS_transport_error = (\<lambda>_. None), JS_source = (\<lambda>_. Source_Other),
     JS_stream_error_code = (\<lambda>_. None), JS_debug = (\<lambda>_. []), JS_display = (\<lambda>_. [])\<rparr>"

fun example_drive :: "'s futures_write_all" where
  "example_drive poll 0 buf s = None"
| "example_drive poll (Suc fuel) buf s =
     (if buf = [] then Some (Ok (), s)
      else case poll buf s of
          (Poll_Pending, s) \<Rightarrow> example_drive poll fuel buf s
        | (Poll_Ready (Ok n), s) \<Rightarrow>
            if n = 0 then Some (Err \<lparr>kind = OtherKind, message = str ''write zero''\<rparr>, s)
            else example_drive poll fuel (drop n buf) s
        | (Poll_Ready (Err e), s) \<Rightarrow> Some (Err e, s)
        | (Poll_Ready Panic, s) \<Rightarrow> Some (Panic, s))"

lemma example_web_laws:
  "web_reader_laws example_reader concat" "web_writer_laws example_writer (\<lambda>r. r)" "prompt_writer example_writer"
  "drives_write_all example_drive"
  by (auto simp: web_reader_laws_def example_reader_def web_writer_laws_def example_writer_def prompt_writer_def
      drives_write_all_def split: list.splits)

subsection \<open>Properties\<close>

text \<open>
  C15. Reading in the browser loses nothing. Take any stream between polls and any number of polls
  with any limits, by whichever method and with cancellations between them. The bytes they deliver,
  in order, are the bytes that were to come, and the rest is still to come; only when a read fails
  is the rest gone. A poll delivers no more than its limit, and nothing only for the limit 0; it
  reports the end when everything is delivered, it never panics, and it delivers what the browser
  has ready.
\<close>

theorem wasm_reads_lossless:
  assumes laws: "web_reader_laws R content" and ok: "recv_ok self"
    and reads: "wasm_reads E R limits self = (xs, failed, self')"
  shows "recv_ok self' \<and> (if failed then prefix xs (undelivered content self)
      else undelivered content self = xs @ undelivered content self') \<and>
    (\<forall>limit. case fst (poll_chunk E R limit self') of
        Poll_Ready (Ok (Some bs)) \<Rightarrow> length bs \<le> limit \<and> (bs = [] \<longleftrightarrow> limit = 0)
      | Poll_Ready (Ok None) \<Rightarrow> failed \<or> xs = undelivered content self
      | Poll_Ready Panic \<Rightarrow> False
      | _ \<Rightarrow> True) \<and>
    (\<forall>limit r r' bs. 0 < limit \<and> wr_buffer self' = [] \<and> \<not> wr_eof self' \<and>
        (case wr_state self' of Reading r \<Rightarrow> Some r | Read_Idle \<Rightarrow> wr_reader self') = Some r \<and>
        WR_poll_read R r = (Poll_Ready (Ok (Some bs)), r') \<and> bs \<noteq> [] \<longrightarrow>
      fst (poll_chunk E R limit self') = Poll_Ready (Ok (Some (take limit bs))))"
proof -
  note d = wasm_reads_deliver [OF laws ok reads]
  have "case fst (poll_chunk E R limit self') of
        Poll_Ready (Ok (Some bs)) \<Rightarrow> length bs \<le> limit \<and> (bs = [] \<longleftrightarrow> limit = 0)
      | Poll_Ready (Ok None) \<Rightarrow> failed \<or> xs = undelivered content self
      | Poll_Ready Panic \<Rightarrow> False
      | _ \<Rightarrow> True" for limit
  proof -
    obtain p self2 where p: "poll_chunk E R limit self' = (p, self2)" by fastforce
    show ?thesis
      using d poll_chunk_delivers [OF laws _ p]
      by (auto simp: p poll_delivers_def split: poll.splits res.splits option.splits if_splits)
  qed
  note here = this
  show ?thesis
  proof (intro conjI allI impI)
    show "recv_ok self'" using d by blast
    show "if failed then prefix xs (undelivered content self)
        else undelivered content self = xs @ undelivered content self'" using d by blast
  qed (rule here, elim conjE, rule poll_chunk_ready, simp_all)
qed

theorem wasm_reads_lossless_witness:
  "\<exists>self'. wasm_reads example_js example_reader [2, 0, 2]
        \<lparr>wr_stream = [], wr_eof = False, wr_reader = Some [[1, 2, 3], [], [4]], wr_buffer = [], wr_state = Read_Idle\<rparr> =
      ([1, 2, 3], False, self') \<and> [1, 2, 3, 4] = [1, 2, 3] @ undelivered concat self'"
proof -
  let ?self = "\<lparr>wr_stream = [], wr_eof = False, wr_reader = Some [[1, 2, 3], [], [4]], wr_buffer = [],
      wr_state = Read_Idle\<rparr> :: (bytes list, bytes list) wasm_RecvStream"
  have ok: "recv_ok ?self" by (simp add: recv_ok_def)
  obtain self' where r: "wasm_reads example_js example_reader [2, 0, 2] ?self = ([1, 2, 3], False, self')"
    by (simp add: poll_chunk_def poll_inflight_read_def numeral_eq_Suc example_reader_def)
  have "undelivered concat ?self = [1, 2, 3] @ undelivered concat self'"
    using wasm_reads_lossless [OF example_web_laws(1) ok r] by simp
  then show ?thesis using r by (auto simp: undelivered_def)
qed

text \<open>
  C14. Writing in the browser is accounted for. Through any sequence of polls of writes, flushes and
  closes and of calls of finish, with cancellations between them, what the stream took before and
  the bytes it accepted are what its writer sent and the one write in flight. Bytes it accepted are
  missing only when an operation reported an error and closed the stream. A write accepts at most
  64 KiB, and something unless the buffer is empty; a flush, a close or a finish that succeeds has
  left nothing in flight, and none of them panics.
\<close>

theorem wasm_writes_account:
  assumes laws: "web_writer_laws W sent" and ok: "send_ok self"
    and sends: "wasm_sends E W actions self = (took, failed, self')"
  shows "send_ok self' \<and>
    (\<exists>lost. handed sent self @ took = handed sent self' @ lost \<and> (lost = [] \<or> failed \<and> ws_closed self')) \<and>
    (\<forall>buf. case fst (wasm_poll_write E W buf self') of
        Poll_Ready (Ok n) \<Rightarrow> n = min (length buf) (64 * 1024)
      | Poll_Ready Panic \<Rightarrow> False
      | _ \<Rightarrow> True) \<and>
    (case wasm_poll_flush E W self' of
        (Poll_Ready (Ok _), self2) \<Rightarrow> in_flight self2 = [] \<and> handed sent self2 = handed sent self'
      | (Poll_Ready Panic, _) \<Rightarrow> False
      | _ \<Rightarrow> True) \<and>
    (case wasm_poll_close E W self' of
        (Poll_Ready (Ok _), self2) \<Rightarrow> ws_closed self2 \<and> in_flight self2 = [] \<and> handed sent self2 = handed sent self'
      | (Poll_Ready Panic, _) \<Rightarrow> False
      | _ \<Rightarrow> True) \<and>
    (case wasm_SendStream_finish E W self' of
        (Ok _, self2) \<Rightarrow> ws_closed self2 \<and> in_flight self' = [] \<and> handed sent self2 = handed sent self'
      | (Err _, self2) \<Rightarrow> self2 = self' \<and> in_flight self' \<noteq> []
      | (Panic, _) \<Rightarrow> False)"
proof -
  note a = wasm_sends_account [OF laws ok sends]
  then have ok': "send_ok self'" by blast
  obtain p1 s1 where f: "wasm_poll_flush E W self' = (p1, s1)" by fastforce
  obtain p2 s2 where c: "wasm_poll_close E W self' = (p2, s2)" by fastforce
  obtain p3 s3 where fin: "wasm_SendStream_finish E W self' = (p3, s3)" by fastforce
  have "case fst (wasm_poll_write E W buf self') of
        Poll_Ready (Ok n) \<Rightarrow> n = min (length buf) (64 * 1024)
      | Poll_Ready Panic \<Rightarrow> False
      | _ \<Rightarrow> True" for buf
  proof -
    obtain p s where p: "wasm_poll_write E W buf self' = (p, s)" by fastforce
    show ?thesis using wasm_poll_write_cases [OF laws ok' p] by (auto simp: p split: poll.split res.split)
  qed
  moreover have "case (p1, s1) of
        (Poll_Ready (Ok _), self2) \<Rightarrow> in_flight self2 = [] \<and> handed sent self2 = handed sent self'
      | (Poll_Ready Panic, _) \<Rightarrow> False
      | _ \<Rightarrow> True"
    using wasm_poll_flush_cases [OF laws ok' f] by (auto simp: in_flight_def split: poll.split res.split)
  moreover have "case (p2, s2) of
        (Poll_Ready (Ok _), self2) \<Rightarrow> ws_closed self2 \<and> in_flight self2 = [] \<and> handed sent self2 = handed sent self'
      | (Poll_Ready Panic, _) \<Rightarrow> False
      | _ \<Rightarrow> True"
    using wasm_poll_close_cases [OF laws ok' c] by (auto simp: in_flight_def split: poll.split res.split)
  moreover have "case (p3, s3) of
        (Ok _, self2) \<Rightarrow> ws_closed self2 \<and> in_flight self' = [] \<and> handed sent self2 = handed sent self'
      | (Err _, self2) \<Rightarrow> self2 = self' \<and> in_flight self' \<noteq> []
      | (Panic, _) \<Rightarrow> False"
    using wasm_SendStream_finish_cases [OF laws ok' fin] fin ok'
    by (auto simp: wasm_SendStream_finish_def in_flight_def send_ok_def split: WriteState.splits res.splits)
  ultimately show ?thesis
    unfolding f c fin by (intro conjI allI) (use a in blast | assumption)+
qed

theorem wasm_writes_account_witness:
  "\<exists>self'. wasm_sends example_js example_writer [Op_write [1, 2], Op_finish, Op_write [3]]
        \<lparr>ws_stream = [], ws_writer = Some [], ws_state = Write_Idle, ws_closed = False\<rparr> = ([1, 2, 3], True, self') \<and>
      handed (\<lambda>r. r) self' = [1, 2, 3]"
proof -
  let ?self = "\<lparr>ws_stream = [], ws_writer = Some [], ws_state = Write_Idle, ws_closed = False\<rparr> ::
      (bytes, bytes) wasm_SendStream"
  have ok: "send_ok ?self" by (simp add: send_ok_def)
  obtain self' where r: "wasm_sends example_js example_writer [Op_write [1, 2], Op_finish, Op_write [3]] ?self =
      ([1, 2, 3], True, self')" and open': "\<not> ws_closed self'"
    by (simp add: wasm_send_op_def wasm_poll_write_def poll_inflight_write_def wasm_SendStream_finish_def
        example_writer_def min_def)
  then show ?thesis
    using wasm_writes_account [OF example_web_laws(2) ok r, THEN conjunct2, THEN conjunct1]
    by (auto simp: handed_def)
qed

text \<open>
  A whole write in the browser returns with everything sent. Over the \<^verbatim>\<open>write_all\<close> of the futures
  crate, a write that succeeds has handed the whole buffer to the browser and left nothing in flight;
  the trait's write then reports the length of the buffer. It never panics, and with a writer that
  keeps no poll waiting it returns within as many polls as there are bytes and one more.
\<close>

theorem wasm_write_returns:
  assumes drive: "drives_write_all drive" and laws: "web_writer_laws W sent" and ok: "send_ok self"
  shows "(\<forall>r self'. wasm_SendStream_write E W drive fuel buf self = Some (r, self') \<longrightarrow>
      send_ok self' \<and> r \<noteq> Panic \<and>
      (r = Ok () \<longrightarrow> in_flight self' = [] \<and> handed sent self' = handed sent self @ buf) \<and>
      wasm_Trait_write E W drive fuel buf self = Some (map_ok (\<lambda>_. length buf) r, self')) \<and>
    (prompt_writer W \<and> length buf < fuel \<longrightarrow> wasm_SendStream_write E W drive fuel buf self \<noteq> None)"
proof (intro conjI allI impI)
  fix r self'
  assume w: "wasm_SendStream_write E W drive fuel buf self = Some (r, self')"
  note d = wasm_write_delivers [OF drive laws ok w]
  then show "send_ok self'" "r \<noteq> Panic" by blast+
  show "in_flight self' = []" "handed sent self' = handed sent self @ buf" if "r = Ok ()" using d that by blast+
  show "wasm_Trait_write E W drive fuel buf self = Some (map_ok (\<lambda>_. length buf) r, self')"
    using w by (simp add: wasm_Trait_write_def)
next
  assume p: "prompt_writer W \<and> length buf < fuel"
  then obtain r self1 where d: "drive (wasm_poll_write E W) fuel buf self = Some (r, self1)"
    using drive_returns [OF drive laws _ ok] by blast
  obtain n where n: "fuel = Suc n" using p by (cases fuel) auto
  have np: "fst (wasm_poll_flush E W self1) \<noteq> Poll_Pending" using prompt_polls(2) p by blast
  then obtain x self2 where "wasm_poll_flush E W self1 = (Poll_Ready x, self2)"
    by (metis poll.exhaust prod.collapse)
  then show "wasm_SendStream_write E W drive fuel buf self \<noteq> None"
    using d n by (cases r) (auto simp: wasm_SendStream_write_def)
qed

theorem wasm_write_returns_witness:
  "\<exists>r self'. wasm_SendStream_write example_js example_writer example_drive 3 [7, 8]
      \<lparr>ws_stream = [], ws_writer = Some [], ws_state = Write_Idle, ws_closed = False\<rparr> = Some (r, self') \<and> r \<noteq> Panic"
proof -
  let ?self = "\<lparr>ws_stream = [], ws_writer = Some [], ws_state = Write_Idle, ws_closed = False\<rparr> ::
      (bytes, bytes) wasm_SendStream"
  have ok: "send_ok ?self" by (simp add: send_ok_def)
  note w = wasm_write_returns [OF example_web_laws(4,2) ok, of example_js 3 "[7, 8]"]
  then have "wasm_SendStream_write example_js example_writer example_drive 3 [7, 8] ?self \<noteq> None"
    using example_web_laws(3) by simp
  then show ?thesis using w by (metis not_Some_eq surj_pair)
qed

end
