(* ===== verification/Wasm_Session.thy ===== *)
theory Wasm_Session
  imports Wasm_Streams
begin

section \<open>Sessions in the browser\<close>

text \<open>
  \<^verbatim>\<open>webtrans-wasm/src/session.rs\<close> and \<^verbatim>\<open>client.rs\<close>. The browser runs the protocol; a session wraps its
  WebTransport object. Clones of a session share one reader per incoming queue, behind a lock, and a
  read that a cancelled caller began is resumed by the next one. The lemmas show that callers get
  every stream and datagram of a queue once, in order, and the end of the session as the error that
  the browser reports.
\<close>

subsection \<open>The browser's objects\<close>

datatype WebTransportCongestionControl = WCC_Default | WCC_Throughput | WCC_LowLatency

record WebTransportCloseInfo =
  close_code_of :: "u32 option"
  close_reason_of :: "bytes option"

text \<open>
  A WebTransport object in state \<open>'q\<close>, its options \<open>'o\<close> and hashes \<open>'k\<close>. Streams are \<open>'w\<close>, a
  bidirectional one has a writable and a readable end. The three incoming queues and the datagram
  sink are streams as well, over which \<^verbatim>\<open>web_streams\<close> makes readers and writers. \<open>WT_closed\<close> is the
  awaited \<^verbatim>\<open>closed\<close>.
\<close>

record ('q, 'w, 'b, 'qs, 'j, 'o, 'k) web_transport =
  WT_new :: "bytes \<Rightarrow> 'o \<Rightarrow> ('q, 'j) res"
  WT_ready :: "'q \<Rightarrow> (unit, 'j) res \<times> 'q"
  WT_incoming_uni :: "'q \<Rightarrow> 'qs"
  WT_incoming_bi :: "'q \<Rightarrow> 'qs"
  WT_datagrams_readable :: "'q \<Rightarrow> 'qs"
  WT_datagrams_writable :: "'q \<Rightarrow> 'qs"
  WT_max_datagram_size :: "'q \<Rightarrow> u32"
  WT_create_uni :: "'q \<Rightarrow> ('w, 'j) res \<times> 'q"
  WT_create_bi :: "'q \<Rightarrow> ('b, 'j) res \<times> 'q"
  WT_writable :: "'b \<Rightarrow> 'w"
  WT_readable :: "'b \<Rightarrow> 'w"
  WT_close :: "WebTransportCloseInfo \<Rightarrow> 'q \<Rightarrow> 'q"
  WT_closed :: "'q \<Rightarrow> (WebTransportCloseInfo, 'j) res"
  WT_set_allow_pooling :: "bool \<Rightarrow> 'o \<Rightarrow> 'o"
  WT_set_require_unreliable :: "bool \<Rightarrow> 'o \<Rightarrow> 'o"
  WT_set_congestion_control :: "WebTransportCongestionControl \<Rightarrow> 'o \<Rightarrow> 'o"
  WT_hash :: "bytes \<Rightarrow> bytes \<Rightarrow> 'k"
  WT_set_server_certificate_hashes :: "'k list \<Rightarrow> 'o \<Rightarrow> 'o"

subsection \<open>The session\<close>

text \<open>The states of the readers and the writer are those behind the locks.\<close>

record ('q, 'u, 'ru, 'rb, 'rd, 'wd) wasm_Session =
  session_inner :: 'q
  wasm_url :: 'u
  incoming_uni :: 'ru
  incoming_bi :: 'rb
  datagram_reader :: 'rd
  datagram_writer :: 'wd

text \<open>One poll of \<^verbatim>\<open>SharedReader::read\<close> by the caller that holds the lock.\<close>

definition SharedReader_read :: "('qs, 'r, 'i, 'j, 'ws) web_reader \<Rightarrow> 'r \<Rightarrow> ('i option, 'ws) res poll \<times> 'r" where
  "SharedReader_read R reader = WR_poll_read R reader"

definition wasm_Session_new :: "('q, 'w, 'b, 'qs, 'j, 'o, 'k) web_transport \<Rightarrow> ('qs, 'ru, 'w, 'j, 'ws) web_reader \<Rightarrow>
    ('qs, 'rb, 'b, 'j, 'ws) web_reader \<Rightarrow> ('qs, 'rd, bytes, 'j, 'ws) web_reader \<Rightarrow>
    ('qs, 'wd, 'j, 'ws) web_writer \<Rightarrow> 'q \<Rightarrow> 'u \<Rightarrow>
    (('q, 'u, 'ru, 'rb, 'rd, 'wd) wasm_Session, ('j, 't, 'ws) wasm_Error) res" where
  "wasm_Session_new T RU RB RD WD inner url =
     and_then (map_err WE_Streams (WR_new RU (WT_incoming_uni T inner))) (\<lambda>uni.
     and_then (map_err WE_Streams (WR_new RB (WT_incoming_bi T inner))) (\<lambda>bi.
     and_then (map_err WE_Streams (WR_new RD (WT_datagrams_readable T inner))) (\<lambda>reader.
     and_then (map_err WE_Streams (WW_new WD (WT_datagrams_writable T inner))) (\<lambda>writer.
       Ok \<lparr>session_inner = inner, wasm_url = url, incoming_uni = uni, incoming_bi = bi,
           datagram_reader = reader, datagram_writer = writer\<rparr>))))"

definition wasm_Session_closed :: "('j, 't, 'ws) js_errors \<Rightarrow> ('q, 'w, 'b, 'qs, 'j, 'o, 'k) web_transport \<Rightarrow>
    ('q, 'u, 'ru, 'rb, 'rd, 'wd) wasm_Session \<Rightarrow> (('j, 't, 'ws) wasm_Error, 'e) res" where
  "wasm_Session_closed E T self =
     (case WT_closed T (session_inner self) of
        Ok info \<Rightarrow> Ok (WE_SessionClosed
          (case close_code_of info of Some code \<Rightarrow> code | None \<Rightarrow> 0)
          (case close_reason_of info of Some why \<Rightarrow> why | None \<Rightarrow> []))
      | Err v \<Rightarrow> Ok (wasm_Error_from_js E v)
      | Panic \<Rightarrow> Panic)"

text \<open>What every accepting or receiving method makes of a read of its queue.\<close>

definition take_item :: "('j, 't, 'ws) js_errors \<Rightarrow> ('q, 'w, 'b, 'qs, 'j, 'o, 'k) web_transport \<Rightarrow>
    ('i \<Rightarrow> ('a, ('j, 't, 'ws) wasm_Error) res) \<Rightarrow> ('i option, 'ws) res \<Rightarrow>
    ('q, 'u, 'ru, 'rb, 'rd, 'wd) wasm_Session \<Rightarrow> ('a, ('j, 't, 'ws) wasm_Error) res" where
  "take_item E T f r self =
     and_then (map_err WE_Streams r) (\<lambda>item.
       case item of
         Some stream \<Rightarrow> f stream
       | None \<Rightarrow> and_then (wasm_Session_closed E T self) Err)"

definition wasm_Session_accept_uni :: "('j, 't, 'ws) js_errors \<Rightarrow> ('q, 'w, 'b, 'qs, 'j, 'o, 'k) web_transport \<Rightarrow>
    ('qs, 'ru, 'w, 'j, 'ws) web_reader \<Rightarrow> ('w, 'r, bytes, 'j, 'ws) web_reader \<Rightarrow>
    ('q, 'u, 'ru, 'rb, 'rd, 'wd) wasm_Session \<Rightarrow>
    (('w, 'r) wasm_RecvStream, ('j, 't, 'ws) wasm_Error) res poll \<times> ('q, 'u, 'ru, 'rb, 'rd, 'wd) wasm_Session" where
  "wasm_Session_accept_uni E T RU R self =
     (case SharedReader_read RU (incoming_uni self) of
        (Poll_Pending, reader) \<Rightarrow> (Poll_Pending, self\<lparr>incoming_uni := reader\<rparr>)
      | (Poll_Ready r, reader) \<Rightarrow>
          (Poll_Ready (take_item E T (wasm_RecvStream_new R) r self), self\<lparr>incoming_uni := reader\<rparr>))"

definition both_ends :: "('q, 'w, 'b, 'qs, 'j, 'o, 'k) web_transport \<Rightarrow> ('w, 'r, bytes, 'j, 'ws) web_reader \<Rightarrow>
    ('w, 's, 'j, 'ws) web_writer \<Rightarrow> 'b \<Rightarrow>
    (('w, 's) wasm_SendStream \<times> ('w, 'r) wasm_RecvStream, ('j, 't, 'ws) wasm_Error) res" where
  "both_ends T R W stream =
     and_then (wasm_SendStream_new W (WT_writable T stream)) (\<lambda>send.
     and_then (wasm_RecvStream_new R (WT_readable T stream)) (\<lambda>recv.
       Ok (send, recv)))"

definition wasm_Session_accept_bi :: "('j, 't, 'ws) js_errors \<Rightarrow> ('q, 'w, 'b, 'qs, 'j, 'o, 'k) web_transport \<Rightarrow>
    ('qs, 'rb, 'b, 'j, 'ws) web_reader \<Rightarrow> ('w, 'r, bytes, 'j, 'ws) web_reader \<Rightarrow> ('w, 's, 'j, 'ws) web_writer \<Rightarrow>
    ('q, 'u, 'ru, 'rb, 'rd, 'wd) wasm_Session \<Rightarrow>
    (('w, 's) wasm_SendStream \<times> ('w, 'r) wasm_RecvStream, ('j, 't, 'ws) wasm_Error) res poll \<times>
      ('q, 'u, 'ru, 'rb, 'rd, 'wd) wasm_Session" where
  "wasm_Session_accept_bi E T RB R W self =
     (case SharedReader_read RB (incoming_bi self) of
        (Poll_Pending, reader) \<Rightarrow> (Poll_Pending, self\<lparr>incoming_bi := reader\<rparr>)
      | (Poll_Ready r, reader) \<Rightarrow>
          (Poll_Ready (take_item E T (both_ends T R W) r self), self\<lparr>incoming_bi := reader\<rparr>))"

definition wasm_Session_open_bi :: "('j, 't, 'ws) js_errors \<Rightarrow> ('q, 'w, 'b, 'qs, 'j, 'o, 'k) web_transport \<Rightarrow>
    ('w, 'r, bytes, 'j, 'ws) web_reader \<Rightarrow> ('w, 's, 'j, 'ws) web_writer \<Rightarrow>
    ('q, 'u, 'ru, 'rb, 'rd, 'wd) wasm_Session \<Rightarrow>
    (('w, 's) wasm_SendStream \<times> ('w, 'r) wasm_RecvStream, ('j, 't, 'ws) wasm_Error) res \<times>
      ('q, 'u, 'ru, 'rb, 'rd, 'wd) wasm_Session" where
  "wasm_Session_open_bi E T R W self =
     (case WT_create_bi T (session_inner self) of
        (r, inner) \<Rightarrow>
          (and_then (map_err (wasm_Error_from_js E) r) (both_ends T R W), self\<lparr>session_inner := inner\<rparr>))"

definition wasm_Session_open_uni :: "('j, 't, 'ws) js_errors \<Rightarrow> ('q, 'w, 'b, 'qs, 'j, 'o, 'k) web_transport \<Rightarrow>
    ('w, 's, 'j, 'ws) web_writer \<Rightarrow> ('q, 'u, 'ru, 'rb, 'rd, 'wd) wasm_Session \<Rightarrow>
    (('w, 's) wasm_SendStream, ('j, 't, 'ws) wasm_Error) res \<times> ('q, 'u, 'ru, 'rb, 'rd, 'wd) wasm_Session" where
  "wasm_Session_open_uni E T W self =
     (case WT_create_uni T (session_inner self) of
        (r, inner) \<Rightarrow>
          (and_then (map_err (wasm_Error_from_js E) r) (wasm_SendStream_new W), self\<lparr>session_inner := inner\<rparr>))"

text \<open>One poll of the write of a datagram by the caller that holds the lock.\<close>

definition wasm_Session_send_datagram :: "('qs, 'wd, 'j, 'ws) web_writer \<Rightarrow> bytes \<Rightarrow>
    ('q, 'u, 'ru, 'rb, 'rd, 'wd) wasm_Session \<Rightarrow>
    (unit, ('j, 't, 'ws) wasm_Error) res poll \<times> ('q, 'u, 'ru, 'rb, 'rd, 'wd) wasm_Session" where
  "wasm_Session_send_datagram WD payload self =
     (case WW_poll_write WD payload (datagram_writer self) of
        (Poll_Pending, writer) \<Rightarrow> (Poll_Pending, self\<lparr>datagram_writer := writer\<rparr>)
      | (Poll_Ready r, writer) \<Rightarrow> (Poll_Ready (map_err WE_Streams r), self\<lparr>datagram_writer := writer\<rparr>))"

definition wasm_Session_recv_datagram :: "('j, 't, 'ws) js_errors \<Rightarrow> ('q, 'w, 'b, 'qs, 'j, 'o, 'k) web_transport \<Rightarrow>
    ('qs, 'rd, bytes, 'j, 'ws) web_reader \<Rightarrow> ('q, 'u, 'ru, 'rb, 'rd, 'wd) wasm_Session \<Rightarrow>
    (bytes, ('j, 't, 'ws) wasm_Error) res poll \<times> ('q, 'u, 'ru, 'rb, 'rd, 'wd) wasm_Session" where
  "wasm_Session_recv_datagram E T RD self =
     (case SharedReader_read RD (datagram_reader self) of
        (Poll_Pending, reader) \<Rightarrow> (Poll_Pending, self\<lparr>datagram_reader := reader\<rparr>)
      | (Poll_Ready r, reader) \<Rightarrow> (Poll_Ready (take_item E T Ok r self), self\<lparr>datagram_reader := reader\<rparr>))"

definition wasm_Session_close :: "('q, 'w, 'b, 'qs, 'j, 'o, 'k) web_transport \<Rightarrow> u32 \<Rightarrow> bytes \<Rightarrow>
    ('q, 'u, 'ru, 'rb, 'rd, 'wd) wasm_Session \<Rightarrow> ('q, 'u, 'ru, 'rb, 'rd, 'wd) wasm_Session" where
  "wasm_Session_close T code why self =
     (let info = \<lparr>close_code_of = Some code, close_reason_of = Some why\<rparr>
      in self\<lparr>session_inner := WT_close T info (session_inner self)\<rparr>)"

definition wasm_Session_max_datagram_size :: "('q, 'w, 'b, 'qs, 'j, 'o, 'k) web_transport \<Rightarrow>
    ('q, 'u, 'ru, 'rb, 'rd, 'wd) wasm_Session \<Rightarrow> nat" where
  "wasm_Session_max_datagram_size T self = unat (WT_max_datagram_size T (session_inner self))"

definition wasm_Session_eq :: "('q, 'u, 'ru, 'rb, 'rd, 'wd) wasm_Session \<Rightarrow>
    ('q, 'u, 'ru, 'rb, 'rd, 'wd) wasm_Session \<Rightarrow> bool" where
  "wasm_Session_eq self other \<longleftrightarrow> session_inner self = session_inner other"

subsection \<open>The client\<close>

record 'o wasm_ClientBuilder =
  builder_options :: 'o

record 'o wasm_Client =
  client_options :: 'o

definition wasm_with_pooling :: "('q, 'w, 'b, 'qs, 'j, 'o, 'k) web_transport \<Rightarrow> bool \<Rightarrow>
    'o wasm_ClientBuilder \<Rightarrow> 'o wasm_ClientBuilder" where
  "wasm_with_pooling T v self = self\<lparr>builder_options := WT_set_allow_pooling T v (builder_options self)\<rparr>"

definition wasm_with_unreliable :: "('q, 'w, 'b, 'qs, 'j, 'o, 'k) web_transport \<Rightarrow> bool \<Rightarrow>
    'o wasm_ClientBuilder \<Rightarrow> 'o wasm_ClientBuilder" where
  "wasm_with_unreliable T v self = self\<lparr>builder_options := WT_set_require_unreliable T v (builder_options self)\<rparr>"

definition wasm_with_congestion_control :: "('q, 'w, 'b, 'qs, 'j, 'o, 'k) web_transport \<Rightarrow>
    WebTransportCongestionControl \<Rightarrow> 'o wasm_ClientBuilder \<Rightarrow> 'o wasm_ClientBuilder" where
  "wasm_with_congestion_control T control self =
     self\<lparr>builder_options := WT_set_congestion_control T control (builder_options self)\<rparr>"

definition wasm_with_server_certificate_hashes :: "('q, 'w, 'b, 'qs, 'j, 'o, 'k) web_transport \<Rightarrow> bytes list \<Rightarrow>
    'o wasm_ClientBuilder \<Rightarrow> 'o wasm_Client" where
  "wasm_with_server_certificate_hashes T hashes self =
     (let hashes = map (\<lambda>hash. WT_hash T (str ''sha-256'') hash) hashes
      in \<lparr>client_options = WT_set_server_certificate_hashes T hashes (builder_options self)\<rparr>)"

definition wasm_with_system_roots :: "'o wasm_ClientBuilder \<Rightarrow> 'o wasm_Client" where
  "wasm_with_system_roots self = \<lparr>client_options = builder_options self\<rparr>"

text \<open>\<open>as_str\<close> is the text of a URL.\<close>

definition wasm_Client_connect :: "('j, 't, 'ws) js_errors \<Rightarrow> ('u \<Rightarrow> bytes) \<Rightarrow>
    ('q, 'w, 'b, 'qs, 'j, 'o, 'k) web_transport \<Rightarrow> ('qs, 'ru, 'w, 'j, 'ws) web_reader \<Rightarrow>
    ('qs, 'rb, 'b, 'j, 'ws) web_reader \<Rightarrow> ('qs, 'rd, bytes, 'j, 'ws) web_reader \<Rightarrow>
    ('qs, 'wd, 'j, 'ws) web_writer \<Rightarrow> 'o wasm_Client \<Rightarrow> 'u \<Rightarrow>
    (('q, 'u, 'ru, 'rb, 'rd, 'wd) wasm_Session, ('j, 't, 'ws) wasm_Error) res" where
  "wasm_Client_connect E as_str T RU RB RD WD self url =
     and_then (map_err (wasm_Error_from_js E) (WT_new T (as_str url) (client_options self))) (\<lambda>inner.
       case WT_ready T inner of
         (r, inner) \<Rightarrow> and_then (map_err (wasm_Error_from_js E) r) (\<lambda>_. wasm_Session_new T RU RB RD WD inner url))"

subsection \<open>Queues\<close>

text \<open>
  What the code relies on in the reader of a queue: \<open>items r\<close> are those that it still yields, in this order, and
  \<open>failure r\<close> is the error with which the stream fails behind them, if it does not just end. A read
  that is pending changes neither, one that is ready takes the next item, and where
  there is none it tells the end, now and from then on.
\<close>

definition web_queue_laws :: "('qs, 'r, 'i, 'j, 'ws) web_reader \<Rightarrow> ('r \<Rightarrow> 'i list) \<Rightarrow> ('r \<Rightarrow> 'ws option) \<Rightarrow> bool" where
  "web_queue_laws R items failure \<longleftrightarrow>
     (\<forall>r. case WR_poll_read R r of
        (Poll_Pending, r') \<Rightarrow> items r' = items r \<and> failure r' = failure r
      | (Poll_Ready (Ok (Some i)), r') \<Rightarrow> items r = i # items r' \<and> failure r' = failure r
      | (Poll_Ready (Ok None), r') \<Rightarrow> items r = [] \<and> items r' = [] \<and> failure r = None \<and> failure r' = None
      | (Poll_Ready (Err e), r') \<Rightarrow> items r = [] \<and> items r' = [] \<and> failure r = Some e \<and> failure r' = Some e
      | (Poll_Ready Panic, _) \<Rightarrow> False)"

text \<open>The results of polls by any callers, cancelled ones included.\<close>

fun wasm_takes :: "nat \<Rightarrow> ('s \<Rightarrow> ('a, 'e) res poll \<times> 's) \<Rightarrow> 's \<Rightarrow> ('a, 'e) res list \<times> 's" where
  "wasm_takes 0 poll s = ([], s)"
| "wasm_takes (Suc n) poll s =
     (case poll s of
        (Poll_Pending, s) \<Rightarrow> wasm_takes n poll s
      | (Poll_Ready r, s) \<Rightarrow> apfst (\<lambda>rs. r # rs) (wasm_takes n poll s))"

text \<open>
  A queue of the session: where its reader is kept. Its client polls the reader and turns an item
  into its result by \<open>f\<close>, the end or a failure into an error.
\<close>

locale session_queue =
  fixes reader_of :: "'s \<Rightarrow> 'r" and put_reader :: "'r \<Rightarrow> 's \<Rightarrow> 's"
  assumes reader_of_put: "reader_of (put_reader r s) = r"
begin

lemma in_order:
  fixes R :: "('qs, 'r, 'i, 'j, 'ws) web_reader" and f :: "'i \<Rightarrow> ('a, 'e) res"
  assumes laws: "web_queue_laws R items failure"
    and poll: "\<And>s. poll s = (case SharedReader_read R (reader_of s) of
        (Poll_Pending, r) \<Rightarrow> (Poll_Pending, put_reader r s)
      | (Poll_Ready x, r) \<Rightarrow> (Poll_Ready (g x s), put_reader r s))"
    and item: "\<And>i s. g (Ok (Some i)) s = f i"
    and same: "\<And>x r s. g x (put_reader r s) = g x s"
    and takes: "wasm_takes n poll s = (rs, s')"
  shows "\<exists>taken k. rs = map f taken @ replicate k (g (case failure (reader_of s) of None \<Rightarrow> Ok None | Some e \<Rightarrow> Err e) s) \<and>
    items (reader_of s) = taken @ items (reader_of s') \<and> (0 < k \<longrightarrow> items (reader_of s') = [])"
  using takes
proof (induction n arbitrary: s rs)
  case (Suc n)
  obtain x r where x: "WR_poll_read R (reader_of s) = (x, r)" by fastforce
  have kept: "reader_of (put_reader r s) = r" by (rule reader_of_put)
  note ps = poll [of s, unfolded SharedReader_read_def x]
  note law = laws [unfolded web_queue_laws_def, THEN spec, of "reader_of s", unfolded x]
  let ?last = "g (case failure (reader_of s) of None \<Rightarrow> Ok None | Some e \<Rightarrow> Err e) s"
  show ?case
  proof (cases x)
    case Poll_Pending
    then have t: "wasm_takes n poll (put_reader r s) = (rs, s')" using Suc.prems ps by simp
    show ?thesis using Suc.IH [OF t] law Poll_Pending by (simp add: kept same)
  next
    case (Poll_Ready y)
    obtain rs1 where r1: "wasm_takes n poll (put_reader r s) = (rs1, s')" "rs = g y s # rs1"
      using Suc.prems ps Poll_Ready by (cases "wasm_takes n poll (put_reader r s)") simp
    note ih = Suc.IH [OF r1(1), unfolded kept same]
    show ?thesis
    proof (cases "\<exists>i. y = Ok (Some i)")
      case True
      then obtain i where i: "y = Ok (Some i)" by blast
      then have "items (reader_of s) = i # items r" "failure r = failure (reader_of s)" using law Poll_Ready by simp_all
      then obtain taken k where t: "rs1 = map f taken @ replicate k ?last" "items r = taken @ items (reader_of s')"
          "0 < k \<longrightarrow> items (reader_of s') = []" using ih by auto
      have "rs = map f (i # taken) @ replicate k ?last" using r1(2) t(1) i item by simp
      moreover have "items (reader_of s) = (i # taken) @ items (reader_of s')"
        using \<open>items (reader_of s) = i # items r\<close> t(2) by simp
      ultimately show ?thesis using t(3) by blast
    next
      case False
      then have over: "items (reader_of s) = []" "items r = []" "failure r = failure (reader_of s)" "g y s = ?last"
        using law Poll_Ready by (cases y; auto split: option.splits)+
      from ih over(2,3) obtain k where k: "rs1 = replicate k ?last" "items (reader_of s') = []" by auto
      then have "rs = replicate (Suc k) ?last" using r1(2) over(4) by simp
      then show ?thesis using over(1) k(2) by (intro exI [of _ "[]"] exI [of _ "Suc k"]) simp
    qed
  qed
qed simp

text \<open>A poll is pending only while the queue is.\<close>

lemma pending_iff:
  assumes "\<And>s. poll s = (case SharedReader_read R (reader_of s) of
        (Poll_Pending, r) \<Rightarrow> (Poll_Pending, put_reader r s)
      | (Poll_Ready x, r) \<Rightarrow> (Poll_Ready (g x s), put_reader r s))"
  shows "fst (poll s) = Poll_Pending \<longleftrightarrow> fst (WR_poll_read R (reader_of s)) = Poll_Pending"
  unfolding assms SharedReader_read_def by (auto split: prod.split poll.split)

end

interpretation uni_queue: session_queue incoming_uni "\<lambda>r s. s\<lparr>incoming_uni := r\<rparr>"
  by unfold_locales simp

interpretation bi_queue: session_queue incoming_bi "\<lambda>r s. s\<lparr>incoming_bi := r\<rparr>"
  by unfold_locales simp

interpretation datagram_queue: session_queue datagram_reader "\<lambda>r s. s\<lparr>datagram_reader := r\<rparr>"
  by unfold_locales simp

lemma take_item_item: "take_item E T f (Ok (Some i)) self = f i"
  by (simp add: take_item_def)

lemma wasm_closed_same:
  "wasm_Session_closed E T (self\<lparr>incoming_uni := ru\<rparr>) = wasm_Session_closed E T self"
  "wasm_Session_closed E T (self\<lparr>incoming_bi := rb\<rparr>) = wasm_Session_closed E T self"
  "wasm_Session_closed E T (self\<lparr>datagram_reader := rd\<rparr>) = wasm_Session_closed E T self"
  by (simp_all add: wasm_Session_closed_def)

lemma take_item_same:
  "take_item E T f x (self\<lparr>incoming_uni := ru\<rparr>) = take_item E T f x self"
  "take_item E T f x (self\<lparr>incoming_bi := rb\<rparr>) = take_item E T f x self"
  "take_item E T f x (self\<lparr>datagram_reader := rd\<rparr>) = take_item E T f x self"
  by (simp_all only: take_item_def wasm_closed_same)

text \<open>A transport of which nothing but its end is used.\<close>

definition example_transport :: "(unit, bytes, bytes, bytes list, unit, unit, unit) web_transport" where
  "example_transport = \<lparr>WT_new = (\<lambda>_ _. Ok ()), WT_ready = (\<lambda>q. (Ok (), q)), WT_incoming_uni = (\<lambda>_. []),
     WT_incoming_bi = (\<lambda>_. []), WT_datagrams_readable = (\<lambda>_. []), WT_datagrams_writable = (\<lambda>_. []),
     WT_max_datagram_size = (\<lambda>_. 1200), WT_create_uni = (\<lambda>q. (Ok [], q)), WT_create_bi = (\<lambda>q. (Ok [], q)),
     WT_writable = (\<lambda>b. b), WT_readable = (\<lambda>b. b), WT_close = (\<lambda>_ q. q),
     WT_closed = (\<lambda>_. Ok \<lparr>close_code_of = Some 7, close_reason_of = Some []\<rparr>), WT_set_allow_pooling = (\<lambda>_ o'. o'),
     WT_set_require_unreliable = (\<lambda>_ o'. o'), WT_set_congestion_control = (\<lambda>_ o'. o'),
     WT_hash = (\<lambda>_ _. ()), WT_set_server_certificate_hashes = (\<lambda>_ o'. o')\<rparr>"

lemma example_queue_laws: "web_queue_laws example_reader (\<lambda>r. r) (\<lambda>_. None)"
  by (auto simp: web_queue_laws_def example_reader_def split: list.splits)

subsection \<open>Properties\<close>

text \<open>
  What a caller gets of a queue that is over: the error of the stream, or why the session was closed.
\<close>

definition queue_over :: "('j, 't, 'ws) js_errors \<Rightarrow> (WebTransportCloseInfo, 'j) res \<Rightarrow> 'ws option \<Rightarrow>
    ('a, ('j, 't, 'ws) wasm_Error) res" where
  "queue_over E closed failure =
     (case failure of
        Some e \<Rightarrow> Err (WE_Streams e)
      | None \<Rightarrow>
          (case closed of
             Ok info \<Rightarrow> Err (WE_SessionClosed (case close_code_of info of Some code \<Rightarrow> code | None \<Rightarrow> 0)
               (case close_reason_of info of Some why \<Rightarrow> why | None \<Rightarrow> []))
           | Err v \<Rightarrow> Err (wasm_Error_from_js E v)
           | Panic \<Rightarrow> Panic))"

lemma take_item_queue_over:
  "take_item E T f (case failure of None \<Rightarrow> Ok None | Some e \<Rightarrow> Err e) self = queue_over E (WT_closed T (session_inner self)) failure"
  by (cases failure; cases "WT_closed T (session_inner self)")
    (simp_all add: take_item_def queue_over_def wasm_Session_closed_def)

text \<open>
  Results \<open>rs\<close> of polls of a queue that held \<open>before\<close> and holds \<open>after\<close>: those of the items that left it, in
  order, and only when none is left, the same \<open>over\<close> any number of times.
\<close>

definition delivers_in_order :: "('i \<Rightarrow> ('a, 'e) res) \<Rightarrow> ('a, 'e) res \<Rightarrow> 'i list \<Rightarrow> ('a, 'e) res list \<Rightarrow> 'i list \<Rightarrow> bool" where
  "delivers_in_order f over before rs after \<longleftrightarrow>
     (\<exists>taken k. rs = map f taken @ replicate k over \<and> before = taken @ after \<and> (0 < k \<longrightarrow> after = []))"

text \<open>
  C36. The queues of a session in the browser lose and repeat nothing. Whatever the order in which
  clones of a session poll, and whichever polls are cancelled, every item that leaves an incoming queue
  is delivered once and in order: streams wrapped as the crate's, with both ends of a bidirectional one
  in their places and nothing read yet, and datagrams as they are. A poll is pending only while the
  browser's read is. Errors follow when the queue is empty, on all three queues alike: always the error of a
  stream that failed, and otherwise what the browser tells of the end of the session; after a
  close that is its code and reason, 0 and nothing where they are missing, and these are what the
  trait's \<^verbatim>\<open>session_error\<close> gives.
\<close>

theorem wasm_session_queues:
  fixes E :: "('j, 't, 'ws) js_errors" and T :: "('q, 'w, 'b, 'qs, 'j, 'o, 'k) web_transport"
    and RU :: "('qs, 'ru, 'w, 'j, 'ws) web_reader" and RB :: "('qs, 'rb, 'b, 'j, 'ws) web_reader"
    and RD :: "('qs, 'rd, bytes, 'j, 'ws) web_reader" and self :: "('q, 'u, 'ru, 'rb, 'rd, 'wd) wasm_Session"
    and R :: "('w, 'r, bytes, 'j, 'ws) web_reader" and W :: "('w, 's, 'j, 'ws) web_writer"
  assumes laws: "web_queue_laws RU uni uni_failure" "web_queue_laws RB bi bi_failure"
      "web_queue_laws RD datagrams datagrams_failure"
  shows "(\<forall>n rs self'. wasm_takes n (wasm_Session_accept_uni E T RU R) self = (rs, self') \<longrightarrow>
      delivers_in_order (wasm_RecvStream_new R) (queue_over E (WT_closed T (session_inner self)) (uni_failure (incoming_uni self)))
        (uni (incoming_uni self)) rs (uni (incoming_uni self'))) \<and>
    (\<forall>n rs self'. wasm_takes n (wasm_Session_accept_bi E T RB R W) self = (rs, self') \<longrightarrow>
      delivers_in_order (both_ends T R W) (queue_over E (WT_closed T (session_inner self)) (bi_failure (incoming_bi self)))
        (bi (incoming_bi self)) rs (bi (incoming_bi self'))) \<and>
    (\<forall>n rs self'. wasm_takes n (wasm_Session_recv_datagram E T RD) self = (rs, self') \<longrightarrow>
      delivers_in_order Ok (queue_over E (WT_closed T (session_inner self)) (datagrams_failure (datagram_reader self)))
        (datagrams (datagram_reader self)) rs (datagrams (datagram_reader self'))) \<and>
    (fst (wasm_Session_accept_uni E T RU R self) = Poll_Pending \<longleftrightarrow> fst (WR_poll_read RU (incoming_uni self)) = Poll_Pending) \<and>
    (fst (wasm_Session_accept_bi E T RB R W self) = Poll_Pending \<longleftrightarrow> fst (WR_poll_read RB (incoming_bi self)) = Poll_Pending) \<and>
    (fst (wasm_Session_recv_datagram E T RD self) = Poll_Pending \<longleftrightarrow>
      fst (WR_poll_read RD (datagram_reader self)) = Poll_Pending) \<and>
    (\<forall>stream recv. wasm_RecvStream_new R stream = (Ok recv :: (_, ('j, 't, 'ws) wasm_Error) res) \<longrightarrow>
      wr_stream recv = stream \<and> wr_buffer recv = [] \<and> \<not> wr_eof recv) \<and>
    (\<forall>stream send recv. both_ends T R W stream = (Ok (send, recv) :: (_, ('j, 't, 'ws) wasm_Error) res) \<longrightarrow>
      ws_stream send = WT_writable T stream \<and>
      wr_stream recv = WT_readable T stream \<and> wr_buffer recv = [] \<and> \<not> wr_eof recv) \<and>
    (\<forall>code why. wasm_Error_session_error E (WE_SessionClosed code why) = Some (code, why))"
proof -
  note over = take_item_queue_over [where E = E and T = T and self = self]
  note uni = uni_queue.in_order [OF laws(1) wasm_Session_accept_uni_def [of E T RU R]
    take_item_item [of E T "wasm_RecvStream_new R"] take_item_same(1) [of E T "wasm_RecvStream_new R"], where s = self, unfolded over]
  note bi = bi_queue.in_order [OF laws(2) wasm_Session_accept_bi_def [of E T RB R W]
    take_item_item [of E T "both_ends T R W"] take_item_same(2) [of E T "both_ends T R W"], where s = self, unfolded over]
  note datagram = datagram_queue.in_order [OF laws(3) wasm_Session_recv_datagram_def [of E T RD]
    take_item_item [of E T Ok] take_item_same(3) [of E T Ok], where s = self, unfolded over]
  have wrapped: "wasm_RecvStream_new R stream = (Ok recv :: (_, ('j, 't, 'ws) wasm_Error) res) \<Longrightarrow>
      wr_stream recv = stream \<and> wr_buffer recv = [] \<and> \<not> wr_eof recv"
    "both_ends T R W b = (Ok (send, recv) :: (_, ('j, 't, 'ws) wasm_Error) res) \<Longrightarrow>
      ws_stream send = WT_writable T b \<and> wr_stream recv = WT_readable T b \<and> wr_buffer recv = [] \<and> \<not> wr_eof recv"
    for stream b send recv
    by (auto simp: wasm_RecvStream_new_def both_ends_def wasm_SendStream_new_def and_then_Ok_iff)
  show ?thesis
    unfolding delivers_in_order_def
    using uni bi datagram wrapped uni_queue.pending_iff [OF wasm_Session_accept_uni_def [of E T RU R], where s = self]
      bi_queue.pending_iff [OF wasm_Session_accept_bi_def [of E T RB R W], where s = self]
      datagram_queue.pending_iff [OF wasm_Session_recv_datagram_def [of E T RD], where s = self]
    by (simp add: wasm_Error_session_error_def)
qed

theorem wasm_session_queues_witness:
  "delivers_in_order Ok (Err (WE_SessionClosed 7 [])) [[1], [2]]
    (fst (wasm_takes 3 (wasm_Session_recv_datagram example_js example_transport example_reader)
      \<lparr>session_inner = (), wasm_url = (), incoming_uni = [] :: bytes list, incoming_bi = [] :: bytes list,
       datagram_reader = [[1], [2]], datagram_writer = ()\<rparr>)) []"
proof -
  let ?self = "\<lparr>session_inner = (), wasm_url = (), incoming_uni = [], incoming_bi = [], datagram_reader = [[1], [2]],
       datagram_writer = ()\<rparr> :: (unit, unit, bytes list, bytes list, bytes list, unit) wasm_Session"
  obtain rs self' where t: "wasm_takes 3 (wasm_Session_recv_datagram example_js example_transport example_reader) ?self =
      (rs, self')" by fastforce
  have over: "queue_over example_js (WT_closed example_transport (session_inner ?self)) None = Err (WE_SessionClosed 7 [])"
    by (simp add: queue_over_def example_transport_def)
  note w = wasm_session_queues [OF example_queue_laws example_queue_laws example_queue_laws, THEN conjunct2,
          THEN conjunct2, THEN conjunct1, THEN spec, THEN spec, THEN spec, THEN mp, OF t]
  have "delivers_in_order Ok (Err (WE_SessionClosed 7 [])) (datagram_reader ?self) rs (datagram_reader self')"
    using w unfolding over .
  moreover have "datagram_reader self' = []"
    using t by (auto simp: numeral_3_eq_3 wasm_Session_recv_datagram_def SharedReader_read_def example_reader_def)
  ultimately show ?thesis by (simp add: t)
qed

end
