(* ===== verification/Fuzz_Targets.thy ===== *)
theory Fuzz_Targets
  imports Settings Capsules Connect
begin

section \<open>The fuzz targets\<close>

text \<open>
  \<^verbatim>\<open>fuzz/fuzz_targets\<close> and the module \<^verbatim>\<open>fuzzing\<close> of \<^verbatim>\<open>webtrans-proto/src/lib.rs\<close>. A target takes any
  bytes, runs decoders and readers on them and fails when one of them panics; the target of frames
  also asserts that a decoded capsule is written and read back. A target is a function to a result
  here, and the lemmas show that none fails on any input.
\<close>

subsection \<open>Corpus files\<close>

text \<open>\<^verbatim>\<open>u8::from_str_radix\<close> of the standard library for the radix 16.\<close>

definition hex_digit :: "u8 \<Rightarrow> nat option" where
  "hex_digit b =
     (if 0x30 \<le> b \<and> b \<le> 0x39 then Some (unat b - 0x30)
      else if 0x41 \<le> b \<and> b \<le> 0x46 then Some (unat b - 0x41 + 10)
      else if 0x61 \<le> b \<and> b \<le> 0x66 then Some (unat b - 0x61 + 10)
      else None)"

fun hex_value :: "nat \<Rightarrow> bytes \<Rightarrow> u8 option" where
  "hex_value acc [] = Some (of_nat acc)"
| "hex_value acc (b # bs) =
     (case hex_digit b of
        None \<Rightarrow> None
      | Some d \<Rightarrow> if acc * 16 + d > 255 then None else hex_value (acc * 16 + d) bs)"

definition u8_from_str_radix_16 :: "bytes \<Rightarrow> u8 option" where
  "u8_from_str_radix_16 src =
     (case src of
        [] \<Rightarrow> None
      | sign # rest \<Rightarrow>
          if (sign = 0x2B \<or> sign = 0x2D) \<and> rest = [] then None
          else if sign = 0x2B then hex_value 0 rest
          else hex_value 0 src)"

text \<open>The loop over \<^verbatim>\<open>chunks_exact(2)\<close>; \<^const>\<open>None\<close> is a return of the data as they are.\<close>

fun decode_pairs :: "bytes \<Rightarrow> bytes option" where
  "decode_pairs (a # b # rest) =
     (if \<not> utf8_valid [a, b] then None
      else case u8_from_str_radix_16 [a, b] of
          None \<Rightarrow> None
        | Some x \<Rightarrow> map_option (\<lambda>xs. x # xs) (decode_pairs rest))"
| "decode_pairs _ = Some []"

definition corpus_bytes :: "bytes \<Rightarrow> bytes" where
  "corpus_bytes data =
     (if \<not> prefix (str ''hex:'') data then data
      else
        let hex = drop 4 data in
        if \<not> utf8_valid hex then data
        else
          let hex = str_trim hex in
          if length hex mod 2 \<noteq> 0 then data
          else case decode_pairs hex of None \<Rightarrow> data | Some decoded \<Rightarrow> decoded)"

subsection \<open>Targets\<close>

text \<open>\<^verbatim>\<open>let _ = ...\<close>: only a panic ends the target.\<close>

definition ignore :: "('a, 'e) res \<Rightarrow> (unit, 'f) res" where
  "ignore r = (if r = Panic then Panic else Ok ())"

definition decode_qpack :: "bytes \<Rightarrow> (unit, 'f) res" where
  "decode_qpack buf = ignore (Headers_decode buf)"

definition decode_qpack_string :: "bytes \<Rightarrow> (unit, 'f) res" where
  "decode_qpack_string buf = ignore (decode_string buf 8)"

definition fuzz_varint :: "bytes \<Rightarrow> (unit, 'f) res" where
  "fuzz_varint data = (let data = corpus_bytes data in ignore (VarInt_decode data))"

definition fuzz_qpack_huffman :: "bytes \<Rightarrow> (unit, 'f) res" where
  "fuzz_qpack_huffman data =
     (let data = corpus_bytes data in and_then (decode_qpack data) (\<lambda>_. decode_qpack_string data))"

definition fuzz_capsule :: "bytes \<Rightarrow> (unit, 'f) res" where
  "fuzz_capsule data =
     (let data = corpus_bytes data in
      and_then (ignore (Capsule_decode data)) (\<lambda>_. ignore (Capsule_read slice_read data)))"

definition fuzz_frame :: "bytes \<Rightarrow> (unit, 'f) res" where
  "fuzz_frame data =
     (let data = corpus_bytes data in
      and_then (ignore (Frame_read data)) (\<lambda>_.
        case Capsule_decode data of
          Ok (capsule, _) \<Rightarrow>
            and_then (unwrap (Capsule_encode capsule [])) (\<lambda>encoded.
            and_then (unwrap (Capsule_decode encoded)) (\<lambda>(decoded, _).
              if decoded = capsule then Ok () else Panic))
        | Err _ \<Rightarrow> Ok ()
        | Panic \<Rightarrow> Panic))"

text \<open>Awaiting a reader that takes fuel; \<^const>\<open>None\<close> means that it has run out.\<close>

definition fuzz_settings :: "nat \<Rightarrow> bytes \<Rightarrow> (unit, 'f) res option" where
  "fuzz_settings fuel data =
     (let data = corpus_bytes data in
      case (ignore (Settings_decode data) :: (unit, 'f) res) of
        Ok _ \<Rightarrow> map_option ignore (Settings_read fuel slice_read data)
      | _ \<Rightarrow> Some Panic)"

definition fuzz_connect :: "('url, 'p) url_api \<Rightarrow> ('m, 's) http_api \<Rightarrow> (Headers \<Rightarrow> Headers) \<Rightarrow> nat \<Rightarrow> bytes \<Rightarrow>
    (unit, 'f) res option" where
  "fuzz_connect U H ho fuel data =
     (let data = corpus_bytes data in
      case (and_then (ignore (ConnectRequest_decode U H ho data)) (\<lambda>_.
          ignore (ConnectResponse_decode H ho data :: (_, ('p, 'm, 's) ConnectError) res)) :: (unit, 'f) res) of
        Ok _ \<Rightarrow>
          (case (ConnectRequest_read U H ho fuel slice_read data,
              ConnectResponse_read H ho fuel slice_read data :: (_, ('p, 'm, 's) ConnectError) res option) of
             (Some request, Some response) \<Rightarrow> Some (and_then (ignore request) (\<lambda>_. ignore response))
           | _ \<Rightarrow> None)
      | _ \<Rightarrow> Some Panic)"

subsection \<open>Corpus files are decoded\<close>

lemma decode_pairs_length: "decode_pairs hex = Some bs \<Longrightarrow> length bs \<le> length hex"
  by (induction hex arbitrary: bs rule: decode_pairs.induct) (fastforce split: if_splits option.splits)+

lemma str_trim_length: "length (str_trim s) \<le> length s"
proof -
  have "length (concat (rev (dropWhile P (rev (dropWhile P cs))))) \<le> length (concat cs)" for P :: "bytes \<Rightarrow> bool" and cs
  proof -
    have split: "length (concat (dropWhile P xs)) \<le> length (concat xs)" for xs
      using takeWhile_dropWhile_id [of P xs] by (metis concat_append length_append le_add2)
    have "length (concat (rev ys)) = length (concat ys)" for ys :: "bytes list"
      by (induction ys) auto
    then show ?thesis using split [of "rev (dropWhile P cs)"] split [of cs] by simp
  qed
  then show ?thesis by (metis concat_chars str_trim_def)
qed

lemma corpus_bytes_length: "length (corpus_bytes data) \<le> length data"
proof -
  have "length bs \<le> length data" if "decode_pairs (str_trim (drop 4 data)) = Some bs" for bs
    using decode_pairs_length [OF that] str_trim_length [of "drop 4 data"] by simp
  then show ?thesis by (auto simp: corpus_bytes_def Let_def split: option.splits)
qed

text \<open>Bytes written as two lowercase hexadecimal digits each.\<close>

definition hex_nibble :: "nat \<Rightarrow> u8" where
  "hex_nibble d = (if d < 10 then 0x30 + of_nat d else 0x61 + of_nat (d - 10))"

definition hex_text :: "bytes \<Rightarrow> bytes" where
  "hex_text bs = concat (map (\<lambda>b. [hex_nibble (unat b div 16), hex_nibble (unat b mod 16)]) bs)"

lemma hex_nibble_props:
  assumes "d < 16"
  shows "hex_digit (hex_nibble d) = Some d" "hex_nibble d \<noteq> 0x2B" "hex_nibble d < 0x80"
    "\<not> is_whitespace [hex_nibble d]"
proof -
  have "list_all (\<lambda>d. hex_digit (hex_nibble d) = Some d \<and> hex_nibble d \<noteq> 0x2B \<and> hex_nibble d < 0x80 \<and>
      \<not> is_whitespace [hex_nibble d]) [0..<16]"
    by code_simp
  then have "hex_digit (hex_nibble d) = Some d \<and> hex_nibble d \<noteq> 0x2B \<and> hex_nibble d < 0x80 \<and>
      \<not> is_whitespace [hex_nibble d]"
    using assms by (simp only: list_all_iff) auto
  then show "hex_digit (hex_nibble d) = Some d" "hex_nibble d \<noteq> 0x2B" "hex_nibble d < 0x80"
    "\<not> is_whitespace [hex_nibble d]" by simp_all
qed

lemma hex_text_ascii:
  assumes "b \<in> set (hex_text bs)"
  shows "b < 0x80 \<and> \<not> is_whitespace [b]"
proof -
  have "\<exists>x :: u8. b = hex_nibble (unat x div 16) \<or> b = hex_nibble (unat x mod 16)"
    using assms by (auto simp: hex_text_def)
  then obtain x :: u8 where "b = hex_nibble (unat x div 16) \<or> b = hex_nibble (unat x mod 16)" ..
  moreover have "unat x div 16 < 16" "unat x mod 16 < 16" using unat_u8_less [of x] by auto
  ultimately show ?thesis using hex_nibble_props(3,4) by blast
qed

lemma str_trim_plain:
  assumes "\<And>b. b \<in> set s \<Longrightarrow> b < 0x80 \<and> \<not> is_whitespace [b]"
  shows "str_trim s = s"
proof -
  let ?cs = "map (\<lambda>b. [b]) s"
  have c: "chars s = ?cs"
    using utf8_valid_concat [of ?cs] assms by (simp add: utf8_char_ascii)
  have keep: "dropWhile is_whitespace xs = xs" if "\<forall>x \<in> set xs. \<not> is_whitespace x" for xs
    using that by (cases xs) auto
  have "dropWhile is_whitespace ?cs = ?cs" "dropWhile is_whitespace (rev ?cs) = rev ?cs"
    using assms by (intro keep; simp)+
  then show ?thesis by (simp add: str_trim_def c rev_map [symmetric])
qed

lemma decode_pairs_text: "decode_pairs (hex_text bs) = Some bs"
proof (induction bs)
  case (Cons b bs)
  let ?a = "hex_nibble (unat b div 16)" and ?b = "hex_nibble (unat b mod 16)"
  have lt: "unat b div 16 < 16" "unat b mod 16 < 16" using unat_u8_less [of b] by auto
  note a = hex_nibble_props [OF lt(1)] and b = hex_nibble_props [OF lt(2)]
  have "utf8_valid [?a, ?b]" using a(3) b(3) by (intro utf8_valid_ascii) auto
  moreover have "u8_from_str_radix_16 [?a, ?b] = Some b"
  proof -
    have v: "unat b div 16 * 16 + unat b mod 16 = unat b" by simp
    have "hex_value 0 [?a, ?b] = Some b"
      using a(1) b(1) lt unat_u8_less [of b] by (simp add: v)
    then show ?thesis using a(2) by (simp add: u8_from_str_radix_16_def)
  qed
  moreover have "hex_text (b # bs) = ?a # ?b # hex_text bs" by (simp add: hex_text_def)
  ultimately show ?case using Cons by simp
qed (simp add: hex_text_def)

lemma hex_text_length: "length (hex_text bs) = 2 * length bs"
  by (induction bs) (simp_all add: hex_text_def)

lemma corpus_bytes_hex: "corpus_bytes (str ''hex:'' @ hex_text bs) = bs"
proof -
  note plain = hex_text_ascii [of _ bs]
  have valid: "utf8_valid (hex_text bs)" using plain by (intro utf8_valid_ascii) blast
  have "drop 4 (str ''hex:'' @ hex_text bs) = hex_text bs" by (simp add: str_def)
  then show ?thesis
    using valid by (simp add: corpus_bytes_def str_trim_plain [OF plain] hex_text_length decode_pairs_text Let_def)
qed

lemma corpus_bytes_raw: "\<not> prefix (str ''hex:'') data \<Longrightarrow> corpus_bytes data = data"
  by (simp add: corpus_bytes_def)

subsection \<open>No target fails\<close>

lemma ignore_Ok: "r \<noteq> Panic \<Longrightarrow> ignore r = Ok ()"
  by (simp add: ignore_def)

lemma decode_string_8_no_panic: "huffman_input_ok buf \<Longrightarrow> decode_string buf 8 \<noteq> Panic"
  using decode_string_no_panic [of buf 7] by simp

lemma capsule_rewritten:
  assumes "Capsule_decode data = Ok (c, rest)"
  shows "\<exists>bs. Capsule_encode c [] = Ok bs \<and> Capsule_decode bs = Ok (c, [])"
  using Capsule_decode_Ok [OF assms] capsule.enc_wire [of c "[]"] capsule.dec_wire [of c "[]"] by auto

lemma Connect_decode_total:
  fixes U :: "('u, 'p) url_api" and H :: "('m, 's) http_api"
  assumes "huffman_input_ok buf" and "url_laws U"
  shows "ConnectRequest_decode U H ho buf \<noteq> Panic"
    and "ConnectResponse_decode H ho buf \<noteq> (Panic :: (_, ('p, 'm, 's) ConnectError) res)"
proof -
  have "ConnectRequest_decode U H ho buf \<noteq> Panic \<and>
      ConnectResponse_decode H ho buf \<noteq> (Panic :: (_, ('p, 'm, 's) ConnectError) res)"
  proof (cases "Frame_read buf")
    case (Ok x)
    then obtain ty payload rest where f: "Frame_read buf = Ok (ty, payload, rest)" by (metis prod.exhaust)
    have "huffman_input_ok payload" using huffman_input_ok_mono [OF assms(1) Frame_read_length [OF f]] .
    from Connect_decode_no_panic [OF f this] assms(2) show ?thesis by blast
  next
    case (Err e)
    then show ?thesis by (simp add: ConnectRequest_decode_def ConnectResponse_decode_def)
  qed (use Frame_read_no_panic in blast)
  then show "ConnectRequest_decode U H ho buf \<noteq> Panic"
    "ConnectResponse_decode H ho buf \<noteq> (Panic :: (_, ('p, 'm, 's) ConnectError) res)" by blast+
qed

lemma fuzz_connect_passes:
  fixes U :: "('u, 'p) url_api" and H :: "('m, 's) http_api"
  assumes "huffman_input_ok data" and "length data < fuel" and "url_laws U"
  shows "fuzz_connect U H ho fuel data = Some (Ok ())"
proof -
  let ?data = "corpus_bytes data"
  have len: "length ?data < fuel" using corpus_bytes_length [of data] assms(2) by simp
  have ok: "huffman_input_ok ?data" by (rule huffman_input_ok_mono [OF assms(1) corpus_bytes_length])
  obtain req resp where r: "ConnectRequest_read U H ho fuel slice_read ?data = Some req"
      "ConnectResponse_read H ho fuel slice_read ?data = Some (resp :: (_, ('p, 'm, 's) ConnectError) res)"
      "req \<noteq> Panic" "resp \<noteq> Panic"
    by (rule Connect_read_sound [OF slice_reads_exactly len assms(3), of H ho]) blast
  show ?thesis
    using r Connect_decode_total [OF ok assms(3), of H ho] by (simp add: fuzz_connect_def ignore_Ok)
qed

lemma fuzz_settings_passes:
  assumes "length data < fuel"
  shows "fuzz_settings fuel data = Some (Ok ())"
proof -
  have "length (corpus_bytes data) < fuel" using corpus_bytes_length [of data] assms by simp
  note s = Settings_read_returns [OF slice_reads_exactly this]
  obtain r where "Settings_read fuel slice_read (corpus_bytes data) = Some r" using s(1) by blast
  then show ?thesis using s(2) by (simp add: fuzz_settings_def ignore_Ok)
qed

lemma fuzz_frame_passes: "fuzz_frame data = Ok ()"
proof (cases "Capsule_decode (corpus_bytes data)")
  case (Ok x)
  then obtain c rest where "Capsule_decode (corpus_bytes data) = Ok (c, rest)" by (metis prod.exhaust)
  then show ?thesis using capsule_rewritten by (fastforce simp: fuzz_frame_def ignore_Ok)
qed (simp_all add: fuzz_frame_def ignore_Ok)

lemma fuzz_capsule_passes: "fuzz_capsule data = Ok ()"
  by (simp add: fuzz_capsule_def ignore_Ok Capsule_read_decode [OF slice_reads_exactly])

subsection \<open>Property\<close>

text \<open>
  C33. No fuzz target fails. For every input below 512 megabytes, as raw bytes or as a corpus file,
  each of the six targets returns: no decoder or reader that it runs panics, the asynchronous ones
  return within as many steps as there are bytes and one more, and a capsule that was decoded is
  written and read back as the same capsule. A corpus file in hexadecimal stands for the bytes it
  spells, and any other input for itself.
\<close>

theorem fuzz_targets_pass:
  fixes U :: "('u, 'p) url_api" and H :: "('m, 's) http_api"
  assumes "huffman_input_ok data" and "length data < fuel" and "url_laws U"
  shows "(fuzz_varint data :: (_, 'f) res) = Ok () \<and>
    (fuzz_settings fuel data :: (_, 'f) res option) = Some (Ok ()) \<and>
    (fuzz_frame data :: (_, 'f) res) = Ok () \<and>
    (fuzz_capsule data :: (_, 'f) res) = Ok () \<and>
    (fuzz_qpack_huffman data :: (_, 'f) res) = Ok () \<and>
    (fuzz_connect U H ho fuel data :: (_, 'f) res option) = Some (Ok ()) \<and>
    (\<forall>bs. corpus_bytes (str ''hex:'' @ hex_text bs) = bs) \<and>
    (\<not> prefix (str ''hex:'') data \<longrightarrow> corpus_bytes data = data)"
proof (intro conjI allI impI)
  have ok: "huffman_input_ok (corpus_bytes data)" by (rule huffman_input_ok_mono [OF assms(1) corpus_bytes_length])
  show "fuzz_varint data = Ok ()" by (simp add: fuzz_varint_def ignore_Ok)
  show "fuzz_settings fuel data = Some (Ok ())" by (rule fuzz_settings_passes [OF assms(2)])
  show "fuzz_frame data = Ok ()" by (rule fuzz_frame_passes)
  show "fuzz_capsule data = Ok ()" by (rule fuzz_capsule_passes)
  show "fuzz_qpack_huffman data = Ok ()"
    using Headers_decode_no_panic [OF ok] decode_string_8_no_panic [OF ok]
    by (simp add: fuzz_qpack_huffman_def decode_qpack_def decode_qpack_string_def ignore_Ok)
  show "fuzz_connect U H ho fuel data = Some (Ok ())" by (rule fuzz_connect_passes [OF assms])
qed (simp_all add: corpus_bytes_hex corpus_bytes_raw)

theorem fuzz_targets_pass_witness:
  "(fuzz_frame (str ''hex:'' @ hex_text [0x40, 0x21, 0x01, 0x07]) :: (unit, unit) res) = Ok () \<and>
   corpus_bytes (str ''hex:'' @ hex_text [0x40, 0x21, 0x01, 0x07]) = [0x40, 0x21, 0x01, 0x07]"
proof -
  let ?data = "str ''hex:'' @ hex_text [0x40, 0x21, 0x01, 0x07]"
  have "huffman_input_ok ?data" "length ?data < 13" by (simp_all add: huffman_input_ok_def hex_text_length str_def)
  from fuzz_targets_pass [OF this example_laws(1)] show ?thesis by blast
qed

end
