(* ===== verification/Echo.thy ===== *)
theory Echo
  imports Tls
begin

section \<open>The echo programs\<close>

text \<open>
  \<^verbatim>\<open>webtrans/examples/echo-server.rs\<close> and \<^verbatim>\<open>echo-client.rs\<close> over the default backend, Quinn. Command
  lines, logging and printed text are left out; tasks, the network and the files are arguments. The properties run the library from one end to the
  other: what a client writes on a stream is accepted, echoed and read back.
\<close>

text \<open>The errors that \<^verbatim>\<open>anyhow\<close> carries in these programs: of a running session, and of the files.\<close>

datatype ('c, 'd) session_anyhow = AE_Session "('c, 'd) SessionError" | AE_Write "('c, 'd) WriteError"
  | AE_ReadToEnd "('c, 'd) ReadToEndError" | AE_Closed ClosedStream

datatype 'pe setup_anyhow = AE_Io io_error | AE_Pem 'pe | AE_Tls Error | AE_Msg bytes

subsection \<open>The server\<close>

definition load_pem_certs :: "('key, 'pe, 're, 'rng, 'gen, 'te) pki_api \<Rightarrow> (bytes \<Rightarrow> (bytes, io_error) res) \<Rightarrow> bytes \<Rightarrow>
    (bytes list, 'pe setup_anyhow) res" where
  "load_pem_certs P fs path =
     and_then (map_err AE_Io (fs path)) (\<lambda>pem. map_err AE_Pem (collect_results (PK_cert_pems P pem)))"

definition load_or_generate_certs :: "('key, 'pe, 're, 'rng, 'gen, 'te) pki_api \<Rightarrow> (bytes \<Rightarrow> (bytes, io_error) res) \<Rightarrow>
    'rng \<Rightarrow> bytes option \<Rightarrow> bytes option \<Rightarrow>
    (bytes list \<times> 'key, 'pe setup_anyhow) res" where
  "load_or_generate_certs P fs rng tls_cert tls_key =
     (case (tls_cert, tls_key) of
        (Some cert_path, Some key_path) \<Rightarrow>
          and_then (load_pem_certs P fs cert_path) (\<lambda>chain.
            if chain = [] then Err (AE_Msg (str ''could not find certificate''))
            else
              and_then (map_err AE_Io (fs key_path)) (\<lambda>key_pem.
              and_then (map_err AE_Pem (PK_key_pem P key_pem)) (\<lambda>key.
                if chain = [] then Err (AE_Msg (str ''certificate chain is empty'')) else Ok (chain, key))))
      | (None, None) \<Rightarrow>
          and_then (map_err AE_Tls (generate_self_signed_pair_der P rng [str ''localhost'', str ''127.0.0.1'', str ''::1'']))
            (\<lambda>(chain, key).
              if chain = [] then Err (AE_Msg (str ''certificate chain is empty'')) else Ok (chain, key))
      | _ \<Rightarrow> Err (AE_Msg (str ''both --tls-cert and --tls-key must be provided together, or neither'')))"

definition echo_server_build :: "('prov, 'suite, 'hp) crypto_api \<Rightarrow>
    ('prov, 'cb, 'roots, 'cert, 'tls, 'sb, 'chain, 'key, 'ck, 'sni, 'stls, 'te) rustls_api \<Rightarrow>
    ('tr, 'tls, 'qc, 'cfg, 'ep, 'stls, 'qs, 'scfg, 'addr) quinn_config \<Rightarrow> 'addr \<Rightarrow> 'chain \<times> 'key \<Rightarrow>
    ('ep \<times> 'inc Server, ('c, 'p, 'm, 'st, 'te) ServerError) res" where
  "echo_server_build C R B addr pair =
     and_then (ServerBuilder_new C B) (\<lambda>builder.
       ServerBuilder_with_certificate R B (fst pair) (snd pair) (ServerBuilder_with_addr addr builder))"

text \<open>
  The loop of \<^verbatim>\<open>main\<close> over what \<^verbatim>\<open>accept\<close> returns: the requests for which a task is spawned; \<^const>\<open>None\<close> while
  the endpoint is open. A panic in a handshake ends the program.
\<close>

fun echo_requests :: "('req, 'e) res option list \<Rightarrow> ('req list, 'f) res option" where
  "echo_requests [] = None"
| "echo_requests (None # rs) = Some (Ok [])"
| "echo_requests (Some (Ok conn) # rs) = map_option (map_ok (\<lambda>conns. conn # conns)) (echo_requests rs)"
| "echo_requests (Some (Err e) # rs) = echo_requests rs"
| "echo_requests (Some Panic # rs) = Some Panic"

text \<open>\<^verbatim>\<open>run_conn\<close> up to \<^verbatim>\<open>run_session\<close>, whose error is only logged.\<close>

definition echo_run_conn :: "('q, 's, 'r, 'c, 'd) quinn_connection \<Rightarrow> ('ch, CloseCommand) mpsc \<Rightarrow>
    ('m, 'st) http_api \<Rightarrow> 'st status_codes \<Rightarrow> (Headers \<Rightarrow> Headers) \<Rightarrow> ('q, 'u, 's, 'r) Request \<Rightarrow>
    ((('u, 's, 'r, 'c, 'ch) Session \<times> ('s, 'r) closed_task) \<times> 'q, ('c, 'p, 'm, 'st, 'te) ServerError) res" where
  "echo_run_conn C Ch H S ho request = Request_ok C Ch H S ho request"

text \<open>
  The arm for a stream: the message is read to its end and written back. The stream is as it is when
  it is dropped, which finishes it.
\<close>

definition echo_stream :: "('s, 'c, 'w, 'i) quinn_send \<Rightarrow> ('r, 'c, 'k, 'j) quinn_recv \<Rightarrow>
    's SendStream \<times> 'r RecvStream \<Rightarrow>
    ('s, ('c, 'd) session_anyhow) res" where
  "echo_stream Q R sr =
     (case sr of
        (send, recv) \<Rightarrow>
          and_then (map_err AE_ReadToEnd (fst (RecvStream_read_to_end R 1024 (recv_inner recv)))) (\<lambda>msg.
            case SendStream_write_all Q msg (send_stream send) of
              (r, send) \<Rightarrow> and_then (map_err AE_Write r) (\<lambda>_. Ok send)))"

text \<open>
  One turn of \<^verbatim>\<open>run_session\<close>, on the arm that \<^verbatim>\<open>select!\<close> takes. It yields the stream that was served,
  with what was accepted, or nothing for a datagram; \<^const>\<open>None\<close> while the arm is not ready.
\<close>

datatype ('s, 'r) echo_arm = Echo_bi "('s \<times> 'r) list \<Rightarrow> nat option" | Echo_datagram

definition echo_turn :: "('q, 's, 'r, 'c, 'd) quinn_connection \<Rightarrow> ('s, 'c, 'w, 'i) quinn_send \<Rightarrow>
    ('r, 'c, 'k, 'j) quinn_recv \<Rightarrow> ('s, 'r) echo_arm \<Rightarrow> ('u, 's, 'r, 'c, 'ch) Session \<Rightarrow> 'q \<Rightarrow>
    ((('s SendStream \<times> 'r RecvStream) \<times> 's) option, ('c, 'd) session_anyhow) res option \<times>
      ('u, 's, 'r, 'c, 'ch) Session \<times> 'q" where
  "echo_turn C Q R arm session q =
     (case arm of
        Echo_bi ready \<Rightarrow>
          (case Session_accept_bi C ready session q of
             (Poll_Pending, session, q) \<Rightarrow> (None, session, q)
           | (Poll_Ready res, session, q) \<Rightarrow>
               (Some (and_then (map_err AE_Session res) (\<lambda>sr.
                  map_ok (\<lambda>send. Some (sr, send)) (echo_stream Q R sr))), session, q))
      | Echo_datagram \<Rightarrow>
          (case Session_read_datagram C session q of
             (Err e, q) \<Rightarrow> (Some (Err (AE_Session e)), session, q)
           | (Panic, q) \<Rightarrow> (Some Panic, session, q)
           | (Ok msg, q) \<Rightarrow>
               (case Session_send_datagram C session msg q of
                  (r, q) \<Rightarrow> (Some (map_err AE_Session (map_ok (\<lambda>_. None) r)), session, q))))"

text \<open>
  The loop: turns that succeed, with streams arriving, the other moves of the accepting machine and
  anything happening to the connection in between. It keeps the streams that arrived and those
  that were served.
\<close>

inductive echo_run :: "('q, 's, 'r, 'c, 'd) quinn_connection \<Rightarrow> ('s, 'c, 'w, 'i) quinn_send \<Rightarrow>
    ('r, 'c, 'k, 'j) quinn_recv \<Rightarrow> ('u, 's, 'r, 'c, 'ch) Session \<Rightarrow> ('s \<times> 'r) list \<Rightarrow>
    (('s SendStream \<times> 'r RecvStream) \<times> 's) list \<Rightarrow> ('u, 's, 'r, 'c, 'ch) Session \<Rightarrow> bool"
  for C Q R session0 where
  start: "echo_run C Q R session0 [] [] session0"
| arrive: "echo_run C Q R session0 arrived served session \<Longrightarrow> accept session = Some acc \<Longrightarrow>
    echo_run C Q R session0 (arrived @ [p]) served (session\<lparr>accept := Some (arrive_bi p acc)\<rparr>)"
| move: "echo_run C Q R session0 arrived served session \<Longrightarrow> accept session = Some acc \<Longrightarrow>
    echo_run C Q R session0 arrived served (session\<lparr>accept := Some (move_bi (QC_read_exact C) m acc)\<rparr>)"
| waits: "echo_run C Q R session0 arrived served session \<Longrightarrow>
    echo_turn C Q R arm session q = (None, session', q') \<Longrightarrow>
    echo_run C Q R session0 arrived served session'"
| turn: "echo_run C Q R session0 arrived served session \<Longrightarrow>
    echo_turn C Q R arm session q = (Some (Ok out), session', q') \<Longrightarrow>
    echo_run C Q R session0 arrived (served @ (case out of Some x \<Rightarrow> [x] | None \<Rightarrow> [])) session'"

subsection \<open>The client\<close>

text \<open>\<^verbatim>\<open>is_loopback\<close> of the standard library, on addresses as numbers.\<close>

definition is_localhost_url :: "('u, 32 word, 128 word) url_target \<Rightarrow> 'u \<Rightarrow> bool" where
  "is_localhost_url T url =
     (case Url_host T url of
        Some (Domain d) \<Rightarrow> eq_ignore_ascii_case d (str ''localhost'')
      | Some (Ipv4 ip) \<Rightarrow> drop_bit 24 ip = 127
      | Some (Ipv6 ip) \<Rightarrow> ip = 1
      | None \<Rightarrow> False)"

datatype ('e, 'pe) client_setup = EC_Setup "'pe setup_anyhow" | EC_Client 'e

definition echo_client_build :: "('key, 'pe, 're, 'rng, 'gen, 'te) pki_api \<Rightarrow> (bytes \<Rightarrow> (bytes, io_error) res) \<Rightarrow>
    ('prov, 'suite, 'hp) crypto_api \<Rightarrow>
    ('prov, 'cb, 'roots, 'cert, 'tls, 'sb, 'chain, 'key, 'ck, 'sni, 'stls, 'te) rustls_api \<Rightarrow>
    ('tr, 'tls, 'qc, 'cfg, 'ep, 'stls, 'qs, 'scfg, 'addr) quinn_config \<Rightarrow> ('u, 32 word, 128 word) url_target \<Rightarrow>
    bool \<Rightarrow> bytes option \<Rightarrow> 'u \<Rightarrow>
    ('ep \<times> 'cfg Client, (('c, 'p, 'm, 'st, 'qe, 'te) ClientError, 'pe) client_setup) res" where
  "echo_client_build P fs C R B T tls_disable_verify tls_cert url =
     (if tls_disable_verify then
        and_then (ClientBuilder_new C B) (\<lambda>builder.
          map_err EC_Client (DangerousClientBuilder_with_no_certificate_verification R B builder))
      else case tls_cert of
        Some path \<Rightarrow>
          and_then (map_err EC_Setup (load_pem_certs P fs path)) (\<lambda>chain.
            if chain = [] then Err (EC_Setup (AE_Msg (str ''could not find certificate'')))
            else and_then (ClientBuilder_new C B) (\<lambda>builder.
              map_err EC_Client (ClientBuilder_with_server_certificates C R B chain builder)))
      | None \<Rightarrow>
          if is_localhost_url T url then
            and_then (ClientBuilder_new C B) (\<lambda>builder.
              map_err EC_Client (DangerousClientBuilder_with_no_certificate_verification R B builder))
          else
            and_then (ClientBuilder_new C B) (\<lambda>builder. map_err EC_Client (ClientBuilder_with_system_roots R B builder)))"

text \<open>\<^verbatim>\<open>main\<close> from \<^verbatim>\<open>open_bi\<close> to \<^verbatim>\<open>finish\<close>, then from \<^verbatim>\<open>read_to_end\<close> on.\<close>

definition echo_client_send :: "('q, 's, 'r, 'c, 'd) quinn_connection \<Rightarrow> ('s, 'c, 'w, 'i) quinn_send \<Rightarrow>
    ('u, 's, 'r, 'c, 'ch) Session \<Rightarrow> 'q \<Rightarrow> ('s \<times> 'r, ('c, 'd) session_anyhow) res \<times> 'q" where
  "echo_client_send C Q session q =
     (case Session_open_bi C Q session q of
        (r, q) \<Rightarrow> (and_then (map_err AE_Session r) (\<lambda>(send, recv).
          case SendStream_write_all Q (str ''hello world'') (send_stream send) of
            (r, send) \<Rightarrow> and_then (map_err AE_Write r) (\<lambda>_.
              case SendStream_finish Q send of
                (r, send) \<Rightarrow> and_then (map_err AE_Closed r) (\<lambda>_. Ok (send, recv_inner recv)))), q))"

definition echo_client_receive :: "('q, 's, 'r, 'c, 'd) quinn_connection \<Rightarrow> ('r, 'c, 'k, 'j) quinn_recv \<Rightarrow>
    ('ch, CloseCommand) mpsc \<Rightarrow> ('u, 's, 'r, 'c, 'ch) Session \<Rightarrow> 'r \<Rightarrow> 'q \<Rightarrow>
    (bytes, ('c, 'd) session_anyhow) res \<times> ('u, 's, 'r, 'c, 'ch) Session \<times> 'q" where
  "echo_client_receive C R Ch session recv q =
     (case fst (RecvStream_read_to_end R 1024 recv) of
        Err e \<Rightarrow> (Err (AE_ReadToEnd e), session, q)
      | Panic \<Rightarrow> (Panic, session, q)
      | Ok msg \<Rightarrow> (Ok msg, Session_close C Ch session 42069 (str ''bye'') q))"

subsection \<open>What is echoed\<close>

text \<open>
  What the programs rely on in \<^verbatim>\<open>read_to_end\<close>: it returns all bytes of the stream, at most as many as
  the limit, and refuses more.
\<close>

definition read_to_end_laws :: "('r, 'c, 'k, 'j) quinn_recv \<Rightarrow> ('r \<Rightarrow> bytes) \<Rightarrow> bool" where
  "read_to_end_laws R content \<longleftrightarrow>
     (\<forall>n r. case fst (Q_read_to_end R n r) of
        Ok bs \<Rightarrow> bs = content r \<and> length bs \<le> n
      | Err QRE_TooLong \<Rightarrow> n < length (content r)
      | Err _ \<Rightarrow> True
      | Panic \<Rightarrow> False)"

lemma read_to_end_Ok:
  assumes "read_to_end_laws R content"
    and "fst (RecvStream_read_to_end R n r) = (Ok bs :: (_, ('c, 'd) ReadToEndError) res)"
  shows "bs = content r \<and> length bs \<le> n"
proof -
  have "case fst (Q_read_to_end R n r) of Ok bs \<Rightarrow> bs = content r \<and> length bs \<le> n
      | Err QRE_TooLong \<Rightarrow> n < length (content r) | Err _ \<Rightarrow> True | Panic \<Rightarrow> False"
    using assms(1) unfolding read_to_end_laws_def by blast
  then show ?thesis using assms(2) by (auto simp: RecvStream_read_to_end_def split: prod.splits)
qed

lemma SendStream_write_all_Ok:
  assumes "quinn_write_all_laws Q sent"
    and "SendStream_write_all Q bs s = (Ok () :: (_, ('c, 'd) WriteError) res, s')"
  shows "sent s' = sent s @ bs"
proof -
  have "case Q_write_all Q bs s of (Ok _, s') \<Rightarrow> sent s' = sent s @ bs | (Err _, _) \<Rightarrow> True | (Panic, _) \<Rightarrow> False"
    using assms(1) by (simp add: quinn_write_all_laws_def)
  then show ?thesis using assms(2) by (auto simp: SendStream_write_all_def split: prod.splits)
qed

lemma echo_stream_echoes:
  assumes "quinn_write_all_laws Q sent" and "read_to_end_laws R content"
    and "echo_stream Q R (send, recv) = (Ok send' :: (_, ('c, 'd) session_anyhow) res)"
  shows "sent send' = sent (send_stream send) @ content (recv_inner recv) \<and> length (content (recv_inner recv)) \<le> 1024"
proof -
  obtain msg where m: "fst (RecvStream_read_to_end R 1024 (recv_inner recv)) = (Ok msg :: (_, ('c, 'd) ReadToEndError) res)"
    using assms(3) by (auto simp: echo_stream_def and_then_Ok_iff)
  obtain r s1 where w: "SendStream_write_all Q msg (send_stream send) = (r :: (_, ('c, 'd) WriteError) res, s1)"
    by (metis prod.exhaust)
  have "r = Ok ()" "s1 = send'"
    using assms(3) m w by (cases r; simp add: echo_stream_def)+
  with w SendStream_write_all_Ok [OF assms(1)] read_to_end_Ok [OF assms(2) m] show ?thesis by blast
qed

lemma echo_turn_bi:
  fixes C :: "('q, 's, 'r, 'c, 'd) quinn_connection"
  assumes "accept session = Some acc"
    and "(poll_accept_bi (QC_read_exact C) ready acc :: (_, ('c, 'd) SessionError) res poll \<times> _) = (res, acc')"
  shows "echo_turn C Q R (Echo_bi ready) session q =
    (case res of
       Poll_Pending \<Rightarrow> None
     | Poll_Ready r \<Rightarrow> Some (and_then (map_err AE_Session r) (\<lambda>sr.
         map_ok (\<lambda>send. Some (sr, send)) (echo_stream Q R sr))),
     session\<lparr>accept := Some acc'\<rparr>, q)"
  using assms by (cases res) (simp_all add: echo_turn_def Session_accept_bi_def)

text \<open>The rest of the session is as it was, and its accepting machine has made a run.\<close>

lemma echo_run_accepts:
  fixes C :: "('q, 's, 'r, 'c, 'd) quinn_connection"
  assumes "echo_run C Q R session0 arrived served session" and "accept session0 = Some acc0"
  shows "\<exists>acc. session = session0\<lparr>accept := Some acc\<rparr> \<and>
    acceptor_run (poll_accept_bi (QC_read_exact C) :: _ \<Rightarrow> _ \<Rightarrow> (_, ('c, 'd) SessionError) res poll \<times> _)
      arrive_bi (move_bi (QC_read_exact C)) acc0 arrived (map fst served) acc \<and>
    (\<forall>(sr, send) \<in> set served. echo_stream Q R sr = (Ok send :: (_, ('c, 'd) session_anyhow) res))"
  using assms(1)
proof induction
  case start
  have "session0 = session0\<lparr>accept := Some acc0\<rparr>" using assms(2) by simp
  then show ?case using acceptor_run.start by fastforce
next
  case (arrive arrived served session acc p)
  then show ?case by (fastforce intro: acceptor_run.arrive)
next
  case (move arrived served session acc m)
  then show ?case by (fastforce intro: acceptor_run.move)
next
  case (waits arrived served session arm q session' q')
  then obtain acc where acc: "session = session0\<lparr>accept := Some acc\<rparr>"
    and run: "acceptor_run (poll_accept_bi (QC_read_exact C) :: _ \<Rightarrow> _ \<Rightarrow> (_, ('c, 'd) SessionError) res poll \<times> _)
      arrive_bi (move_bi (QC_read_exact C)) acc0 arrived (map fst served) acc"
    by blast
  show ?case
  proof (cases arm)
    case (Echo_bi ready)
    obtain res acc' where p: "poll_accept_bi (QC_read_exact C) ready acc = (res :: (_, ('c, 'd) SessionError) res poll, acc')"
      by (metis prod.exhaust)
    have t: "res = Poll_Pending" "session' = session\<lparr>accept := Some acc'\<rparr>"
      using waits(2) echo_turn_bi [of session acc, OF _ p, of Q R q] acc Echo_bi by (auto split: poll.splits)
    from acceptor_run.poll_other [OF run p] t(1)
    have "acceptor_run (poll_accept_bi (QC_read_exact C) :: _ \<Rightarrow> _ \<Rightarrow> (_, ('c, 'd) SessionError) res poll \<times> _)
      arrive_bi (move_bi (QC_read_exact C)) acc0 arrived (map fst served) acc'" by simp
    then show ?thesis using t(2) acc waits.IH by auto
  next
    case Echo_datagram
    then have False using waits(2) by (auto simp: echo_turn_def split: prod.splits res.splits)
    then show ?thesis ..
  qed
next
  case (turn arrived served session arm q out session' q')
  then obtain acc where acc: "session = session0\<lparr>accept := Some acc\<rparr>"
    and run: "acceptor_run (poll_accept_bi (QC_read_exact C) :: _ \<Rightarrow> _ \<Rightarrow> (_, ('c, 'd) SessionError) res poll \<times> _)
      arrive_bi (move_bi (QC_read_exact C)) acc0 arrived (map fst served) acc"
    by blast
  show ?case
  proof (cases arm)
    case (Echo_bi ready)
    obtain res acc' where p: "poll_accept_bi (QC_read_exact C) ready acc = (res :: (_, ('c, 'd) SessionError) res poll, acc')"
      by (metis prod.exhaust)
    obtain sr send where t: "res = Poll_Ready (Ok sr)" "out = Some (sr, send)" "session' = session\<lparr>accept := Some acc'\<rparr>"
        "echo_stream Q R sr = (Ok send :: (_, ('c, 'd) session_anyhow) res)"
    proof -
      note e = echo_turn_bi [of session acc, OF _ p, of Q R q]
      from e acc turn(2) Echo_bi obtain r where r: "res = Poll_Ready r" "session' = session\<lparr>accept := Some acc'\<rparr>"
          "and_then (map_err AE_Session r) (\<lambda>sr. map_ok (\<lambda>send. Some (sr, send)) (echo_stream Q R sr)) = Ok out"
        by (cases res) auto
      then show thesis by (cases r) (auto intro: that)
    qed
    from acceptor_run.poll_ok [OF run p [unfolded t(1)]]
    have "acceptor_run (poll_accept_bi (QC_read_exact C) :: _ \<Rightarrow> _ \<Rightarrow> (_, ('c, 'd) SessionError) res poll \<times> _)
      arrive_bi (move_bi (QC_read_exact C)) acc0 arrived (map fst (served @ [(sr, send)])) acc'" by simp
    then show ?thesis using t(2-4) acc turn.IH by auto
  next
    case Echo_datagram
    then have "out = None" "session' = session"
      using turn(2) by (auto simp: echo_turn_def split: prod.splits res.splits)
    then show ?thesis using turn.IH by simp
  qed
qed

text \<open>The session that the server runs.\<close>

lemma echo_run_conn_session:
  fixes C :: "('q, 's, 'r, 'c, 'd) quinn_connection" and H :: "('m, 'st) http_api"
    and request :: "('q, 'u, 's, 'r) Request"
  assumes "quinn_connection_laws C sent content"
    and "echo_run_conn C Ch H S ho request = (Ok ((session, task), q) :: (_, ('c, 'p, 'm, 'st, 'te) ServerError) res)"
  obtains sid where "varint_ok sid" and "session_id session = Some sid" and "accept session = Some (SessionAccept_new sid)"
    and "header_datagram session = varint_wire sid"
proof -
  obtain settings and connect :: "('u, 's, 'r) quinn_Connect" where
      "Session_new C Ch settings connect = (Ok (session, task) :: (_, ('c, 'p, 'm, 'st, 'te) ServerError) res)"
    using assms(2) by (auto simp: echo_run_conn_def Request_ok_def)
  then show thesis
    using Session_new_ok(2) [OF assms(1) refl, of connect]
    by (intro that) (auto simp: Session_new_ok(1) [OF assms(1) refl])
qed

text \<open>What the client writes: the header of the session and its message.\<close>

lemma echo_client_send_wire:
  fixes C :: "('q, 's, 'r, 'c, 'd) quinn_connection"
  assumes laws: "quinn_write_all_laws Q sent" "quinn_close_laws Q sent"
    and opened: "QC_open_bi C q = (Ok (s0, r0), q1)" "sent s0 = []"
    and sends: "echo_client_send C Q session q = (Ok (s, r), q2)"
  shows "sent s = header_bi session @ str ''hello world''" and "r = r0"
proof -
  obtain send recv where o: "Session_open_bi C Q session q = (Ok (send, recv) :: (_, ('c, 'd) SessionError) res, q2)"
  proof (cases "Session_open_bi C Q session q :: (_, ('c, 'd) SessionError) res \<times> _")
    case (Pair x q')
    then show thesis
    proof (cases x)
      case (Ok sr)
      then show thesis using sends Pair that by (cases sr) (auto simp: echo_client_send_def)
    qed (use sends Pair in \<open>simp_all add: echo_client_send_def\<close>)
  qed
  note h = Session_open_bi_header [OF laws(1) o opened]
  obtain x s1 where w: "SendStream_write_all Q (str ''hello world'') (send_stream send) = (x :: (_, ('c, 'd) WriteError) res, s1)"
    by (metis prod.exhaust)
  obtain y s2 where f: "Q_finish Q s1 = (y, s2)" by (metis prod.exhaust)
  have "case Q_finish Q s1 of (r, s') \<Rightarrow> r \<noteq> Panic \<and> sent s' = sent s1" using laws(2) by (simp add: quinn_close_laws_def)
  then have "sent s2 = sent s1" using f by simp
  moreover have "x = Ok ()" "s = s2" "r = r0"
    using sends o w f h(2) by (cases x; cases y; simp add: echo_client_send_def SendStream_finish_def RecvStream_new_def)+
  ultimately show "sent s = header_bi session @ str ''hello world''" "r = r0"
    using SendStream_write_all_Ok [OF laws(1)] w h(1) by fastforce+
qed

text \<open>A stream of the session that arrives alone is delivered by the next poll that finds its header.\<close>

lemma poll_accept_bi_one:
  fixes rd :: "'r reader" and p :: "'s \<times> 'r" and sid
  assumes "accepts_bi rd sid p = Some x" and "ready [p] = Some 0"
  shows "poll_accept_bi rd ready (arrive_bi p (SessionAccept_new sid)) =
    (Poll_Ready (Ok x) :: (_, ('c, 'd) SessionError) res poll, SessionAccept_new sid :: ('s, 'r, 'c) SessionAccept)"
proof -
  obtain send r where p: "p = (send, r)" by (metis prod.exhaust)
  have n: "next_ready ready [p] = Some (p, [])" using assms(2) by (simp add: next_ready_def remove_at_def)
  have d: "\<exists>y. decode_bi rd send r sid = (Ok (Some y) :: (_, ('c, 'd) SessionError) res) \<and>
      x = (SendStream_new (fst y), RecvStream_new (snd y))"
    using assms(1) decode_bi_accepts [where rd = rd and send = send and r = r and sid = sid]
    by (cases "decode_bi rd send r sid :: (_, ('c, 'd) SessionError) res") (fastforce simp: p)+
  show ?thesis
    using n d
    by (subst poll_accept_bi.simps, simp add: arrive_bi_def SessionAccept_new_def, subst poll_accept_bi.simps)
      (auto simp: p)
qed

subsection \<open>Properties\<close>

text \<open>
  C19. The echo server answers every stream once, with its own bytes. A session that it accepts may run
  through any turns of its loop, with streams and errors arriving and headers being read in any
  order: the streams it has served and those of the session that still wait are exactly those that
  arrived for the session; each one served had at most 1,024 bytes and got exactly these bytes back.
  A datagram of the session is sent back as it came, header included.
\<close>

theorem echo_server_faithful:
  fixes C :: "('q, 's, 'r, 'c, 'd) quinn_connection" and H :: "('m, 'st) http_api"
    and request :: "('q, 'u, 's, 'r) Request"
  assumes laws: "quinn_connection_laws C sent content" "quinn_write_all_laws Q sent" "read_to_end_laws R content"
    and conn: "echo_run_conn C Ch H S ho request =
      (Ok ((session0, task), q0) :: (_, ('c, 'p, 'm, 'st, 'te) ServerError) res)"
    and run: "echo_run C Q R session0 arrived served session"
  shows "\<exists>sid acc. session_id session = Some sid \<and> accept session = Some acc \<and>
    mset (map fst served) + accepted (accepts_bi (QC_read_exact C) sid) (waiting_bi acc) =
      accepted (accepts_bi (QC_read_exact C) sid) arrived \<and>
    (\<forall>((send, recv), send') \<in> set served.
       sent send' = sent (send_stream send) @ content (recv_inner recv) \<and> length (content (recv_inner recv)) \<le> 1024) \<and>
    (\<forall>q q1 payload. QC_read_datagram C q = (Ok (varint_wire sid @ payload), q1) \<longrightarrow>
       echo_turn C Q R Echo_datagram session q =
         (case QC_send_datagram C (varint_wire sid @ payload) q1 of
            (r, q2) \<Rightarrow> (Some (map_err (\<lambda>e. AE_Session (SE_SendDatagramError e)) (map_ok (\<lambda>_. None) r)), session, q2)))"
proof -
  obtain sid where sid: "varint_ok sid" "session_id session0 = Some sid" "accept session0 = Some (SessionAccept_new sid)"
      "header_datagram session0 = varint_wire sid"
    by (rule echo_run_conn_session [OF laws(1) conn])
  obtain acc where acc: "session = session0\<lparr>accept := Some acc\<rparr>"
    and r: "acceptor_run (poll_accept_bi (QC_read_exact C) :: _ \<Rightarrow> _ \<Rightarrow> (_, ('c, 'd) SessionError) res poll \<times> _)
      arrive_bi (move_bi (QC_read_exact C)) (SessionAccept_new sid) arrived (map fst served) acc"
    and out: "\<forall>(sr, send) \<in> set served. echo_stream Q R sr = (Ok send :: (_, ('c, 'd) session_anyhow) res)"
    using echo_run_accepts [OF run sid(3)] by blast
  have echoed: "\<forall>((send, recv), send') \<in> set served.
       sent send' = sent (send_stream send) @ content (recv_inner recv) \<and> length (content (recv_inner recv)) \<le> 1024"
    using out echo_stream_echoes [OF laws(2,3)] by fastforce
  have "mset (map fst served) + accepted (accepts_bi (QC_read_exact C) sid) (waiting_bi acc) =
      accepted (accepts_bi (QC_read_exact C) sid) arrived"
    using acceptor_bi.run_exactly_once [OF r] by simp
  moreover have "echo_turn C Q R Echo_datagram session q =
         (case QC_send_datagram C (varint_wire sid @ payload) q1 of
            (r, q2) \<Rightarrow> (Some (map_err (\<lambda>e. AE_Session (SE_SendDatagramError e)) (map_ok (\<lambda>_. None) r)), session, q2))"
    if d: "QC_read_datagram C q = (Ok (varint_wire sid @ payload), q1)" for q q1 payload
  proof -
    obtain r q2 where "QC_send_datagram C (varint_wire sid @ payload) q1 = (r, q2)" by (metis prod.exhaust)
    then show ?thesis
      using d sid varint_wire_nonempty [of sid]
      by (cases r) (simp_all add: acc echo_turn_def Session_read_datagram_def Session_send_datagram_def varint.dec_wire)
  qed
  ultimately show ?thesis
    using sid(2) echoed by (intro exI [of _ sid] exI [of _ acc]) (simp add: acc)
qed

theorem echo_server_faithful_witness:
  "\<exists>(session0 :: (unit, bytes, bytes, unit, CloseCommand channel_view) Session) session sid acc.
    echo_run example_connection example_quinn_send example_quinn_recv session0 [([], [0x40, 0x41, 0, 7])]
      [((SendStream_new [], RecvStream_new [7]), [7])] session \<and>
    session_id session = Some sid \<and> accept session = Some acc \<and>
    accepted (accepts_bi slice_read sid) (waiting_bi acc) = {#}"
proof -
  let ?S = "\<lparr>StatusCode_OK = True, StatusCode_INTERNAL_SERVER_ERROR = False\<rparr>"
  let ?connect = "\<lparr>connect_request = \<lparr>request_url = ()\<rparr>, connect_send = [], connect_recv = []\<rparr>"
  let ?request = "\<lparr>request_conn = Some ([], []), request_settings = Some \<lparr>settings_send = [], settings_recv = []\<rparr>,
    request_connect = Some ?connect, request_target = ()\<rparr> :: (bytes \<times> bytes, unit, bytes, bytes) Request"
  let ?p = "([], [0x40, 0x41, 0, 7]) :: bytes \<times> bytes"
  obtain resp where "ConnectResponse_encode example_http_api (\<lambda>h. h) \<lparr>response_status = StatusCode_OK ?S\<rparr> [] =
      (Ok resp :: (_, (unit, unit, bool) ConnectError) res)"
    by (rule Connect_response_exchange [OF hash_order_id hash_order_id example_laws(2)]) auto
  then have r: "quinn_Connect_respond example_connection example_http_api (\<lambda>h. h) (StatusCode_OK ?S) ?connect =
      (Ok (?connect\<lparr>connect_send := resp\<rparr>) :: (_, (unit, unit, unit, bool) quinn_ConnectError) res)"
    by (simp add: quinn_Connect_respond_def ConnectResponse_write_def write_ok_def example_connection_def Let_def)
  have id: "QC_stream_id example_connection s = 0" for s by (simp add: example_connection_def)
  obtain session0 :: "(unit, bytes, bytes, unit, CloseCommand channel_view) Session" and task q0 where
      conn: "echo_run_conn example_connection example_mpsc example_http_api ?S (\<lambda>h. h) ?request =
        (Ok ((session0, task), q0) :: (_, (unit, unit, unit, bool, unit) ServerError) res)"
      and acc: "accept session0 = Some (SessionAccept_new (VarInt 0))"
    using r by (simp add: echo_run_conn_def Request_ok_def Session_new_ok(1) [OF example_connection_laws refl] id)
  have a: "accepts_bi slice_read (VarInt 0) ?p = Some (SendStream_new [], RecvStream_new [7])"
    by code_simp
  let ?session1 = "session0\<lparr>accept := Some (arrive_bi ?p (SessionAccept_new (VarInt 0)))\<rparr>"
  have s1: "echo_run example_connection example_quinn_send example_quinn_recv session0 ([] @ [?p]) [] ?session1"
    by (rule echo_run.arrive [OF echo_run.start acc])
  have rd: "QC_read_exact example_connection = slice_read" by (simp add: example_connection_def)
  have e: "echo_stream example_quinn_send example_quinn_recv (SendStream_new [], RecvStream_new [7]) =
      (Ok [7] :: (_, (unit, unit) session_anyhow) res)"
    by (simp add: echo_stream_def RecvStream_read_to_end_def SendStream_write_all_def example_quinn_send_def
        example_quinn_recv_def SendStream_new_def RecvStream_new_def err_into_def)
  obtain session where "echo_turn example_connection example_quinn_send example_quinn_recv (Echo_bi (\<lambda>_. Some 0)) ?session1
      ([], []) = (Some (Ok (Some ((SendStream_new [], RecvStream_new [7]), [7]))), session, ([], []))"
    using echo_turn_bi [of ?session1 "arrive_bi ?p (SessionAccept_new (VarInt 0))" example_connection "\<lambda>_. Some 0",
        OF _ poll_accept_bi_one [where ready = "\<lambda>_. Some 0", OF a refl, folded rd], of example_quinn_send example_quinn_recv]
      e by simp
  from echo_run.turn [OF s1 this]
  have run: "echo_run example_connection example_quinn_send example_quinn_recv session0 [?p]
      [((SendStream_new [], RecvStream_new [7]), [7])] session" by simp
  have w: "quinn_write_all_laws example_quinn_send (\<lambda>s. s)"
    by (simp add: quinn_write_all_laws_def example_quinn_send_def)
  have rte: "read_to_end_laws example_quinn_recv (\<lambda>r. r)"
    by (simp add: read_to_end_laws_def example_quinn_recv_def)
  from echo_server_faithful [OF example_connection_laws w rte conn run, unfolded rd]
  obtain sid acc' where t: "session_id session = Some sid" "accept session = Some acc'"
      "mset (map fst [((SendStream_new [], RecvStream_new [7]), [7 :: u8])]) + accepted (accepts_bi slice_read sid) (waiting_bi acc') =
        accepted (accepts_bi slice_read sid) [?p]"
    by (elim exE conjE) (rule that)
  have "accepted (accepts_bi slice_read sid) [?p] = {#} \<or> (\<exists>x. accepted (accepts_bi slice_read sid) [?p] = {#x#})"
    by (cases "accepts_bi slice_read sid ?p") (simp_all add: accepted_def List.map_filter_def)
  then have "accepted (accepts_bi slice_read sid) (waiting_bi acc') = {#}"
    using t(3) by (auto simp: add_eq_conv_ex)
  then show ?thesis using run t(1,2) by blast
qed

text \<open>
  C20. The echo programs work together. What the client writes on its stream, the server's next turn on
  the arm for streams accepts for the session; unless reading or writing fails it sends back exactly
  the message, and when the client has read what came back, it has its own message, and its close
  request with the code 42069 and the reason \<^verbatim>\<open>bye\<close> is queued for the peer.
\<close>

theorem echo_round_trip:
  fixes C :: "('q, 's, 'r, 'c, 'd) quinn_connection" and C' :: "('q2, 's2, 'r2, 'c2, 'd2) quinn_connection"
  assumes laws: "quinn_connection_laws C sent content" "quinn_connection_laws C' sent' content'"
      "quinn_write_all_laws Q sent" "quinn_write_all_laws Q' sent'" "quinn_close_laws Q sent"
      "read_to_end_laws R content" "read_to_end_laws R' content'" "mpsc_laws Ch view"
    and new: "Session_new C Ch settings connect = (Ok (self, task) :: (_, 'e) res)"
      "Session_new C' Ch' settings' connect' = (Ok (peer, task') :: (_, 'e2) res)"
    and same: "QC_stream_id C (connect_send connect) = QC_stream_id C' (connect_send connect')"
    and opened: "QC_open_bi C q = (Ok (s0, r0), q1)" "sent s0 = []"
    and sends: "echo_client_send C Q self q = (Ok (s, r), q2)"
    and arrives: "content' r' = sent s" "sent' s0' = []" "accept peer = Some acc" "ready [(s0', r')] = Some 0"
    and turn: "echo_turn C' Q' R' (Echo_bi ready) (peer\<lparr>accept := Some (arrive_bi (s0', r') acc)\<rparr>) u = (res, peer', u')"
  shows "res \<noteq> None \<and>
    (\<forall>out. res = Some (Ok out) \<longrightarrow>
       (\<exists>sr s1. out = Some (sr, s1) \<and> sent' s1 = str ''hello world'' \<and>
          (\<forall>reply v msg self' v'. content reply = sent' s1 \<and> echo_client_receive C R Ch self reply v = (Ok msg, self', v') \<longrightarrow>
             msg = str ''hello world'' \<and> v' = v \<and>
             (\<exists>ch'. close_tx self' = Some ch' \<and>
                queued (view ch') = [\<lparr>close_code = 42069, close_reason = str ''bye''\<rparr>]))))"
proof -
  define sid where "sid = VarInt (QC_stream_id C (connect_send connect))"
  have sid': "sid = VarInt (QC_stream_id C' (connect_send connect'))" unfolding sid_def same ..
  note me = Session_new_ok [OF laws(1) sid_def] and you = Session_new_ok [OF laws(2) sid']
  have hdr: "header_bi self = varint_wire (frame_type Frame_WEBTRANSPORT) @ varint_wire sid"
      and tx: "close_tx self = Some (Ch_channel Ch 1)"
    using new(1) by (auto simp: me(1))
  have acc: "acc = SessionAccept_new sid" using new(2) arrives(3) by (auto simp: you(1))
  have "content' r' = varint_wire (frame_type Frame_WEBTRANSPORT) @ varint_wire sid @ str ''hello world''"
    using echo_client_send_wire(1) [OF laws(3,5) opened sends] arrives(1) hdr by simp
  from accepts_bi_wire [OF quinn_reads [OF laws(2)] me(2) this, of s0']
  obtain r1 where a: "accepts_bi (QC_read_exact C') sid (s0', r') = Some (SendStream_new s0', RecvStream_new r1)"
      "content' r1 = str ''hello world''" by blast
  note t = echo_turn_bi [of "peer\<lparr>accept := Some (arrive_bi (s0', r') (SessionAccept_new sid))\<rparr>"
      "arrive_bi (s0', r') (SessionAccept_new sid)", OF _ poll_accept_bi_one [where ready = ready, OF a(1) arrives(4)], of Q' R' u]
  have res: "res = Some (map_ok (\<lambda>send. Some ((SendStream_new s0', RecvStream_new r1), send))
      (echo_stream Q' R' (SendStream_new s0', RecvStream_new r1)))"
    using t turn by (simp add: acc)
  show ?thesis
  proof (intro conjI allI impI)
    show "res \<noteq> None" by (simp add: res)
    fix out assume "res = Some (Ok out)"
    then obtain s1 where s1: "echo_stream Q' R' (SendStream_new s0', RecvStream_new r1) = (Ok s1 :: (_, ('c2, 'd2) session_anyhow) res)"
        "out = Some ((SendStream_new s0', RecvStream_new r1), s1)"
      by (auto simp: res)
    have sent1: "sent' s1 = str ''hello world''"
      using echo_stream_echoes [OF laws(4,7) s1(1)] arrives(2) a(2) by (simp add: SendStream_new_def RecvStream_new_def)
    have close: "v' = v \<and> (\<exists>ch'. close_tx self' = Some ch' \<and>
        queued (view ch') = [\<lparr>close_code = 42069, close_reason = str ''bye''\<rparr>])"
      if "Session_close C Ch self 42069 (str ''bye'') v = (self', v')" for v self' v'
    proof -
      have ch: "view (Ch_channel Ch 1) = \<lparr>queued = [], capacity = 1, senders = 1, receiver = True\<rparr>"
        using laws(8) unfolding mpsc_laws_def by blast
      have "utf8_valid (str ''bye'')" by (rule str_ascii) (simp add: str_def)
      then have "capsule_reason (take 1024 (str ''bye'')) = str ''bye''"
        by (simp add: capsule_reason_props(4) str_def)
      then show ?thesis
        using that by (cases rule: Session_close_queues [OF laws(8) tx, of C 42069 "str ''bye''" v])
          (auto simp: ch ch [unfolded One_nat_def])
    qed
    have "msg = str ''hello world'' \<and> v' = v \<and> (\<exists>ch'. close_tx self' = Some ch' \<and>
        queued (view ch') = [\<lparr>close_code = 42069, close_reason = str ''bye''\<rparr>])"
      if b: "content reply = sent' s1" "echo_client_receive C R Ch self reply v = (Ok msg, self', v')"
      for reply v msg self' v'
    proof -
      have m: "fst (RecvStream_read_to_end R 1024 reply) = (Ok msg :: (_, ('c, 'd) ReadToEndError) res)"
        and c: "Session_close C Ch self 42069 (str ''bye'') v = (self', v')"
        using b(2) by (auto simp: echo_client_receive_def split: res.splits)
      from read_to_end_Ok [OF laws(6) m] close [OF c] b(1) sent1 show ?thesis by simp
    qed
    then show "\<exists>sr s1. out = Some (sr, s1) \<and> sent' s1 = str ''hello world'' \<and>
          (\<forall>reply v msg self' v'. content reply = sent' s1 \<and> echo_client_receive C R Ch self reply v = (Ok msg, self', v') \<longrightarrow>
             msg = str ''hello world'' \<and> v' = v \<and>
             (\<exists>ch'. close_tx self' = Some ch' \<and>
                queued (view ch') = [\<lparr>close_code = 42069, close_reason = str ''bye''\<rparr>]))"
      using s1(2) sent1 by blast
  qed
qed

theorem echo_round_trip_witness:
  "\<exists>(self :: (unit, bytes, bytes, unit, CloseCommand channel_view) Session) task.
    Session_new example_connection example_mpsc \<lparr>settings_send = [], settings_recv = []\<rparr>
      \<lparr>connect_request = \<lparr>request_url = ()\<rparr>, connect_send = [], connect_recv = []\<rparr> = (Ok (self, task) :: (_, unit) res) \<and>
    fst (echo_turn example_connection example_quinn_send example_quinn_recv (Echo_bi (\<lambda>_. Some 0))
      (self\<lparr>accept := Some (arrive_bi ([], header_bi self @ str ''hello world'') (SessionAccept_new (VarInt 0)))\<rparr>) ([], []))
      \<noteq> (None :: (_, (unit, unit) session_anyhow) res option)"
proof -
  let ?connect = "\<lparr>connect_request = \<lparr>request_url = ()\<rparr>, connect_send = [] :: bytes, connect_recv = [] :: bytes\<rparr>"
  let ?settings = "\<lparr>settings_send = [] :: bytes, settings_recv = [] :: bytes\<rparr>"
  have id: "VarInt 0 = VarInt (QC_stream_id example_connection (connect_send ?connect))"
    by (simp add: example_connection_def)
  obtain self :: "(unit, bytes, bytes, unit, CloseCommand channel_view) Session" and task where
      new: "Session_new example_connection example_mpsc ?settings ?connect = (Ok (self, task) :: (_, unit) res)"
      and acc: "accept self = Some (SessionAccept_new (VarInt 0))"
    by (simp add: Session_new_ok(1) [OF example_connection_laws id])
  have w: "quinn_write_all_laws example_quinn_send (\<lambda>s. s)" "quinn_close_laws example_quinn_send (\<lambda>s. s)"
    by (simp_all add: quinn_write_all_laws_def quinn_close_laws_def example_quinn_send_def)
  have rte: "read_to_end_laws example_quinn_recv (\<lambda>r. r)"
    by (simp add: read_to_end_laws_def example_quinn_recv_def)
  have o: "QC_open_bi example_connection ([], []) = (Ok ([], []), ([], []))" by (simp add: example_connection_def)
  have s: "echo_client_send example_connection example_quinn_send self ([], []) =
      (Ok (header_bi self @ str ''hello world'', []), ([], []))"
    by (simp add: echo_client_send_def Session_open_bi_def write_header_def write_full_def SendStream_write_all_def
        SendStream_finish_def example_connection_def example_quinn_send_def ok_def SendStream_new_def RecvStream_new_def err_into_def)
  obtain res peer' u' where t: "echo_turn example_connection example_quinn_send example_quinn_recv (Echo_bi (\<lambda>_. Some 0))
      (self\<lparr>accept := Some (arrive_bi ([], header_bi self @ str ''hello world'') (SessionAccept_new (VarInt 0)))\<rparr>) ([], []) =
      (res :: (_, (unit, unit) session_anyhow) res option, peer', u')"
    by (metis prod.exhaust)
  have "res \<noteq> None"
    by (rule echo_round_trip [OF example_connection_laws example_connection_laws w(1) w(1,2) rte rte example_mpsc_laws
        new new refl o refl s refl refl acc _ t, THEN conjunct1]) simp
  then show ?thesis using new t by (intro exI [of _ self] exI [of _ task]) simp
qed

text \<open>
  C38. What the echo programs trust. With a generated pair saved in PEM, the server loads that
  certificate and key, and a client given the same certificate file has a verifier that accepts
  exactly the certificates with the digest of the server's. Without a file and without the flag that
  disables verification, a client whose target is not on this host uses the system's roots.
\<close>

theorem echo_programs_trust:
  fixes R :: "('prov, 'cb, 'roots, 'cert, 'tls, 'sb, 'chain, 'key, 'ck, 'sni, 'stls, 'te) rustls_api"
    and B :: "('tr, 'tls, 'qc, 'cfg, 'ep, 'stls, 'qs, 'scfg, 'addr) quinn_config"
    and P :: "('key, 'pe, 're, 'rng, 'gen, 'te) pki_api"
  assumes pki: "pki_laws P" and files: "fs cert = Ok (RC_cert_pem P gen)" "fs key = Ok (RC_key_pem P gen)"
    and provider: "CR_installed C = Some provider" and sha256: "find_sha256 C (CR_cipher_suites C provider) = Some hp"
  shows "(load_or_generate_certs P fs rng (Some cert) (Some key) :: (_, 'pe setup_anyhow) res) =
      Ok ([RC_cert_der P gen], PK_pkcs8 P (RC_key_der P gen)) \<and>
    (\<forall>endpoint client. echo_client_build P fs C R B T False (Some cert) url =
        (Ok (endpoint, client) :: (_, (('c, 'p, 'm, 'st, 'qe, 'te) ClientError, 'pe) client_setup) res) \<longrightarrow>
      (\<exists>builder quic. R_client_builder R provider = Ok builder \<and>
        QB_quic_client B (R_client_alpn R [ALPN] (R_custom_verifier R
          (ServerFingerprints provider [CR_hash C hp (RC_cert_der P gen)]) builder)) = Ok quic \<and>
        client_config client = QB_client_transport B (QB_default_transport B) (QB_client_config B quic))) \<and>
    (\<forall>end_entity. verifier_verify_server_cert C (ServerFingerprints provider [CR_hash C hp (RC_cert_der P gen)]) end_entity =
      (if CR_hash C hp end_entity = CR_hash C hp (RC_cert_der P gen) then Ok () else Err UnknownIssuer)) \<and>
    (\<not> is_localhost_url T url \<longrightarrow>
      (echo_client_build P fs C R B T False None url :: (_, (('c, 'p, 'm, 'st, 'qe, 'te) ClientError, 'pe) client_setup) res) =
        and_then (ClientBuilder_new C B) (\<lambda>builder. map_err EC_Client (ClientBuilder_with_system_roots R B builder)))"
proof (intro conjI allI impI)
  have chain: "(load_pem_certs P fs cert :: (_, 'pe setup_anyhow) res) = Ok [RC_cert_der P gen]"
    using pki files(1) by (simp add: load_pem_certs_def pki_laws_def)
  show "(load_or_generate_certs P fs rng (Some cert) (Some key) :: (_, 'pe setup_anyhow) res) =
      Ok ([RC_cert_der P gen], PK_pkcs8 P (RC_key_der P gen))"
    using pki files(2) chain by (simp add: load_or_generate_certs_def pki_laws_def)
  show "verifier_verify_server_cert C (ServerFingerprints provider [CR_hash C hp (RC_cert_der P gen)]) end_entity =
      (if CR_hash C hp end_entity = CR_hash C hp (RC_cert_der P gen) then Ok () else Err UnknownIssuer)" for end_entity
    using pinned_verifier [OF sha256, of "[RC_cert_der P gen]" end_entity] by simp
  fix endpoint client
  assume b: "echo_client_build P fs C R B T False (Some cert) url =
      (Ok (endpoint, client) :: (_, (('c, 'p, 'm, 'st, 'qe, 'te) ClientError, 'pe) client_setup) res)"
  let ?b = "\<lparr>cb_provider = provider, cb_transport = QB_default_transport B, cb_dns_timeout = None, cb_handshake_timeout = None\<rparr>"
  have "(ClientBuilder_with_server_certificates C R B [RC_cert_der P gen] ?b
      :: (_, ('c, 'p, 'm, 'st, 'qe, 'te) ClientError) res) = Ok (endpoint, client)"
    using b chain provider by (simp add: echo_client_build_def ClientBuilder_new_def default_provider_def)
  from ClientBuilder_pins [OF sha256 conjI, OF _ this]
  show "\<exists>builder quic. R_client_builder R provider = Ok builder \<and>
        QB_quic_client B (R_client_alpn R [ALPN] (R_custom_verifier R
          (ServerFingerprints provider [CR_hash C hp (RC_cert_der P gen)]) builder)) = Ok quic \<and>
        client_config client = QB_client_transport B (QB_default_transport B) (QB_client_config B quic)"
    by simp
qed (simp add: echo_client_build_def)

theorem echo_programs_trust_witness:
  "(load_or_generate_certs example_pki (\<lambda>path. if path = str ''cert.pem'' then Ok [0x2D, 1, 7] else Ok [0x2D, 2, 7]) []
     (Some (str ''cert.pem'')) (Some (str ''key.pem'')) :: (_, unit setup_anyhow) res) = Ok ([[1, 7]], [2, 7])"
proof -
  let ?fs = "\<lambda>path. if path = str ''cert.pem'' then Ok [0x2D, 1, 7] else Ok [0x2D, 2, 7]"
  have f: "?fs (str ''cert.pem'') = Ok (RC_cert_pem example_pki [7])" "?fs (str ''key.pem'') = Ok (RC_key_pem example_pki [7])"
    by (simp_all add: example_pki_def str_def)
  have c: "CR_installed example_crypto = Some ()" "find_sha256 example_crypto (CR_cipher_suites example_crypto ()) = Some ()"
    by (simp_all add: example_crypto_def)
  from echo_programs_trust [OF example_pki_laws f c, THEN conjunct1] show ?thesis by (simp add: example_pki_def)
qed

end
