(* ===== verification/Demo.thy ===== *)
theory Demo
  imports Fuzz_Targets Wasm_Session
begin

section \<open>The browser demo\<close>

text \<open>
  \<^verbatim>\<open>webtrans-wasm-demo/src/lib.rs\<close>: a page with one session at most, buttons that connect, close and
  send, and a log. The elements of the page are taken to be there. A handler runs from its click to
  its end as one operation on the page; the polls of the streams inside it take fuel.
\<close>

subsection \<open>The page\<close>

record 'z page =
  page_session :: "'z option"
  page_log :: bytes

text \<open>
  What the page runs on: the browser, \<^verbatim>\<open>web_streams\<close>, URL parsing with the text of its errors, the text of
  a URL, the default options and the debug format of JavaScript values.
\<close>

record ('j, 't, 'ws, 'u, 'p, 'q, 'w, 'b, 'qs, 'o, 'k, 'ru, 'rb, 'rd, 'wd, 'r, 's) demo_env =
  D_errors :: "('j, 't, 'ws) js_errors"
  D_url :: "('u, 'p) url_api"
  D_url_error :: "'p \<Rightarrow> bytes"
  D_as_str :: "'u \<Rightarrow> bytes"
  D_transport :: "('q, 'w, 'b, 'qs, 'j, 'o, 'k) web_transport"
  D_uni :: "('qs, 'ru, 'w, 'j, 'ws) web_reader"
  D_bi :: "('qs, 'rb, 'b, 'j, 'ws) web_reader"
  D_datagrams :: "('qs, 'rd, bytes, 'j, 'ws) web_reader"
  D_datagram_writer :: "('qs, 'wd, 'j, 'ws) web_writer"
  D_reader :: "('w, 'r, bytes, 'j, 'ws) web_reader"
  D_writer :: "('w, 's, 'j, 'ws) web_writer"
  D_drive :: "('w, 's) wasm_SendStream futures_write_all"
  D_options :: 'o
  D_debug :: "'j \<Rightarrow> bytes"

definition demo_log :: "bytes \<Rightarrow> 'z page \<Rightarrow> 'z page" where
  "demo_log msg st = st\<lparr>page_log := page_log st @ msg @ [0x0A]\<rparr>"

definition set_session :: "'z \<Rightarrow> 'z page \<Rightarrow> 'z page" where
  "set_session session st = st\<lparr>page_session := Some session\<rparr>"

text \<open>A JavaScript value made of a text.\<close>

definition get_session :: "(bytes \<Rightarrow> 'j) \<Rightarrow> 'z page \<Rightarrow> ('z, 'j) res" where
  "get_session js st = ok_or (js (str ''not connected'')) (page_session st)"

subsection \<open>Fingerprints\<close>

definition is_ascii_hexdigit :: "bytes \<Rightarrow> bool" where
  "is_ascii_hexdigit c = (case c of [b] \<Rightarrow> hex_digit b \<noteq> None | _ \<Rightarrow> False)"

text \<open>The loop over the pairs; an index out of bounds and a failed \<^verbatim>\<open>unwrap\<close> panic.\<close>

fun hex_pairs :: "bytes \<Rightarrow> (bytes, 'j) res" where
  "hex_pairs [] = Ok []"
| "hex_pairs [a] = Panic"
| "hex_pairs (a # b # rest) =
     (case (hex_digit a, hex_digit b) of
        (Some hi, Some lo) \<Rightarrow>
          map_ok (\<lambda>out. ucast (or (push_bit 4 (of_nat hi :: u32)) (of_nat lo)) # out) (hex_pairs rest)
      | _ \<Rightarrow> Panic)"

definition parse_hex_bytes :: "(bytes \<Rightarrow> 'j) \<Rightarrow> bytes \<Rightarrow> (bytes, 'j) res" where
  "parse_hex_bytes js input =
     (let s = concat (filter is_ascii_hexdigit (chars input)) in
      if length s mod 2 \<noteq> 0 then Err (js (str ''hex length must be even'')) else hex_pairs s)"

subsection \<open>Connecting and closing\<close>

definition error_value :: "('j, 't, 'ws) js_errors \<Rightarrow> ('j, 't, 'ws) wasm_Error \<Rightarrow> 'j" where
  "error_value E e = JS_string E (JS_display E e)"

definition demo_connect :: "('j, 't, 'ws, 'u, 'p, 'q, 'w, 'b, 'qs, 'o, 'k, 'ru, 'rb, 'rd, 'wd, 'r, 's) demo_env \<Rightarrow>
    'o wasm_Client \<Rightarrow> 'u \<Rightarrow> (('q, 'u, 'ru, 'rb, 'rd, 'wd) wasm_Session, 'j) res" where
  "demo_connect D client url =
     map_err (error_value (D_errors D)) (wasm_Client_connect (D_errors D) (D_as_str D) (D_transport D)
       (D_uni D) (D_bi D) (D_datagrams D) (D_datagram_writer D) client url)"

definition demo_parse_url :: "('j, 't, 'ws, 'u, 'p, 'q, 'w, 'b, 'qs, 'o, 'k, 'ru, 'rb, 'rd, 'wd, 'r, 's) demo_env \<Rightarrow>
    bytes \<Rightarrow> ('u, 'j) res" where
  "demo_parse_url D url =
     map_err (\<lambda>e. JS_string (D_errors D) (str ''invalid url: '' @ D_url_error D e)) (Url_parse (D_url D) url)"

definition connect_system :: "('j, 't, 'ws, 'u, 'p, 'q, 'w, 'b, 'qs, 'o, 'k, 'ru, 'rb, 'rd, 'wd, 'r, 's) demo_env \<Rightarrow>
    bytes \<Rightarrow> ('q, 'u, 'ru, 'rb, 'rd, 'wd) wasm_Session page \<Rightarrow>
    (unit, 'j) res \<times> ('q, 'u, 'ru, 'rb, 'rd, 'wd) wasm_Session page" where
  "connect_system D url st =
     (case and_then (demo_parse_url D url) (\<lambda>url.
           let client = wasm_with_system_roots \<lparr>builder_options = D_options D\<rparr> in demo_connect D client url) of
        Ok session \<Rightarrow> (Ok (), set_session session st)
      | Err e \<Rightarrow> (Err e, st)
      | Panic \<Rightarrow> (Panic, st))"

definition connect_pin :: "('j, 't, 'ws, 'u, 'p, 'q, 'w, 'b, 'qs, 'o, 'k, 'ru, 'rb, 'rd, 'wd, 'r, 's) demo_env \<Rightarrow>
    bytes \<Rightarrow> bytes \<Rightarrow> ('q, 'u, 'ru, 'rb, 'rd, 'wd) wasm_Session page \<Rightarrow>
    (unit, 'j) res \<times> ('q, 'u, 'ru, 'rb, 'rd, 'wd) wasm_Session page" where
  "connect_pin D url sha256_hex st =
     (case and_then (demo_parse_url D url) (\<lambda>url.
           and_then (parse_hex_bytes (JS_string (D_errors D)) sha256_hex) (\<lambda>fp.
             if length fp \<noteq> 32 then
               Err (JS_string (D_errors D) (str ''sha256 fingerprint must be 32 bytes (64 hex chars)''))
             else
               let client = wasm_with_server_certificate_hashes (D_transport D) [fp] \<lparr>builder_options = D_options D\<rparr>
               in demo_connect D client url)) of
        Ok session \<Rightarrow> (Ok (), set_session session st)
      | Err e \<Rightarrow> (Err e, st)
      | Panic \<Rightarrow> (Panic, st))"

text \<open>The session is closed and forgotten; what is left of it is the second component.\<close>

definition demo_close :: "('q, 'w, 'b, 'qs, 'j, 'o, 'k) web_transport \<Rightarrow>
    ('q, 'u, 'ru, 'rb, 'rd, 'wd) wasm_Session page \<Rightarrow>
    ('q, 'u, 'ru, 'rb, 'rd, 'wd) wasm_Session page \<times> ('q, 'u, 'ru, 'rb, 'rd, 'wd) wasm_Session option" where
  "demo_close T st =
     (st\<lparr>page_session := None\<rparr>, map_option (wasm_Session_close T 0 (str ''bye'')) (page_session st))"

subsection \<open>Echoes\<close>

text \<open>
  The session that a handler changed is the one of the page: clones share their state. \<^const>\<open>None\<close> when the
  fuel has run out.
\<close>

definition with_session :: "('z \<Rightarrow> ((bytes, 'j) res \<times> 'z) option) \<Rightarrow> (bytes \<Rightarrow> 'j) \<Rightarrow> bytes \<Rightarrow> 'z page \<Rightarrow>
    ((unit, 'j) res \<times> 'z page) option" where
  "with_session f js tag st =
     (case get_session js st of
        Err e \<Rightarrow> Some (Err e, st)
      | Panic \<Rightarrow> Some (Panic, st)
      | Ok session \<Rightarrow>
          map_option (\<lambda>(r, session). case r of
             Ok text \<Rightarrow> (Ok (), demo_log (tag @ from_utf8_lossy text) (set_session session st))
           | Err e \<Rightarrow> (Err e, set_session session st)
           | Panic \<Rightarrow> (Panic, set_session session st)) (f session))"

definition bi_exchange :: "('j, 't, 'ws, 'u, 'p, 'q, 'w, 'b, 'qs, 'o, 'k, 'ru, 'rb, 'rd, 'wd, 'r, 's) demo_env \<Rightarrow> nat \<Rightarrow>
    ('q, 'u, 'ru, 'rb, 'rd, 'wd) wasm_Session \<Rightarrow>
    ((bytes, 'j) res \<times> ('q, 'u, 'ru, 'rb, 'rd, 'wd) wasm_Session) option" where
  "bi_exchange D fuel session =
     (let E = D_errors D in
      case wasm_Session_open_bi E (D_transport D) (D_reader D) (D_writer D) session of
        (Err e, session) \<Rightarrow> Some (Err (error_value E e), session)
      | (Panic, session) \<Rightarrow> Some (Panic, session)
      | (Ok (send, recv), session) \<Rightarrow>
          (case wasm_SendStream_write E (D_writer D) (D_drive D) fuel (str ''hello world'') send of
             None \<Rightarrow> None
           | Some (Err e, _) \<Rightarrow> Some (Err (error_value E e), session)
           | Some (Panic, _) \<Rightarrow> Some (Panic, session)
           | Some (Ok _, send) \<Rightarrow>
               (case fst (wasm_SendStream_finish E (D_writer D) send) of
                  Err e \<Rightarrow> Some (Err (error_value E e), session)
                | Panic \<Rightarrow> Some (Panic, session)
                | Ok _ \<Rightarrow>
                    map_option (\<lambda>(r, _).
                      (and_then (map_err (error_value E) r)
                        (\<lambda>data_opt. ok_or (JS_string E (str ''stream closed'')) data_opt), session))
                      (wasm_RecvStream_read E (D_reader D) fuel 1024 recv))))"

definition bi_echo :: "('j, 't, 'ws, 'u, 'p, 'q, 'w, 'b, 'qs, 'o, 'k, 'ru, 'rb, 'rd, 'wd, 'r, 's) demo_env \<Rightarrow> nat \<Rightarrow>
    ('q, 'u, 'ru, 'rb, 'rd, 'wd) wasm_Session page \<Rightarrow>
    ((unit, 'j) res \<times> ('q, 'u, 'ru, 'rb, 'rd, 'wd) wasm_Session page) option" where
  "bi_echo D fuel st = with_session (bi_exchange D fuel) (JS_string (D_errors D)) (str ''[bi] recv: '') st"

definition datagram_exchange :: "('j, 't, 'ws, 'u, 'p, 'q, 'w, 'b, 'qs, 'o, 'k, 'ru, 'rb, 'rd, 'wd, 'r, 's) demo_env \<Rightarrow> nat \<Rightarrow>
    ('q, 'u, 'ru, 'rb, 'rd, 'wd) wasm_Session \<Rightarrow>
    ((bytes, 'j) res \<times> ('q, 'u, 'ru, 'rb, 'rd, 'wd) wasm_Session) option" where
  "datagram_exchange D fuel session =
     (let E = D_errors D in
      case await_poll fuel (wasm_Session_send_datagram (D_datagram_writer D) (str ''hello datagram'')) session of
        None \<Rightarrow> None
      | Some (Err e, session) \<Rightarrow> Some (Err (error_value E e), session)
      | Some (Panic, session) \<Rightarrow> Some (Panic, session)
      | Some (Ok _, session) \<Rightarrow>
          map_option (apfst (map_err (error_value E)))
            (await_poll fuel (wasm_Session_recv_datagram E (D_transport D) (D_datagrams D)) session))"

definition datagram_echo :: "('j, 't, 'ws, 'u, 'p, 'q, 'w, 'b, 'qs, 'o, 'k, 'ru, 'rb, 'rd, 'wd, 'r, 's) demo_env \<Rightarrow> nat \<Rightarrow>
    ('q, 'u, 'ru, 'rb, 'rd, 'wd) wasm_Session page \<Rightarrow>
    ((unit, 'j) res \<times> ('q, 'u, 'ru, 'rb, 'rd, 'wd) wasm_Session page) option" where
  "datagram_echo D fuel st =
     with_session (datagram_exchange D fuel) (JS_string (D_errors D)) (str ''[dgram] recv: '') st"

subsection \<open>Buttons\<close>

text \<open>What \<^verbatim>\<open>start\<close> wires up: each click with the values of the inputs, ending in a line of the log.\<close>

datatype demo_click = Click_connect_system bytes | Click_connect_pin bytes bytes | Click_close
  | Click_bistream | Click_datagram

definition demo_report :: "('j \<Rightarrow> bytes) \<Rightarrow> bytes \<Rightarrow> bytes \<Rightarrow> (unit, 'j) res \<times> 'z page \<Rightarrow> ('z page, 'e) res" where
  "demo_report debug done_msg err_msg r =
     (case r of
        (Ok _, st) \<Rightarrow> Ok (demo_log done_msg st)
      | (Err e, st) \<Rightarrow> Ok (demo_log (err_msg @ debug e) st)
      | (Panic, st) \<Rightarrow> Panic)"

definition demo_click :: "('j, 't, 'ws, 'u, 'p, 'q, 'w, 'b, 'qs, 'o, 'k, 'ru, 'rb, 'rd, 'wd, 'r, 's) demo_env \<Rightarrow> nat \<Rightarrow>
    demo_click \<Rightarrow> ('q, 'u, 'ru, 'rb, 'rd, 'wd) wasm_Session page \<Rightarrow>
    (('q, 'u, 'ru, 'rb, 'rd, 'wd) wasm_Session page, 'e) res option" where
  "demo_click D fuel click st =
     (case click of
        Click_connect_system url \<Rightarrow>
          Some (demo_report (D_debug D) (str ''[connect system] ok: '' @ url) (str ''[connect system] err: '')
            (connect_system D url st))
      | Click_connect_pin url hash \<Rightarrow>
          Some (demo_report (D_debug D) (str ''[connect pin] ok: '' @ url) (str ''[connect pin] err: '')
            (connect_pin D url hash st))
      | Click_close \<Rightarrow> Some (Ok (demo_log (str ''[close] requested'') (fst (demo_close (D_transport D) st))))
      | Click_bistream \<Rightarrow>
          map_option (demo_report (D_debug D) (str ''[bi] ok'') (str ''[bi] err: '')) (bi_echo D fuel st)
      | Click_datagram \<Rightarrow>
          map_option (demo_report (D_debug D) (str ''[dgram] ok'') (str ''[dgram] err: '')) (datagram_echo D fuel st))"

definition demo_start :: "bytes \<Rightarrow> 'z page" where
  "demo_start text = demo_log (str ''ready'') \<lparr>page_session = None, page_log = text\<rparr>"

subsection \<open>Parsing fingerprints\<close>

lemma hex_pairs_total:
  assumes "even (length s)" and "\<forall>b \<in> set s. hex_digit b \<noteq> None"
  shows "\<exists>out. hex_pairs s = (Ok out :: (_, 'j) res) \<and> length out = length s div 2"
  using assms by (induction s rule: hex_pairs.induct) (fastforce split: option.splits)+

lemma hex_byte: "ucast (or (push_bit 4 (of_nat (unat b div 16) :: u32)) (of_nat (unat b mod 16))) = (b :: u8)"
proof -
  have "list_all (\<lambda>n. ucast (or (push_bit 4 (of_nat (n div 16) :: u32)) (of_nat (n mod 16))) = (of_nat n :: u8)) [0..<256]"
    by code_simp
  moreover have "unat b \<in> set [0..<256]" using unat_u8_less [of b] by simp
  ultimately have "ucast (or (push_bit 4 (of_nat (unat b div 16) :: u32)) (of_nat (unat b mod 16))) = (of_nat (unat b) :: u8)"
    unfolding list_all_iff by (rule bspec)
  then show ?thesis by simp
qed

lemma hex_pairs_text: "hex_pairs (hex_text bs) = (Ok bs :: (_, 'j) res)"
proof (induction bs)
  case (Cons b bs)
  have lt: "unat b div 16 < 16" "unat b mod 16 < 16" using unat_u8_less [of b] by auto
  have "hex_text (b # bs) = hex_nibble (unat b div 16) # hex_nibble (unat b mod 16) # hex_text bs"
    by (simp add: hex_text_def)
  then show ?case using Cons hex_byte [of b] hex_nibble_props(1) [OF lt(1)] hex_nibble_props(1) [OF lt(2)] by simp
qed (simp add: hex_text_def)

text \<open>The digits of a text, whatever else is in it.\<close>

abbreviation hex_digits :: "bytes \<Rightarrow> bytes" where
  "hex_digits input \<equiv> concat (filter is_ascii_hexdigit (chars input))"

lemma hex_digits_only: "\<forall>b \<in> set (hex_digits input). hex_digit b \<noteq> None"
  by (auto simp: is_ascii_hexdigit_def split: list.splits)

lemma parse_hex_bytes_cases:
  "(odd (length (hex_digits input)) \<longrightarrow> parse_hex_bytes js input = Err (js (str ''hex length must be even''))) \<and>
   (even (length (hex_digits input)) \<longrightarrow>
     (\<exists>fp. parse_hex_bytes js input = Ok fp \<and> length fp = length (hex_digits input) div 2)) \<and>
   (hex_digits input = hex_text fp \<longrightarrow> parse_hex_bytes js input = Ok fp)"
  using hex_pairs_total [OF _ hex_digits_only, of input, where ?'j = 'a]
  by (auto simp: parse_hex_bytes_def Let_def hex_pairs_text hex_text_length odd_iff_mod_2_eq_one even_iff_mod_2_eq_zero)

text \<open>A page over streams that are lists.\<close>

definition example_demo :: "(unit, unit, unit, bool, unit, unit, bytes, bytes, bytes list, unit, unit, bytes list,
    bytes list, bytes list, bytes list, bytes, bytes) demo_env" where
  "example_demo = \<lparr>D_errors = example_js, D_url = example_url_api, D_url_error = (\<lambda>_. []), D_as_str = (\<lambda>_. []),
     D_transport = example_transport, D_uni = example_reader, D_bi = example_reader, D_datagrams = example_reader,
     D_datagram_writer = \<lparr>WW_new = Ok, WW_poll_write = (\<lambda>bs r. (Poll_Ready (Ok ()), r @ [bs])), WW_abort = (\<lambda>_ r. r),
       WW_close = (\<lambda>r. r), WW_closed = (\<lambda>_. Ok ()), WW_abort_stream = (\<lambda>_ w. w), WW_set_order = (\<lambda>_ w. Ok w)\<rparr>,
     D_reader = \<lparr>WR_new = Ok, WR_poll_read = (\<lambda>r. (Poll_Ready (Ok (if r = [] then None else Some r)), [])),
       WR_abort = (\<lambda>_ _. []), WR_closed = (\<lambda>_. Ok ()), WR_cancel = (\<lambda>_ w. w)\<rparr>,
     D_writer = example_writer, D_drive = example_drive, D_options = (), D_debug = (\<lambda>_. [])\<rparr>"

subsection \<open>Property\<close>

lemma ok_or_cases: "ok_or e x = (case x of Some y \<Rightarrow> Ok y | None \<Rightarrow> Err e)"
  by (cases x) simp_all

text \<open>What a client that connected has asked of the browser.\<close>

lemma demo_connect_Ok:
  assumes "demo_connect D client url = (Ok session :: (_, 'j) res)"
  obtains inner inner' where "WT_new (D_transport D) (D_as_str D url) (client_options client) = Ok inner"
    and "WT_ready (D_transport D) inner = (Ok (), inner')" and "session_inner session = inner'" and "wasm_url session = url"
proof -
  obtain inner where n: "WT_new (D_transport D) (D_as_str D url) (client_options client) = Ok inner"
    using assms by (auto simp: demo_connect_def wasm_Client_connect_def)
  obtain r inner' where r: "WT_ready (D_transport D) inner = (r, inner')" by (metis prod.exhaust)
  then show thesis using assms n by (auto simp: demo_connect_def wasm_Client_connect_def wasm_Session_new_def intro: that)
qed

text \<open>
  C37. The page connects to a pinned server only with a fingerprint, and forgets a session that is
  closed. The text of a fingerprint is read by its hexadecimal digits alone, whatever separates
  them; an odd number of digits is refused, and reading never panics. Unless it spells exactly 32
  bytes, the page is left as it was and the browser is not asked to connect. When connecting
  succeeds, the browser was given this fingerprint as the only hash, under SHA-256, and the session
  it made is the one of the page; when it fails, the page is left as it was. Closing gives the session the
  code 0 and the reason \<^verbatim>\<open>bye\<close>, and both echoes are refused after it.
\<close>

theorem demo_pins_and_forgets:
  fixes D :: "('j, 't, 'ws, 'u, 'p, 'q, 'w, 'b, 'qs, 'o, 'k, 'ru, 'rb, 'rd, 'wd, 'r, 's) demo_env"
    and js :: "bytes \<Rightarrow> 'j"
  assumes "js = JS_string (D_errors D)"
    and pin: "connect_pin D url hash st = (res, st')"
    and close: "demo_close (D_transport D) st = (gone, left)"
  shows "(parse_hex_bytes js hash =
      (if odd (length (hex_digits hash)) then Err (js (str ''hex length must be even''))
       else hex_pairs (hex_digits hash))) \<and> parse_hex_bytes js hash \<noteq> Panic \<and>
    (\<forall>fp. hex_digits hash = hex_text fp \<longrightarrow> parse_hex_bytes js hash = Ok fp) \<and>
    (length (hex_digits hash) \<noteq> 64 \<longrightarrow> res \<noteq> Ok () \<and> (\<forall>T. connect_pin (D\<lparr>D_transport := T\<rparr>) url hash st = (res, st'))) \<and>
    (res \<noteq> Ok () \<longrightarrow> st' = st) \<and>
    (res = Ok () \<longrightarrow> (\<exists>fp u inner inner' session. Url_parse (D_url D) url = Ok u \<and>
       parse_hex_bytes js hash = Ok fp \<and> length fp = 32 \<and>
       WT_new (D_transport D) (D_as_str D u) (WT_set_server_certificate_hashes (D_transport D)
         [WT_hash (D_transport D) (str ''sha-256'') fp] (D_options D)) = Ok inner \<and>
       WT_ready (D_transport D) inner = (Ok (), inner') \<and>
       st' = st\<lparr>page_session := Some session\<rparr> \<and> session_inner session = inner')) \<and>
    gone = st\<lparr>page_session := None\<rparr> \<and>
    (\<forall>session. page_session st = Some session \<longrightarrow>
       left = Some (session\<lparr>session_inner := WT_close (D_transport D)
         \<lparr>close_code_of = Some 0, close_reason_of = Some (str ''bye'')\<rparr> (session_inner session)\<rparr>)) \<and>
    bi_echo D fuel gone = Some (Err (js (str ''not connected'')), gone) \<and>
    datagram_echo D fuel gone = Some (Err (js (str ''not connected'')), gone)"
proof (intro conjI allI impI)
  note p = parse_hex_bytes_cases [of hash js]
  show "parse_hex_bytes js hash = (if odd (length (hex_digits hash)) then Err (js (str ''hex length must be even''))
       else hex_pairs (hex_digits hash))"
    by (simp add: parse_hex_bytes_def Let_def odd_iff_mod_2_eq_one)
  show "parse_hex_bytes js hash \<noteq> Panic" using p by (cases "odd (length (hex_digits hash))") auto
  show "parse_hex_bytes js hash = Ok fp" if "hex_digits hash = hex_text fp" for fp
    using parse_hex_bytes_cases [of hash js fp] that by simp
  let ?fp = "parse_hex_bytes js hash"
  have short: "length fp \<noteq> 32" if "length (hex_digits hash) \<noteq> 64" "?fp = Ok fp" for fp
    using p that by (cases "odd (length (hex_digits hash))") auto
  {
    assume n: "length (hex_digits hash) \<noteq> 64"
    have same: "connect_pin (D\<lparr>D_transport := T\<rparr>) url hash st = connect_pin D url hash st" for T
      using short [OF n] unfolding assms(1)
      by (cases "Url_parse (D_url D) url"; cases "parse_hex_bytes (JS_string (D_errors D)) hash")
        (auto simp: connect_pin_def demo_parse_url_def)
    then show "connect_pin (D\<lparr>D_transport := T\<rparr>) url hash st = (res, st')" for T using pin by simp
    show "res \<noteq> Ok ()"
      using pin short [OF n] unfolding assms(1)
      by (auto simp: connect_pin_def Let_def split: res.splits if_splits)
  }
  show "st' = st" if "res \<noteq> Ok ()" using pin that by (auto simp: connect_pin_def split: res.splits)
  show "\<exists>fp u inner inner' session. Url_parse (D_url D) url = Ok u \<and>
       parse_hex_bytes js hash = Ok fp \<and> length fp = 32 \<and>
       WT_new (D_transport D) (D_as_str D u) (WT_set_server_certificate_hashes (D_transport D)
         [WT_hash (D_transport D) (str ''sha-256'') fp] (D_options D)) = Ok inner \<and>
       WT_ready (D_transport D) inner = (Ok (), inner') \<and>
       st' = st\<lparr>page_session := Some session\<rparr> \<and> session_inner session = inner'"
    if ok: "res = Ok ()"
  proof -
    from pin ok obtain u fp session where c: "Url_parse (D_url D) url = Ok u" "?fp = Ok fp" "length fp = 32"
        "demo_connect D (wasm_with_server_certificate_hashes (D_transport D) [fp] \<lparr>builder_options = D_options D\<rparr>) u = Ok session"
        "st' = set_session session st"
      unfolding assms(1) by (auto simp: connect_pin_def demo_parse_url_def Let_def split: res.splits if_splits)
    show ?thesis
      using c by (elim demo_connect_Ok) (auto simp: wasm_with_server_certificate_hashes_def set_session_def)
  qed
  show "gone = st\<lparr>page_session := None\<rparr>" using close by (simp add: demo_close_def)
  show "left = Some (session\<lparr>session_inner := WT_close (D_transport D)
         \<lparr>close_code_of = Some 0, close_reason_of = Some (str ''bye'')\<rparr> (session_inner session)\<rparr>)"
    if "page_session st = Some session" for session
    using close that by (auto simp: demo_close_def wasm_Session_close_def Let_def)
  show "bi_echo D fuel gone = Some (Err (js (str ''not connected'')), gone)"
    "datagram_echo D fuel gone = Some (Err (js (str ''not connected'')), gone)"
    using close unfolding assms(1)
    by (auto simp: demo_close_def bi_echo_def datagram_echo_def with_session_def get_session_def ok_or_cases)
qed

theorem demo_pins_and_forgets_witness:
  "parse_hex_bytes (\<lambda>_. ()) (str ''0a:1b'') = Ok [0x0A, 0x1B] \<and>
   bi_echo example_demo 3 \<lparr>page_session = None, page_log = []\<rparr> =
     Some (Err (), \<lparr>page_session = None, page_log = []\<rparr>)"
proof -
  have js: "(\<lambda>_. ()) = JS_string (D_errors example_demo)" by (simp add: example_demo_def example_js_def)
  let ?st = "\<lparr>page_session = None, page_log = []\<rparr>"
  obtain res st' where pin: "connect_pin example_demo (str ''https://a.b/'') (str ''0a:1b'') ?st = (res, st')"
    by (metis prod.exhaust)
  have close: "demo_close (D_transport example_demo) ?st = (?st, None)" by (simp add: demo_close_def)
  have digits: "hex_digits (str ''0a:1b'') = hex_text [0x0A, 0x1B]" by code_simp
  note t = demo_pins_and_forgets [OF js pin close]
  have "parse_hex_bytes (\<lambda>_. ()) (str ''0a:1b'') = Ok [0x0A, 0x1B]"
    using t [THEN conjunct2, THEN conjunct2, THEN conjunct1] digits by simp
  moreover have "bi_echo example_demo 3 ?st = Some (Err (), ?st)"
    by (rule t [THEN conjunct2, THEN conjunct2, THEN conjunct2, THEN conjunct2, THEN conjunct2, THEN conjunct2,
        THEN conjunct2, THEN conjunct2, THEN conjunct1])
  ultimately show ?thesis by simp
qed

end
