(* ===== verification/Spec2Isabelle.thy ===== *)
theory Spec2Isabelle
  imports Prelude Var_Int H3_Frames Error_Codes Frame_Reader Settings Utf8 Capsules Huffman_Table
    Huffman Static_Table Prefix_Int Qpack Connect Traits Quinn_Error Quinn_Streams Capsule_Stream
    Session_Accept Quinn_Handshake Session Session_Lifecycle Quinn_Endpoints Quion_Error
    Quion_Streams Quion_Handshake Quion_Accept Quion_Session Quion_Endpoints Backends
    Quion_Lifecycle Builders Tls Wasm_Streams Wasm_Session Fuzz_Targets
    Echo Demo
begin

text \<open>
  A model of \<^verbatim>\<open>webtrans\<close>, a WebTransport library over HTTP/3 and QUIC, and proofs about it. The
  definitions follow the Rust sources under \<^verbatim>\<open>src/\<close>.

  \<^bold>\<open>The program.\<close> \<^verbatim>\<open>webtrans-proto\<close> holds the wire formats: variable-length integers, frames and
  stream types, SETTINGS, QPACK header blocks, the CONNECT request and response, capsules, and the
  mapping of application codes into the HTTP/3 error space. \<^verbatim>\<open>webtrans-trait\<close> defines the stream and
  session traits with default methods. \<^verbatim>\<open>webtrans-quinn\<close> and \<^verbatim>\<open>webtrans-quion\<close> implement them over a
  QUIC library each: a client and a server exchange SETTINGS and CONNECT, a session opens and accepts
  streams that start with its header, and a task on the CONNECT stream carries close capsules both
  ways. \<^verbatim>\<open>webtrans-wasm\<close> implements the traits over the WebTransport object of a browser, which runs the
  protocol itself.

  \<^bold>\<open>Which theory models what.\<close>
  \<^item> \<open>Prelude\<close>: results with a panic, byte strings, I/O errors, readers (\<open>reads_exactly\<close>), hash maps as
    association lists with an iteration order, the locale of wire codecs and of streams.
  \<^item> \<open>Var_Int\<close>: \<^verbatim>\<open>varint.rs\<close>. \<open>H3_Frames\<close>: \<^verbatim>\<open>frame.rs\<close>, \<^verbatim>\<open>stream.rs\<close>, \<^verbatim>\<open>grease.rs\<close>. \<open>Error_Codes\<close>: \<^verbatim>\<open>error.rs\<close>.
    \<open>Frame_Reader\<close>: the reading loop that SETTINGS, CONNECT and capsules share. \<open>Settings\<close>:
    \<^verbatim>\<open>settings.rs\<close>. \<open>Utf8\<close>: the parts of the string library in use. \<open>Capsules\<close>: \<^verbatim>\<open>capsule.rs\<close>.
  \<^item> \<open>Huffman_Table\<close>, \<open>Huffman\<close>: \<^verbatim>\<open>huffman.rs\<close>. \<open>Static_Table\<close>, \<open>Prefix_Int\<close>, \<open>Qpack\<close>: \<^verbatim>\<open>qpack.rs\<close>.
    \<open>Connect\<close>: \<^verbatim>\<open>connect.rs\<close>.
  \<^item> \<open>Traits\<close>: the default methods of \<^verbatim>\<open>webtrans-trait/src/lib.rs\<close>; the locales \<open>send_stream\<close> and
    \<open>recv_stream\<close> are the contracts of an implementation.
  \<^item> \<open>Quinn_Error\<close>, \<open>Quinn_Streams\<close>: \<^verbatim>\<open>error.rs\<close>, \<^verbatim>\<open>send.rs\<close>, \<^verbatim>\<open>recv.rs\<close> of \<^verbatim>\<open>webtrans-quinn\<close>.
    \<open>Quinn_Handshake\<close>: its \<^verbatim>\<open>settings.rs\<close> and \<^verbatim>\<open>connect.rs\<close>. \<open>Capsule_Stream\<close>, \<open>Session_Accept\<close>,
    \<open>Session\<close>, \<open>Session_Lifecycle\<close>: its \<^verbatim>\<open>session.rs\<close>, that is the capsules on the CONNECT stream, the
    accepting machine, the session's methods and task, and their interplay as a step relation.
    \<open>Quinn_Endpoints\<close>: its \<^verbatim>\<open>client.rs\<close> and \<^verbatim>\<open>server.rs\<close>.
  \<^item> \<open>Quion_Error\<close>, \<open>Quion_Streams\<close>, \<open>Quion_Handshake\<close>, \<open>Quion_Accept\<close>, \<open>Quion_Session\<close>,
    \<open>Quion_Endpoints\<close>: the same files of \<^verbatim>\<open>webtrans-quion\<close>, whose accepting machine is part of its
    \<^verbatim>\<open>session.rs\<close>, and the guard of its \<^verbatim>\<open>lib.rs\<close>. Where the two backends do the same, abstractions
    (\<open>quinn_of\<close>, \<open>quinn_accept_of\<close>, \<open>quinn_request_of\<close>) show that one refines the other. \<open>Backends\<close>: a
    session of one backend facing a session of the other. \<open>Quion_Lifecycle\<close>: the handles, the queue, the
    recorded error and the tasks of a Quion session, raw ones included, as a step relation.
  \<^item> \<open>Builders\<close>: the builders of clients and servers in both backends, their certificate verifiers and
    \<^verbatim>\<open>crypto.rs\<close>. \<open>Tls\<close>: their \<^verbatim>\<open>tls\<close> modules. The two crates have \<^verbatim>\<open>crypto.rs\<close> and \<^verbatim>\<open>tls\<close> word for word in
    common, so each has one model.
  \<^item> \<open>Wasm_Streams\<close>, \<open>Wasm_Session\<close>: \<^verbatim>\<open>error.rs\<close>, \<^verbatim>\<open>recv.rs\<close>, \<^verbatim>\<open>send.rs\<close>, and \<^verbatim>\<open>session.rs\<close>, \<^verbatim>\<open>client.rs\<close>
    of \<^verbatim>\<open>webtrans-wasm\<close>. Its streams are state machines over polls; the locale \<open>session_queue\<close> is the
    contract of a queue that clones of a session share.
  \<^item> \<open>Fuzz_Targets\<close>: \<^verbatim>\<open>fuzz/fuzz_targets\<close> and the entry points in \<^verbatim>\<open>webtrans-proto/src/lib.rs\<close>. \<open>Echo\<close>:
    \<^verbatim>\<open>webtrans/examples/echo-server.rs\<close> and \<^verbatim>\<open>echo-client.rs\<close>. \<open>Demo\<close>: \<^verbatim>\<open>webtrans-wasm-demo/src/lib.rs\<close>.

  \<^bold>\<open>How the code is read.\<close> Machine integers are words of their width, \<^verbatim>\<open>usize\<close> is a natural number of a
  64-bit machine with the conversions checked where the code checks them. A failing function returns
  \<open>res\<close>: a value, an error of the code's enum, or \<open>Panic\<close> for \<^verbatim>\<open>unwrap\<close>, \<^verbatim>\<open>assert!\<close> and \<^verbatim>\<open>unreachable!\<close>. A
  mutable buffer is the bytes left to read, or the bytes written. An asynchronous operation is the
  state change it makes when it completes. \<^verbatim>\<open>select!\<close>, \<^verbatim>\<open>try_join!\<close> and futures in flight become an
  argument that says which of them completes next, so every interleaving is covered. Where the code
  polls futures by hand, in the browser, a poll is the operation and cancellation is to stop polling.
  Quinn, Quion, tokio, url, http, rustls and the browser's objects are records of functions; the named laws (\<open>quinn_send_laws\<close>,
  \<open>quinn_connection_laws\<close>, \<open>mpsc_laws\<close>, \<open>url_laws\<close>, \<open>http_laws\<close> and others) say what the code relies on in
  them, and each is shown to hold of an instance.

  \<^bold>\<open>Bounds and fuel.\<close> Loops over input in memory terminate and are total functions. Loops over a stream
  that may never end take fuel and return an option; fuel above the number of bytes that the stream
  delivers is enough (\<open>settings_read_agrees\<close>, \<open>connect_read_agrees\<close>, \<open>capsule_reading_bounded\<close>,
  \<open>trait_reads_deliver\<close>, \<open>write_all_chunks_returns\<close>). \<open>run_closed\<close>, \<open>Server_accept\<close> and their Quion copies run along a list of the arms that
  \<^verbatim>\<open>select!\<close> takes, \<^const>\<open>None\<close> meaning that they are still waiting. \<open>await_poll\<close> takes as many polls as
  its fuel; over a writer that never waits, fuel above the length of the buffer is enough for a write
  (\<open>wasm_write_returns\<close>). \<open>poll_chunk\<close> makes sixteen rounds, as the code does.

  \<^bold>\<open>What is shown.\<close> Round trips of every codec, and exactly what each decoder accepts; that the
  asynchronous readers agree with the decoders in memory and are bounded; the safety of decoders on
  any input; that the default methods of the traits deliver all bytes, and that Quinn's streams
  satisfy the contracts; that every stream of a session is accepted exactly once and none blocks
  another; that the capsules read do not depend on framing; that what one side of a session sends the
  other side accepts; what becomes of a close request on both sides, and when it is lost; an invariant
  of the session's life;
  that a client and a server establish the same session; and which handshakes are
  admitted and which stay in flight. For the
  Quion backend: that its handshake and accepting machine refine Quinn's, that its errors report the
  same codes, that a reset stream can still be routed, that a session's end closes the connection
  and is remembered, that failed handshakes leave nothing open, and that the backends interoperate.
  For the browser: that no cancelled read or write loses, repeats or reorders a byte, when accepted
  bytes are lost, and that the queues of a session deliver every stream and datagram once. For the
  configuration: that pinned certificates are trusted and no others, and that saved pairs load.
  For the programs: that no fuzz target fails, that the echo client and server hand a message around
  unchanged and trust the certificate they are given, and what the demo pins. The life of a Quion
  session has an invariant, its end is final, and every close request leads to it.

  \<^bold>\<open>Not modelled.\<close> Formatting of errors, command lines and logging; methods that only forward to a
  library (the signature checks of the certificate verifiers, \<^verbatim>\<open>AsyncRead\<close> and \<^verbatim>\<open>AsyncWrite\<close> of the QUIC
  streams, \<^verbatim>\<open>local_addr\<close>); the re-exports of the crate \<^verbatim>\<open>webtrans\<close>; the scripted server of the browser
  test (\<^verbatim>\<open>interop\<close>), which makes calls that are modelled one after the other; tests and benches.
\<close>

end
